(* ===== verification/Prelude.thy ===== *)
theory Prelude imports Main begin

text \<open>
  Shared vocabulary of the development.

  \<^item> \<open>bindE\<close>, \<open>ensure\<close>, \<open>require\<close>: the early-return style of the Python services. A
    service method is a chain of awaited look-ups and \<open>if not ...: raise\<close> guards followed by
    one repository write; each is a value of \<open>error + 'a\<close>, \<open>Inl\<close> for the raised exception.
  \<^item> \<open>first_where\<close>, \<open>lookup\<close>, \<open>store\<close>, \<open>flush_update\<close>, \<open>flush_insert\<close>: a table of the
    database is the list of its rows in insertion order.
  \<^item> the locale \<open>scoped_table\<close>: the contract of every \<open>get_for_parent\<close> query.
  \<^item> the locale \<open>lifecycle\<close>: the contract of every status transition table.
  \<^item> the locale \<open>row_history\<close>: how the rows of a table may change from one state to the next.
  \<^item> \<open>patch\<close>: a field of a Pydantic update request (\<open>model_fields_set\<close>).
  \<^item> the whitespace and case operations of Python's \<open>str\<close> the code uses.
\<close>

type_synonym uuid = nat
type_synonym time = int

named_theorems effect_simps \<open>definitions of service and repository operations\<close>

section \<open>Exceptions\<close>

text \<open>
  The classes of \<open>app/core/exceptions.py\<close>, in the file's order. The last six are not classes of the
  repository: \<open>IntegrityError\<close>, \<open>StaleDataError\<close> and \<open>DataError\<close> are SQLAlchemy's (a constraint
  violated at commit, an UPDATE that matched no row, a text longer than its column), where the code
  does not catch them; \<open>BrokerError\<close> and \<open>StorageError\<close> are raised by the clients of the task queue and
  of the object storage; \<open>ValidationError\<close> is what Pydantic raises when a request schema rejects
  its input.
\<close>

datatype (plugins only: code size) error =
    EmailAlreadyRegisteredError | InvalidCredentialsError | InactiveAccountError
  | InvalidTokenError | EmailNotVerifiedError | InvalidActionTokenError
  | GoogleOAuthNotConfiguredError | GoogleOAuthStateInvalidError | GoogleOAuthProviderError
  | GoogleOAuthProfileInvalidError | GoogleOAuthAccountConflictError | WorkspaceNotFoundError
  | WorkspaceAccessDeniedError | WorkspaceMemberNotFoundError | WorkspaceMemberAlreadyExistsError
  | WorkspaceOwnerImmutableError | DecisionNotFoundError | DecisionAccessDeniedError
  | DecisionInvalidTransitionError | DecisionImmutableError | ProposalNotFoundError
  | ProposalAccessDeniedError | ProposalImmutableError | ProposalInvalidTransitionError
  | CriterionNotFoundError | CriterionAccessDeniedError | CriterionConflictError
  | ObjectionNotFoundError | ObjectionAccessDeniedError | ObjectionImmutableError
  | ObjectionInvalidTransitionError | VotingSessionNotFoundError | VotingAccessDeniedError
  | VotingConflictError | VotingBlockedByObjectionsError | VotingInvalidTransitionError
  | VotingClosedError | VoteAlreadyCastError | VotingResultUnavailableError
  | DecisionLockNotFoundError | DecisionLockAccessDeniedError | DecisionLockConflictError
  | DecisionLockInvalidResultError | ActionNotFoundError | ActionAccessDeniedError
  | ActionInvalidTransitionError | ActionAssigneeInvalidError | ReviewNotFoundError
  | ReviewAccessDeniedError | ReviewConflictError | ReviewInvalidScheduleError | ReviewNotDueError
  | ReviewOutcomeInvalidError | DecisionRevisionNotFoundError | CollaborationDocumentNotFoundError
  | CollaborationAccessDeniedError | NotificationNotFoundError | CommentNotFoundError
  | CommentAccessDeniedError | CommentContextInvalidError | MentionMemberInvalidError
  | MentionNotFoundError | MentionCursorInvalidError | AttachmentNotFoundError
  | AttachmentAccessDeniedError | AttachmentInvalidTargetError | AttachmentInvalidStateError
  | AttachmentTooLargeError | AttachmentValidationError | DecisionExportNotFoundError
  | DecisionExportAccessDeniedError | DecisionExportInvalidStateError | SearchAccessDeniedError
  | MeetingAccessDeniedError | MeetingRoomFullError | MeetingEventInvalidError
  | IntegrationNotFoundError | IntegrationAccessDeniedError | IntegrationProviderUnavailableError
  | IntegrationOAuthStateError | IntegrationProviderError | IntegrationConfigurationError
  | IntegrityError | StaleDataError | DataError | BrokerError | StorageError | ValidationError

section \<open>Raising and returning\<close>

definition bindE :: "'e + 'a \<Rightarrow> ('a \<Rightarrow> 'e + 'b) \<Rightarrow> 'e + 'b" where
  "bindE x f = (case x of Inl e \<Rightarrow> Inl e | Inr a \<Rightarrow> f a)"

definition ensure :: "bool \<Rightarrow> 'e \<Rightarrow> 'e + unit" where
  "ensure b e = (if b then Inr () else Inl e)"

definition require :: "'a option \<Rightarrow> 'e \<Rightarrow> 'e + 'a" where
  "require x e = (case x of None \<Rightarrow> Inl e | Some a \<Rightarrow> Inr a)"

lemma bindE_Inl [simp]: "bindE (Inl e) f = Inl e"
  by (simp add: bindE_def)

lemma bindE_Inr [simp]: "bindE (Inr a) f = f a"
  by (simp add: bindE_def)

lemma bindE_Inr_iff [simp]: "bindE x f = Inr y \<longleftrightarrow> (\<exists>a. x = Inr a \<and> f a = Inr y)"
  by (cases x) auto

lemma bindE_Inl_iff: "bindE x f = Inl e \<longleftrightarrow> x = Inl e \<or> (\<exists>a. x = Inr a \<and> f a = Inl e)"
  by (cases x) auto

lemma ensure_True [simp]: "ensure True e = Inr ()"
  by (simp add: ensure_def)

lemma ensure_False [simp]: "ensure False e = Inl e"
  by (simp add: ensure_def)

lemma ensure_Inr_iff [simp]: "ensure b e = Inr u \<longleftrightarrow> b"
  by (simp add: ensure_def)

lemma ensure_Inl_iff [simp]: "ensure b e = Inl e' \<longleftrightarrow> \<not> b \<and> e' = e"
  by (auto simp: ensure_def)

lemma require_Some [simp]: "require (Some a) e = Inr a"
  by (simp add: require_def)

lemma require_None [simp]: "require None e = Inl e"
  by (simp add: require_def)

lemma require_Inr_iff [simp]: "require x e = Inr a \<longleftrightarrow> x = Some a"
  by (auto simp: require_def split: option.splits)

lemma require_Inl_iff [simp]: "require x e = Inl e' \<longleftrightarrow> x = None \<and> e' = e"
  by (auto simp: require_def split: option.splits)

lemma bindE_cong [fundef_cong]:
  "x = y \<Longrightarrow> (\<And>a. y = Inr a \<Longrightarrow> f a = g a) \<Longrightarrow> bindE x f = bindE y g"
  by (cases y) auto

section \<open>Tables\<close>

fun first_where :: "('r \<Rightarrow> bool) \<Rightarrow> 'r list \<Rightarrow> 'r option" where
  "first_where P [] = None"
| "first_where P (r # rs) = (if P r then Some r else first_where P rs)"

definition lookup :: "('r \<Rightarrow> uuid) \<Rightarrow> uuid \<Rightarrow> 'r list \<Rightarrow> 'r option" where
  "lookup key i rs = first_where (\<lambda>r. key r = i) rs"

definition store :: "('r \<Rightarrow> uuid) \<Rightarrow> 'r \<Rightarrow> 'r list \<Rightarrow> 'r list" where
  "store key r' rs = map (\<lambda>r. if key r = key r' then r' else r) rs"

lemma first_where_SomeD: "first_where P rs = Some r \<Longrightarrow> r \<in> set rs \<and> P r"
  by (induction rs) (auto split: if_splits)

lemma first_where_None_iff: "first_where P rs = None \<longleftrightarrow> (\<forall>r \<in> set rs. \<not> P r)"
  by (induction rs) auto

lemma first_where_unique:
  "r \<in> set rs \<Longrightarrow> P r \<Longrightarrow> (\<And>x. x \<in> set rs \<Longrightarrow> P x \<Longrightarrow> x = r) \<Longrightarrow> first_where P rs = Some r"
proof -
  assume r: "r \<in> set rs" "P r" and only: "\<And>x. x \<in> set rs \<Longrightarrow> P x \<Longrightarrow> x = r"
  from r have "first_where P rs \<noteq> None" by (auto simp: first_where_None_iff)
  then obtain x where x: "first_where P rs = Some x" by blast
  then have "x = r" using only first_where_SomeD [OF x] by blast
  with x show ?thesis by simp
qed

lemma first_where_append:
  "first_where P (xs @ ys) = (case first_where P xs of None \<Rightarrow> first_where P ys | Some r \<Rightarrow> Some r)"
  by (induction xs) auto

lemma first_where_cong:
  "(\<And>r. r \<in> set rs \<Longrightarrow> P r = Q r) \<Longrightarrow> first_where P rs = first_where Q rs"
  by (induction rs) auto

lemma lookup_Nil [simp]: "lookup key i [] = None"
  by (simp add: lookup_def)

lemma lookup_Cons [simp]: "lookup key i (r # rs) = (if key r = i then Some r else lookup key i rs)"
  by (simp add: lookup_def)

lemma lookup_SomeD: "lookup key i rs = Some r \<Longrightarrow> r \<in> set rs \<and> key r = i"
  unfolding lookup_def by (drule first_where_SomeD)

lemma lookup_None_iff: "lookup key i rs = None \<longleftrightarrow> i \<notin> key ` set rs"
  by (auto simp: lookup_def first_where_None_iff)

lemma lookup_distinct:
  "distinct (map key rs) \<Longrightarrow> lookup key i rs = Some r \<longleftrightarrow> r \<in> set rs \<and> key r = i"
  by (induction rs) (auto dest: imageI [of _ _ key] split: if_splits)

lemma lookup_append:
  "lookup key i (xs @ ys) = (case lookup key i xs of None \<Rightarrow> lookup key i ys | Some r \<Rightarrow> Some r)"
  by (simp add: lookup_def first_where_append split: option.split)

lemma lookup_store:
  "lookup key i (store key r' rs)
     = (if i = key r' \<and> i \<in> key ` set rs then Some r' else lookup key i rs)"
  by (induction rs) (auto simp: store_def)

lemma keys_store [simp]: "map key (store key r' rs) = map key rs"
  by (simp add: store_def)

lemma length_store [simp]: "length (store key r' rs) = length rs"
  by (simp add: store_def)

lemma set_store:
  "set (store key r' rs)
     = {r \<in> set rs. key r \<noteq> key r'} \<union> (if key r' \<in> key ` set rs then {r'} else {})"
  by (auto simp: store_def image_iff)

lemma mem_storeD: "x \<in> set (store key r' rs) \<Longrightarrow> x = r' \<or> (x \<in> set rs \<and> key x \<noteq> key r')"
  by (auto simp: set_store split: if_splits)

lemma key_image_store [simp]: "key ` set (store key r' rs) = key ` set rs"
  by (metis keys_store list.set_map)

lemma map_store_same:
  "(\<And>r. r \<in> set rs \<Longrightarrow> key r = key r' \<Longrightarrow> f r = f r') \<Longrightarrow> map f (store key r' rs) = map f rs"
  by (auto simp: store_def)

lemma filter_store_other:
  "\<not> P r' \<Longrightarrow> (\<And>r. r \<in> set rs \<Longrightarrow> key r = key r' \<Longrightarrow> \<not> P r) \<Longrightarrow>
     filter P (store key r' rs) = filter P rs"
  by (induction rs) (auto simp: store_def)

lemma distinct_key_eq:
  "distinct (map key rs) \<Longrightarrow> r \<in> set rs \<Longrightarrow> r' \<in> set rs \<Longrightarrow> key r = key r' \<Longrightarrow> r = r'"
  by (auto simp: distinct_map dest: inj_onD)

lemma store_keeps:
  assumes "distinct (map key rs)" and "lookup key i rs = Some r" and "key r' = key r" and "f r' = f r"
    and "q \<in> set rs"
  shows "\<exists>q' \<in> set (store key r' rs). key q' = key q \<and> f q' = f q"
proof (cases "key q = key r'")
  case True
  then have "q = r" using assms lookup_SomeD [OF assms(2)] distinct_key_eq [OF assms(1,5)] by metis
  moreover have "key r' \<in> key ` set rs" using True assms(5) by (metis imageI)
  then have "r' \<in> set (store key r' rs)" by (simp add: set_store)
  ultimately show ?thesis using assms(3,4) by metis
next
  case False
  then show ?thesis using assms(5) by (intro bexI [of _ q]) (simp_all add: set_store)
qed

lemma distinct_pair_filter:
  "distinct (map (\<lambda>x. (f x, g x)) xs) \<Longrightarrow> distinct (map g (filter (\<lambda>x. f x = i) xs))"
  by (induction xs) (force simp: image_iff)+

section \<open>Flushing rows to a table\<close>

text \<open>
  An INSERT fails with \<open>IntegrityError\<close> when the primary key is taken or a CHECK or unique
  constraint (the predicate \<open>ok\<close>) rejects the row. An UPDATE is written against the row the
  database holds at that moment, which need not be the row the request loaded: \<open>f\<close> is the
  column assignment, and \<open>put_if_dirty\<close> writes a column only when the request changed it, as
  the unit of work does.
\<close>

definition put_if_dirty :: "'a \<Rightarrow> 'a \<Rightarrow> 'a \<Rightarrow> 'a" where
  "put_if_dirty loaded new current = (if new = loaded then current else new)"

definition flush_insert :: "('r \<Rightarrow> uuid) \<Rightarrow> ('r \<Rightarrow> bool) \<Rightarrow> 'r \<Rightarrow> 'r list \<Rightarrow> error + 'r list" where
  "flush_insert key ok r rs =
     (if key r \<in> key ` set rs \<or> \<not> ok r then Inl IntegrityError else Inr (rs @ [r]))"

definition flush_update ::
  "('r \<Rightarrow> uuid) \<Rightarrow> ('r \<Rightarrow> bool) \<Rightarrow> uuid \<Rightarrow> ('r \<Rightarrow> 'r) \<Rightarrow> 'r list \<Rightarrow> error + 'r \<times> 'r list" where
  "flush_update key ok i f rs =
     bindE (require (lookup key i rs) StaleDataError) (\<lambda>r.
     bindE (ensure (ok (f r)) IntegrityError) (\<lambda>_.
     Inr (f r, store key (f r) rs)))"

lemma put_if_dirty_self [simp]: "put_if_dirty x y x = y"
  by (simp add: put_if_dirty_def)

lemma put_if_dirty_clean [simp]: "put_if_dirty x x z = z"
  by (simp add: put_if_dirty_def)

lemma flush_insert_Inr_iff [simp]:
  "flush_insert key ok r rs = Inr rs' \<longleftrightarrow> key r \<notin> key ` set rs \<and> ok r \<and> rs' = rs @ [r]"
  by (auto simp: flush_insert_def)

lemma flush_insert_Inl_iff [simp]:
  "flush_insert key ok r rs = Inl e \<longleftrightarrow> (key r \<in> key ` set rs \<or> \<not> ok r) \<and> e = IntegrityError"
  by (auto simp: flush_insert_def)

lemma flush_update_Inr_iff [simp]:
  "flush_update key ok i f rs = Inr (r', rs') \<longleftrightarrow>
     (\<exists>r. lookup key i rs = Some r \<and> ok (f r) \<and> r' = f r \<and> rs' = store key (f r) rs)"
  by (auto simp: flush_update_def)

section \<open>Queries scoped to a parent\<close>

text \<open>
  \<open>get_for_workspace\<close>, \<open>get_for_decision\<close>, \<open>get_for_proposal\<close>, ... all select one row by its
  id and the id of its parent. What the services rely on is stated once here; each repository
  interprets it.
\<close>

locale scoped_table =
  fixes key :: "'r \<Rightarrow> uuid"
    and parent :: "'r \<Rightarrow> uuid"
    and get :: "uuid \<Rightarrow> uuid \<Rightarrow> 'r list \<Rightarrow> 'r option"
  assumes get_Some: "get p i rs = Some r \<Longrightarrow> r \<in> set rs \<and> key r = i \<and> parent r = p"
    and get_None: "get p i rs = None \<Longrightarrow> r \<in> set rs \<Longrightarrow> \<not> (key r = i \<and> parent r = p)"
begin

lemma get_iff:
  "distinct (map key rs) \<Longrightarrow> get p i rs = Some r \<longleftrightarrow> r \<in> set rs \<and> key r = i \<and> parent r = p"
proof
  assume "get p i rs = Some r"
  then show "r \<in> set rs \<and> key r = i \<and> parent r = p" by (rule get_Some)
next
  assume d: "distinct (map key rs)" and r: "r \<in> set rs \<and> key r = i \<and> parent r = p"
  then obtain x where x: "get p i rs = Some x" using get_None [of p i rs r] by (cases "get p i rs") auto
  with d r have "x = r" using distinct_key_eq [of key rs x r] get_Some [OF x] by simp
  with x show "get p i rs = Some r" by simp
qed

lemma get_lookup: "distinct (map key rs) \<Longrightarrow> get p i rs = Some r \<Longrightarrow> lookup key i rs = Some r"
  by (simp add: get_iff lookup_distinct)

lemma get_other_parent:
  "distinct (map key rs) \<Longrightarrow> r \<in> set rs \<Longrightarrow> parent r \<noteq> p \<Longrightarrow> get p (key r) rs = None"
  by (metis distinct_key_eq get_Some not_Some_eq)

lemma get_store_same:
  "distinct (map key rs) \<Longrightarrow> i \<in> key ` set rs \<Longrightarrow> key r' = i \<Longrightarrow> parent r' = p \<Longrightarrow>
     get p i (store key r' rs) = Some r'"
  by (subst get_iff) (auto simp: set_store)

lemma get_store_other:
  assumes d: "distinct (map key rs)" and k: "key r' \<noteq> i"
  shows "get p i (store key r' rs) = get p i rs"
proof -
  have "get p i (store key r' rs) = Some x \<longleftrightarrow> get p i rs = Some x" for x
    using d k by (auto simp: get_iff set_store)
  then show ?thesis by (metis not_Some_eq)
qed

end

section \<open>Status life cycles\<close>

text \<open>
  Decisions, proposals, objections and implementation actions each carry a table of allowed
  transitions. \<open>final\<close> names the states the documentation calls terminal.
\<close>

locale lifecycle =
  fixes allowed :: "'s \<Rightarrow> 's set"
    and final :: "'s \<Rightarrow> bool"
  assumes final_iff: "final s \<longleftrightarrow> allowed s = {}"
    and no_self: "s \<notin> allowed s"
begin

lemma final_step: "final s \<Longrightarrow> t \<notin> allowed s"
  by (simp add: final_iff)

lemma final_stays: "(\<lambda>s t. t \<in> allowed s)\<^sup>*\<^sup>* s t \<Longrightarrow> final s \<Longrightarrow> t = s"
  by (induction rule: converse_rtranclp_induct) (auto simp: final_iff)

lemma step_changes: "t \<in> allowed s \<Longrightarrow> t \<noteq> s"
  using no_self by blast

lemma not_final_progress: "\<not> final s \<Longrightarrow> \<exists>t. t \<in> allowed s"
  by (auto simp: final_iff)

end

section \<open>The history of a row\<close>

text \<open>
  \<open>follows key may_drop evolves rs rs'\<close>: every row of \<open>rs\<close> is still in \<open>rs'\<close> and \<open>evolves\<close>
  relates the two versions, or it is gone and \<open>may_drop\<close> allowed that. A component chooses the
  two relations; the locale gives what an insertion, an update and a deletion have to show.
\<close>

definition follows ::
  "('r \<Rightarrow> uuid) \<Rightarrow> ('r \<Rightarrow> bool) \<Rightarrow> ('r \<Rightarrow> 'r \<Rightarrow> bool) \<Rightarrow> 'r list \<Rightarrow> 'r list \<Rightarrow> bool" where
  "follows key may_drop evolves rs rs' \<longleftrightarrow>
     (\<forall>r \<in> set rs. case lookup key (key r) rs' of None \<Rightarrow> may_drop r | Some r' \<Rightarrow> evolves r r')"

locale row_history =
  fixes key :: "'r \<Rightarrow> uuid"
    and may_drop :: "'r \<Rightarrow> bool"
    and evolves :: "'r \<Rightarrow> 'r \<Rightarrow> bool"
  assumes evolves_refl: "evolves r r"
    and evolves_key: "evolves r r' \<Longrightarrow> key r' = key r"
begin

lemma refl: "distinct (map key rs) \<Longrightarrow> follows key may_drop evolves rs rs"
proof -
  assume "distinct (map key rs)"
  then have "lookup key (key r) rs = Some r" if "r \<in> set rs" for r using that by (simp add: lookup_distinct)
  then show ?thesis by (simp add: follows_def evolves_refl)
qed

lemma append: "distinct (map key rs) \<Longrightarrow> follows key may_drop evolves rs (rs @ rs')"
proof -
  assume "distinct (map key rs)"
  then have "lookup key (key r) rs = Some r" if "r \<in> set rs" for r using that by (simp add: lookup_distinct)
  then show ?thesis by (simp add: follows_def lookup_append evolves_refl)
qed

lemma store:
  assumes d: "distinct (map key rs)" and r: "lookup key i rs = Some r" and ev: "evolves r r'"
  shows "follows key may_drop evolves rs (store key r' rs)"
proof -
  have x: "lookup key (key x) rs = Some x" if "x \<in> set rs" for x using d that by (simp add: lookup_distinct)
  have "x = r" if "x \<in> set rs" "key x = key r'" for x
    using that evolves_key [OF ev] lookup_SomeD [OF r] distinct_key_eq [OF d] by metis
  then show ?thesis using x ev by (auto simp: follows_def lookup_store evolves_refl)
qed

lemma filter:
  assumes d: "distinct (map key rs)" and drop: "\<And>r. r \<in> set rs \<Longrightarrow> \<not> P r \<Longrightarrow> may_drop r"
  shows "follows key may_drop evolves rs (filter P rs)"
proof -
  have "case lookup key (key r) (filter P rs) of None \<Rightarrow> may_drop r | Some r' \<Rightarrow> evolves r r'"
    if r: "r \<in> set rs" for r
  proof (cases "P r")
    case True
    then have "lookup key (key r) (filter P rs) = Some r"
      using d r by (simp add: lookup_distinct distinct_map_filter)
    then show ?thesis by (simp add: evolves_refl)
  next
    case False
    have "lookup key (key r) (filter P rs) = None"
      using False r by (auto simp: lookup_None_iff dest: distinct_key_eq [OF d])
    then show ?thesis using drop [OF r False] by simp
  qed
  then show ?thesis by (simp add: follows_def)
qed

lemma stays:
  assumes "follows key may_drop evolves rs rs'" and "r \<in> set rs" and "\<not> may_drop r"
  obtains r' where "lookup key (key r) rs' = Some r'" and "evolves r r'"
  using assms unfolding follows_def by (cases "lookup key (key r) rs'") fastforce+

end

section \<open>Fields of an update request\<close>

text \<open>
  A field of a Pydantic update model is absent from \<open>model_fields_set\<close>, or present with a value
  that may be \<open>None\<close>. \<open>patch_required\<close> is the services' \<open>if "f" in fields and payload.f is not
  None\<close>, \<open>patch_nullable\<close> their \<open>if "f" in fields\<close>.
\<close>

datatype 'a patch = Absent | Present "'a option"

fun patch_required :: "'a patch \<Rightarrow> 'a \<Rightarrow> 'a" where
  "patch_required (Present (Some v)) old = v"
| "patch_required _ old = old"

fun patch_nullable :: "'a patch \<Rightarrow> 'a option \<Rightarrow> 'a option" where
  "patch_nullable (Present v) old = v"
| "patch_nullable Absent old = old"

text \<open>\<open>payload.f\<close> and \<open>"f" in payload.model_fields_set\<close>.\<close>

fun patch_value :: "'a patch \<Rightarrow> 'a option" where
  "patch_value (Present v) = v"
| "patch_value Absent = None"

fun provided :: "'a patch \<Rightarrow> bool" where
  "provided (Present v) = True"
| "provided Absent = False"

section \<open>The environment of a request\<close>

text \<open>
  What a request reads besides its arguments and the database: the application clock
  (\<open>datetime.now(UTC)\<close>), the clock of its transaction (\<open>func.now()\<close>), the values \<open>uuid4()\<close>
  draws, in the order of the draws, whether an \<open>IntegrationEventEmitter\<close> was injected, the
  digest function of \<open>hashlib\<close> (a parameter: nothing but its output length is ever assumed), and
  which of two INSERTs the unit of work of SQLAlchemy emits first when no \<open>relationship()\<close> orders
  the two classes: \<open>revision_first\<close> is the order by class name (also a parameter).
  Times are microseconds since the epoch, in UTC.
\<close>

record env =
  now :: time
  db_now :: time
  fresh :: "nat \<Rightarrow> uuid"
  emitter :: bool
  sha256_hex :: "string \<Rightarrow> string"
  revision_first :: bool

end
