(* ===== verification/Py_Text.thy ===== *)
theory Py_Text imports Prelude "HOL-Library.Char_ord" "HOL-Library.List_Lexorder" begin

text \<open>
  The text operations of Python that the code relies on: \<open>str.lower\<close>, \<open>str.split\<close>,
  \<open>str.strip\<close> and \<open>" ".join\<close> (the request normalisers), \<open>str(uuid)\<close>,
  \<open>datetime.isoformat\<close> and \<open>json.dumps\<close> (snapshots and event payloads).

  A Python \<open>str\<close> is a list of characters; the characters modelled are the code points below
  256 (\<open>char\<close>), for which case mapping and \<open>isspace\<close> are written out.
\<close>

section \<open>Case and whitespace\<close>

definition lower_char :: "char \<Rightarrow> char" where
  "lower_char c =
     (let n = of_char c :: nat in
      if (65 \<le> n \<and> n \<le> 90) \<or> (192 \<le> n \<and> n \<le> 222 \<and> n \<noteq> 215) then char_of (n + 32) else c)"

definition lower :: "string \<Rightarrow> string" where
  "lower s = map lower_char s"

definition is_space :: "char \<Rightarrow> bool" where
  "is_space c =
     (let n = of_char c :: nat in
      (9 \<le> n \<and> n \<le> 13) \<or> (28 \<le> n \<and> n \<le> 32) \<or> n = 133 \<or> n = 160)"

fun split_words :: "string \<Rightarrow> string \<Rightarrow> string list" where
  "split_words w [] = (if w = [] then [] else [w])"
| "split_words w (c # cs) =
     (if is_space c then (if w = [] then split_words [] cs else w # split_words [] cs)
      else split_words (w @ [c]) cs)"

definition py_split :: "string \<Rightarrow> string list" where
  "py_split s = split_words [] s"

fun join_space :: "string list \<Rightarrow> string" where
  "join_space [] = []"
| "join_space [w] = w"
| "join_space (w # v # ws) = w @ CHR '' '' # join_space (v # ws)"

definition py_strip :: "string \<Rightarrow> string" where
  "py_strip s = rev (dropWhile is_space (rev (dropWhile is_space s)))"

lemma lower_char_idem: "lower_char (lower_char c) = lower_char c"
proof (cases "lower_char c = c")
  case False
  then have "lower_char c = char_of ((of_char c :: nat) + 32)"
    and "65 \<le> (of_char c :: nat) \<and> of_char c \<le> (90 :: nat) \<or>
      192 \<le> (of_char c :: nat) \<and> of_char c \<le> (222 :: nat) \<and> of_char c \<noteq> (215 :: nat)"
    by (auto simp: lower_char_def Let_def split: if_splits)
  then show ?thesis by (auto simp: lower_char_def [of "char_of _"] Let_def)
qed simp

lemma lower_idem [simp]: "lower (lower s) = lower s"
  by (simp add: lower_def lower_char_idem)

definition words_ok :: "string list \<Rightarrow> bool" where
  "words_ok ws \<longleftrightarrow> (\<forall>w \<in> set ws. w \<noteq> [] \<and> (\<forall>c \<in> set w. \<not> is_space c))"

lemma is_space_blank [simp]: "is_space CHR '' ''"
  by (simp add: is_space_def)

lemma split_words_ok: "\<forall>c \<in> set w. \<not> is_space c \<Longrightarrow> words_ok (split_words w s)"
proof (induction w s rule: split_words.induct)
  case (1 w)
  then show ?case by (simp add: words_ok_def)
next
  case (2 w c cs)
  then show ?case by (cases "is_space c"; cases "w = []") (simp_all add: words_ok_def)
qed

lemma split_words_run:
  "\<forall>c \<in> set v. \<not> is_space c \<Longrightarrow> split_words w (v @ s) = split_words (w @ v) s"
  by (induction v arbitrary: w) auto

lemma split_words_join: "words_ok ws \<Longrightarrow> split_words [] (join_space ws) = ws"
proof (induction ws rule: join_space.induct)
  case (2 w)
  then show ?case using split_words_run [of w "[]" "[]"] by (simp add: words_ok_def)
next
  case (3 w v ws)
  then show ?case
    using split_words_run [of w "[]" "CHR '' '' # join_space (v # ws)"] by (simp add: words_ok_def)
qed simp

lemma py_split_join: "words_ok ws \<Longrightarrow> py_split (join_space ws) = ws"
  by (simp add: py_split_def split_words_join)

lemma words_ok_py_split: "words_ok (py_split s)"
  by (simp add: py_split_def split_words_ok)

lemma length_join_split: "length (join_space (split_words w s)) \<le> length w + length s"
proof (induction w s rule: split_words.induct)
  case (2 w c cs)
  have cons: "length (join_space (w # us)) \<le> length w + Suc (length (join_space us))" for us
    by (cases us) auto
  show ?case using 2 cons [of "split_words [] cs"] by (auto intro: le_trans)
qed auto

lemma dropWhile_idem [simp]: "dropWhile P (dropWhile P xs) = dropWhile P xs"
  by (induction xs) auto

lemma hd_dropWhile_rev:
  "xs = [] \<or> \<not> P (hd xs) \<Longrightarrow> rev (dropWhile P (rev xs)) = [] \<or> \<not> P (hd (rev (dropWhile P (rev xs))))"
proof (cases xs)
  case (Cons x ys)
  assume "xs = [] \<or> \<not> P (hd xs)"
  with Cons have "\<not> P x" by simp
  then show ?thesis using Cons
    by (cases "\<exists>z \<in> set ys. \<not> P z") (auto simp: dropWhile_append dropWhile_eq_Nil_conv)
qed simp

lemma dropWhile_id: "xs = [] \<or> \<not> P (hd xs) \<Longrightarrow> dropWhile P xs = xs"
  by (cases xs) auto

lemma py_strip_idem [simp]: "py_strip (py_strip s) = py_strip s"
proof -
  let ?d = "dropWhile is_space s"
  have "?d = [] \<or> \<not> is_space (hd ?d)" using hd_dropWhile [of is_space s] by auto
  then have "py_strip s = [] \<or> \<not> is_space (hd (py_strip s))"
    unfolding py_strip_def by (rule hd_dropWhile_rev)
  then have "dropWhile is_space (py_strip s) = py_strip s" by (rule dropWhile_id)
  then show ?thesis by (simp add: py_strip_def)
qed

section \<open>Rendering identifiers, numbers and times\<close>

definition hex_digit :: "nat \<Rightarrow> char" where
  "hex_digit n = ''0123456789abcdef'' ! (n mod 16)"

fun hex_digits :: "nat \<Rightarrow> nat \<Rightarrow> string" where
  "hex_digits 0 n = []"
| "hex_digits (Suc k) n = hex_digits k (n div 16) @ [hex_digit n]"

definition uuid_str :: "uuid \<Rightarrow> string" where
  "uuid_str u =
     (let h = hex_digits 32 u in
      take 8 h @ ''-'' @ take 4 (drop 8 h) @ ''-'' @ take 4 (drop 12 h) @ ''-'' @
      take 4 (drop 16 h) @ ''-'' @ drop 20 h)"

function nat_str :: "nat \<Rightarrow> string" where
  "nat_str n = (if n < 10 then [hex_digit n] else nat_str (n div 10) @ [hex_digit (n mod 10)])"
  by pat_completeness auto
termination
  by (relation "measure id") auto

declare nat_str.simps [simp del]

definition int_str :: "int \<Rightarrow> string" where
  "int_str i = (if i < 0 then CHR ''-'' # nat_str (nat (- i)) else nat_str (nat i))"

fun pad0 :: "nat \<Rightarrow> string \<Rightarrow> string" where
  "pad0 k s = replicate (k - length s) CHR ''0'' @ s"

text \<open>\<open>repr\<close> of the float that \<open>round(x, 2)\<close> returns, given in hundredths.\<close>

definition hundredths_str :: "int \<Rightarrow> string" where
  "hundredths_str h =
     (let a = nat \<bar>h\<bar>; f = a mod 100 in
      (if h < 0 then ''-'' else []) @ nat_str (a div 100) @ ''.'' @
      (if f mod 10 = 0 then nat_str (f div 10) else pad0 2 (nat_str f)))"

text \<open>
  The proleptic Gregorian date of a day number counted from 1970-01-01, and
  \<open>datetime.isoformat\<close> of an aware UTC datetime.
\<close>

definition civil_from_days :: "int \<Rightarrow> int \<times> int \<times> int" where
  "civil_from_days days =
     (let z = days + 719468;
          era = z div 146097;
          doe = z mod 146097;
          yoe = (doe - doe div 1460 + doe div 36524 - doe div 146096) div 365;
          doy = doe - (365 * yoe + yoe div 4 - yoe div 100);
          mp = (5 * doy + 2) div 153;
          d = doy - (153 * mp + 2) div 5 + 1;
          m = (if mp < 10 then mp + 3 else mp - 9)
      in (yoe + era * 400 + (if m \<le> 2 then 1 else 0), m, d))"

definition isoformat :: "time \<Rightarrow> string" where
  "isoformat t =
     (let us = t mod 1000000; secs = t div 1000000;
          sod = secs mod 86400;
          (y, m, d) = civil_from_days (secs div 86400);
          two = (\<lambda>i. pad0 2 (int_str i))
      in pad0 4 (int_str y) @ ''-'' @ two m @ ''-'' @ two d @ ''T'' @
         two (sod div 3600) @ '':'' @ two (sod div 60 mod 60) @ '':'' @ two (sod mod 60) @
         (if us = 0 then [] else ''.'' @ pad0 6 (int_str us)) @ ''+00:00'')"

lemma isoformat_epoch: "isoformat 0 = ''1970-01-01T00:00:00+00:00''"
  by code_simp

lemma isoformat_leap_day: "isoformat 1709210096000007 = ''2024-02-29T12:34:56.000007+00:00''"
  by code_simp

section \<open>JSON values\<close>

text \<open>\<open>JHundredths\<close> is a float produced by \<open>round(x, 2)\<close>, the only floats the snapshots hold.\<close>

datatype json =
    JNull
  | JBool bool
  | JInt int
  | JHundredths int
  | JStr string
  | JList "json list"
  | JObj "(string \<times> json) list"

definition jopt :: "('a \<Rightarrow> json) \<Rightarrow> 'a option \<Rightarrow> json" where
  "jopt f x = (case x of None \<Rightarrow> JNull | Some a \<Rightarrow> f a)"

definition escape_char :: "char \<Rightarrow> string" where
  "escape_char c =
     (let n = of_char c :: nat; esc = (\<lambda>x. [CHR 0x5C, x]) in
      if n = 34 then esc (CHR 0x22)
      else if n = 92 then esc (CHR 0x5C)
      else if n = 10 then esc (CHR ''n'')
      else if n = 13 then esc (CHR ''r'')
      else if n = 9 then esc (CHR ''t'')
      else if n = 12 then esc (CHR ''f'')
      else if n = 8 then esc (CHR ''b'')
      else if n < 32 \<or> 126 < n then esc (CHR ''u'') @ hex_digits 4 n
      else [c])"

definition json_quote :: "string \<Rightarrow> string" where
  "json_quote s = CHR 0x22 # concat (map escape_char s) @ [CHR 0x22]"

fun join_comma :: "string list \<Rightarrow> string" where
  "join_comma [] = []"
| "join_comma [w] = w"
| "join_comma (w # v # ws) = w @ CHR '','' # join_comma (v # ws)"

text \<open>\<open>json.dumps(value, sort_keys=True, separators=(",", ":"), ensure_ascii=True)\<close>\<close>

primrec dumps :: "json \<Rightarrow> string" where
  "dumps JNull = ''null''"
| "dumps (JBool b) = (if b then ''true'' else ''false'')"
| "dumps (JInt i) = int_str i"
| "dumps (JHundredths h) = hundredths_str h"
| "dumps (JStr s) = json_quote s"
| "dumps (JList js) = ''['' @ join_comma (map dumps js) @ '']''"
| "dumps (JObj kvs) =
     ''{'' @ join_comma (map (\<lambda>(k, v). json_quote k @ '':'' @ v)
       (sort_key fst (map (map_prod id dumps) kvs))) @ ''}''"

text \<open>A value with the keys of every object in ascending order.\<close>

primrec canon :: "json \<Rightarrow> json" where
  "canon JNull = JNull"
| "canon (JBool b) = JBool b"
| "canon (JInt i) = JInt i"
| "canon (JHundredths h) = JHundredths h"
| "canon (JStr s) = JStr s"
| "canon (JList js) = JList (map canon js)"
| "canon (JObj kvs) = JObj (sort_key fst (map (map_prod id canon) kvs))"

lemma insort_key_map_fst:
  "(\<And>x. fst (g x) = fst x) \<Longrightarrow> map g (insort_key fst x xs) = insort_key fst (g x) (map g xs)"
  by (induction xs) auto

lemma sort_key_map_fst:
  assumes "\<And>x. fst (g x) = fst x"
  shows "sort_key fst (map g xs) = map g (sort_key fst xs)"
  by (induction xs) (simp_all add: insort_key_map_fst [OF assms])

lemma sort_key_fst_twice: "sort_key fst (sort_key fst xs) = sort_key fst (xs :: (string \<times> 'v) list)"
  by (rule sort_key_id_if_sorted) simp

lemma dumps_canon: "dumps (canon j) = dumps j"
proof (induction j)
  case (JObj kvs)
  let ?c = "map_prod id canon" and ?d = "map_prod id dumps"
  have same: "map ?d (map ?c kvs) = map ?d kvs" using JObj by (auto simp: snds.simps)
  have "sort_key fst (map ?d (sort_key fst (map ?c kvs))) = map ?d (sort_key fst (map ?c kvs))"
    by (subst sort_key_map_fst) (simp_all add: sort_key_fst_twice)
  also have "\<dots> = sort_key fst (map ?d kvs)"
    by (subst sort_key_map_fst [symmetric]) (simp_all only: same fst_map_prod id_apply)
  finally show ?case by (simp only: canon.simps dumps.simps)
qed (auto cong: map_cong simp: comp_def)

lemma dumps_cong: "canon j = canon j' \<Longrightarrow> dumps j = dumps j'"
  by (metis dumps_canon)

end
