(* ===== verification/Data_Model.thy ===== *)
theory Data_Model imports Py_Text begin

text \<open>
  The tables of \<open>app/models\<close> that the modelled components read and write: an enum is a
  \<open>datatype\<close>, a mapped class a \<open>record\<close> with the class's columns in their order (prefixed by the
  table's letter), a CHECK constraint or a unique index a predicate with the constraint's name.
  A table is the list of its rows in insertion order, and \<open>db\<close> holds all of them, with the
  ids handed to the Celery broker since the start.
\<close>

section \<open>Users and workspaces\<close>

record user =
  u_id :: uuid
  u_email :: string
  u_password_hash :: string
  u_display_name :: string
  u_avatar_url :: "string option"
  u_is_active :: bool
  u_is_email_verified :: bool
  u_auth_version :: int
  u_created_at :: time
  u_updated_at :: time

datatype workspace_role = OWNER | ADMIN | MEMBER | VIEWER

record workspace =
  w_id :: uuid
  w_name :: string
  w_description :: "string option"
  w_owner_id :: uuid
  w_created_at :: time
  w_updated_at :: time

record workspace_member =
  m_id :: uuid
  m_workspace_id :: uuid
  m_user_id :: uuid
  m_role :: workspace_role
  m_joined_at :: time

text \<open>\<open>uq_workspace_members_workspace_user\<close>, for a row about to be inserted.\<close>

definition uq_workspace_members :: "workspace_member list \<Rightarrow> workspace_member \<Rightarrow> bool" where
  "uq_workspace_members ms m \<longleftrightarrow>
     (m_workspace_id m, m_user_id m) \<notin> (\<lambda>x. (m_workspace_id x, m_user_id x)) ` set ms"

section \<open>Decisions and their locks\<close>

datatype decision_category = TECHNOLOGY | ARCHITECTURE | DELIVERY | TEAM_PROCESS | OTHER

datatype decision_status = D_DRAFT | D_ACTIVE | D_CLOSED | D_LOCKED | D_ARCHIVED

record decision =
  d_id :: uuid
  d_workspace_id :: uuid
  d_created_by_id :: uuid
  d_title :: string
  d_summary :: "string option"
  d_category :: decision_category
  d_status :: decision_status
  d_due_at :: "time option"
  d_review_at :: "time option"
  d_closed_at :: "time option"
  d_archived_at :: "time option"
  d_locked_at :: "time option"
  d_created_at :: time
  d_updated_at :: time

definition ck_decisions_locked_state :: "decision \<Rightarrow> bool" where
  "ck_decisions_locked_state d \<longleftrightarrow>
     (d_status d = D_LOCKED \<and> d_locked_at d \<noteq> None) \<or>
     (d_status d \<noteq> D_LOCKED \<and> d_locked_at d = None)"

record decision_lock =
  l_id :: uuid
  l_decision_id :: uuid
  l_voting_session_id :: uuid
  l_winning_proposal_id :: uuid
  l_locked_by_id :: uuid
  l_snapshot_version :: int
  l_snapshot :: json
  l_document_hash :: string
  l_locked_at :: time

text \<open>The two unique constraints and the two CHECK constraints of \<open>decision_locks\<close>.\<close>

definition ck_decision_locks :: "decision_lock list \<Rightarrow> decision_lock \<Rightarrow> bool" where
  "ck_decision_locks ls l \<longleftrightarrow>
     l_decision_id l \<notin> l_decision_id ` set ls \<and>
     l_voting_session_id l \<notin> l_voting_session_id ` set ls \<and>
     1 \<le> l_snapshot_version l \<and>
     length (l_document_hash l) = 64"

section \<open>Proposals, criteria and scores\<close>

datatype proposal_status = P_DRAFT | P_SUBMITTED | P_WITHDRAWN

record proposal =
  p_id :: uuid
  p_decision_id :: uuid
  p_created_by_id :: uuid
  p_title :: string
  p_summary :: "string option"
  p_content :: "string option"
  p_status :: proposal_status
  p_submitted_at :: "time option"
  p_withdrawn_at :: "time option"
  p_created_at :: time
  p_updated_at :: time

record decision_criterion =
  c_id :: uuid
  c_decision_id :: uuid
  c_created_by_id :: uuid
  c_name :: string
  c_description :: "string option"
  c_weight :: int
  c_position :: int
  c_created_at :: time
  c_updated_at :: time

definition ck_decision_criteria :: "decision_criterion \<Rightarrow> bool" where
  "ck_decision_criteria c \<longleftrightarrow> 1 \<le> c_weight c \<and> c_weight c \<le> 100 \<and> 0 \<le> c_position c"

text \<open>The deferred unique constraint on (decision, position), over the whole table.\<close>

definition uq_criteria_position :: "decision_criterion list \<Rightarrow> bool" where
  "uq_criteria_position cs \<longleftrightarrow> distinct (map (\<lambda>c. (c_decision_id c, c_position c)) cs)"

record proposal_score =
  s_id :: uuid
  s_proposal_id :: uuid
  s_criterion_id :: uuid
  s_scored_by_id :: uuid
  s_score :: int
  s_rationale :: "string option"
  s_created_at :: time
  s_updated_at :: time

definition ck_proposal_scores :: "proposal_score \<Rightarrow> bool" where
  "ck_proposal_scores s \<longleftrightarrow> 1 \<le> s_score s \<and> s_score s \<le> 5"

definition uq_proposal_scores :: "proposal_score list \<Rightarrow> proposal_score \<Rightarrow> bool" where
  "uq_proposal_scores ss s \<longleftrightarrow>
     (s_proposal_id s, s_criterion_id s) \<notin> (\<lambda>x. (s_proposal_id x, s_criterion_id x)) ` set ss"

section \<open>Objections\<close>

datatype objection_severity = INFORMATIONAL | MAJOR | BLOCKING

datatype objection_status = O_OPEN | O_RESOLVED | O_DISMISSED

record objection =
  o_id :: uuid
  o_proposal_id :: uuid
  o_created_by_id :: uuid
  o_severity :: objection_severity
  o_status :: objection_status
  o_title :: string
  o_description :: string
  o_resolution_note :: "string option"
  o_resolved_by_id :: "uuid option"
  o_resolved_at :: "time option"
  o_created_at :: time
  o_updated_at :: time

definition ck_objections_resolution_state :: "objection \<Rightarrow> bool" where
  "ck_objections_resolution_state x \<longleftrightarrow>
     (o_status x = O_OPEN \<and> o_resolution_note x = None \<and> o_resolved_by_id x = None \<and>
        o_resolved_at x = None) \<or>
     (o_status x \<in> {O_RESOLVED, O_DISMISSED} \<and> o_resolution_note x \<noteq> None \<and>
        o_resolved_by_id x \<noteq> None \<and> o_resolved_at x \<noteq> None)"

record objection_status_event =
  oe_id :: uuid
  oe_objection_id :: uuid
  oe_actor_id :: uuid
  oe_from_status :: objection_status
  oe_to_status :: objection_status
  oe_note :: string
  oe_created_at :: time

section \<open>Voting\<close>

datatype voting_session_status = V_DRAFT | V_OPEN | V_CLOSED | V_CANCELLED

record voting_session =
  v_id :: uuid
  v_decision_id :: uuid
  v_created_by_id :: uuid
  v_status :: voting_session_status
  v_quorum_percentage :: int
  v_eligible_voter_count :: int
  v_opened_at :: "time option"
  v_closes_at :: "time option"
  v_closed_at :: "time option"
  v_cancelled_at :: "time option"
  v_created_at :: time
  v_updated_at :: time

definition ck_voting_sessions :: "voting_session \<Rightarrow> bool" where
  "ck_voting_sessions v \<longleftrightarrow>
     1 \<le> v_quorum_percentage v \<and> v_quorum_percentage v \<le> 100 \<and>
     0 \<le> v_eligible_voter_count v \<and>
     ((v_status v = V_DRAFT \<and> v_opened_at v = None \<and> v_closed_at v = None \<and> v_cancelled_at v = None) \<or>
      (v_status v = V_OPEN \<and> v_opened_at v \<noteq> None \<and> v_closed_at v = None \<and> v_cancelled_at v = None) \<or>
      (v_status v = V_CLOSED \<and> v_opened_at v \<noteq> None \<and> v_closed_at v \<noteq> None \<and> v_cancelled_at v = None) \<or>
      (v_status v = V_CANCELLED \<and> v_closed_at v = None \<and> v_cancelled_at v \<noteq> None))"

definition unfinished :: "voting_session \<Rightarrow> bool" where
  "unfinished v \<longleftrightarrow> v_status v \<in> {V_DRAFT, V_OPEN}"

text \<open>\<open>uq_voting_sessions_one_unfinished_per_decision\<close>, a partial unique index, over the table.\<close>

definition uq_one_unfinished :: "voting_session list \<Rightarrow> bool" where
  "uq_one_unfinished vs \<longleftrightarrow> distinct (map v_decision_id (filter unfinished vs))"

record voting_eligible_voter =
  ev_id :: uuid
  ev_voting_session_id :: uuid
  ev_user_id :: uuid
  ev_created_at :: time

record voting_session_proposal =
  sp_id :: uuid
  sp_voting_session_id :: uuid
  sp_proposal_id :: uuid
  sp_created_at :: time

record vote =
  b_id :: uuid
  b_voting_session_id :: uuid
  b_voter_id :: uuid
  b_proposal_id :: uuid
  b_created_at :: time

text \<open>The three unique constraints of the snapshot and ballot tables, over the whole tables.\<close>

definition uq_eligible_voters :: "voting_eligible_voter list \<Rightarrow> bool" where
  "uq_eligible_voters es \<longleftrightarrow> distinct (map (\<lambda>e. (ev_voting_session_id e, ev_user_id e)) es)"

definition uq_session_proposals :: "voting_session_proposal list \<Rightarrow> bool" where
  "uq_session_proposals ps \<longleftrightarrow> distinct (map (\<lambda>p. (sp_voting_session_id p, sp_proposal_id p)) ps)"

definition uq_votes :: "vote list \<Rightarrow> bool" where
  "uq_votes bs \<longleftrightarrow> distinct (map (\<lambda>b. (b_voting_session_id b, b_voter_id b)) bs)"

section \<open>Implementation actions, reviews and revisions\<close>

datatype action_status = A_TODO | A_IN_PROGRESS | A_BLOCKED | A_COMPLETED | A_CANCELLED

datatype review_status = R_SCHEDULED | R_COMPLETED | R_CANCELLED

datatype review_outcome = CONFIRMED | REOPENED | SUPERSEDED

record implementation_action =
  a_id :: uuid
  a_decision_id :: uuid
  a_created_by_id :: uuid
  a_assignee_id :: uuid
  a_title :: string
  a_description :: "string option"
  a_status :: action_status
  a_due_at :: "time option"
  a_completed_at :: "time option"
  a_cancelled_at :: "time option"
  a_created_at :: time
  a_updated_at :: time

definition ck_implementation_actions :: "implementation_action \<Rightarrow> bool" where
  "ck_implementation_actions a \<longleftrightarrow>
     ((a_status a = A_COMPLETED \<and> a_completed_at a \<noteq> None) \<or>
      (a_status a \<noteq> A_COMPLETED \<and> a_completed_at a = None)) \<and>
     ((a_status a = A_CANCELLED \<and> a_cancelled_at a \<noteq> None) \<or>
      (a_status a \<noteq> A_CANCELLED \<and> a_cancelled_at a = None))"

record decision_review =
  r_id :: uuid
  r_decision_id :: uuid
  r_scheduled_by_id :: uuid
  r_scheduled_for :: time
  r_status :: review_status
  r_notes :: "string option"
  r_outcome :: "review_outcome option"
  r_outcome_rationale :: "string option"
  r_completed_by_id :: "uuid option"
  r_completed_at :: "time option"
  r_cancelled_by_id :: "uuid option"
  r_cancelled_at :: "time option"
  r_created_at :: time
  r_updated_at :: time

definition ck_decision_reviews :: "decision_review \<Rightarrow> bool" where
  "ck_decision_reviews r \<longleftrightarrow>
     (r_status r = R_SCHEDULED \<and> r_cancelled_at r = None \<and> r_cancelled_by_id r = None \<and>
        r_completed_at r = None \<and> r_completed_by_id r = None \<and> r_outcome r = None) \<or>
     (r_status r = R_CANCELLED \<and> r_cancelled_at r \<noteq> None \<and> r_cancelled_by_id r \<noteq> None \<and>
        r_completed_at r = None \<and> r_completed_by_id r = None \<and> r_outcome r = None) \<or>
     (r_status r = R_COMPLETED \<and> r_cancelled_at r = None \<and> r_cancelled_by_id r = None \<and>
        r_completed_at r \<noteq> None \<and> r_completed_by_id r \<noteq> None \<and> r_outcome r \<noteq> None)"

definition uq_one_scheduled :: "decision_review list \<Rightarrow> bool" where
  "uq_one_scheduled rs \<longleftrightarrow> distinct (map r_decision_id (filter (\<lambda>r. r_status r = R_SCHEDULED) rs))"

record decision_revision =
  n_id :: uuid
  n_root_decision_id :: uuid
  n_predecessor_decision_id :: uuid
  n_successor_decision_id :: uuid
  n_source_lock_id :: uuid
  n_review_id :: uuid
  n_created_by_id :: uuid
  n_revision_number :: int
  n_outcome :: review_outcome
  n_rationale :: string
  n_created_at :: time

text \<open>The four unique constraints and the two CHECK constraints of \<open>decision_revisions\<close>.\<close>

definition ck_decision_revisions :: "decision_revision list \<Rightarrow> decision_revision \<Rightarrow> bool" where
  "ck_decision_revisions ns n \<longleftrightarrow>
     (n_root_decision_id n, n_revision_number n)
        \<notin> (\<lambda>x. (n_root_decision_id x, n_revision_number x)) ` set ns \<and>
     n_predecessor_decision_id n \<notin> n_predecessor_decision_id ` set ns \<and>
     n_successor_decision_id n \<notin> n_successor_decision_id ` set ns \<and>
     n_review_id n \<notin> n_review_id ` set ns \<and>
     1 \<le> n_revision_number n \<and>
     n_outcome n \<in> {REOPENED, SUPERSEDED}"

section \<open>Notifications, attachments and the integration outbox\<close>

datatype notification_kind = ACTION_DUE | DECISION_REVIEW | DECISION_DEADLINE | VOTING_CLOSE | MENTION

datatype notification_status = N_PENDING | N_DELIVERING | N_RETRY_SCHEDULED | N_DELIVERED | N_FAILED

record notification =
  nt_id :: uuid
  nt_recipient_id :: uuid
  nt_workspace_id :: uuid
  nt_kind :: notification_kind
  nt_source_id :: uuid
  nt_actor_id :: "uuid option"
  nt_entity_type :: "string option"
  nt_entity_id :: "uuid option"
  nt_action_url :: "string option"
  nt_idempotency_key :: string
  nt_title :: string
  nt_body :: string
  nt_status :: notification_status
  nt_attempt_count :: int
  nt_max_attempts :: int
  nt_available_at :: time
  nt_delivery_started_at :: "time option"
  nt_delivered_at :: "time option"
  nt_failed_at :: "time option"
  nt_last_error :: "string option"
  nt_read_at :: "time option"
  nt_created_at :: time
  nt_updated_at :: time

definition ck_notifications :: "notification \<Rightarrow> bool" where
  "ck_notifications n \<longleftrightarrow>
     0 \<le> nt_attempt_count n \<and> 1 \<le> nt_max_attempts n \<and> nt_attempt_count n \<le> nt_max_attempts n \<and>
     ((nt_status n = N_DELIVERED \<and> nt_delivered_at n \<noteq> None \<and> nt_failed_at n = None) \<or>
      (nt_status n = N_FAILED \<and> nt_failed_at n \<noteq> None \<and> nt_delivered_at n = None) \<or>
      (nt_status n \<in> {N_PENDING, N_DELIVERING, N_RETRY_SCHEDULED} \<and>
         nt_delivered_at n = None \<and> nt_failed_at n = None))"

datatype attachment_status =
  AT_PENDING | AT_PROCESSING | AT_AVAILABLE | AT_REJECTED | AT_DELETED

record attachment =
  at_id :: uuid
  at_workspace_id :: uuid
  at_decision_id :: "uuid option"
  at_proposal_id :: "uuid option"
  at_uploaded_by_id :: uuid
  at_object_key :: string
  at_filename :: string
  at_media_type :: string
  at_size_bytes :: int
  at_sha256 :: "string option"
  at_status :: attachment_status
  at_processing_attempts :: int
  at_processing_error :: "string option"
  at_processed_at :: "time option"
  at_deleted_at :: "time option"
  at_created_at :: time
  at_updated_at :: time

definition ck_attachments :: "attachment \<Rightarrow> bool" where
  "ck_attachments a \<longleftrightarrow>
     0 < at_size_bytes a \<and> 0 \<le> at_processing_attempts a \<and>
     \<not> (at_decision_id a = None \<and> at_proposal_id a \<noteq> None)"

datatype integration_event_type =
    DECISION_ACTIVATED | VOTING_OPENED | VOTING_CLOSED | DECISION_LOCKED
  | ACTION_ASSIGNED | REVIEW_DUE | EXPORT_FAILED

datatype integration_outbox_status = X_PENDING | X_PROCESSING | X_PROCESSED | X_FAILED

record integration_outbox_event =
  x_id :: uuid
  x_workspace_id :: uuid
  x_event_type :: integration_event_type
  x_event_id :: uuid
  x_payload :: json
  x_status :: integration_outbox_status
  x_attempt_count :: int
  x_available_at :: time
  x_processed_at :: "time option"
  x_last_error :: "string option"
  x_created_at :: time
  x_updated_at :: time

definition uq_outbox :: "integration_outbox_event list \<Rightarrow> integration_outbox_event \<Rightarrow> bool" where
  "uq_outbox xs x \<longleftrightarrow>
     (x_event_type x, x_event_id x) \<notin> (\<lambda>y. (x_event_type y, x_event_id y)) ` set xs"

datatype integration_provider = SLACK

datatype integration_connection_status = IC_PENDING | IC_ACTIVE | IC_EXPIRED | IC_REVOKED | IC_ERROR

record integration_connection =
  ic_id :: uuid
  ic_workspace_id :: uuid
  ic_provider :: integration_provider
  ic_status :: integration_connection_status
  ic_external_account_id :: string
  ic_external_account_name :: string
  ic_access_token_encrypted :: "string option"
  ic_refresh_token_encrypted :: "string option"
  ic_token_expires_at :: "time option"
  ic_scopes :: "string list"
  ic_configuration :: json
  ic_connected_by_id :: uuid
  ic_last_synced_at :: "time option"
  ic_last_error :: "string option"
  ic_created_at :: time
  ic_updated_at :: time

record integration_subscription =
  is_id :: uuid
  is_connection_id :: uuid
  is_event_type :: integration_event_type
  is_enabled :: bool
  is_destination_id :: "string option"
  is_destination_name :: "string option"
  is_configuration :: json
  is_created_at :: time
  is_updated_at :: time

datatype integration_delivery_status = DL_PENDING | DL_DELIVERING | DL_RETRY_SCHEDULED | DL_DELIVERED | DL_FAILED

record integration_delivery =
  dl_id :: uuid
  dl_connection_id :: uuid
  dl_event_type :: integration_event_type
  dl_event_id :: uuid
  dl_status :: integration_delivery_status
  dl_attempt_count :: int
  dl_request_summary :: json
  dl_response_status :: "int option"
  dl_error_code :: "string option"
  dl_next_retry_at :: "time option"
  dl_delivered_at :: "time option"
  dl_created_at :: time
  dl_updated_at :: time

text \<open>The unique constraints of the three tables, over the whole tables.\<close>

definition uq_connections :: "integration_connection list \<Rightarrow> bool" where
  "uq_connections cs \<longleftrightarrow>
     distinct (map (\<lambda>c. (ic_workspace_id c, ic_provider c, ic_external_account_id c)) cs)"

definition uq_subscriptions :: "integration_subscription list \<Rightarrow> bool" where
  "uq_subscriptions ss \<longleftrightarrow> distinct (map (\<lambda>s. (is_connection_id s, is_event_type s)) ss)"

definition uq_deliveries :: "integration_delivery list \<Rightarrow> bool" where
  "uq_deliveries ds \<longleftrightarrow> distinct (map (\<lambda>d. (dl_connection_id d, dl_event_type d, dl_event_id d)) ds)"

section \<open>The database\<close>

record db =
  users :: "user list"
  workspaces :: "workspace list"
  members :: "workspace_member list"
  decisions :: "decision list"
  locks :: "decision_lock list"
  proposals :: "proposal list"
  criteria :: "decision_criterion list"
  scores :: "proposal_score list"
  objections :: "objection list"
  objection_events :: "objection_status_event list"
  sessions :: "voting_session list"
  eligible_voters :: "voting_eligible_voter list"
  session_proposals :: "voting_session_proposal list"
  votes :: "vote list"
  actions :: "implementation_action list"
  reviews :: "decision_review list"
  revisions :: "decision_revision list"
  notifications :: "notification list"
  attachments :: "attachment list"
  outbox :: "integration_outbox_event list"
  connections :: "integration_connection list"
  subscriptions :: "integration_subscription list"
  deliveries :: "integration_delivery list"
  published :: "uuid list"

definition empty_db :: db where
  "empty_db = \<lparr>users = [], workspaces = [], members = [], decisions = [], locks = [],
     proposals = [], criteria = [], scores = [], objections = [], objection_events = [],
     sessions = [], eligible_voters = [], session_proposals = [], votes = [], actions = [],
     reviews = [], revisions = [], notifications = [], attachments = [], outbox = [],
     connections = [], subscriptions = [], deliveries = [], published = []\<rparr>"

end
