(* ===== verification/Cascades.thy ===== *)
theory Cascades imports Data_Model begin

text \<open>
  What the database does when a row is deleted: the \<open>ondelete\<close> actions of the foreign keys of
  \<open>app/models\<close>. \<open>CASCADE\<close> keys delete the dependent rows, \<open>RESTRICT\<close> keys refuse the whole
  statement. The rows to delete are given by a predicate on their ids, because deleting a
  workspace deletes all its decisions in one statement.

  A proposal that a ballot, a voting snapshot or a lock names cannot go; a decision that a lock,
  an action, a review or a revision names cannot go, nor one whose proposals cannot. The keys of
  \<open>proposals\<close> were created before those of \<open>voting_sessions\<close>, so PostgreSQL cascades to the
  proposals first: a snapshot row blocks the deletion although its session would go too.
\<close>

section \<open>Proposals\<close>

definition proposals_unreferenced :: "(uuid \<Rightarrow> bool) \<Rightarrow> db \<Rightarrow> bool" where
  "proposals_unreferenced gone db \<longleftrightarrow>
     (\<forall>sp \<in> set (session_proposals db). \<not> gone (sp_proposal_id sp)) \<and>
     (\<forall>b \<in> set (votes db). \<not> gone (b_proposal_id b)) \<and>
     (\<forall>l \<in> set (locks db). \<not> gone (l_winning_proposal_id l))"

definition objection_gone :: "(uuid \<Rightarrow> bool) \<Rightarrow> objection list \<Rightarrow> uuid \<Rightarrow> bool" where
  "objection_gone gone os i \<longleftrightarrow> (\<exists>x \<in> set os. o_id x = i \<and> gone (o_proposal_id x))"

definition cascade_proposals :: "(uuid \<Rightarrow> bool) \<Rightarrow> db \<Rightarrow> db" where
  "cascade_proposals gone db = db\<lparr>
     proposals := filter (\<lambda>p. \<not> gone (p_id p)) (proposals db),
     scores := filter (\<lambda>s. \<not> gone (s_proposal_id s)) (scores db),
     objections := filter (\<lambda>x. \<not> gone (o_proposal_id x)) (objections db),
     objection_events := filter (\<lambda>e. \<not> objection_gone gone (objections db) (oe_objection_id e))
                           (objection_events db),
     attachments := filter (\<lambda>a. \<not> (\<exists>i. at_proposal_id a = Some i \<and> gone i)) (attachments db)\<rparr>"

definition delete_proposal_row :: "uuid \<Rightarrow> db \<Rightarrow> error + db" where
  "delete_proposal_row i db =
     bindE (ensure (proposals_unreferenced (\<lambda>j. j = i) db) IntegrityError) (\<lambda>_.
     Inr (cascade_proposals (\<lambda>j. j = i) db))"

section \<open>Criteria\<close>

definition delete_criterion_row :: "uuid \<Rightarrow> db \<Rightarrow> db" where
  "delete_criterion_row i db = db\<lparr>
     criteria := filter (\<lambda>c. c_id c \<noteq> i) (criteria db),
     scores := filter (\<lambda>s. s_criterion_id s \<noteq> i) (scores db)\<rparr>"

section \<open>Decisions\<close>

definition in_decision :: "(uuid \<Rightarrow> bool) \<Rightarrow> proposal list \<Rightarrow> uuid \<Rightarrow> bool" where
  "in_decision gone ps i \<longleftrightarrow> (\<exists>p \<in> set ps. p_id p = i \<and> gone (p_decision_id p))"

definition session_gone :: "(uuid \<Rightarrow> bool) \<Rightarrow> voting_session list \<Rightarrow> uuid \<Rightarrow> bool" where
  "session_gone gone vs i \<longleftrightarrow> (\<exists>v \<in> set vs. v_id v = i \<and> gone (v_decision_id v))"

definition criterion_gone :: "(uuid \<Rightarrow> bool) \<Rightarrow> decision_criterion list \<Rightarrow> uuid \<Rightarrow> bool" where
  "criterion_gone gone cs i \<longleftrightarrow> (\<exists>c \<in> set cs. c_id c = i \<and> gone (c_decision_id c))"

definition decisions_unreferenced :: "(uuid \<Rightarrow> bool) \<Rightarrow> db \<Rightarrow> bool" where
  "decisions_unreferenced gone db \<longleftrightarrow>
     proposals_unreferenced (in_decision gone (proposals db)) db \<and>
     (\<forall>l \<in> set (locks db). \<not> gone (l_decision_id l) \<and>
        \<not> session_gone gone (sessions db) (l_voting_session_id l)) \<and>
     (\<forall>a \<in> set (actions db). \<not> gone (a_decision_id a)) \<and>
     (\<forall>r \<in> set (reviews db). \<not> gone (r_decision_id r)) \<and>
     (\<forall>n \<in> set (revisions db). \<not> gone (n_root_decision_id n) \<and>
        \<not> gone (n_predecessor_decision_id n) \<and> \<not> gone (n_successor_decision_id n))"

definition cascade_decisions :: "(uuid \<Rightarrow> bool) \<Rightarrow> db \<Rightarrow> db" where
  "cascade_decisions gone db =
     (let db1 = cascade_proposals (in_decision gone (proposals db)) db in
      db1\<lparr>
        decisions := filter (\<lambda>d. \<not> gone (d_id d)) (decisions db1),
        criteria := filter (\<lambda>c. \<not> gone (c_decision_id c)) (criteria db1),
        scores := filter (\<lambda>s. \<not> criterion_gone gone (criteria db1) (s_criterion_id s)) (scores db1),
        sessions := filter (\<lambda>v. \<not> gone (v_decision_id v)) (sessions db1),
        eligible_voters := filter (\<lambda>e. \<not> session_gone gone (sessions db1) (ev_voting_session_id e))
                             (eligible_voters db1),
        session_proposals := filter (\<lambda>p. \<not> session_gone gone (sessions db1) (sp_voting_session_id p))
                               (session_proposals db1),
        votes := filter (\<lambda>b. \<not> session_gone gone (sessions db1) (b_voting_session_id b)) (votes db1),
        attachments := filter (\<lambda>a. \<not> (\<exists>i. at_decision_id a = Some i \<and> gone i)) (attachments db1)\<rparr>)"

definition delete_decision_row :: "uuid \<Rightarrow> db \<Rightarrow> error + db" where
  "delete_decision_row i db =
     bindE (ensure (decisions_unreferenced (\<lambda>j. j = i) db) IntegrityError) (\<lambda>_.
     Inr (cascade_decisions (\<lambda>j. j = i) db))"

section \<open>Workspaces\<close>

definition in_workspace :: "uuid \<Rightarrow> decision list \<Rightarrow> uuid \<Rightarrow> bool" where
  "in_workspace w ds i \<longleftrightarrow> (\<exists>d \<in> set ds. d_id d = i \<and> d_workspace_id d = w)"

definition connection_gone :: "uuid \<Rightarrow> integration_connection list \<Rightarrow> uuid \<Rightarrow> bool" where
  "connection_gone w cs i \<longleftrightarrow> (\<exists>c \<in> set cs. ic_id c = i \<and> ic_workspace_id c = w)"

definition delete_workspace_row :: "uuid \<Rightarrow> db \<Rightarrow> error + db" where
  "delete_workspace_row w db =
     bindE (ensure (decisions_unreferenced (in_workspace w (decisions db)) db) IntegrityError) (\<lambda>_.
     let db1 = cascade_decisions (in_workspace w (decisions db)) db in
     Inr (db1\<lparr>
       workspaces := filter (\<lambda>x. w_id x \<noteq> w) (workspaces db1),
       members := filter (\<lambda>m. m_workspace_id m \<noteq> w) (members db1),
       notifications := filter (\<lambda>n. nt_workspace_id n \<noteq> w) (notifications db1),
       attachments := filter (\<lambda>a. at_workspace_id a \<noteq> w) (attachments db1),
       outbox := filter (\<lambda>x. x_workspace_id x \<noteq> w) (outbox db1),
       connections := filter (\<lambda>c. ic_workspace_id c \<noteq> w) (connections db1),
       subscriptions := filter (\<lambda>s. \<not> connection_gone w (connections db1) (is_connection_id s)) (subscriptions db1),
       deliveries := filter (\<lambda>d. \<not> connection_gone w (connections db1) (dl_connection_id d)) (deliveries db1)\<rparr>))"

lemmas cascade_defs =
  cascade_proposals_def cascade_decisions_def delete_proposal_row_def delete_criterion_row_def
  delete_decision_row_def delete_workspace_row_def Let_def

section \<open>What a deletion leaves alone\<close>

text \<open>No deletion removes or changes a user, a lock, an action, a review or a revision.\<close>

lemma cascade_proposals_frame [simp]:
  "users (cascade_proposals g db) = users db"
  "workspaces (cascade_proposals g db) = workspaces db"
  "members (cascade_proposals g db) = members db"
  "decisions (cascade_proposals g db) = decisions db"
  "locks (cascade_proposals g db) = locks db"
  "criteria (cascade_proposals g db) = criteria db"
  "sessions (cascade_proposals g db) = sessions db"
  "eligible_voters (cascade_proposals g db) = eligible_voters db"
  "session_proposals (cascade_proposals g db) = session_proposals db"
  "votes (cascade_proposals g db) = votes db"
  "actions (cascade_proposals g db) = actions db"
  "reviews (cascade_proposals g db) = reviews db"
  "revisions (cascade_proposals g db) = revisions db"
  "notifications (cascade_proposals g db) = notifications db"
  "outbox (cascade_proposals g db) = outbox db"
  "connections (cascade_proposals g db) = connections db"
  "subscriptions (cascade_proposals g db) = subscriptions db"
  "deliveries (cascade_proposals g db) = deliveries db"
  "published (cascade_proposals g db) = published db"
  by (simp_all add: cascade_proposals_def)

lemma cascade_decisions_frame [simp]:
  "users (cascade_decisions g db) = users db"
  "workspaces (cascade_decisions g db) = workspaces db"
  "members (cascade_decisions g db) = members db"
  "locks (cascade_decisions g db) = locks db"
  "actions (cascade_decisions g db) = actions db"
  "reviews (cascade_decisions g db) = reviews db"
  "revisions (cascade_decisions g db) = revisions db"
  "notifications (cascade_decisions g db) = notifications db"
  "outbox (cascade_decisions g db) = outbox db"
  "connections (cascade_decisions g db) = connections db"
  "subscriptions (cascade_decisions g db) = subscriptions db"
  "deliveries (cascade_decisions g db) = deliveries db"
  "published (cascade_decisions g db) = published db"
  by (simp_all add: cascade_decisions_def Let_def)

lemma cascade_decisions_tables:
  "decisions (cascade_decisions g db) = filter (\<lambda>d. \<not> g (d_id d)) (decisions db)"
  "criteria (cascade_decisions g db) = filter (\<lambda>c. \<not> g (c_decision_id c)) (criteria db)"
  "sessions (cascade_decisions g db) = filter (\<lambda>v. \<not> g (v_decision_id v)) (sessions db)"
  "proposals (cascade_decisions g db) =
     filter (\<lambda>p. \<not> in_decision g (proposals db) (p_id p)) (proposals db)"
  "eligible_voters (cascade_decisions g db) =
     filter (\<lambda>e. \<not> session_gone g (sessions db) (ev_voting_session_id e)) (eligible_voters db)"
  "session_proposals (cascade_decisions g db) =
     filter (\<lambda>p. \<not> session_gone g (sessions db) (sp_voting_session_id p)) (session_proposals db)"
  "votes (cascade_decisions g db) =
     filter (\<lambda>b. \<not> session_gone g (sessions db) (b_voting_session_id b)) (votes db)"
  by (simp_all add: cascade_decisions_def cascade_proposals_def Let_def)

text \<open>A proposal in a voting snapshot or a ballot stays, whichever decision is deleted.\<close>

lemma referenced_proposals_survive:
  assumes "delete_decision_row i db = Inr db'" and "sp \<in> set (session_proposals db)"
    and "p \<in> set (proposals db)" and "p_id p = sp_proposal_id sp"
  shows "p \<in> set (proposals db')"
  using assms
  by (auto simp: delete_decision_row_def cascade_decisions_tables decisions_unreferenced_def
      proposals_unreferenced_def)

end
