(* ===== verification/Permissions.thy ===== *)
theory Permissions imports Data_Model begin

text \<open>
  The authorization policies of \<open>app/permissions\<close>, one definition per function. The roles form a
  finite type (an instance of \<open>enum\<close>), so a statement about all roles is decided by evaluation.
\<close>

instantiation workspace_role :: enum
begin

definition enum_workspace_role :: "workspace_role list" where
  "enum_workspace_role = [OWNER, ADMIN, MEMBER, VIEWER]"

definition enum_all_workspace_role :: "(workspace_role \<Rightarrow> bool) \<Rightarrow> bool" where
  "enum_all_workspace_role P \<longleftrightarrow> P OWNER \<and> P ADMIN \<and> P MEMBER \<and> P VIEWER"

definition enum_ex_workspace_role :: "(workspace_role \<Rightarrow> bool) \<Rightarrow> bool" where
  "enum_ex_workspace_role P \<longleftrightarrow> P OWNER \<or> P ADMIN \<or> P MEMBER \<or> P VIEWER"

instance
proof
  show "(UNIV :: workspace_role set) = set enum_class.enum"
    by (auto simp: enum_workspace_role_def intro: workspace_role.exhaust)
  show "distinct (enum_class.enum :: workspace_role list)"
    by (simp add: enum_workspace_role_def)
  show "enum_class.enum_all P \<longleftrightarrow> Ball UNIV P" for P :: "workspace_role \<Rightarrow> bool"
    by (auto simp: enum_all_workspace_role_def) (metis workspace_role.exhaust)
  show "enum_class.enum_ex P \<longleftrightarrow> Bex UNIV P" for P :: "workspace_role \<Rightarrow> bool"
    by (auto simp: enum_ex_workspace_role_def) (metis workspace_role.exhaust)
qed

end

section \<open>Workspaces\<close>

definition can_manage_workspace :: "workspace_role \<Rightarrow> bool" where
  "can_manage_workspace role \<longleftrightarrow> role \<in> {OWNER, ADMIN}"

definition can_delete_workspace :: "workspace_role \<Rightarrow> bool" where
  "can_delete_workspace role \<longleftrightarrow> role = OWNER"

definition can_change_member_role :: "workspace_role \<Rightarrow> workspace_role \<Rightarrow> bool" where
  "can_change_member_role actor_role target_role \<longleftrightarrow> actor_role = OWNER \<and> target_role \<noteq> OWNER"

definition can_remove_member :: "workspace_role \<Rightarrow> workspace_role \<Rightarrow> bool" where
  "can_remove_member actor_role target_role =
     (if target_role = OWNER then False
      else if actor_role = OWNER then True
      else actor_role = ADMIN \<and> target_role \<in> {MEMBER, VIEWER})"

section \<open>Decisions and locks\<close>

definition can_write_decisions :: "workspace_role \<Rightarrow> bool" where
  "can_write_decisions role \<longleftrightarrow> role \<in> {OWNER, ADMIN, MEMBER}"

definition can_delete_decisions :: "workspace_role \<Rightarrow> bool" where
  "can_delete_decisions role \<longleftrightarrow> role \<in> {OWNER, ADMIN}"

definition can_lock_decisions :: "workspace_role \<Rightarrow> bool" where
  "can_lock_decisions role \<longleftrightarrow> role \<in> {OWNER, ADMIN}"

section \<open>Proposals\<close>

definition can_create_proposals :: "workspace_role \<Rightarrow> bool" where
  "can_create_proposals role \<longleftrightarrow> role \<in> {OWNER, ADMIN, MEMBER}"

definition can_manage_proposal :: "workspace_role \<Rightarrow> uuid \<Rightarrow> uuid \<Rightarrow> bool" where
  "can_manage_proposal role proposal_author_id user_id \<longleftrightarrow>
     role \<in> {OWNER, ADMIN} \<or> (role = MEMBER \<and> proposal_author_id = user_id)"

definition can_manage_criteria :: "workspace_role \<Rightarrow> bool" where
  "can_manage_criteria role \<longleftrightarrow> role \<in> {OWNER, ADMIN}"

definition can_score_proposals :: "workspace_role \<Rightarrow> bool" where
  "can_score_proposals role \<longleftrightarrow> role \<in> {OWNER, ADMIN, MEMBER}"

section \<open>Objections\<close>

definition can_create_objections :: "workspace_role \<Rightarrow> bool" where
  "can_create_objections role \<longleftrightarrow> role \<in> {OWNER, ADMIN, MEMBER}"

definition can_edit_objection :: "workspace_role \<Rightarrow> uuid \<Rightarrow> uuid \<Rightarrow> bool" where
  "can_edit_objection role objection_author_id user_id \<longleftrightarrow>
     role \<in> {OWNER, ADMIN} \<or> (role = MEMBER \<and> objection_author_id = user_id)"

definition can_transition_objection ::
  "workspace_role \<Rightarrow> uuid \<Rightarrow> uuid \<Rightarrow> objection_status \<Rightarrow> bool" where
  "can_transition_objection role objection_author_id user_id target_status =
     (if role \<in> {OWNER, ADMIN} then True
      else if role \<noteq> MEMBER \<or> objection_author_id \<noteq> user_id then False
      else target_status \<in> {O_OPEN, O_RESOLVED})"

section \<open>Voting\<close>

definition can_manage_voting :: "workspace_role \<Rightarrow> bool" where
  "can_manage_voting role \<longleftrightarrow> role \<in> {OWNER, ADMIN}"

definition is_voting_role :: "workspace_role \<Rightarrow> bool" where
  "is_voting_role role \<longleftrightarrow> role \<in> {OWNER, ADMIN, MEMBER}"

section \<open>Actions, reviews and attachments\<close>

definition can_manage_actions :: "workspace_role \<Rightarrow> bool" where
  "can_manage_actions role \<longleftrightarrow> role \<in> {OWNER, ADMIN}"

definition can_transition_action :: "workspace_role \<Rightarrow> uuid \<Rightarrow> uuid \<Rightarrow> bool" where
  "can_transition_action role actor_id assignee_id \<longleftrightarrow>
     can_manage_actions role \<or> actor_id = assignee_id"

definition can_manage_reviews :: "workspace_role \<Rightarrow> bool" where
  "can_manage_reviews role \<longleftrightarrow> role \<in> {OWNER, ADMIN}"

definition can_upload_attachment :: "workspace_role \<Rightarrow> bool" where
  "can_upload_attachment role \<longleftrightarrow> role \<in> {OWNER, ADMIN, MEMBER}"

definition can_delete_attachment :: "workspace_role \<Rightarrow> uuid \<Rightarrow> uuid \<Rightarrow> bool" where
  "can_delete_attachment role uploaded_by_id user_id \<longleftrightarrow>
     role \<in> {OWNER, ADMIN} \<or> uploaded_by_id = user_id"

lemmas permission_defs =
  can_manage_workspace_def can_delete_workspace_def can_change_member_role_def can_remove_member_def
  can_write_decisions_def can_delete_decisions_def can_lock_decisions_def can_create_proposals_def
  can_manage_proposal_def can_manage_criteria_def can_score_proposals_def can_create_objections_def
  can_edit_objection_def can_transition_objection_def can_manage_voting_def is_voting_role_def
  can_manage_actions_def can_transition_action_def can_manage_reviews_def can_upload_attachment_def
  can_delete_attachment_def

text \<open>A viewer holds none of the write permissions, whoever the author of the record is.\<close>

lemma viewer_read_only:
  "\<not> can_manage_workspace VIEWER" "\<not> can_delete_workspace VIEWER" "\<not> can_write_decisions VIEWER"
  "\<not> can_delete_decisions VIEWER" "\<not> can_lock_decisions VIEWER" "\<not> can_create_proposals VIEWER"
  "\<not> can_manage_proposal VIEWER a u" "\<not> can_manage_criteria VIEWER" "\<not> can_score_proposals VIEWER"
  "\<not> can_create_objections VIEWER" "\<not> can_edit_objection VIEWER a u"
  "\<not> can_transition_objection VIEWER a u t" "\<not> can_manage_voting VIEWER" "\<not> is_voting_role VIEWER"
  "\<not> can_manage_actions VIEWER" "\<not> can_manage_reviews VIEWER" "\<not> can_upload_attachment VIEWER"
  by (simp_all add: permission_defs)

end
