(* ===== verification/Users.thy ===== *)
theory Users imports Data_Model begin

text \<open>
  \<open>app/repositories/user.py\<close>: e-mail look-up is case-insensitive, the unique constraint is not;
  registration stores lower-case addresses, which makes the two agree (\<open>email_inv\<close>).
\<close>

definition users_repo_get_by_email :: "string \<Rightarrow> db \<Rightarrow> user option" where
  "users_repo_get_by_email email db = first_where (\<lambda>u. lower (u_email u) = lower email) (users db)"

definition users_repo_get_by_id :: "uuid \<Rightarrow> db \<Rightarrow> user option" where
  "users_repo_get_by_id i db = lookup u_id i (users db)"

text \<open>An \<open>IntegrityError\<close> of the commit (unique e-mail or primary key) is translated.\<close>

definition users_repo_create :: "user \<Rightarrow> db \<Rightarrow> error + user \<times> db" where
  "users_repo_create u db =
     (case flush_insert u_id (\<lambda>u. u_email u \<notin> u_email ` set (users db)) u (users db) of
        Inl e \<Rightarrow> Inl EmailAlreadyRegisteredError
      | Inr us \<Rightarrow> Inr (u, db\<lparr>users := us\<rparr>))"

definition write_user :: "env \<Rightarrow> user \<Rightarrow> user \<Rightarrow> user \<Rightarrow> user" where
  "write_user env old new cur =
     (if new = old then cur
      else cur\<lparr>u_password_hash := put_if_dirty (u_password_hash old) (u_password_hash new) (u_password_hash cur),
               u_is_email_verified :=
                 put_if_dirty (u_is_email_verified old) (u_is_email_verified new) (u_is_email_verified cur),
               u_auth_version := put_if_dirty (u_auth_version old) (u_auth_version new) (u_auth_version cur),
               u_updated_at := db_now env\<rparr>)"

definition save_user :: "env \<Rightarrow> user \<Rightarrow> user \<Rightarrow> db \<Rightarrow> error + user \<times> db" where
  "save_user env old new db =
     bindE (flush_update u_id (\<lambda>_. True) (u_id old) (write_user env old new) (users db)) (\<lambda>(u, us).
     Inr (u, db\<lparr>users := us\<rparr>))"

definition users_repo_mark_email_verified :: "env \<Rightarrow> user \<Rightarrow> db \<Rightarrow> error + user \<times> db" where
  "users_repo_mark_email_verified env u db = save_user env u (u\<lparr>u_is_email_verified := True\<rparr>) db"

definition users_repo_update_password :: "env \<Rightarrow> user \<Rightarrow> string \<Rightarrow> db \<Rightarrow> error + user \<times> db" where
  "users_repo_update_password env u password_hash db =
     save_user env u (u\<lparr>u_password_hash := password_hash, u_auth_version := u_auth_version u + 1\<rparr>) db"

section \<open>The accounts of the table\<close>

definition email_inv :: "user list \<Rightarrow> bool" where
  "email_inv us \<longleftrightarrow> distinct (map u_id us) \<and> distinct (map u_email us) \<and>
     (\<forall>u \<in> set us. lower (u_email u) = u_email u)"

lemma write_user_key [simp]:
  "u_id (write_user env old new cur) = u_id cur"
  "u_email (write_user env old new cur) = u_email cur"
  "u_display_name (write_user env old new cur) = u_display_name cur"
  "u_is_active (write_user env old new cur) = u_is_active cur"
  by (simp_all add: write_user_def)

lemma users_repo_create_Inr:
  "users_repo_create u db = Inr (u', db') \<longleftrightarrow>
     u_id u \<notin> u_id ` set (users db) \<and> u_email u \<notin> u_email ` set (users db) \<and>
     u' = u \<and> db' = db\<lparr>users := users db @ [u]\<rparr>"
  by (auto simp: users_repo_create_def split: sum.splits)

lemma save_user_Inr:
  "save_user env old new db = Inr (u, db') \<longleftrightarrow>
     (\<exists>cur. lookup u_id (u_id old) (users db) = Some cur \<and> u = write_user env old new cur \<and>
        db' = db\<lparr>users := store u_id u (users db)\<rparr>)"
  by (auto simp: save_user_def)

lemma email_inv_create: "email_inv us \<Longrightarrow> u_id u \<notin> u_id ` set us \<Longrightarrow>
  u_email u \<notin> u_email ` set us \<Longrightarrow> lower (u_email u) = u_email u \<Longrightarrow> email_inv (us @ [u])"
  by (auto simp: email_inv_def)

lemma email_inv_store:
  assumes "email_inv us" and "lookup u_id i us = Some cur" and "u_id u = u_id cur" and "u_email u = u_email cur"
  shows "email_inv (store u_id u us)"
proof -
  have "map u_email (store u_id u us) = map u_email us"
    using assms by (intro map_store_same) (auto simp: email_inv_def dest: distinct_key_eq lookup_SomeD)
  moreover have "\<forall>x \<in> set (store u_id u us). lower (u_email x) = u_email x"
    using assms by (auto simp: email_inv_def dest!: mem_storeD lookup_SomeD)
  ultimately show ?thesis using assms by (simp add: email_inv_def)
qed

text \<open>Whatever the case of the given address, the account found is the one registered under it.\<close>

lemma get_by_email_iff:
  assumes "email_inv us" and "users db = us"
  shows "users_repo_get_by_email email db = Some u \<longleftrightarrow> u \<in> set us \<and> u_email u = lower email"
proof
  assume "users_repo_get_by_email email db = Some u"
  then show "u \<in> set us \<and> u_email u = lower email"
    using assms by (auto simp: users_repo_get_by_email_def email_inv_def dest!: first_where_SomeD)
next
  assume u: "u \<in> set us \<and> u_email u = lower email"
  show "users_repo_get_by_email email db = Some u"
    unfolding users_repo_get_by_email_def
  proof (rule first_where_unique)
    show "x = u" if "x \<in> set (users db)" "lower (u_email x) = lower email" for x
    proof -
      have "u_email x = u_email u" using that u assms by (auto simp: email_inv_def)
      then show ?thesis using that u assms distinct_key_eq [of u_email us x u] by (simp add: email_inv_def)
    qed
  qed (use u assms in auto)
qed

end
