(* ===== verification/Requests.thy ===== *)
theory Requests imports Prelude Py_Text begin

text \<open>
  What the Pydantic models of \<open>app/schemas\<close> do with a field: the length bounds of \<open>Field\<close> on the
  text as sent, then the field validator. \<open>" ".join(value.split())\<close> normalises titles and names,
  \<open>value.strip() or None\<close> optional bodies. A \<open>datetime\<close> of a request may lack a time zone, which
  \<open>_require_timezone\<close> refuses; everything behind the schemas works on instants.
\<close>

datatype datetime = Aware time | Naive time

definition normalize_text :: "string \<Rightarrow> string" where
  "normalize_text value = join_space (py_split value)"

definition or_none :: "string \<Rightarrow> string option" where
  "or_none s = (if s = [] then None else Some s)"

definition field_length :: "nat \<Rightarrow> nat \<Rightarrow> string \<Rightarrow> error + unit" where
  "field_length lo hi s = ensure (lo \<le> length s \<and> length s \<le> hi) ValidationError"

definition normalized_field :: "nat \<Rightarrow> nat \<Rightarrow> string \<Rightarrow> error + string" where
  "normalized_field lo hi s =
     bindE (field_length lo hi s) (\<lambda>_.
     let n = normalize_text s in
     bindE (ensure (lo \<le> length n) ValidationError) (\<lambda>_. Inr n))"

definition stripped_field :: "nat \<Rightarrow> nat \<Rightarrow> string \<Rightarrow> error + string" where
  "stripped_field lo hi s =
     bindE (field_length lo hi s) (\<lambda>_.
     let n = py_strip s in
     bindE (ensure (n \<noteq> []) ValidationError) (\<lambda>_. Inr n))"

fun optional_field :: "(string \<Rightarrow> string) \<Rightarrow> nat \<Rightarrow> string option \<Rightarrow> error + string option" where
  "optional_field f hi None = Inr None"
| "optional_field f hi (Some s) = bindE (field_length 0 hi s) (\<lambda>_. Inr (or_none (f s)))"

fun patch_field :: "('a \<Rightarrow> error + 'b) \<Rightarrow> 'a patch \<Rightarrow> error + 'b patch" where
  "patch_field f Absent = Inr Absent"
| "patch_field f (Present None) = Inr (Present None)"
| "patch_field f (Present (Some s)) = bindE (f s) (\<lambda>v. Inr (Present (Some v)))"

text \<open>A field whose validator may turn text into \<open>None\<close>.\<close>

fun patch_optional :: "('a option \<Rightarrow> error + 'b option) \<Rightarrow> 'a patch \<Rightarrow> error + 'b patch" where
  "patch_optional f Absent = Inr Absent"
| "patch_optional f (Present v) = bindE (f v) (\<lambda>w. Inr (Present w))"

fun require_timezone :: "datetime option \<Rightarrow> error + time option" where
  "require_timezone None = Inr None"
| "require_timezone (Some (Aware t)) = Inr (Some t)"
| "require_timezone (Some (Naive t)) = Inl ValidationError"

section \<open>What a validated field satisfies\<close>

lemma normalized_field_Inr:
  "normalized_field lo hi s = Inr n \<longleftrightarrow>
     lo \<le> length s \<and> length s \<le> hi \<and> n = normalize_text s \<and> lo \<le> length n"
  by (auto simp: normalized_field_def field_length_def Let_def)

lemma stripped_field_Inr:
  "stripped_field lo hi s = Inr n \<longleftrightarrow>
     lo \<le> length s \<and> length s \<le> hi \<and> n = py_strip s \<and> n \<noteq> []"
  by (auto simp: stripped_field_def field_length_def Let_def)

lemma normalize_text_idem [simp]: "normalize_text (normalize_text s) = normalize_text s"
  by (simp add: normalize_text_def py_split_join words_ok_py_split)

lemma length_normalize_text: "length (normalize_text s) \<le> length s"
  using length_join_split [of "[]" s] by (simp add: normalize_text_def py_split_def)

lemma normalized_field_bounds:
  assumes "normalized_field lo hi s = Inr n"
  shows "lo \<le> length n" and "length n \<le> hi" and "normalize_text n = n"
  using assms length_normalize_text [of s] by (auto simp: normalized_field_Inr)

text \<open>Validation is idempotent: a stored value sent back unchanged is accepted as it is.\<close>

lemma normalized_field_stable:
  assumes "normalized_field lo hi s = Inr n"
  shows "normalized_field lo hi n = Inr n"
  unfolding normalized_field_Inr using normalized_field_bounds [OF assms] by simp

lemma patch_field_required:
  "patch_field f p = Inr p' \<Longrightarrow> P old \<Longrightarrow> (\<And>s v. f s = Inr v \<Longrightarrow> P v) \<Longrightarrow> P (patch_required p' old)"
  by (induction f p rule: patch_field.induct) auto

lemma length_dropWhile: "length (dropWhile P xs) \<le> length xs"
  by (induction xs) auto

lemma length_py_strip: "length (py_strip s) \<le> length s"
  unfolding py_strip_def length_rev
  by (rule order_trans [OF length_dropWhile]) (simp add: length_dropWhile)

text \<open>The same for an optional field, whether it is stripped or normalised.\<close>

lemma optional_field_stable:
  assumes "optional_field f hi s = Inr v" and idem: "\<And>x. f (f x) = f x" and le: "\<And>x. length (f x) \<le> length x"
  shows "optional_field f hi v = Inr v"
proof (cases s)
  case (Some t)
  then have v: "v = or_none (f t)" "length t \<le> hi" using assms(1) by (auto simp: field_length_def)
  show ?thesis
  proof (cases "f t = []")
    case False
    then have "v = Some (f t)" using v by (simp add: or_none_def)
    then show ?thesis using False idem le [of t] v(2) by (simp add: field_length_def or_none_def)
  qed (simp add: v or_none_def)
qed (use assms in simp)

lemmas stable_fields = normalized_field_stable optional_field_stable [where f = py_strip, OF _ py_strip_idem length_py_strip]
  optional_field_stable [where f = normalize_text, OF _ normalize_text_idem length_normalize_text]

lemma require_timezone_aware [simp]: "require_timezone (map_option Aware t) = Inr t"
  by (cases t) simp_all

end
