(* ===== verification/Workspaces.thy ===== *)
theory Workspaces imports Cascades Permissions Users Requests begin

text \<open>
  \<open>app/repositories/workspace.py\<close> and \<open>app/services/workspace.py\<close>. The member rows are the
  authority every other service consults; \<open>membership_inv\<close> says that each workspace has one
  owner, the user its row names, and at most one member row per user.
\<close>

section \<open>The repository\<close>

definition workspaces_repo_create :: "env \<Rightarrow> workspace \<Rightarrow> db \<Rightarrow> error + workspace \<times> db" where
  "workspaces_repo_create env w db =
     bindE (flush_insert w_id (\<lambda>_. True) w (workspaces db)) (\<lambda>ws.
     let m = \<lparr>m_id = fresh env 1, m_workspace_id = w_id w, m_user_id = w_owner_id w, m_role = OWNER,
              m_joined_at = db_now env\<rparr> in
     bindE (flush_insert m_id (uq_workspace_members (members db)) m (members db)) (\<lambda>ms.
     Inr (w, db\<lparr>workspaces := ws, members := ms\<rparr>)))"

definition workspaces_repo_list_for_user :: "uuid \<Rightarrow> db \<Rightarrow> workspace list" where
  "workspaces_repo_list_for_user user db =
     sort_key (\<lambda>w. - w_updated_at w)
       [w. w \<leftarrow> workspaces db, m \<leftarrow> members db, m_workspace_id m = w_id w \<and> m_user_id m = user]"

definition workspaces_repo_get_by_id :: "uuid \<Rightarrow> db \<Rightarrow> workspace option" where
  "workspaces_repo_get_by_id w db = lookup w_id w (workspaces db)"

definition workspaces_repo_get_membership :: "uuid \<Rightarrow> uuid \<Rightarrow> db \<Rightarrow> workspace_member option" where
  "workspaces_repo_get_membership w user db =
     first_where (\<lambda>m. m_workspace_id m = w \<and> m_user_id m = user) (members db)"

definition write_workspace :: "env \<Rightarrow> workspace \<Rightarrow> workspace \<Rightarrow> workspace \<Rightarrow> workspace" where
  "write_workspace env old new cur =
     (if new = old then cur
      else cur\<lparr>w_name := put_if_dirty (w_name old) (w_name new) (w_name cur),
               w_description := put_if_dirty (w_description old) (w_description new) (w_description cur),
               w_updated_at := db_now env\<rparr>)"

definition workspaces_repo_update ::
  "env \<Rightarrow> workspace \<Rightarrow> string option \<Rightarrow> string option \<Rightarrow> bool \<Rightarrow> bool \<Rightarrow> db \<Rightarrow> error + workspace \<times> db" where
  "workspaces_repo_update env w name description update_name update_description db =
     (let w1 = (case name of Some n \<Rightarrow> if update_name then w\<lparr>w_name := n\<rparr> else w | None \<Rightarrow> w);
          w2 = (if update_description then w1\<lparr>w_description := description\<rparr> else w1) in
      bindE (flush_update w_id (\<lambda>_. True) (w_id w) (write_workspace env w w2) (workspaces db)) (\<lambda>(w', ws).
      Inr (w', db\<lparr>workspaces := ws\<rparr>)))"

definition workspaces_repo_delete :: "workspace \<Rightarrow> db \<Rightarrow> error + db" where
  "workspaces_repo_delete w db = delete_workspace_row (w_id w) db"

record workspace_member_record =
  wmr_membership :: workspace_member
  wmr_user :: user

definition workspaces_repo_list_members :: "uuid \<Rightarrow> db \<Rightarrow> workspace_member_record list" where
  "workspaces_repo_list_members w db =
     sort_key (\<lambda>r. m_joined_at (wmr_membership r))
       [\<lparr>wmr_membership = m, wmr_user = u\<rparr>.
          m \<leftarrow> members db, u \<leftarrow> users db, m_workspace_id m = w \<and> u_id u = m_user_id m]"

definition workspaces_repo_list_voting_eligible_user_ids :: "uuid \<Rightarrow> db \<Rightarrow> uuid list" where
  "workspaces_repo_list_voting_eligible_user_ids w db =
     map m_user_id (sort_key m_joined_at
       (filter (\<lambda>m. m_workspace_id m = w \<and> m_role m \<in> {OWNER, ADMIN, MEMBER}) (members db)))"

definition workspaces_repo_add_member ::
  "env \<Rightarrow> uuid \<Rightarrow> uuid \<Rightarrow> workspace_role \<Rightarrow> db \<Rightarrow> error + workspace_member \<times> db" where
  "workspaces_repo_add_member env w user role db =
     (let m = \<lparr>m_id = fresh env 0, m_workspace_id = w, m_user_id = user, m_role = role,
               m_joined_at = db_now env\<rparr> in
      case flush_insert m_id (uq_workspace_members (members db)) m (members db) of
        Inl e \<Rightarrow> Inl WorkspaceMemberAlreadyExistsError
      | Inr ms \<Rightarrow> Inr (m, db\<lparr>members := ms\<rparr>))"

definition workspaces_repo_update_member_role ::
  "workspace_member \<Rightarrow> workspace_role \<Rightarrow> db \<Rightarrow> error + workspace_member \<times> db" where
  "workspaces_repo_update_member_role m role db =
     bindE (flush_update m_id (\<lambda>_. True) (m_id m)
              (\<lambda>cur. cur\<lparr>m_role := put_if_dirty (m_role m) role (m_role cur)\<rparr>) (members db)) (\<lambda>(m', ms).
     Inr (m', db\<lparr>members := ms\<rparr>))"

definition workspaces_repo_remove_member :: "workspace_member \<Rightarrow> db \<Rightarrow> db" where
  "workspaces_repo_remove_member m db = db\<lparr>members := filter (\<lambda>x. m_id x \<noteq> m_id m) (members db)\<rparr>"

section \<open>The service\<close>

text \<open>\<open>AssignableWorkspaceRole\<close> has no owner, so no request can name that role.\<close>

datatype assignable_role = AR_ADMIN | AR_MEMBER | AR_VIEWER

fun workspace_role_of :: "assignable_role \<Rightarrow> workspace_role" where
  "workspace_role_of AR_ADMIN = ADMIN"
| "workspace_role_of AR_MEMBER = MEMBER"
| "workspace_role_of AR_VIEWER = VIEWER"

record workspace_create_request =
  wc_name :: string
  wc_description :: "string option"

record workspace_update_request =
  wu_name :: "string patch"
  wu_description :: "string patch"

definition WorkspaceCreateRequest :: "workspace_create_request \<Rightarrow> error + workspace_create_request" where
  "WorkspaceCreateRequest b =
     bindE (normalized_field 2 100 (wc_name b)) (\<lambda>name.
     bindE (optional_field normalize_text 500 (wc_description b)) (\<lambda>description.
     Inr \<lparr>wc_name = name, wc_description = description\<rparr>))"

definition WorkspaceUpdateRequest :: "workspace_update_request \<Rightarrow> error + workspace_update_request" where
  "WorkspaceUpdateRequest b =
     bindE (patch_field (normalized_field 2 100) (wu_name b)) (\<lambda>name.
     bindE (patch_optional (optional_field normalize_text 500) (wu_description b)) (\<lambda>description.
     Inr \<lparr>wu_name = name, wu_description = description\<rparr>))"

definition workspace_require_membership ::
  "uuid \<Rightarrow> uuid \<Rightarrow> db \<Rightarrow> error + workspace \<times> workspace_member" where
  "workspace_require_membership user w db =
     bindE (require (workspaces_repo_get_by_id w db) WorkspaceNotFoundError) (\<lambda>ws.
     bindE (require (workspaces_repo_get_membership w user db) WorkspaceNotFoundError) (\<lambda>m.
     Inr (ws, m)))"

definition workspace_require_member :: "uuid \<Rightarrow> uuid \<Rightarrow> db \<Rightarrow> error + workspace_member" where
  "workspace_require_member w user db =
     require (workspaces_repo_get_membership w user db) WorkspaceMemberNotFoundError"

definition workspace_create ::
  "env \<Rightarrow> user \<Rightarrow> workspace_create_request \<Rightarrow> db \<Rightarrow> error + workspace \<times> db" where
  "workspace_create env me payload db =
     workspaces_repo_create env
       \<lparr>w_id = fresh env 0, w_name = wc_name payload, w_description = wc_description payload,
        w_owner_id = u_id me, w_created_at = db_now env, w_updated_at = db_now env\<rparr> db"

definition workspace_list :: "user \<Rightarrow> db \<Rightarrow> workspace list" where
  "workspace_list me db = workspaces_repo_list_for_user (u_id me) db"

definition workspace_get :: "user \<Rightarrow> uuid \<Rightarrow> db \<Rightarrow> error + workspace" where
  "workspace_get me w db = bindE (workspace_require_membership (u_id me) w db) (\<lambda>(ws, _). Inr ws)"

definition workspace_update ::
  "env \<Rightarrow> user \<Rightarrow> uuid \<Rightarrow> workspace_update_request \<Rightarrow> db \<Rightarrow> error + workspace \<times> db" where
  "workspace_update env me w payload db =
     bindE (workspace_require_membership (u_id me) w db) (\<lambda>(ws, m).
     bindE (ensure (can_manage_workspace (m_role m)) WorkspaceAccessDeniedError) (\<lambda>_.
     workspaces_repo_update env ws (patch_value (wu_name payload)) (patch_value (wu_description payload))
       (provided (wu_name payload)) (provided (wu_description payload)) db))"

definition workspace_delete :: "user \<Rightarrow> uuid \<Rightarrow> db \<Rightarrow> error + unit \<times> db" where
  "workspace_delete me w db =
     bindE (workspace_require_membership (u_id me) w db) (\<lambda>(ws, m).
     bindE (ensure (can_delete_workspace (m_role m)) WorkspaceAccessDeniedError) (\<lambda>_.
     bindE (workspaces_repo_delete ws db) (\<lambda>db'. Inr ((), db'))))"

definition workspace_list_members :: "user \<Rightarrow> uuid \<Rightarrow> db \<Rightarrow> error + workspace_member_record list" where
  "workspace_list_members me w db =
     bindE (workspace_require_membership (u_id me) w db) (\<lambda>_.
     Inr (workspaces_repo_list_members w db))"

definition workspace_add_member ::
  "env \<Rightarrow> user \<Rightarrow> uuid \<Rightarrow> string \<Rightarrow> assignable_role \<Rightarrow> db \<Rightarrow> error + workspace_member_record \<times> db" where
  "workspace_add_member env me w email role db =
     bindE (workspace_require_membership (u_id me) w db) (\<lambda>(_, actor).
     bindE (ensure (can_manage_workspace (m_role actor)) WorkspaceAccessDeniedError) (\<lambda>_.
     bindE (require (users_repo_get_by_email (lower email) db) WorkspaceMemberNotFoundError) (\<lambda>user.
     bindE (ensure (u_is_active user) WorkspaceMemberNotFoundError) (\<lambda>_.
     bindE (workspaces_repo_add_member env w (u_id user) (workspace_role_of role) db) (\<lambda>(m, db').
     Inr (\<lparr>wmr_membership = m, wmr_user = user\<rparr>, db'))))))"

definition workspace_update_member_role ::
  "user \<Rightarrow> uuid \<Rightarrow> uuid \<Rightarrow> assignable_role \<Rightarrow> db \<Rightarrow> error + workspace_member_record \<times> db" where
  "workspace_update_member_role me w member role db =
     bindE (workspace_require_membership (u_id me) w db) (\<lambda>(_, actor).
     bindE (workspace_require_member w member db) (\<lambda>target.
     bindE (ensure (m_role target \<noteq> OWNER) WorkspaceOwnerImmutableError) (\<lambda>_.
     bindE (ensure (can_change_member_role (m_role actor) (m_role target)) WorkspaceAccessDeniedError) (\<lambda>_.
     bindE (require (users_repo_get_by_id member db) WorkspaceMemberNotFoundError) (\<lambda>user.
     bindE (workspaces_repo_update_member_role target (workspace_role_of role) db) (\<lambda>(m, db').
     Inr (\<lparr>wmr_membership = m, wmr_user = user\<rparr>, db')))))))"

definition workspace_remove_member :: "user \<Rightarrow> uuid \<Rightarrow> uuid \<Rightarrow> db \<Rightarrow> error + unit \<times> db" where
  "workspace_remove_member me w member db =
     bindE (workspace_require_membership (u_id me) w db) (\<lambda>(_, actor).
     bindE (workspace_require_member w member db) (\<lambda>target.
     bindE (ensure (m_role target \<noteq> OWNER) WorkspaceOwnerImmutableError) (\<lambda>_.
     bindE (ensure (can_remove_member (m_role actor) (m_role target)) WorkspaceAccessDeniedError) (\<lambda>_.
     Inr ((), workspaces_repo_remove_member target db)))))"

section \<open>Membership\<close>

lemmas workspaces_repo_defs =
  workspaces_repo_create_def workspaces_repo_update_def workspaces_repo_delete_def
  workspaces_repo_add_member_def workspaces_repo_update_member_role_def
  workspaces_repo_remove_member_def Let_def

definition membership_inv :: "workspace list \<Rightarrow> workspace_member list \<Rightarrow> bool" where
  "membership_inv ws ms \<longleftrightarrow>
     distinct (map w_id ws) \<and> distinct (map m_id ms) \<and>
     distinct (map (\<lambda>m. (m_workspace_id m, m_user_id m)) ms) \<and>
     (\<forall>m \<in> set ms. m_workspace_id m \<in> w_id ` set ws) \<and>
     (\<forall>w \<in> set ws. \<exists>m \<in> set ms. m_workspace_id m = w_id w \<and> m_user_id m = w_owner_id w) \<and>
     (\<forall>w \<in> set ws. \<forall>m \<in> set ms. m_workspace_id m = w_id w \<longrightarrow>
        (m_role m = OWNER \<longleftrightarrow> m_user_id m = w_owner_id w))"

lemma get_membership_SomeD:
  "workspaces_repo_get_membership w u db = Some m \<Longrightarrow>
     m \<in> set (members db) \<and> m_workspace_id m = w \<and> m_user_id m = u"
  unfolding workspaces_repo_get_membership_def by (drule first_where_SomeD) simp

lemma get_membership_None_iff:
  "workspaces_repo_get_membership w u db = None \<longleftrightarrow>
     (\<forall>m \<in> set (members db). \<not> (m_workspace_id m = w \<and> m_user_id m = u))"
  by (simp add: workspaces_repo_get_membership_def first_where_None_iff)

lemma get_membership_iff:
  assumes "membership_inv (workspaces db) (members db)"
  shows "workspaces_repo_get_membership w u db = Some m \<longleftrightarrow>
     m \<in> set (members db) \<and> m_workspace_id m = w \<and> m_user_id m = u"
proof
  assume m: "m \<in> set (members db) \<and> m_workspace_id m = w \<and> m_user_id m = u"
  show "workspaces_repo_get_membership w u db = Some m"
    unfolding workspaces_repo_get_membership_def
  proof (rule first_where_unique)
    show "x = m" if "x \<in> set (members db)" "m_workspace_id x = w \<and> m_user_id x = u" for x
      using that m assms distinct_key_eq [of "\<lambda>m. (m_workspace_id m, m_user_id m)" "members db" x m]
      by (simp add: membership_inv_def)
  qed (use m in auto)
qed (rule get_membership_SomeD)

lemma require_membership_outsider:
  "workspaces_repo_get_membership w u db = None \<Longrightarrow>
     workspace_require_membership u w db = Inl WorkspaceNotFoundError"
  by (cases "workspaces_repo_get_by_id w db") (simp_all add: workspace_require_membership_def)

lemma require_membership_Inr [simp]:
  "workspace_require_membership u w db = Inr (ws, m) \<longleftrightarrow>
     workspaces_repo_get_by_id w db = Some ws \<and> workspaces_repo_get_membership w u db = Some m"
  by (auto simp: workspace_require_membership_def)

lemma require_member_Inr [simp]:
  "workspace_require_member w u db = Inr m \<longleftrightarrow> workspaces_repo_get_membership w u db = Some m"
  by (simp add: workspace_require_member_def)

lemma workspace_by_id_SomeD:
  "workspaces_repo_get_by_id w db = Some ws \<Longrightarrow> ws \<in> set (workspaces db) \<and> w_id ws = w"
  unfolding workspaces_repo_get_by_id_def by (rule lookup_SomeD)

lemma write_workspace_key [simp]:
  "w_id (write_workspace env old new cur) = w_id cur"
  "w_owner_id (write_workspace env old new cur) = w_owner_id cur"
  by (simp_all add: write_workspace_def)

section \<open>Every operation keeps the invariant\<close>

lemma membership_invD:
  assumes "membership_inv ws ms"
  shows "distinct (map w_id ws)" and "distinct (map m_id ms)"
    and "distinct (map (\<lambda>m. (m_workspace_id m, m_user_id m)) ms)"
    and "m \<in> set ms \<Longrightarrow> m_workspace_id m \<in> w_id ` set ws"
    and "w \<in> set ws \<Longrightarrow> \<exists>m \<in> set ms. m_workspace_id m = w_id w \<and> m_user_id m = w_owner_id w"
    and "w \<in> set ws \<Longrightarrow> m \<in> set ms \<Longrightarrow> m_workspace_id m = w_id w \<Longrightarrow>
           m_role m = OWNER \<longleftrightarrow> m_user_id m = w_owner_id w"
  using assms by (simp_all add: membership_inv_def)

lemma membership_invI:
  assumes "distinct (map w_id ws)" and "distinct (map m_id ms)"
    and "distinct (map (\<lambda>m. (m_workspace_id m, m_user_id m)) ms)"
    and "\<And>m. m \<in> set ms \<Longrightarrow> m_workspace_id m \<in> w_id ` set ws"
    and "\<And>w. w \<in> set ws \<Longrightarrow> \<exists>m \<in> set ms. m_workspace_id m = w_id w \<and> m_user_id m = w_owner_id w"
    and "\<And>w m. w \<in> set ws \<Longrightarrow> m \<in> set ms \<Longrightarrow> m_workspace_id m = w_id w \<Longrightarrow>
           m_role m = OWNER \<longleftrightarrow> m_user_id m = w_owner_id w"
  shows "membership_inv ws ms"
  using assms by (simp add: membership_inv_def)

lemma membership_inv_create:
  assumes inv: "membership_inv ws ms" and new: "w_id w \<notin> w_id ` set ws" "m_id m \<notin> m_id ` set ms"
    and m: "m_workspace_id m = w_id w" "m_user_id m = w_owner_id w" "m_role m = OWNER"
  shows "membership_inv (ws @ [w]) (ms @ [m])"
proof (rule membership_invI)
  have old: "m_workspace_id x \<noteq> w_id w" if "x \<in> set ms" for x
    using membership_invD(4) [OF inv that] new by auto
  then show "distinct (map (\<lambda>m. (m_workspace_id m, m_user_id m)) (ms @ [m]))"
    using membership_invD(3) [OF inv] m by (auto dest: old)
  show "m_role x = OWNER \<longleftrightarrow> m_user_id x = w_owner_id y"
    if "y \<in> set (ws @ [w])" "x \<in> set (ms @ [m])" "m_workspace_id x = w_id y" for x y
    using that m new old membership_invD(6) [OF inv, of y x] by auto
  show "\<exists>x \<in> set (ms @ [m]). m_workspace_id x = w_id y \<and> m_user_id x = w_owner_id y"
    if "y \<in> set (ws @ [w])" for y
    using that m membership_invD(5) [OF inv, of y] by auto
qed (use membership_invD(1,2,4) [OF inv] new m in auto)

lemma membership_inv_store_workspace:
  assumes inv: "membership_inv ws ms" and cur: "lookup w_id i ws = Some cur"
    and w: "w_id w = w_id cur" "w_owner_id w = w_owner_id cur"
  shows "membership_inv (store w_id w ws) ms"
proof (rule membership_invI)
  have c: "cur \<in> set ws" using cur by (auto dest: lookup_SomeD)
  have like: "\<exists>y \<in> set ws. w_id y = w_id x \<and> w_owner_id y = w_owner_id x" if "x \<in> set (store w_id w ws)" for x
    using mem_storeD [OF that] c w by auto
  show "\<exists>m \<in> set ms. m_workspace_id m = w_id x \<and> m_user_id m = w_owner_id x"
    if "x \<in> set (store w_id w ws)" for x
    using like [OF that] membership_invD(5) [OF inv] by metis
  show "m_role m = OWNER \<longleftrightarrow> m_user_id m = w_owner_id x"
    if "x \<in> set (store w_id w ws)" "m \<in> set ms" "m_workspace_id m = w_id x" for x m
    using like [OF that(1)] that(2,3) membership_invD(6) [OF inv] by metis
qed (use membership_invD [OF inv] in simp_all)

lemma membership_inv_add:
  assumes inv: "membership_inv ws ms" and new: "m_id m \<notin> m_id ` set ms" "uq_workspace_members ms m"
    and m: "m_workspace_id m \<in> w_id ` set ws" "m_role m \<noteq> OWNER"
  shows "membership_inv ws (ms @ [m])"
proof (rule membership_invI)
  have other: "m_user_id m \<noteq> w_owner_id w" if "w \<in> set ws" "m_workspace_id m = w_id w" for w
    using membership_invD(5) [OF inv that(1)] that(2) new(2)
    by (force simp: uq_workspace_members_def)
  show "m_role x = OWNER \<longleftrightarrow> m_user_id x = w_owner_id w"
    if "w \<in> set ws" "x \<in> set (ms @ [m])" "m_workspace_id x = w_id w" for x w
    using that m other membership_invD(6) [OF inv, of w x] by auto
  show "\<exists>x \<in> set (ms @ [m]). m_workspace_id x = w_id w \<and> m_user_id x = w_owner_id w" if "w \<in> set ws" for w
    using membership_invD(5) [OF inv that] by auto
qed (use membership_invD(1-4) [OF inv] new m in \<open>auto simp: uq_workspace_members_def\<close>)

lemma membership_inv_role:
  assumes inv: "membership_inv ws ms" and m: "m \<in> set ms" "m_role m \<noteq> OWNER" and r: "r \<noteq> OWNER"
  shows "membership_inv ws (store m_id (m\<lparr>m_role := r\<rparr>) ms)"
proof (rule membership_invI)
  let ?ms = "store m_id (m\<lparr>m_role := r\<rparr>) ms"
  have same: "x = m" if "x \<in> set ms" "m_id x = m_id m" for x
    using distinct_key_eq [OF membership_invD(2) [OF inv]] that m by simp
  have "map (\<lambda>m. (m_workspace_id m, m_user_id m)) ?ms = map (\<lambda>m. (m_workspace_id m, m_user_id m)) ms"
    by (rule map_store_same) (auto dest: same)
  then show "distinct (map (\<lambda>m. (m_workspace_id m, m_user_id m)) ?ms)"
    using membership_invD(3) [OF inv] by simp
  show "\<exists>x \<in> set ?ms. m_workspace_id x = w_id w \<and> m_user_id x = w_owner_id w" if w: "w \<in> set ws" for w
  proof -
    obtain x where x: "x \<in> set ms" "m_workspace_id x = w_id w" "m_user_id x = w_owner_id w"
      using membership_invD(5) [OF inv w] by blast
    then have "x \<noteq> m" using membership_invD(6) [OF inv w, of m] m by auto
    then have "x \<in> set ?ms" using x same by (auto simp: set_store)
    with x show ?thesis by blast
  qed
  show "m_role x = OWNER \<longleftrightarrow> m_user_id x = w_owner_id w"
    if "w \<in> set ws" "x \<in> set ?ms" "m_workspace_id x = w_id w" for w x
    using mem_storeD [OF that(2)] that(1,3) membership_invD(6) [OF inv that(1)] m r by auto
  show "m_workspace_id x \<in> w_id ` set ws" if "x \<in> set ?ms" for x
    using mem_storeD [OF that] membership_invD(4) [OF inv] m(1) by auto
qed (use membership_invD(1,2) [OF inv] in simp_all)

lemma membership_inv_remove:
  assumes inv: "membership_inv ws ms" and m: "m \<in> set ms" "m_role m \<noteq> OWNER"
  shows "membership_inv ws (filter (\<lambda>x. m_id x \<noteq> m_id m) ms)"
proof (rule membership_invI)
  show "\<exists>x \<in> set (filter (\<lambda>x. m_id x \<noteq> m_id m) ms). m_workspace_id x = w_id w \<and> m_user_id x = w_owner_id w"
    if w: "w \<in> set ws" for w
  proof -
    obtain x where x: "x \<in> set ms" "m_workspace_id x = w_id w" "m_user_id x = w_owner_id w"
      using membership_invD(5) [OF inv w] by blast
    then have "x \<noteq> m" using membership_invD(6) [OF inv w, of m] m by auto
    then have "m_id x \<noteq> m_id m" using distinct_key_eq [OF membership_invD(2) [OF inv]] x m by blast
    with x show ?thesis by auto
  qed
qed (use membership_invD [OF inv] in \<open>auto intro: distinct_map_filter\<close>)

lemma membership_inv_delete:
  assumes inv: "membership_inv ws ms"
  shows "membership_inv (filter (\<lambda>x. w_id x \<noteq> w) ws) (filter (\<lambda>m. m_workspace_id m \<noteq> w) ms)"
proof (rule membership_invI)
  show "\<exists>m \<in> set (filter (\<lambda>m. m_workspace_id m \<noteq> w) ms). m_workspace_id m = w_id x \<and> m_user_id m = w_owner_id x"
    if "x \<in> set (filter (\<lambda>x. w_id x \<noteq> w) ws)" for x
    using that membership_invD(5) [OF inv, of x] by auto
  show "m_workspace_id m \<in> w_id ` set (filter (\<lambda>x. w_id x \<noteq> w) ws)"
    if "m \<in> set (filter (\<lambda>m. m_workspace_id m \<noteq> w) ms)" for m
    using that membership_invD(4) [OF inv, of m] by force
qed (use membership_invD [OF inv] in \<open>auto intro: distinct_map_filter\<close>)

section \<open>The steps of the component\<close>

inductive workspace_step :: "db \<Rightarrow> db \<Rightarrow> bool" where
  create: "workspace_create env me p db = Inr (r, db') \<Longrightarrow> workspace_step db db'"
| update: "workspace_update env me w p' db = Inr (r, db') \<Longrightarrow> workspace_step db db'"
| delete: "workspace_delete me w db = Inr (u, db') \<Longrightarrow> workspace_step db db'"
| add_member: "workspace_add_member env me w email role db = Inr (mr, db') \<Longrightarrow> workspace_step db db'"
| update_member_role:
    "workspace_update_member_role me w member role db = Inr (mr, db') \<Longrightarrow> workspace_step db db'"
| remove_member: "workspace_remove_member me w member db = Inr (u, db') \<Longrightarrow> workspace_step db db'"

inductive_cases workspace_stepE: "workspace_step db db'"

lemma workspace_of_member:
  "workspaces_repo_get_by_id w db = Some ws \<Longrightarrow> w \<in> w_id ` set (workspaces db)"
  by (auto dest!: workspace_by_id_SomeD)

lemma workspaces_repo_update_InrD:
  "workspaces_repo_update env w n d un ud db = Inr (w', db') \<Longrightarrow>
     \<exists>cur new. lookup w_id (w_id w) (workspaces db) = Some cur \<and> w' = write_workspace env w new cur \<and>
       db' = db\<lparr>workspaces := store w_id w' (workspaces db)\<rparr>"
  by (auto simp: workspaces_repo_update_def Let_def)

lemma role_of_not_owner [simp]: "workspace_role_of r \<noteq> OWNER"
  by (cases r) simp_all

lemma workspace_step_membership:
  assumes "workspace_step db db'" and inv: "membership_inv (workspaces db) (members db)"
  shows "membership_inv (workspaces db') (members db')"
  using assms(1)
proof cases
  case (create env me p r)
  then show ?thesis
    using inv by (auto simp: workspace_create_def workspaces_repo_defs intro!: membership_inv_create)
next
  case (update env me w p' r)
  then obtain ws cur new where cur: "lookup w_id (w_id ws) (workspaces db) = Some cur"
    and db': "db' = db\<lparr>workspaces := store w_id (write_workspace env ws new cur) (workspaces db)\<rparr>"
    by (auto simp: workspace_update_def dest!: workspaces_repo_update_InrD)
  show ?thesis
    using membership_inv_store_workspace [OF inv cur] by (simp add: db')
next
  case (delete me w u)
  then show ?thesis
    using inv by (auto simp: workspace_delete_def workspaces_repo_defs delete_workspace_row_def
        intro: membership_inv_delete)
next
  case (add_member env me w email role mr)
  then show ?thesis
    using inv by (auto simp: workspace_add_member_def workspaces_repo_defs split: sum.splits
        intro!: membership_inv_add workspace_of_member split: if_splits)
next
  case (update_member_role me w member role mr)
  then obtain m ms where "workspaces_repo_get_membership w member db = Some m" "m_role m \<noteq> OWNER"
    "lookup m_id (m_id m) (members db) = Some ms" 
    and db': "workspaces db' = workspaces db"
      "members db' = store m_id (ms\<lparr>m_role := put_if_dirty (m_role m) (workspace_role_of role) (m_role ms)\<rparr>) (members db)"
    by (auto simp: workspace_update_member_role_def workspaces_repo_defs)
  moreover have "ms = m"
    using calculation inv distinct_key_eq [of m_id "members db" ms m]
    by (auto simp: membership_inv_def dest!: get_membership_SomeD lookup_SomeD)
  ultimately show ?thesis
    using membership_inv_role [OF inv] by (auto dest!: get_membership_SomeD)
next
  case (remove_member me w member u)
  then show ?thesis
    using inv by (auto simp: workspace_remove_member_def workspaces_repo_defs
        dest!: get_membership_SomeD intro: membership_inv_remove)
qed

text \<open>The operations of the service, for statements about all of them.\<close>

lemmas workspace_ops = workspace_get_def workspace_update_def workspace_delete_def workspace_list_members_def workspace_add_member_def workspace_update_member_role_def workspace_remove_member_def

end
