(* ===== verification/Integration_Outbox.thy ===== *)
theory Integration_Outbox imports Data_Model begin

text \<open>
  The transactional outbox (\<open>IntegrationEventEmitter\<close> of \<open>app/services/integration_delivery.py\<close>
  and \<open>stage_outbox_event\<close> of \<open>app/repositories/integration.py\<close>): a service stages an event in
  the session of its own transaction and hands the event's id to the broker once the commit has
  succeeded. \<open>uq_integration_outbox_events_type_id\<close> admits one event per type and source.
\<close>

definition stage_outbox_event ::
  "env \<Rightarrow> uuid \<Rightarrow> uuid \<Rightarrow> integration_event_type \<Rightarrow> uuid \<Rightarrow> json \<Rightarrow> time \<Rightarrow> db
     \<Rightarrow> error + integration_outbox_event \<times> db" where
  "stage_outbox_event env new_id w ty source payload available_at db =
     (let x = \<lparr>x_id = new_id, x_workspace_id = w, x_event_type = ty, x_event_id = source,
               x_payload = payload, x_status = X_PENDING, x_attempt_count = 0,
               x_available_at = available_at, x_processed_at = None, x_last_error = None,
               x_created_at = db_now env, x_updated_at = db_now env\<rparr> in
      bindE (flush_insert x_id (uq_outbox (outbox db)) x (outbox db)) (\<lambda>xs.
      Inr (x, db\<lparr>outbox := xs\<rparr>)))"

definition emitter_stage ::
  "env \<Rightarrow> uuid \<Rightarrow> uuid \<Rightarrow> integration_event_type \<Rightarrow> uuid \<Rightarrow> json \<Rightarrow> db
     \<Rightarrow> error + integration_outbox_event \<times> db" where
  "emitter_stage env new_id w ty source payload db =
     stage_outbox_event env new_id w ty source payload (now env) db"

definition emitter_publish :: "integration_outbox_event \<Rightarrow> db \<Rightarrow> db" where
  "emitter_publish x db = db\<lparr>published := published db @ [x_id x]\<rparr>"

text \<open>
  \<open>with_event b stage commit\<close>: stage, run the rest of the transaction, publish after the commit;
  without an event only the rest runs.
\<close>

definition with_event ::
  "bool \<Rightarrow> (db \<Rightarrow> error + integration_outbox_event \<times> db) \<Rightarrow> (db \<Rightarrow> error + 'a \<times> db) \<Rightarrow> db
     \<Rightarrow> error + 'a \<times> db" where
  "with_event b stage commit db =
     (if b then
        bindE (stage db) (\<lambda>(x, db1).
        bindE (commit db1) (\<lambda>(r, db2).
        Inr (r, emitter_publish x db2)))
      else commit db)"

text \<open>The event a stage adds, and what it adds it to.\<close>

definition staged :: "integration_event_type \<Rightarrow> uuid \<Rightarrow> integration_outbox_event list \<Rightarrow> bool" where
  "staged ty source xs \<longleftrightarrow> (\<exists>x \<in> set xs. x_event_type x = ty \<and> x_event_id x = source)"

lemma emitter_stage_Inr:
  "emitter_stage env i w ty src payload db = Inr (x, db') \<longleftrightarrow>
     i \<notin> x_id ` set (outbox db) \<and> \<not> staged ty src (outbox db) \<and>
     x = \<lparr>x_id = i, x_workspace_id = w, x_event_type = ty, x_event_id = src,
          x_payload = payload, x_status = X_PENDING, x_attempt_count = 0, x_available_at = now env,
          x_processed_at = None, x_last_error = None, x_created_at = db_now env,
          x_updated_at = db_now env\<rparr> \<and>
     db' = db\<lparr>outbox := outbox db @ [x]\<rparr>"
  by (auto simp: emitter_stage_def stage_outbox_event_def uq_outbox_def staged_def Let_def)

lemma with_event_True:
  "with_event True stage commit db = Inr (r, db') \<longleftrightarrow>
     (\<exists>x db1 db2. stage db = Inr (x, db1) \<and> commit db1 = Inr (r, db2) \<and> db' = emitter_publish x db2)"
  by (auto simp: with_event_def split: prod.splits)

lemma with_event_False [simp]: "with_event False stage commit db = commit db"
  by (simp add: with_event_def)

lemma staged_append [simp]:
  "staged ty s (xs @ [x]) \<longleftrightarrow> staged ty s xs \<or> (x_event_type x = ty \<and> x_event_id x = s)"
  by (auto simp: staged_def)

lemma staged_Nil [simp]: "\<not> staged ty s []"
  by (simp add: staged_def)

text \<open>
  What a service operation with an event leaves behind: nothing without an emitter, otherwise one
  pending outbox row of a type and source not staged before, and its id with the broker.
\<close>

definition emitted ::
  "bool \<Rightarrow> uuid \<Rightarrow> integration_event_type \<Rightarrow> uuid \<Rightarrow> json \<Rightarrow> db \<Rightarrow> db \<Rightarrow> bool" where
  "emitted b w ty source payload db db' \<longleftrightarrow>
     (if b then \<not> staged ty source (outbox db) \<and>
        (\<exists>x. x_workspace_id x = w \<and> x_event_type x = ty \<and> x_event_id x = source \<and> x_payload x = payload \<and>
           x_status x = X_PENDING \<and> x_id x \<notin> x_id ` set (outbox db) \<and>
           outbox db' = outbox db @ [x] \<and> published db' = published db @ [x_id x])
      else outbox db' = outbox db \<and> published db' = published db)"

lemma with_event_InrD:
  assumes run: "with_event b (emitter_stage env i w ty source payload) commit db = Inr (r, db')"
    and frame: "\<And>db1 r db2. commit db1 = Inr (r, db2) \<Longrightarrow> outbox db2 = outbox db1 \<and> published db2 = published db1"
  obtains xs ys db2 where "commit (db\<lparr>outbox := xs\<rparr>) = Inr (r, db2)" and "db' = db2\<lparr>published := ys\<rparr>"
    and "emitted b w ty source payload db db'"
proof (cases b)
  case True
  with run have "with_event True (emitter_stage env i w ty source payload) commit db = Inr (r, db')" by simp
  then obtain x db1 db2 where st: "emitter_stage env i w ty source payload db = Inr (x, db1)"
    and c1: "commit db1 = Inr (r, db2)" and db': "db' = emitter_publish x db2"
    unfolding with_event_True by blast
  from st have x: "x_workspace_id x = w" "x_event_type x = ty" "x_event_id x = source"
      "x_payload x = payload" "x_status x = X_PENDING" "x_id x \<notin> x_id ` set (outbox db)"
      "\<not> staged ty source (outbox db)" and db1: "db1 = db\<lparr>outbox := outbox db @ [x]\<rparr>"
    unfolding emitter_stage_Inr by auto
  have c: "commit (db\<lparr>outbox := outbox db @ [x]\<rparr>) = Inr (r, db2)" using c1 db1 by simp
  have "emitted b w ty source payload db db'"
    using True x frame [OF c] by (auto simp: emitted_def db' emitter_publish_def)
  then show thesis by (rule that [OF c, rotated]) (simp add: db' emitter_publish_def)
next
  case False
  then have c: "commit (db\<lparr>outbox := outbox db\<rparr>) = Inr (r, db')" using run by simp
  have "emitted b w ty source payload db db'" using False frame [OF c] by (simp add: emitted_def)
  then show thesis by (intro that [OF c, of "published db'"]) simp_all
qed

text \<open>An outbox in which types and sources are unique stays so, and only grows.\<close>

definition outbox_inv :: "integration_outbox_event list \<Rightarrow> bool" where
  "outbox_inv xs \<longleftrightarrow> distinct (map x_id xs) \<and> distinct (map (\<lambda>x. (x_event_type x, x_event_id x)) xs)"

lemma emitted_inv: "emitted b w ty source payload db db' \<Longrightarrow> outbox_inv (outbox db) \<Longrightarrow> outbox_inv (outbox db')"
  by (fastforce simp: emitted_def outbox_inv_def staged_def split: if_splits)

lemma outbox_inv_filter: "outbox_inv xs \<Longrightarrow> outbox_inv (filter P xs)"
  by (auto simp: outbox_inv_def intro: distinct_map_filter)

lemma emitted_staged:
  "emitted b w ty source payload db db' \<Longrightarrow>
     staged t s (outbox db') \<longleftrightarrow> staged t s (outbox db) \<or> (b \<and> t = ty \<and> s = source)"
  by (auto simp: emitted_def split: if_splits)

end
