(* ===== verification/Decisions.thy ===== *)
theory Decisions imports Workspaces Requests Integration_Outbox begin

text \<open>
  The decision record: \<open>app/schemas/decision.py\<close>, \<open>app/repositories/decision.py\<close> and
  \<open>app/services/decision.py\<close>. The life cycle is the table \<open>ALLOWED_TRANSITIONS\<close>; locking is not in
  it, a lock is the business of \<open>Locks\<close>.
\<close>

section \<open>Requests\<close>

record decision_create_body =
  dcb_title :: string
  dcb_summary :: "string option"
  dcb_category :: decision_category
  dcb_due_at :: "datetime option"
  dcb_review_at :: "datetime option"

record decision_create_request =
  dc_title :: string
  dc_summary :: "string option"
  dc_category :: decision_category
  dc_due_at :: "time option"
  dc_review_at :: "time option"

definition schedule_ok :: "time option \<Rightarrow> time option \<Rightarrow> bool" where
  "schedule_ok due_at review_at \<longleftrightarrow>
     \<not> (\<exists>d r. due_at = Some d \<and> review_at = Some r \<and> r \<le> d)"

lemma schedule_ok_code [code, simp]:
  "schedule_ok None r = True" "schedule_ok d None = True" "schedule_ok (Some d') (Some r') = (d' < r')"
  by (auto simp: schedule_ok_def)

definition DecisionCreateRequest :: "decision_create_body \<Rightarrow> error + decision_create_request" where
  "DecisionCreateRequest b =
     bindE (normalized_field 3 200 (dcb_title b)) (\<lambda>title.
     bindE (optional_field py_strip 5000 (dcb_summary b)) (\<lambda>summary.
     bindE (require_timezone (dcb_due_at b)) (\<lambda>due_at.
     bindE (require_timezone (dcb_review_at b)) (\<lambda>review_at.
     bindE (ensure (schedule_ok due_at review_at) ValidationError) (\<lambda>_.
     Inr \<lparr>dc_title = title, dc_summary = summary, dc_category = dcb_category b, dc_due_at = due_at,
          dc_review_at = review_at\<rparr>)))))"

record decision_update_body =
  dub_title :: "string patch"
  dub_summary :: "string patch"
  dub_category :: "decision_category patch"
  dub_due_at :: "datetime patch"
  dub_review_at :: "datetime patch"

record decision_update_request =
  du_title :: "string patch"
  du_summary :: "string patch"
  du_category :: "decision_category patch"
  du_due_at :: "time patch"
  du_review_at :: "time patch"

definition DecisionUpdateRequest :: "decision_update_body \<Rightarrow> error + decision_update_request" where
  "DecisionUpdateRequest b =
     bindE (patch_field (normalized_field 3 200) (dub_title b)) (\<lambda>title.
     bindE (patch_optional (optional_field py_strip 5000) (dub_summary b)) (\<lambda>summary.
     bindE (patch_optional require_timezone (dub_due_at b)) (\<lambda>due_at.
     bindE (patch_optional require_timezone (dub_review_at b)) (\<lambda>review_at.
     Inr \<lparr>du_title = title, du_summary = summary, du_category = dub_category b, du_due_at = due_at,
          du_review_at = review_at\<rparr>))))"

section \<open>The repository\<close>

definition decisions_repo_create :: "decision \<Rightarrow> db \<Rightarrow> error + decision \<times> db" where
  "decisions_repo_create d db =
     bindE (flush_insert d_id ck_decisions_locked_state d (decisions db)) (\<lambda>ds.
     Inr (d, db\<lparr>decisions := ds\<rparr>))"

definition decisions_repo_list_for_workspace ::
  "uuid \<Rightarrow> decision_status option \<Rightarrow> decision_category option \<Rightarrow> nat \<Rightarrow> nat \<Rightarrow> db \<Rightarrow> decision list" where
  "decisions_repo_list_for_workspace w status category limit offset db =
     take limit (drop offset (sort_key (\<lambda>d. - d_updated_at d)
       (filter (\<lambda>d. d_workspace_id d = w \<and> (\<forall>s \<in> set_option status. d_status d = s) \<and>
                  (\<forall>c \<in> set_option category. d_category d = c)) (decisions db))))"

definition decision_for_workspace :: "uuid \<Rightarrow> uuid \<Rightarrow> decision list \<Rightarrow> decision option" where
  "decision_for_workspace w i ds = first_where (\<lambda>d. d_id d = i \<and> d_workspace_id d = w) ds"

definition decisions_repo_get_for_workspace :: "uuid \<Rightarrow> uuid \<Rightarrow> db \<Rightarrow> decision option" where
  "decisions_repo_get_for_workspace w i db = decision_for_workspace w i (decisions db)"

interpretation decision_table: scoped_table d_id d_workspace_id decision_for_workspace
  by unfold_locales (auto simp: decision_for_workspace_def first_where_None_iff dest!: first_where_SomeD)

definition write_decision :: "env \<Rightarrow> decision \<Rightarrow> decision \<Rightarrow> decision \<Rightarrow> decision" where
  "write_decision env old new cur =
     (if new = old then cur
      else cur\<lparr>d_title := put_if_dirty (d_title old) (d_title new) (d_title cur),
               d_summary := put_if_dirty (d_summary old) (d_summary new) (d_summary cur),
               d_category := put_if_dirty (d_category old) (d_category new) (d_category cur),
               d_status := put_if_dirty (d_status old) (d_status new) (d_status cur),
               d_due_at := put_if_dirty (d_due_at old) (d_due_at new) (d_due_at cur),
               d_review_at := put_if_dirty (d_review_at old) (d_review_at new) (d_review_at cur),
               d_closed_at := put_if_dirty (d_closed_at old) (d_closed_at new) (d_closed_at cur),
               d_archived_at := put_if_dirty (d_archived_at old) (d_archived_at new) (d_archived_at cur),
               d_locked_at := put_if_dirty (d_locked_at old) (d_locked_at new) (d_locked_at cur),
               d_updated_at := db_now env\<rparr>)"

definition save_decision :: "env \<Rightarrow> decision \<Rightarrow> decision \<Rightarrow> db \<Rightarrow> error + decision \<times> db" where
  "save_decision env old new db =
     bindE (flush_update d_id ck_decisions_locked_state (d_id old) (write_decision env old new) (decisions db))
       (\<lambda>(d, ds). Inr (d, db\<lparr>decisions := ds\<rparr>))"

text \<open>The \<open>values\<close> the service hands to \<open>update\<close> are the assignments, as a function.\<close>

definition decisions_repo_update ::
  "env \<Rightarrow> decision \<Rightarrow> (decision \<Rightarrow> decision) \<Rightarrow> db \<Rightarrow> error + decision \<times> db" where
  "decisions_repo_update env d values db = save_decision env d (values d) db"

definition decisions_repo_transition ::
  "env \<Rightarrow> decision \<Rightarrow> decision_status \<Rightarrow> time option \<Rightarrow> time option \<Rightarrow> db \<Rightarrow> error + decision \<times> db" where
  "decisions_repo_transition env d status closed_at archived_at db =
     save_decision env d (d\<lparr>d_status := status, d_closed_at := closed_at, d_archived_at := archived_at\<rparr>) db"

definition decisions_repo_delete :: "decision \<Rightarrow> db \<Rightarrow> error + db" where
  "decisions_repo_delete d db = delete_decision_row (d_id d) db"

section \<open>The service\<close>

fun decision_ALLOWED_TRANSITIONS :: "decision_status \<Rightarrow> decision_status set" where
  "decision_ALLOWED_TRANSITIONS D_DRAFT = {D_ACTIVE, D_ARCHIVED}"
| "decision_ALLOWED_TRANSITIONS D_ACTIVE = {D_CLOSED, D_ARCHIVED}"
| "decision_ALLOWED_TRANSITIONS D_CLOSED = {D_ACTIVE, D_ARCHIVED}"
| "decision_ALLOWED_TRANSITIONS D_LOCKED = {}"
| "decision_ALLOWED_TRANSITIONS D_ARCHIVED = {}"

definition decision_EDITABLE_STATUSES :: "decision_status set" where
  "decision_EDITABLE_STATUSES = {D_DRAFT, D_ACTIVE}"

definition decision_final :: "decision_status \<Rightarrow> bool" where
  "decision_final s \<longleftrightarrow> s \<in> {D_LOCKED, D_ARCHIVED}"

interpretation decision_cycle: lifecycle decision_ALLOWED_TRANSITIONS decision_final
proof
  show "decision_final s \<longleftrightarrow> decision_ALLOWED_TRANSITIONS s = {}" for s
    by (cases s) (simp_all add: decision_final_def)
  show "s \<notin> decision_ALLOWED_TRANSITIONS s" for s by (cases s) simp_all
qed

definition decision_require_membership :: "uuid \<Rightarrow> uuid \<Rightarrow> db \<Rightarrow> error + workspace_member" where
  "decision_require_membership user w db =
     bindE (require (workspaces_repo_get_by_id w db) WorkspaceNotFoundError) (\<lambda>_.
     require (workspaces_repo_get_membership w user db) WorkspaceNotFoundError)"

definition require_decision :: "uuid \<Rightarrow> uuid \<Rightarrow> db \<Rightarrow> error + decision" where
  "require_decision w i db = require (decisions_repo_get_for_workspace w i db) DecisionNotFoundError"

definition decision_create ::
  "env \<Rightarrow> user \<Rightarrow> uuid \<Rightarrow> decision_create_request \<Rightarrow> db \<Rightarrow> error + decision \<times> db" where
  "decision_create env me w payload db =
     bindE (decision_require_membership (u_id me) w db) (\<lambda>m.
     bindE (ensure (can_write_decisions (m_role m)) DecisionAccessDeniedError) (\<lambda>_.
     decisions_repo_create
       \<lparr>d_id = fresh env 0, d_workspace_id = w, d_created_by_id = u_id me, d_title = dc_title payload,
        d_summary = dc_summary payload, d_category = dc_category payload, d_status = D_DRAFT,
        d_due_at = dc_due_at payload, d_review_at = dc_review_at payload, d_closed_at = None,
        d_archived_at = None, d_locked_at = None, d_created_at = db_now env, d_updated_at = db_now env\<rparr> db))"

definition decision_list ::
  "user \<Rightarrow> uuid \<Rightarrow> decision_status option \<Rightarrow> decision_category option \<Rightarrow> nat \<Rightarrow> nat \<Rightarrow> db
     \<Rightarrow> error + decision list" where
  "decision_list me w status category limit offset db =
     bindE (decision_require_membership (u_id me) w db) (\<lambda>_.
     Inr (decisions_repo_list_for_workspace w status category limit offset db))"

definition decision_get :: "user \<Rightarrow> uuid \<Rightarrow> uuid \<Rightarrow> db \<Rightarrow> error + decision" where
  "decision_get me w i db =
     bindE (decision_require_membership (u_id me) w db) (\<lambda>_. require_decision w i db)"

definition decision_update ::
  "env \<Rightarrow> user \<Rightarrow> uuid \<Rightarrow> uuid \<Rightarrow> decision_update_request \<Rightarrow> db \<Rightarrow> error + decision \<times> db" where
  "decision_update env me w i payload db =
     bindE (decision_require_membership (u_id me) w db) (\<lambda>m.
     bindE (ensure (can_write_decisions (m_role m)) DecisionAccessDeniedError) (\<lambda>_.
     bindE (require_decision w i db) (\<lambda>d.
     bindE (ensure (d_status d \<in> decision_EDITABLE_STATUSES) DecisionImmutableError) (\<lambda>_.
     let due_at = patch_nullable (du_due_at payload) (d_due_at d);
         review_at = patch_nullable (du_review_at payload) (d_review_at d) in
     bindE (ensure (schedule_ok due_at review_at) DecisionInvalidTransitionError) (\<lambda>_.
     decisions_repo_update env d (\<lambda>d. d\<lparr>
       d_title := patch_required (du_title payload) (d_title d),
       d_summary := patch_nullable (du_summary payload) (d_summary d),
       d_category := patch_required (du_category payload) (d_category d),
       d_due_at := patch_nullable (du_due_at payload) (d_due_at d),
       d_review_at := patch_nullable (du_review_at payload) (d_review_at d)\<rparr>) db)))))"

definition decision_activated_payload :: "env \<Rightarrow> user \<Rightarrow> uuid \<Rightarrow> decision \<Rightarrow> json" where
  "decision_activated_payload env me w d = JObj
     [(''workspace_id'', JStr (uuid_str w)), (''decision_id'', JStr (uuid_str (d_id d))),
      (''decision_title'', JStr (d_title d)), (''actor_id'', JStr (uuid_str (u_id me))),
      (''actor_name'', JStr (u_display_name me)), (''activated_at'', JStr (isoformat (now env)))]"

definition decision_transition ::
  "env \<Rightarrow> user \<Rightarrow> uuid \<Rightarrow> uuid \<Rightarrow> decision_status \<Rightarrow> db \<Rightarrow> error + decision \<times> db" where
  "decision_transition env me w i target db =
     bindE (decision_require_membership (u_id me) w db) (\<lambda>m.
     bindE (ensure (can_write_decisions (m_role m)) DecisionAccessDeniedError) (\<lambda>_.
     bindE (require_decision w i db) (\<lambda>d.
     bindE (ensure (d_status d \<noteq> D_LOCKED) DecisionImmutableError) (\<lambda>_.
     bindE (ensure (target \<in> decision_ALLOWED_TRANSITIONS (d_status d)) DecisionInvalidTransitionError) (\<lambda>_.
     let closed_at = (if target = D_CLOSED then Some (now env) else None);
         archived_at = (if target = D_ARCHIVED then Some (now env) else None) in
     with_event (emitter env \<and> d_status d = D_DRAFT \<and> target = D_ACTIVE)
       (emitter_stage env (fresh env 0) w DECISION_ACTIVATED (d_id d) (decision_activated_payload env me w d))
       (decisions_repo_transition env d target closed_at archived_at) db)))))"

definition decision_delete :: "user \<Rightarrow> uuid \<Rightarrow> uuid \<Rightarrow> db \<Rightarrow> error + unit \<times> db" where
  "decision_delete me w i db =
     bindE (decision_require_membership (u_id me) w db) (\<lambda>m.
     bindE (ensure (can_delete_decisions (m_role m)) DecisionAccessDeniedError) (\<lambda>_.
     bindE (require_decision w i db) (\<lambda>d.
     bindE (ensure (d_status d = D_DRAFT) DecisionImmutableError) (\<lambda>_.
     bindE (decisions_repo_delete d db) (\<lambda>db'. Inr ((), db'))))))"

text \<open>
  The proposal, voting and lock services start with the same three queries, each in a method
  \<open>_context\<close> of its own.
\<close>

definition decision_context :: "uuid \<Rightarrow> uuid \<Rightarrow> uuid \<Rightarrow> db \<Rightarrow> error + workspace_member \<times> decision" where
  "decision_context user w i db =
     bindE (require (workspaces_repo_get_by_id w db) WorkspaceNotFoundError) (\<lambda>_.
     bindE (require (workspaces_repo_get_membership w user db) WorkspaceNotFoundError) (\<lambda>m.
     bindE (require (decisions_repo_get_for_workspace w i db) DecisionNotFoundError) (\<lambda>d.
     Inr (m, d))))"

section \<open>What the operations do\<close>

lemma decision_context_Inr [simp]:
  "decision_context u w i db = Inr (m, d) \<longleftrightarrow>
     workspaces_repo_get_by_id w db \<noteq> None \<and> workspaces_repo_get_membership w u db = Some m \<and>
     decisions_repo_get_for_workspace w i db = Some d"
  by (auto simp: decision_context_def)

lemma decision_context_outsider:
  "workspaces_repo_get_membership w u db = None \<Longrightarrow> decision_context u w i db = Inl WorkspaceNotFoundError"
  by (cases "workspaces_repo_get_by_id w db") (simp_all add: decision_context_def)

lemma decision_context_missing:
  "workspaces_repo_get_by_id w db \<noteq> None \<Longrightarrow> workspaces_repo_get_membership w u db \<noteq> None \<Longrightarrow>
   decisions_repo_get_for_workspace w i db = None \<Longrightarrow> decision_context u w i db = Inl DecisionNotFoundError"
  by (auto simp: decision_context_def)

lemma decision_require_membership_Inr [simp]:
  "decision_require_membership u w db = Inr m \<longleftrightarrow>
     workspaces_repo_get_by_id w db \<noteq> None \<and> workspaces_repo_get_membership w u db = Some m"
  by (auto simp: decision_require_membership_def)

lemma decision_require_membership_outsider:
  "workspaces_repo_get_membership w u db = None \<Longrightarrow>
     decision_require_membership u w db = Inl WorkspaceNotFoundError"
  by (cases "workspaces_repo_get_by_id w db") (simp_all add: decision_require_membership_def)

lemma require_decision_Inr [simp]:
  "require_decision w i db = Inr d \<longleftrightarrow> decisions_repo_get_for_workspace w i db = Some d"
  by (simp add: require_decision_def)

lemma decision_getD:
  "decisions_repo_get_for_workspace w i db = Some d \<Longrightarrow>
     d \<in> set (decisions db) \<and> d_id d = i \<and> d_workspace_id d = w"
  unfolding decisions_repo_get_for_workspace_def by (rule decision_table.get_Some)

lemma decision_get_lookup:
  "distinct (map d_id (decisions db)) \<Longrightarrow> decisions_repo_get_for_workspace w i db = Some d \<Longrightarrow>
     lookup d_id (d_id d) (decisions db) = Some d"
  using decision_table.get_lookup decision_table.get_Some
  unfolding decisions_repo_get_for_workspace_def by metis

lemma write_decision_key [simp]:
  "d_id (write_decision env old new cur) = d_id cur"
  "d_workspace_id (write_decision env old new cur) = d_workspace_id cur"
  "d_created_by_id (write_decision env old new cur) = d_created_by_id cur"
  "d_created_at (write_decision env old new cur) = d_created_at cur"
  by (simp_all add: write_decision_def)

text \<open>Written against the row it was loaded from, every column takes the new value.\<close>

lemma write_decision_fresh [simp]:
  "d_title (write_decision env d new d) = d_title new"
  "d_summary (write_decision env d new d) = d_summary new"
  "d_category (write_decision env d new d) = d_category new"
  "d_status (write_decision env d new d) = d_status new"
  "d_due_at (write_decision env d new d) = d_due_at new"
  "d_review_at (write_decision env d new d) = d_review_at new"
  "d_closed_at (write_decision env d new d) = d_closed_at new"
  "d_archived_at (write_decision env d new d) = d_archived_at new"
  "d_locked_at (write_decision env d new d) = d_locked_at new"
  by (cases "new = d"; simp add: write_decision_def)+

lemma save_decision_Inr:
  "save_decision env old new db = Inr (d, db') \<longleftrightarrow>
     (\<exists>cur. lookup d_id (d_id old) (decisions db) = Some cur \<and> d = write_decision env old new cur \<and>
        ck_decisions_locked_state d \<and> db' = db\<lparr>decisions := store d_id d (decisions db)\<rparr>)"
  by (auto simp: save_decision_def)

text \<open>
  A writer whose copy of the row is stale: the database holds a locked decision while the request
  still works on the active one. Every change of the status column is refused by
  \<open>ck_decisions_locked_state\<close>, because \<open>locked_at\<close> was clean in the stale copy and stays set.
\<close>

lemma stale_transition_refused:
  assumes "lookup d_id (d_id stale) (decisions db) = Some cur" and "d_status cur = D_LOCKED"
    and "ck_decisions_locked_state cur" and "d_locked_at stale = None"
    and "d_status stale \<noteq> target" and "target \<noteq> D_LOCKED"
  shows "decisions_repo_transition env stale target closed_at archived_at db = Inl IntegrityError"
proof -
  let ?new = "stale\<lparr>d_status := target, d_closed_at := closed_at, d_archived_at := archived_at\<rparr>"
  have "d_status ?new \<noteq> d_status stale" using assms(5) by simp
  then have "?new \<noteq> stale" by metis
  then have "\<not> ck_decisions_locked_state (write_decision env stale ?new cur)"
    using assms by (auto simp: write_decision_def put_if_dirty_def ck_decisions_locked_state_def)
  then show ?thesis
    using assms(1) by (simp add: decisions_repo_transition_def save_decision_def flush_update_def ensure_def)
qed

text \<open>The row \<open>d\<close> after an update request, and after a transition.\<close>

definition decision_patched :: "env \<Rightarrow> decision_update_request \<Rightarrow> decision \<Rightarrow> decision" where
  "decision_patched env p d = write_decision env d (d\<lparr>
       d_title := patch_required (du_title p) (d_title d),
       d_summary := patch_nullable (du_summary p) (d_summary d),
       d_category := patch_required (du_category p) (d_category d),
       d_due_at := patch_nullable (du_due_at p) (d_due_at d),
       d_review_at := patch_nullable (du_review_at p) (d_review_at d)\<rparr>) d"

definition decision_moved :: "env \<Rightarrow> decision_status \<Rightarrow> decision \<Rightarrow> decision" where
  "decision_moved env target d = write_decision env d (d\<lparr>d_status := target,
       d_closed_at := (if target = D_CLOSED then Some (now env) else None),
       d_archived_at := (if target = D_ARCHIVED then Some (now env) else None)\<rparr>) d"

lemma decision_patched_fields [simp]:
  "d_status (decision_patched env p d) = d_status d"
  "d_closed_at (decision_patched env p d) = d_closed_at d"
  "d_archived_at (decision_patched env p d) = d_archived_at d"
  "d_locked_at (decision_patched env p d) = d_locked_at d"
  "d_due_at (decision_patched env p d) = patch_nullable (du_due_at p) (d_due_at d)"
  "d_review_at (decision_patched env p d) = patch_nullable (du_review_at p) (d_review_at d)"
  "d_title (decision_patched env p d) = patch_required (du_title p) (d_title d)"
  "d_id (decision_patched env p d) = d_id d"
  "d_workspace_id (decision_patched env p d) = d_workspace_id d"
  "d_created_by_id (decision_patched env p d) = d_created_by_id d"
  "d_created_at (decision_patched env p d) = d_created_at d"
  by (simp_all add: decision_patched_def)

lemma decision_moved_fields [simp]:
  assumes "d_status d \<noteq> target"
  shows "decision_moved env target d = d\<lparr>d_status := target,
       d_closed_at := (if target = D_CLOSED then Some (now env) else None),
       d_archived_at := (if target = D_ARCHIVED then Some (now env) else None),
       d_updated_at := db_now env\<rparr>"
proof -
  let ?new = "d\<lparr>d_status := target,
       d_closed_at := (if target = D_CLOSED then Some (now env) else None),
       d_archived_at := (if target = D_ARCHIVED then Some (now env) else None)\<rparr>"
  have "d_status ?new \<noteq> d_status d" using assms by simp
  then have "?new \<noteq> d" by metis
  then show ?thesis by (simp add: decision_moved_def write_decision_def)
qed

lemma decision_create_Inr:
  "decision_create env me w p db = Inr (d, db') \<longleftrightarrow>
     (\<exists>m. workspaces_repo_get_by_id w db \<noteq> None \<and> workspaces_repo_get_membership w (u_id me) db = Some m \<and>
        can_write_decisions (m_role m) \<and> fresh env 0 \<notin> d_id ` set (decisions db) \<and>
        d = \<lparr>d_id = fresh env 0, d_workspace_id = w, d_created_by_id = u_id me, d_title = dc_title p,
             d_summary = dc_summary p, d_category = dc_category p, d_status = D_DRAFT,
             d_due_at = dc_due_at p, d_review_at = dc_review_at p, d_closed_at = None,
             d_archived_at = None, d_locked_at = None, d_created_at = db_now env,
             d_updated_at = db_now env\<rparr> \<and>
        db' = db\<lparr>decisions := decisions db @ [d]\<rparr>)"
  by (auto simp: decision_create_def decisions_repo_create_def ck_decisions_locked_state_def)

lemma decision_update_InrD:
  assumes "decision_update env me w i p db = Inr (r, db')" and "distinct (map d_id (decisions db))"
  obtains d where "decisions_repo_get_for_workspace w i db = Some d" and "r = decision_patched env p d"
    and "d_status d \<in> decision_EDITABLE_STATUSES"
    and "schedule_ok (d_due_at r) (d_review_at r)" and "ck_decisions_locked_state r"
    and "db' = db\<lparr>decisions := store d_id r (decisions db)\<rparr>"
proof -
  obtain d cur where d: "decisions_repo_get_for_workspace w i db = Some d"
    and st: "d_status d \<in> decision_EDITABLE_STATUSES"
    and sch: "schedule_ok (patch_nullable (du_due_at p) (d_due_at d)) (patch_nullable (du_review_at p) (d_review_at d))"
    and cur: "lookup d_id (d_id d) (decisions db) = Some cur"
    and r: "r = write_decision env d (d\<lparr>
       d_title := patch_required (du_title p) (d_title d),
       d_summary := patch_nullable (du_summary p) (d_summary d),
       d_category := patch_required (du_category p) (d_category d),
       d_due_at := patch_nullable (du_due_at p) (d_due_at d),
       d_review_at := patch_nullable (du_review_at p) (d_review_at d)\<rparr>) cur"
    and ck: "ck_decisions_locked_state r" and db': "db' = db\<lparr>decisions := store d_id r (decisions db)\<rparr>"
    using assms(1) by (auto simp: decision_update_def decisions_repo_update_def save_decision_Inr Let_def)
  have "cur = d" using decision_get_lookup [OF assms(2) d] cur by simp
  then have "r = decision_patched env p d" using r by (simp add: decision_patched_def)
  with d st sch ck db' show thesis by (intro that [of d]) simp_all
qed

lemma save_decision_frame:
  "save_decision env old new db = Inr (d, db') \<Longrightarrow> outbox db' = outbox db \<and> published db' = published db"
  by (auto simp: save_decision_Inr)

lemma decision_transition_InrD:
  assumes "decision_transition env me w i target db = Inr (r, db')" and "distinct (map d_id (decisions db))"
  obtains d m xs ys where "decisions_repo_get_for_workspace w i db = Some d"
    and "workspaces_repo_get_membership w (u_id me) db = Some m" and "can_write_decisions (m_role m)"
    and "target \<in> decision_ALLOWED_TRANSITIONS (d_status d)" and "r = decision_moved env target d"
    and "ck_decisions_locked_state r"
    and "db' = db\<lparr>decisions := store d_id r (decisions db), outbox := xs, published := ys\<rparr>"
    and "emitted (emitter env \<and> d_status d = D_DRAFT \<and> target = D_ACTIVE) w DECISION_ACTIVATED (d_id d)
           (decision_activated_payload env me w d) db db'"
proof -
  obtain d m where d: "decisions_repo_get_for_workspace w i db = Some d"
    and m: "workspaces_repo_get_membership w (u_id me) db = Some m" "can_write_decisions (m_role m)"
    and t: "target \<in> decision_ALLOWED_TRANSITIONS (d_status d)"
    and run: "with_event (emitter env \<and> d_status d = D_DRAFT \<and> target = D_ACTIVE)
       (emitter_stage env (fresh env 0) w DECISION_ACTIVATED (d_id d) (decision_activated_payload env me w d))
       (decisions_repo_transition env d target (if target = D_CLOSED then Some (now env) else None)
          (if target = D_ARCHIVED then Some (now env) else None)) db = Inr (r, db')"
    using assms(1) by (auto simp: decision_transition_def Let_def)
  have look: "lookup d_id (d_id d) (decisions db) = Some d" by (rule decision_get_lookup [OF assms(2) d])
  from run obtain xs ys db2
    where c: "decisions_repo_transition env d target (if target = D_CLOSED then Some (now env) else None)
          (if target = D_ARCHIVED then Some (now env) else None) (db\<lparr>outbox := xs\<rparr>) = Inr (r, db2)"
      and db': "db' = db2\<lparr>published := ys\<rparr>"
      and e: "emitted (emitter env \<and> d_status d = D_DRAFT \<and> target = D_ACTIVE) w DECISION_ACTIVATED (d_id d)
           (decision_activated_payload env me w d) db db'"
    by (rule with_event_InrD) (auto simp: decisions_repo_transition_def dest: save_decision_frame)
  from c look have "r = decision_moved env target d" "ck_decisions_locked_state r"
    "db2 = db\<lparr>outbox := xs, decisions := store d_id r (decisions db)\<rparr>"
    by (auto simp: decisions_repo_transition_def save_decision_Inr decision_moved_def)
  then show thesis by (intro that [OF d m t _ _ _ e, where xs = xs and ys = ys]) (simp_all add: db')
qed

lemma decision_delete_Inr:
  "decision_delete me w i db = Inr (u, db') \<longleftrightarrow>
     (\<exists>m d. workspaces_repo_get_by_id w db \<noteq> None \<and> workspaces_repo_get_membership w (u_id me) db = Some m \<and>
        can_delete_decisions (m_role m) \<and> decisions_repo_get_for_workspace w i db = Some d \<and>
        d_status d = D_DRAFT \<and> delete_decision_row (d_id d) db = Inr db')"
  by (auto simp: decision_delete_def decisions_repo_delete_def)

section \<open>Invariant and steps\<close>

text \<open>
  The time stamps follow the status: \<open>archived_at\<close> belongs to archived decisions, \<open>closed_at\<close> to
  closed and locked ones, \<open>locked_at\<close> to locked ones (the CHECK); a review is due after the
  deadline.
\<close>

definition decision_row_ok :: "decision \<Rightarrow> bool" where
  "decision_row_ok d \<longleftrightarrow>
     ck_decisions_locked_state d \<and>
     (d_archived_at d \<noteq> None \<longleftrightarrow> d_status d = D_ARCHIVED) \<and>
     (d_closed_at d \<noteq> None \<longleftrightarrow> d_status d \<in> {D_CLOSED, D_LOCKED}) \<and>
     schedule_ok (d_due_at d) (d_review_at d)"

definition decision_inv :: "decision list \<Rightarrow> bool" where
  "decision_inv ds \<longleftrightarrow> distinct (map d_id ds) \<and> (\<forall>d \<in> set ds. decision_row_ok d)"

text \<open>How one row may change: identity columns never; a final row not at all.\<close>

definition decision_evolves :: "decision \<Rightarrow> decision \<Rightarrow> bool" where
  "decision_evolves d d' \<longleftrightarrow> d' = d \<or>
     (\<not> decision_final (d_status d) \<and> d_id d' = d_id d \<and> d_workspace_id d' = d_workspace_id d \<and>
      d_created_by_id d' = d_created_by_id d \<and> d_created_at d' = d_created_at d \<and>
      (d_status d' = d_status d \<and> d_status d \<in> decision_EDITABLE_STATUSES \<or>
       d_status d' \<in> decision_ALLOWED_TRANSITIONS (d_status d) \<or>
       d_status d = D_ACTIVE \<and> d_status d' = D_LOCKED))"

lemma decision_evolves_refl [simp]: "decision_evolves d d"
  by (simp add: decision_evolves_def)

lemma decision_inv_append:
  "decision_inv ds \<Longrightarrow> d_id d \<notin> d_id ` set ds \<Longrightarrow> decision_row_ok d \<Longrightarrow> decision_inv (ds @ [d])"
  by (auto simp: decision_inv_def)

lemma decision_inv_store: "decision_inv ds \<Longrightarrow> decision_row_ok d \<Longrightarrow> decision_inv (store d_id d ds)"
  by (auto simp: decision_inv_def dest!: mem_storeD)

lemma decision_inv_filter: "decision_inv ds \<Longrightarrow> decision_inv (filter P ds)"
  by (auto simp: decision_inv_def intro: distinct_map_filter)

lemma decision_inv_distinct: "decision_inv ds \<Longrightarrow> distinct (map d_id ds)"
  by (simp add: decision_inv_def)

lemma decision_inv_row: "decision_inv ds \<Longrightarrow> d \<in> set ds \<Longrightarrow> decision_row_ok d"
  by (simp add: decision_inv_def)

lemma decision_get_row:
  "decision_inv (decisions db) \<Longrightarrow> decisions_repo_get_for_workspace w i db = Some d \<Longrightarrow> decision_row_ok d"
  by (auto dest: decision_getD decision_inv_row)

lemma decision_moved_ok:
  assumes "decision_row_ok d" and "target \<in> decision_ALLOWED_TRANSITIONS (d_status d)"
  shows "decision_row_ok (decision_moved env target d)" and "decision_evolves d (decision_moved env target d)"
    and "d_id (decision_moved env target d) = d_id d"
proof -
  have ne: "d_status d \<noteq> target" using decision_cycle.step_changes assms(2) by blast
  have t: "target \<in> {D_ACTIVE, D_CLOSED, D_ARCHIVED}" "\<not> decision_final (d_status d)"
    using assms(2) by (cases "d_status d"; auto simp: decision_final_def)+
  show "decision_row_ok (decision_moved env target d)"
    using assms(1) t by (auto simp: decision_moved_fields [OF ne] decision_row_ok_def
        ck_decisions_locked_state_def decision_final_def)
  show "decision_evolves d (decision_moved env target d)" "d_id (decision_moved env target d) = d_id d"
    using assms(2) t by (auto simp: decision_moved_fields [OF ne] decision_evolves_def)
qed

lemma decision_patched_ok:
  assumes "decision_row_ok d" and "d_status d \<in> decision_EDITABLE_STATUSES"
    and "schedule_ok (d_due_at (decision_patched env p d)) (d_review_at (decision_patched env p d))"
  shows "decision_row_ok (decision_patched env p d)" and "decision_evolves d (decision_patched env p d)"
  using assms by (auto simp: decision_row_ok_def ck_decisions_locked_state_def decision_evolves_def
      decision_EDITABLE_STATUSES_def decision_final_def)

lemma DecisionCreateRequest_InrD:
  "DecisionCreateRequest b = Inr p \<Longrightarrow>
     schedule_ok (dc_due_at p) (dc_review_at p) \<and> 3 \<le> length (dc_title p) \<and> length (dc_title p) \<le> 200 \<and>
     normalize_text (dc_title p) = dc_title p"
  by (auto simp: DecisionCreateRequest_def dest: normalized_field_bounds)

inductive decision_step :: "db \<Rightarrow> db \<Rightarrow> bool" where
  create: "DecisionCreateRequest b = Inr p \<Longrightarrow> decision_create env me w p db = Inr (r, db') \<Longrightarrow>
             decision_step db db'"
| update: "DecisionUpdateRequest b' = Inr p' \<Longrightarrow> decision_update env me w i p' db = Inr (r, db') \<Longrightarrow>
             decision_step db db'"
| transition: "decision_transition env me w i target db = Inr (r, db') \<Longrightarrow> decision_step db db'"
| delete: "decision_delete me w i db = Inr (u, db') \<Longrightarrow> decision_step db db'"

lemma delete_decision_row_decisions:
  "delete_decision_row i db = Inr db' \<Longrightarrow>
     decisions db' = filter (\<lambda>d. d_id d \<noteq> i) (decisions db) \<and> outbox db' = outbox db \<and> published db' = published db"
  by (auto simp: delete_decision_row_def cascade_decisions_tables)

lemma decision_step_inv:
  assumes "decision_step db db'" and inv: "decision_inv (decisions db)"
  shows "decision_inv (decisions db')"
  using assms(1)
proof cases
  case (create b p env me w r)
  then have "schedule_ok (dc_due_at p) (dc_review_at p)" by (blast dest: DecisionCreateRequest_InrD)
  with create inv show ?thesis
    by (auto simp: decision_create_Inr decision_row_ok_def ck_decisions_locked_state_def
        intro!: decision_inv_append)
next
  case (update b' p' env me w i r)
  from update(2) decision_inv_distinct [OF inv] obtain d where d: "decisions_repo_get_for_workspace w i db = Some d"
    "r = decision_patched env p' d" "d_status d \<in> decision_EDITABLE_STATUSES"
    "schedule_ok (d_due_at r) (d_review_at r)" "decisions db' = store d_id r (decisions db)"
    by (elim decision_update_InrD) auto
  have "decision_row_ok r"
    using decision_patched_ok(1) [OF decision_get_row [OF inv d(1)] d(3)] d(2,4) by blast
  then show ?thesis using decision_inv_store [OF inv] d(5) by simp
next
  case (transition env me w i target r)
  from transition decision_inv_distinct [OF inv] obtain d where d: "decisions_repo_get_for_workspace w i db = Some d"
    "target \<in> decision_ALLOWED_TRANSITIONS (d_status d)" "r = decision_moved env target d"
    "decisions db' = store d_id r (decisions db)"
    by (elim decision_transition_InrD) auto
  have "decision_row_ok r"
    using decision_moved_ok(1) [OF decision_get_row [OF inv d(1)] d(2)] d(3) by simp
  then show ?thesis using decision_inv_store [OF inv] d(4) by simp
next
  case (delete me w i u)
  then show ?thesis
    using inv by (auto simp: decision_delete_Inr decision_inv_filter dest!: delete_decision_row_decisions)
qed

text \<open>A row that is still there evolved lawfully; one that is gone was a draft.\<close>

interpretation decision_history: row_history d_id "\<lambda>d. d_status d = D_DRAFT" decision_evolves
  by unfold_locales (auto simp: decision_evolves_def)

abbreviation decisions_follow :: "decision list \<Rightarrow> decision list \<Rightarrow> bool" where
  "decisions_follow \<equiv> follows d_id (\<lambda>d. d_status d = D_DRAFT) decision_evolves"

lemma decision_step_follow:
  assumes "decision_step db db'" and inv: "decision_inv (decisions db)"
  shows "decisions_follow (decisions db) (decisions db')"
  using assms(1)
proof cases
  case (create b p env me w r)
  then show ?thesis
    by (auto simp: decision_create_Inr intro!: decision_history.append decision_inv_distinct [OF inv])
next
  case (update b' p' env me w i r)
  note dist = decision_inv_distinct [OF inv]
  from update(2) dist obtain d where d: "decisions_repo_get_for_workspace w i db = Some d"
    "r = decision_patched env p' d" "d_status d \<in> decision_EDITABLE_STATUSES"
    "schedule_ok (d_due_at r) (d_review_at r)" "decisions db' = store d_id r (decisions db)"
    by (elim decision_update_InrD) auto
  have "decision_evolves d r"
    using decision_patched_ok(2) [OF decision_get_row [OF inv d(1)] d(3)] d(2,4) by blast
  then show ?thesis
    using decision_history.store [OF dist decision_get_lookup [OF dist d(1)]] d(5) by simp
next
  case (transition env me w i target r)
  note dist = decision_inv_distinct [OF inv]
  from transition dist obtain d where d: "decisions_repo_get_for_workspace w i db = Some d"
    "target \<in> decision_ALLOWED_TRANSITIONS (d_status d)" "r = decision_moved env target d"
    "decisions db' = store d_id r (decisions db)"
    by (elim decision_transition_InrD) auto
  have "decision_evolves d r"
    using decision_moved_ok(2) [OF decision_get_row [OF inv d(1)] d(2)] d(3) by simp
  then show ?thesis
    using decision_history.store [OF dist decision_get_lookup [OF dist d(1)]] d(4) by simp
next
  case (delete me w i u)
  then obtain d where d: "decisions_repo_get_for_workspace w i db = Some d" "d_status d = D_DRAFT"
    "decisions db' = filter (\<lambda>x. d_id x \<noteq> d_id d) (decisions db)"
    by (auto simp: decision_delete_Inr dest!: delete_decision_row_decisions)
  have "x = d" if "x \<in> set (decisions db)" "d_id x = d_id d" for x
    using that decision_getD [OF d(1)] distinct_key_eq [OF decision_inv_distinct [OF inv]] by metis
  then show ?thesis
    unfolding d(3) using d(2) by (intro decision_history.filter decision_inv_distinct [OF inv]) auto
qed

text \<open>The operations of the service, for statements about all of them.\<close>

lemmas decision_ops = decision_create_def decision_list_def decision_get_def decision_update_def decision_transition_def decision_delete_def

end
