(* ===== verification/Py_Numbers.thy ===== *)
theory Py_Numbers imports Complex_Main Prelude begin

text \<open>
  Python's true division of integers and \<open>round(x, 2)\<close>, which the voting result and the proposal
  comparison use. \<open>a / b\<close> on integers is the IEEE double nearest to the exact quotient (ties
  to even); its value is a rational number. \<open>round(x, 2)\<close> rounds the exact value of the double
  to hundredths, ties to even; the result is given in hundredths.

  The quotients the code forms are of non-negative integers far below the range of a double, so
  neither overflow nor subnormal numbers arise.
\<close>

section \<open>Rounding to an integer, ties to even\<close>

definition round_even :: "rat \<Rightarrow> int" where
  "round_even x =
     (let f = \<lfloor>x\<rfloor>; r = x - of_int f in
      if r < 1 / 2 then f else if 1 / 2 < r then f + 1 else if even f then f else f + 1)"

lemma round_even_of_int [simp]: "round_even (of_int i) = i"
  by (simp add: round_even_def)

lemma round_even_error: "\<bar>of_int (round_even x) - x\<bar> \<le> 1 / 2"
proof -
  have "of_int \<lfloor>x\<rfloor> \<le> x" "x < of_int \<lfloor>x\<rfloor> + 1" by (rule of_int_floor_le) linarith
  then show ?thesis by (simp add: round_even_def Let_def abs_le_iff)
qed

lemma round_even_ge: "of_int m \<le> x \<Longrightarrow> m \<le> round_even x"
  by (simp add: round_even_def Let_def le_floor_iff) (metis le_floor_iff add_increasing2 zero_le_one)

lemma round_even_le: "x \<le> of_int m \<Longrightarrow> round_even x \<le> m"
proof -
  assume x: "x \<le> of_int m"
  have f: "of_int \<lfloor>x\<rfloor> \<le> x" by simp
  show ?thesis
  proof (cases "\<lfloor>x\<rfloor> < m")
    case True
    then show ?thesis by (simp add: round_even_def Let_def)
  next
    case False
    with x f have "x = of_int m"
      by (metis dual_order.antisym le_floor_iff not_less floor_le_iff order_trans of_int_le_iff)
    then show ?thesis by simp
  qed
qed

section \<open>The nearest double\<close>

function ilog2 :: "nat \<Rightarrow> nat" where
  "ilog2 n = (if n < 2 then 0 else Suc (ilog2 (n div 2)))"
  by pat_completeness auto
termination
  by (relation "measure id") auto

declare ilog2.simps [simp del]

lemma ilog2_bounds: "0 < n \<Longrightarrow> 2 ^ ilog2 n \<le> n \<and> n < 2 ^ Suc (ilog2 n)"
proof (induction n rule: ilog2.induct)
  case (1 n)
  show ?case
  proof (cases "n < 2")
    case True
    with 1 show ?thesis by (simp add: ilog2.simps [of n])
  next
    case False
    with 1 have "2 ^ ilog2 (n div 2) \<le> n div 2 \<and> n div 2 < 2 ^ Suc (ilog2 (n div 2))" by simp
    moreover have "ilog2 n = Suc (ilog2 (n div 2))" using False by (simp add: ilog2.simps [of n])
    ultimately show ?thesis by (auto simp: div_less_iff_less_mult less_eq_div_iff_mult_less_eq)
  qed
qed

text \<open>The exponent \<open>e\<close> with \<open>2 ^ e \<le> a / b < 2 ^ (e + 1)\<close>, and the quotient on a 53 bit significand.\<close>

definition quot_exp :: "nat \<Rightarrow> nat \<Rightarrow> int" where
  "quot_exp a b =
     (let d = int (ilog2 a) - int (ilog2 b) in
      if (2 :: rat) powi d * of_nat b \<le> of_nat a then d else d - 1)"

definition truediv :: "nat \<Rightarrow> nat \<Rightarrow> rat" where
  "truediv a b =
     (if a = 0 \<or> b = 0 then 0
      else let u = 2 powi (quot_exp a b - 52)
           in of_int (round_even (of_nat a / of_nat b / u)) * u)"

text \<open>\<open>round(x, 2)\<close> in hundredths, and \<open>math.ceil\<close>.\<close>

definition round2 :: "rat \<Rightarrow> int" where
  "round2 x = round_even (x * 100)"

definition py_ceil :: "rat \<Rightarrow> int" where
  "py_ceil x = \<lceil>x\<rceil>"

lemma ilog2_powi:
  assumes "0 < n"
  shows "(2 :: rat) powi int (ilog2 n) \<le> of_nat n" "of_nat n < (2 :: rat) powi (int (ilog2 n) + 1)"
proof -
  have "of_nat (2 ^ ilog2 n) \<le> (of_nat n :: rat)" "(of_nat n :: rat) < of_nat (2 ^ Suc (ilog2 n))"
    using ilog2_bounds [OF assms] by (simp_all only: of_nat_le_iff of_nat_less_iff)
  moreover have "(2 :: rat) powi (int (ilog2 n) + 1) = 2 ^ Suc (ilog2 n)"
    using power_int_of_nat [of "2 :: rat" "Suc (ilog2 n)"] by (simp add: add.commute)
  ultimately show "(2 :: rat) powi int (ilog2 n) \<le> of_nat n" "of_nat n < (2 :: rat) powi (int (ilog2 n) + 1)"
    by simp_all
qed

lemma quot_exp_bounds:
  assumes "0 < a" "0 < b"
  shows "(2 :: rat) powi quot_exp a b \<le> of_nat a / of_nat b"
    and "of_nat a / of_nat b < (2 :: rat) powi (quot_exp a b + 1)"
proof -
  let ?A = "int (ilog2 a)" and ?B = "int (ilog2 b)"
  note A = ilog2_powi [OF assms(1)] and B = ilog2_powi [OF assms(2)]
  let ?d = "?A - ?B"
  have hi: "of_nat a < (2 :: rat) powi (?d + 1) * of_nat b"
  proof -
    have "(2 :: rat) powi (?A + 1) = 2 powi (?d + 1) * 2 powi ?B"
      using power_int_add [of "2 :: rat" "?d + 1" ?B] by simp
    also have "\<dots> \<le> 2 powi (?d + 1) * of_nat b" using B(1) by (simp add: mult_left_mono)
    finally show ?thesis using A(2) by simp
  qed
  have lo: "(2 :: rat) powi (?d - 1) * of_nat b \<le> of_nat a"
  proof -
    have "(2 :: rat) powi (?d - 1) * of_nat b \<le> 2 powi (?d - 1) * 2 powi (?B + 1)"
      using B(2) by (simp add: mult_left_mono)
    also have "\<dots> = 2 powi ?A" using power_int_add [of "2 :: rat" "?d - 1" "?B + 1"] by simp
    finally show ?thesis using A(1) by (rule order_trans)
  qed
  show "(2 :: rat) powi quot_exp a b \<le> of_nat a / of_nat b"
    using lo assms by (auto simp: quot_exp_def Let_def pos_le_divide_eq)
  show "of_nat a / of_nat b < (2 :: rat) powi (quot_exp a b + 1)"
    using hi assms by (auto simp: quot_exp_def Let_def pos_divide_less_eq not_le)
qed

lemma truediv_error:
  assumes "0 < a" "0 < b"
  shows "\<bar>truediv a b - of_nat a / of_nat b\<bar> \<le> 2 powi (quot_exp a b - 53)"
proof -
  let ?u = "(2 :: rat) powi (quot_exp a b - 52)" and ?q = "(of_nat a / of_nat b :: rat)"
  have u: "0 < ?u" by simp
  have "truediv a b - ?q = (of_int (round_even (?q / ?u)) - ?q / ?u) * ?u"
    using assms u by (simp add: truediv_def Let_def left_diff_distrib)
  then have "\<bar>truediv a b - ?q\<bar> \<le> 1 / 2 * ?u"
    using round_even_error [of "?q / ?u"] u by (simp add: abs_mult mult_right_mono)
  also have "\<dots> = 2 powi (quot_exp a b - 53)"
    using power_int_add [of "2 :: rat" "- 1" "quot_exp a b - 52"] by (simp add: power_int_minus)
  finally show ?thesis .
qed

lemma truediv_0 [simp]: "truediv 0 b = 0"
  by (simp add: truediv_def)

text \<open>
  The quotients of the code are below \<open>2 ^ 46\<close>: there the double is off by less than \<open>1 / 100\<close>,
  and rounding is monotone with respect to every integer.
\<close>

lemma quot_exp_small:
  assumes "0 < a" "0 < b" "of_nat a / of_nat b < (2 :: rat) ^ 46"
  shows "quot_exp a b < 46"
proof (rule ccontr)
  assume "\<not> quot_exp a b < 46"
  then have "(2 :: rat) powi 46 \<le> 2 powi quot_exp a b" by (intro power_int_increasing) auto
  then have "(2 :: rat) ^ 46 \<le> of_nat a / of_nat b"
    using quot_exp_bounds(1) [OF assms(1,2)] by simp
  then show False using assms(3) by simp
qed

lemma truediv_error_small:
  assumes "0 < b" "of_nat a / of_nat b < (2 :: rat) ^ 46"
  shows "\<bar>truediv a b - of_nat a / of_nat b\<bar> < 1 / 100"
proof (cases "a = 0")
  case False
  then have "quot_exp a b < 46" using quot_exp_small assms by simp
  then have "(2 :: rat) powi (quot_exp a b - 53) \<le> 2 powi - 8" by (intro power_int_increasing) auto
  then show ?thesis using truediv_error [of a b] False assms by (simp add: power_int_minus)
qed simp

lemma truediv_unit:
  assumes "0 < a" "0 < b" "of_nat a / of_nat b < (2 :: rat) ^ 46"
  obtains k where "truediv a b = of_int (round_even (of_nat a / of_nat b * 2 ^ k)) / 2 ^ k"
proof -
  let ?u = "(2 :: rat) powi (quot_exp a b - 52)"
  have "?u = inverse (2 ^ nat (52 - quot_exp a b))"
    using quot_exp_small [OF assms] by (simp add: power_int_def power_inverse [symmetric])
  then show thesis using that [of "nat (52 - quot_exp a b)"] assms
    by (simp add: truediv_def Let_def divide_inverse)
qed

lemma truediv_ge_int:
  assumes "0 < a" "0 < b" "of_nat a / of_nat b < (2 :: rat) ^ 46" "m * b \<le> a"
  shows "of_nat m \<le> truediv a b"
proof -
  obtain k where t: "truediv a b = of_int (round_even (of_nat a / of_nat b * 2 ^ k)) / 2 ^ k"
    using assms(1-3) by (rule truediv_unit)
  have "of_nat m \<le> (of_nat a / of_nat b :: rat)"
    using assms by (simp add: pos_le_divide_eq flip: of_nat_mult)
  from mult_right_mono [OF this, of "2 ^ k"]
  have "of_int (int (m * 2 ^ k)) \<le> (of_nat a / of_nat b :: rat) * 2 ^ k" by simp
  then have "int (m * 2 ^ k) \<le> round_even (of_nat a / of_nat b * 2 ^ k)" by (rule round_even_ge)
  then have "(of_int (int (m * 2 ^ k)) :: rat) \<le> of_int (round_even (of_nat a / of_nat b * 2 ^ k))"
    by (simp only: of_int_le_iff)
  then show ?thesis by (simp add: t pos_le_divide_eq)
qed

lemma truediv_le_int:
  assumes "0 < a" "0 < b" "of_nat a / of_nat b < (2 :: rat) ^ 46" "a \<le> m * b"
  shows "truediv a b \<le> of_nat m"
proof -
  obtain k where t: "truediv a b = of_int (round_even (of_nat a / of_nat b * 2 ^ k)) / 2 ^ k"
    using assms(1-3) by (rule truediv_unit)
  have "(of_nat a / of_nat b :: rat) \<le> of_nat m"
    using assms by (simp add: pos_divide_le_eq flip: of_nat_mult)
  from mult_right_mono [OF this, of "2 ^ k"]
  have "(of_nat a / of_nat b :: rat) * 2 ^ k \<le> of_int (int (m * 2 ^ k))" by simp
  then have "round_even (of_nat a / of_nat b * 2 ^ k) \<le> int (m * 2 ^ k)" by (rule round_even_le)
  then have "(of_int (round_even (of_nat a / of_nat b * 2 ^ k)) :: rat) \<le> of_int (int (m * 2 ^ k))"
    by (simp only: of_int_le_iff)
  then show ?thesis by (simp add: t pos_divide_le_eq)
qed

lemma truediv_exact_int:
  assumes "0 < b" "of_nat m < (2 :: rat) ^ 46"
  shows "truediv (m * b) b = of_nat m"
proof (cases "m = 0")
  case False
  then show ?thesis
    using truediv_ge_int [of "m * b" b m] truediv_le_int [of "m * b" b m] assms
    by (intro antisym) auto
qed simp

text \<open>\<open>math.ceil(n / 100)\<close> is the exact ceiling.\<close>

lemma py_ceil_hundredth:
  assumes "n < 2 ^ 46"
  shows "py_ceil (truediv n 100) = int ((n + 99) div 100)"
proof -
  have small: "of_nat n / of_nat 100 < (2 :: rat) ^ 46"
  proof -
    have "(of_nat n :: rat) < of_nat (2 ^ 46)" using assms by (simp only: of_nat_less_iff)
    then show ?thesis by simp
  qed
  define c where "c = (n + 99) div 100"
  have c: "n \<le> c * 100" "c * 100 < n + 100" by (auto simp: c_def)
  show ?thesis
  proof (cases "n = 0")
    case False
    have le: "truediv n 100 \<le> of_nat c" using False small c by (intro truediv_le_int) auto
    have "of_nat c - 1 < truediv n 100"
    proof (cases "n = c * 100")
      case True
      then have "of_nat c \<le> truediv n 100" using False small by (intro truediv_ge_int) auto
      then show ?thesis by simp
    next
      case False
      then have "c * 100 < n + 100" and "c * 100 + 1 \<le> n + 100" using c by auto
      then have "(of_nat (c * 100 + 1) :: rat) \<le> of_nat (n + 100)" by (simp only: of_nat_le_iff)
      then have "of_nat c - 1 + 1 / 100 \<le> (of_nat n / of_nat 100 :: rat)" by simp
      then show ?thesis using truediv_error_small [of 100 n] small by (simp add: abs_if split: if_splits)
    qed
    with le show ?thesis by (simp add: py_ceil_def c_def [symmetric] ceiling_eq_iff)
  qed (simp add: py_ceil_def)
qed

lemma round2_bounds:
  assumes "of_nat l \<le> x" "x \<le> of_nat h"
  shows "int (l * 100) \<le> round2 x" "round2 x \<le> int (h * 100)"
  using assms round_even_ge [of "int (l * 100)" "x * 100"] round_even_le [of "x * 100" "int (h * 100)"]
  by (simp_all add: round2_def)

end
