(* ===== verification/Proposals.thy ===== *)
theory Proposals imports Decisions Py_Numbers begin

text \<open>
  Proposals, decision criteria and scores: \<open>app/schemas/proposal.py\<close>,
  \<open>app/repositories/proposal.py\<close> and \<open>app/services/proposal.py\<close>.
\<close>

section \<open>Requests\<close>

record proposal_create_request =
  pc_title :: string
  pc_summary :: "string option"
  pc_content :: "string option"

definition ProposalCreateRequest :: "proposal_create_request \<Rightarrow> error + proposal_create_request" where
  "ProposalCreateRequest b =
     bindE (normalized_field 3 200 (pc_title b)) (\<lambda>title.
     bindE (optional_field py_strip 5000 (pc_summary b)) (\<lambda>summary.
     bindE (optional_field py_strip 50000 (pc_content b)) (\<lambda>content.
     Inr \<lparr>pc_title = title, pc_summary = summary, pc_content = content\<rparr>)))"

record proposal_update_request =
  pu_title :: "string patch"
  pu_summary :: "string patch"
  pu_content :: "string patch"

definition ProposalUpdateRequest :: "proposal_update_request \<Rightarrow> error + proposal_update_request" where
  "ProposalUpdateRequest b =
     bindE (patch_field (normalized_field 3 200) (pu_title b)) (\<lambda>title.
     bindE (patch_optional (optional_field py_strip 5000) (pu_summary b)) (\<lambda>summary.
     bindE (patch_optional (optional_field py_strip 50000) (pu_content b)) (\<lambda>content.
     Inr \<lparr>pu_title = title, pu_summary = summary, pu_content = content\<rparr>)))"

text \<open>\<open>weight: int = Field(ge=1, le=100)\<close> and \<open>score: int = Field(ge=1, le=5)\<close>.\<close>

definition int_field :: "int \<Rightarrow> int \<Rightarrow> int \<Rightarrow> error + int" where
  "int_field lo hi v = bindE (ensure (lo \<le> v \<and> v \<le> hi) ValidationError) (\<lambda>_. Inr v)"

record criterion_create_request =
  cc_name :: string
  cc_description :: "string option"
  cc_weight :: int

definition CriterionCreateRequest :: "criterion_create_request \<Rightarrow> error + criterion_create_request" where
  "CriterionCreateRequest b =
     bindE (normalized_field 2 100 (cc_name b)) (\<lambda>name.
     bindE (optional_field py_strip 1000 (cc_description b)) (\<lambda>description.
     bindE (int_field 1 100 (cc_weight b)) (\<lambda>weight.
     Inr \<lparr>cc_name = name, cc_description = description, cc_weight = weight\<rparr>)))"

record criterion_update_request =
  cu_name :: "string patch"
  cu_description :: "string patch"
  cu_weight :: "int patch"

definition CriterionUpdateRequest :: "criterion_update_request \<Rightarrow> error + criterion_update_request" where
  "CriterionUpdateRequest b =
     bindE (patch_field (normalized_field 2 100) (cu_name b)) (\<lambda>name.
     bindE (patch_optional (optional_field py_strip 1000) (cu_description b)) (\<lambda>description.
     bindE (patch_field (int_field 1 100) (cu_weight b)) (\<lambda>weight.
     Inr \<lparr>cu_name = name, cu_description = description, cu_weight = weight\<rparr>)))"

definition CriterionReorderRequest :: "uuid list \<Rightarrow> error + uuid list" where
  "CriterionReorderRequest ids =
     bindE (ensure (1 \<le> length ids \<and> length ids \<le> 100) ValidationError) (\<lambda>_.
     bindE (ensure (length ids = card (set ids)) ValidationError) (\<lambda>_. Inr ids))"

record score_upsert_request =
  su_score :: int
  su_rationale :: "string option"

definition ProposalScoreUpsertRequest :: "score_upsert_request \<Rightarrow> error + score_upsert_request" where
  "ProposalScoreUpsertRequest b =
     bindE (int_field 1 5 (su_score b)) (\<lambda>score.
     bindE (optional_field py_strip 1000 (su_rationale b)) (\<lambda>rationale.
     Inr \<lparr>su_score = score, su_rationale = rationale\<rparr>))"

section \<open>The repository: proposals\<close>

definition proposals_repo_create :: "proposal \<Rightarrow> db \<Rightarrow> error + proposal \<times> db" where
  "proposals_repo_create p db =
     bindE (flush_insert p_id (\<lambda>_. True) p (proposals db)) (\<lambda>ps. Inr (p, db\<lparr>proposals := ps\<rparr>))"

definition proposals_repo_list_for_decision :: "uuid \<Rightarrow> proposal_status option \<Rightarrow> db \<Rightarrow> proposal list" where
  "proposals_repo_list_for_decision d status db =
     sort_key (\<lambda>p. - p_updated_at p)
       (filter (\<lambda>p. p_decision_id p = d \<and> (\<forall>s \<in> set_option status. p_status p = s)) (proposals db))"

definition proposal_for_decision :: "uuid \<Rightarrow> uuid \<Rightarrow> proposal list \<Rightarrow> proposal option" where
  "proposal_for_decision d i ps = first_where (\<lambda>p. p_id p = i \<and> p_decision_id p = d) ps"

definition proposals_repo_get_for_decision :: "uuid \<Rightarrow> uuid \<Rightarrow> db \<Rightarrow> proposal option" where
  "proposals_repo_get_for_decision d i db = proposal_for_decision d i (proposals db)"

interpretation proposal_table: scoped_table p_id p_decision_id proposal_for_decision
  by unfold_locales (auto simp: proposal_for_decision_def first_where_None_iff dest!: first_where_SomeD)

definition write_proposal :: "env \<Rightarrow> proposal \<Rightarrow> proposal \<Rightarrow> proposal \<Rightarrow> proposal" where
  "write_proposal env old new cur =
     (if new = old then cur
      else cur\<lparr>p_title := put_if_dirty (p_title old) (p_title new) (p_title cur),
               p_summary := put_if_dirty (p_summary old) (p_summary new) (p_summary cur),
               p_content := put_if_dirty (p_content old) (p_content new) (p_content cur),
               p_status := put_if_dirty (p_status old) (p_status new) (p_status cur),
               p_submitted_at := put_if_dirty (p_submitted_at old) (p_submitted_at new) (p_submitted_at cur),
               p_withdrawn_at := put_if_dirty (p_withdrawn_at old) (p_withdrawn_at new) (p_withdrawn_at cur),
               p_updated_at := db_now env\<rparr>)"

definition proposals_repo_update ::
  "env \<Rightarrow> proposal \<Rightarrow> (proposal \<Rightarrow> proposal) \<Rightarrow> db \<Rightarrow> error + proposal \<times> db" where
  "proposals_repo_update env p values db =
     bindE (flush_update p_id (\<lambda>_. True) (p_id p) (write_proposal env p (values p)) (proposals db)) (\<lambda>(p', ps).
     Inr (p', db\<lparr>proposals := ps\<rparr>))"

definition proposals_repo_delete :: "proposal \<Rightarrow> db \<Rightarrow> error + db" where
  "proposals_repo_delete p db = delete_proposal_row (p_id p) db"

section \<open>The repository: criteria and scores\<close>

text \<open>The position constraint is deferred: it is checked when the transaction commits.\<close>

definition proposals_repo_create_criterion ::
  "decision_criterion \<Rightarrow> db \<Rightarrow> error + decision_criterion \<times> db" where
  "proposals_repo_create_criterion c db =
     bindE (flush_insert c_id ck_decision_criteria c (criteria db)) (\<lambda>cs.
     bindE (ensure (uq_criteria_position cs) IntegrityError) (\<lambda>_.
     Inr (c, db\<lparr>criteria := cs\<rparr>)))"

definition proposals_repo_next_criterion_position :: "uuid \<Rightarrow> db \<Rightarrow> int" where
  "proposals_repo_next_criterion_position d db =
     foldr (\<lambda>c m. max (c_position c) m) (filter (\<lambda>c. c_decision_id c = d) (criteria db)) (-1) + 1"

definition proposals_repo_list_criteria :: "uuid \<Rightarrow> db \<Rightarrow> decision_criterion list" where
  "proposals_repo_list_criteria d db =
     sort_key c_position (filter (\<lambda>c. c_decision_id c = d) (criteria db))"

definition criterion_for_decision :: "uuid \<Rightarrow> uuid \<Rightarrow> decision_criterion list \<Rightarrow> decision_criterion option" where
  "criterion_for_decision d i cs = first_where (\<lambda>c. c_id c = i \<and> c_decision_id c = d) cs"

definition proposals_repo_get_criterion :: "uuid \<Rightarrow> uuid \<Rightarrow> db \<Rightarrow> decision_criterion option" where
  "proposals_repo_get_criterion d i db = criterion_for_decision d i (criteria db)"

interpretation criterion_table: scoped_table c_id c_decision_id criterion_for_decision
  by unfold_locales (auto simp: criterion_for_decision_def first_where_None_iff dest!: first_where_SomeD)

definition write_criterion ::
  "env \<Rightarrow> decision_criterion \<Rightarrow> decision_criterion \<Rightarrow> decision_criterion \<Rightarrow> decision_criterion" where
  "write_criterion env old new cur =
     (if new = old then cur
      else cur\<lparr>c_name := put_if_dirty (c_name old) (c_name new) (c_name cur),
               c_description := put_if_dirty (c_description old) (c_description new) (c_description cur),
               c_weight := put_if_dirty (c_weight old) (c_weight new) (c_weight cur),
               c_position := put_if_dirty (c_position old) (c_position new) (c_position cur),
               c_updated_at := db_now env\<rparr>)"

definition proposals_repo_update_criterion ::
  "env \<Rightarrow> decision_criterion \<Rightarrow> (decision_criterion \<Rightarrow> decision_criterion) \<Rightarrow> db
     \<Rightarrow> error + decision_criterion \<times> db" where
  "proposals_repo_update_criterion env c values db =
     bindE (flush_update c_id ck_decision_criteria (c_id c) (write_criterion env c (values c)) (criteria db))
       (\<lambda>(c', cs).
     bindE (ensure (uq_criteria_position cs) IntegrityError) (\<lambda>_.
     Inr (c', db\<lparr>criteria := cs\<rparr>)))"

fun flush_positions ::
  "env \<Rightarrow> int \<Rightarrow> decision_criterion list \<Rightarrow> decision_criterion list \<Rightarrow> error + decision_criterion list" where
  "flush_positions env position [] cs = Inr cs"
| "flush_positions env position (c # rest) cs =
     bindE (flush_update c_id ck_decision_criteria (c_id c)
              (write_criterion env c (c\<lparr>c_position := position\<rparr>)) cs) (\<lambda>(_, cs').
     flush_positions env (position + 1) rest cs')"

definition proposals_repo_reorder_criteria ::
  "env \<Rightarrow> decision_criterion list \<Rightarrow> db \<Rightarrow> error + decision_criterion list \<times> db" where
  "proposals_repo_reorder_criteria env ordered db =
     bindE (flush_positions env 0 ordered (criteria db)) (\<lambda>cs.
     bindE (ensure (uq_criteria_position cs) IntegrityError) (\<lambda>_.
     Inr (map (\<lambda>c. the (lookup c_id (c_id c) cs)) ordered, db\<lparr>criteria := cs\<rparr>)))"

definition proposals_repo_delete_criterion :: "decision_criterion \<Rightarrow> db \<Rightarrow> db" where
  "proposals_repo_delete_criterion c db = delete_criterion_row (c_id c) db"

definition proposals_repo_get_score :: "uuid \<Rightarrow> uuid \<Rightarrow> db \<Rightarrow> proposal_score option" where
  "proposals_repo_get_score p c db =
     first_where (\<lambda>s. s_proposal_id s = p \<and> s_criterion_id s = c) (scores db)"

definition write_score :: "env \<Rightarrow> proposal_score \<Rightarrow> proposal_score \<Rightarrow> proposal_score \<Rightarrow> proposal_score" where
  "write_score env old new cur =
     (if new = old then cur
      else cur\<lparr>s_scored_by_id := put_if_dirty (s_scored_by_id old) (s_scored_by_id new) (s_scored_by_id cur),
               s_score := put_if_dirty (s_score old) (s_score new) (s_score cur),
               s_rationale := put_if_dirty (s_rationale old) (s_rationale new) (s_rationale cur),
               s_updated_at := db_now env\<rparr>)"

text \<open>
  \<open>session.add(score)\<close> inserts the row the service has just built (\<open>is_new\<close>) and updates one it
  has loaded.
\<close>

definition proposals_repo_upsert_score ::
  "env \<Rightarrow> bool \<Rightarrow> proposal_score \<Rightarrow> int \<Rightarrow> string option \<Rightarrow> uuid \<Rightarrow> db \<Rightarrow> error + proposal_score \<times> db" where
  "proposals_repo_upsert_score env is_new s score_value rationale scored_by db =
     (let s' = s\<lparr>s_score := score_value, s_rationale := rationale, s_scored_by_id := scored_by\<rparr> in
      if is_new then
        bindE (flush_insert s_id (\<lambda>s. ck_proposal_scores s \<and> uq_proposal_scores (scores db) s) s' (scores db)) (\<lambda>ss.
        Inr (s', db\<lparr>scores := ss\<rparr>))
      else
        bindE (flush_update s_id ck_proposal_scores (s_id s) (write_score env s s') (scores db)) (\<lambda>(s'', ss).
        Inr (s'', db\<lparr>scores := ss\<rparr>)))"

definition proposals_repo_list_scores_for_decision :: "uuid \<Rightarrow> db \<Rightarrow> proposal_score list" where
  "proposals_repo_list_scores_for_decision d db =
     sort_key s_proposal_id (sort_key s_criterion_id
       [s. s \<leftarrow> scores db, p \<leftarrow> proposals db, p_id p = s_proposal_id s \<and> p_decision_id p = d])"

section \<open>The service: proposals\<close>

definition proposal_MUTABLE_DECISION_STATUSES :: "decision_status set" where
  "proposal_MUTABLE_DECISION_STATUSES = {D_DRAFT, D_ACTIVE}"

fun PROPOSAL_TRANSITIONS :: "proposal_status \<Rightarrow> proposal_status set" where
  "PROPOSAL_TRANSITIONS P_DRAFT = {P_SUBMITTED, P_WITHDRAWN}"
| "PROPOSAL_TRANSITIONS P_SUBMITTED = {P_DRAFT, P_WITHDRAWN}"
| "PROPOSAL_TRANSITIONS P_WITHDRAWN = {}"

interpretation proposal_cycle: lifecycle PROPOSAL_TRANSITIONS "\<lambda>s. s = P_WITHDRAWN"
proof
  show "s = P_WITHDRAWN \<longleftrightarrow> PROPOSAL_TRANSITIONS s = {}" for s by (cases s) simp_all
  show "s \<notin> PROPOSAL_TRANSITIONS s" for s by (cases s) simp_all
qed

definition require_mutable_decision :: "decision \<Rightarrow> error + unit" where
  "require_mutable_decision d =
     ensure (d_status d \<in> proposal_MUTABLE_DECISION_STATUSES) DecisionImmutableError"

definition require_proposal :: "uuid \<Rightarrow> uuid \<Rightarrow> db \<Rightarrow> error + proposal" where
  "require_proposal d i db = require (proposals_repo_get_for_decision d i db) ProposalNotFoundError"

definition require_criterion :: "uuid \<Rightarrow> uuid \<Rightarrow> db \<Rightarrow> error + decision_criterion" where
  "require_criterion d i db = require (proposals_repo_get_criterion d i db) CriterionNotFoundError"

definition proposal_create ::
  "env \<Rightarrow> user \<Rightarrow> uuid \<Rightarrow> uuid \<Rightarrow> proposal_create_request \<Rightarrow> db \<Rightarrow> error + proposal \<times> db" where
  "proposal_create env me w d payload db =
     bindE (decision_context (u_id me) w d db) (\<lambda>(m, decision).
     bindE (require_mutable_decision decision) (\<lambda>_.
     bindE (ensure (can_create_proposals (m_role m)) ProposalAccessDeniedError) (\<lambda>_.
     proposals_repo_create
       \<lparr>p_id = fresh env 0, p_decision_id = d, p_created_by_id = u_id me, p_title = pc_title payload,
        p_summary = pc_summary payload, p_content = pc_content payload, p_status = P_DRAFT,
        p_submitted_at = None, p_withdrawn_at = None, p_created_at = db_now env,
        p_updated_at = db_now env\<rparr> db)))"

definition proposal_list ::
  "user \<Rightarrow> uuid \<Rightarrow> uuid \<Rightarrow> proposal_status option \<Rightarrow> db \<Rightarrow> error + proposal list" where
  "proposal_list me w d status db =
     bindE (decision_context (u_id me) w d db) (\<lambda>_. Inr (proposals_repo_list_for_decision d status db))"

definition proposal_get :: "user \<Rightarrow> uuid \<Rightarrow> uuid \<Rightarrow> uuid \<Rightarrow> db \<Rightarrow> error + proposal" where
  "proposal_get me w d i db =
     bindE (decision_context (u_id me) w d db) (\<lambda>_. require_proposal d i db)"

definition proposal_update ::
  "env \<Rightarrow> user \<Rightarrow> uuid \<Rightarrow> uuid \<Rightarrow> uuid \<Rightarrow> proposal_update_request \<Rightarrow> db \<Rightarrow> error + proposal \<times> db" where
  "proposal_update env me w d i payload db =
     bindE (decision_context (u_id me) w d db) (\<lambda>(m, decision).
     bindE (require_mutable_decision decision) (\<lambda>_.
     bindE (require_proposal d i db) (\<lambda>p.
     bindE (ensure (can_manage_proposal (m_role m) (p_created_by_id p) (u_id me)) ProposalAccessDeniedError) (\<lambda>_.
     bindE (ensure (p_status p = P_DRAFT) ProposalImmutableError) (\<lambda>_.
     proposals_repo_update env p (\<lambda>p. p\<lparr>
       p_title := patch_required (pu_title payload) (p_title p),
       p_summary := patch_nullable (pu_summary payload) (p_summary p),
       p_content := patch_nullable (pu_content payload) (p_content p)\<rparr>) db)))))"

definition proposal_transition ::
  "env \<Rightarrow> user \<Rightarrow> uuid \<Rightarrow> uuid \<Rightarrow> uuid \<Rightarrow> proposal_status \<Rightarrow> db \<Rightarrow> error + proposal \<times> db" where
  "proposal_transition env me w d i target db =
     bindE (decision_context (u_id me) w d db) (\<lambda>(m, decision).
     bindE (require_mutable_decision decision) (\<lambda>_.
     bindE (require_proposal d i db) (\<lambda>p.
     bindE (ensure (can_manage_proposal (m_role m) (p_created_by_id p) (u_id me)) ProposalAccessDeniedError) (\<lambda>_.
     bindE (ensure (target \<in> PROPOSAL_TRANSITIONS (p_status p)) ProposalInvalidTransitionError) (\<lambda>_.
     proposals_repo_update env p (\<lambda>p. p\<lparr>
       p_status := target,
       p_submitted_at := (if target = P_SUBMITTED then Some (now env) else None),
       p_withdrawn_at := (if target = P_WITHDRAWN then Some (now env) else None)\<rparr>) db)))))"

definition proposal_delete :: "user \<Rightarrow> uuid \<Rightarrow> uuid \<Rightarrow> uuid \<Rightarrow> db \<Rightarrow> error + unit \<times> db" where
  "proposal_delete me w d i db =
     bindE (decision_context (u_id me) w d db) (\<lambda>(m, decision).
     bindE (require_mutable_decision decision) (\<lambda>_.
     bindE (require_proposal d i db) (\<lambda>p.
     bindE (ensure (can_manage_proposal (m_role m) (p_created_by_id p) (u_id me)) ProposalAccessDeniedError) (\<lambda>_.
     bindE (ensure (p_status p = P_DRAFT) ProposalImmutableError) (\<lambda>_.
     bindE (proposals_repo_delete p db) (\<lambda>db'. Inr ((), db')))))))"

section \<open>The service: criteria and scores\<close>

definition criterion_create ::
  "env \<Rightarrow> user \<Rightarrow> uuid \<Rightarrow> uuid \<Rightarrow> criterion_create_request \<Rightarrow> db \<Rightarrow> error + decision_criterion \<times> db" where
  "criterion_create env me w d payload db =
     bindE (decision_context (u_id me) w d db) (\<lambda>(m, decision).
     bindE (require_mutable_decision decision) (\<lambda>_.
     bindE (ensure (can_manage_criteria (m_role m)) CriterionAccessDeniedError) (\<lambda>_.
     proposals_repo_create_criterion
       \<lparr>c_id = fresh env 0, c_decision_id = d, c_created_by_id = u_id me, c_name = cc_name payload,
        c_description = cc_description payload, c_weight = cc_weight payload,
        c_position = proposals_repo_next_criterion_position d db, c_created_at = db_now env,
        c_updated_at = db_now env\<rparr> db)))"

definition criterion_list :: "user \<Rightarrow> uuid \<Rightarrow> uuid \<Rightarrow> db \<Rightarrow> error + decision_criterion list" where
  "criterion_list me w d db =
     bindE (decision_context (u_id me) w d db) (\<lambda>_. Inr (proposals_repo_list_criteria d db))"

definition criterion_update ::
  "env \<Rightarrow> user \<Rightarrow> uuid \<Rightarrow> uuid \<Rightarrow> uuid \<Rightarrow> criterion_update_request \<Rightarrow> db
     \<Rightarrow> error + decision_criterion \<times> db" where
  "criterion_update env me w d i payload db =
     bindE (decision_context (u_id me) w d db) (\<lambda>(m, decision).
     bindE (require_mutable_decision decision) (\<lambda>_.
     bindE (ensure (can_manage_criteria (m_role m)) CriterionAccessDeniedError) (\<lambda>_.
     bindE (require_criterion d i db) (\<lambda>c.
     proposals_repo_update_criterion env c (\<lambda>c. c\<lparr>
       c_name := patch_required (cu_name payload) (c_name c),
       c_description := patch_nullable (cu_description payload) (c_description c),
       c_weight := patch_required (cu_weight payload) (c_weight c)\<rparr>) db))))"

definition criterion_reorder ::
  "env \<Rightarrow> user \<Rightarrow> uuid \<Rightarrow> uuid \<Rightarrow> uuid list \<Rightarrow> db \<Rightarrow> error + decision_criterion list \<times> db" where
  "criterion_reorder env me w d ids db =
     bindE (decision_context (u_id me) w d db) (\<lambda>(m, decision).
     bindE (require_mutable_decision decision) (\<lambda>_.
     bindE (ensure (can_manage_criteria (m_role m)) CriterionAccessDeniedError) (\<lambda>_.
     let cs = proposals_repo_list_criteria d db in
     bindE (ensure (set ids = set (map c_id cs)) CriterionConflictError) (\<lambda>_.
     proposals_repo_reorder_criteria env (map (\<lambda>i. the (lookup c_id i (rev cs))) ids) db))))"

definition criterion_delete :: "user \<Rightarrow> uuid \<Rightarrow> uuid \<Rightarrow> uuid \<Rightarrow> db \<Rightarrow> error + unit \<times> db" where
  "criterion_delete me w d i db =
     bindE (decision_context (u_id me) w d db) (\<lambda>(m, decision).
     bindE (require_mutable_decision decision) (\<lambda>_.
     bindE (ensure (can_manage_criteria (m_role m)) CriterionAccessDeniedError) (\<lambda>_.
     bindE (require_criterion d i db) (\<lambda>c.
     Inr ((), proposals_repo_delete_criterion c db)))))"

definition score_upsert ::
  "env \<Rightarrow> user \<Rightarrow> uuid \<Rightarrow> uuid \<Rightarrow> uuid \<Rightarrow> uuid \<Rightarrow> score_upsert_request \<Rightarrow> db
     \<Rightarrow> error + proposal_score \<times> db" where
  "score_upsert env me w d pid cid payload db =
     bindE (decision_context (u_id me) w d db) (\<lambda>(m, decision).
     bindE (require_mutable_decision decision) (\<lambda>_.
     bindE (ensure (can_score_proposals (m_role m)) ProposalAccessDeniedError) (\<lambda>_.
     bindE (require_proposal d pid db) (\<lambda>p.
     bindE (ensure (p_status p = P_SUBMITTED) ProposalImmutableError) (\<lambda>_.
     bindE (require_criterion d cid db) (\<lambda>_.
     let found = proposals_repo_get_score pid cid db;
         s = (case found of
                Some s \<Rightarrow> s
              | None \<Rightarrow> \<lparr>s_id = fresh env 0, s_proposal_id = pid, s_criterion_id = cid, s_scored_by_id = u_id me,
                         s_score = su_score payload, s_rationale = su_rationale payload,
                         s_created_at = db_now env, s_updated_at = db_now env\<rparr>) in
     proposals_repo_upsert_score env (found = None) s (su_score payload) (su_rationale payload)
       (u_id me) db))))))"

section \<open>The comparison\<close>

record proposal_comparison =
  pcr_proposal :: proposal
  pcr_scores :: "proposal_score list"
  pcr_weighted_score :: "int option"

text \<open>\<open>score_by_pair\<close> is a dict built in the order of the list: the last score of a pair wins.\<close>

definition score_by_pair :: "proposal_score list \<Rightarrow> uuid \<Rightarrow> uuid \<Rightarrow> proposal_score option" where
  "score_by_pair ss p c = first_where (\<lambda>s. s_proposal_id s = p \<and> s_criterion_id s = c) (rev ss)"

text \<open>\<open>weighted_score\<close> is in hundredths, what \<open>round(x, 2)\<close> leaves of the quotient.\<close>

definition compare_proposal ::
  "decision_criterion list \<Rightarrow> proposal_score list \<Rightarrow> proposal \<Rightarrow> proposal_comparison" where
  "compare_proposal cs ss p =
     (let total_weight = sum_list (map c_weight cs);
          proposal_scores = List.map_filter (\<lambda>c. score_by_pair ss (p_id p) (c_id c)) cs;
          complete = (cs \<noteq> [] \<and> length proposal_scores = length cs);
          weighted_sum = sum_list (map (\<lambda>c. s_score (the (score_by_pair ss (p_id p) (c_id c))) * c_weight c) cs)
      in \<lparr>pcr_proposal = p, pcr_scores = proposal_scores,
          pcr_weighted_score =
            (if complete \<and> total_weight \<noteq> 0 then Some (round2 (truediv (nat weighted_sum) (nat total_weight)))
             else None)\<rparr>)"

definition proposal_compare :: "user \<Rightarrow> uuid \<Rightarrow> uuid \<Rightarrow> db \<Rightarrow> error + proposal_comparison list" where
  "proposal_compare me w d db =
     bindE (decision_context (u_id me) w d db) (\<lambda>_.
     Inr (map (compare_proposal (proposals_repo_list_criteria d db)
                 (proposals_repo_list_scores_for_decision d db))
            (proposals_repo_list_for_decision d (Some P_SUBMITTED) db)))"

section \<open>Proposals: what the operations do\<close>

lemma require_mutable_Inr [simp]:
  "require_mutable_decision d = Inr u \<longleftrightarrow> d_status d \<in> {D_DRAFT, D_ACTIVE}"
  by (simp add: require_mutable_decision_def proposal_MUTABLE_DECISION_STATUSES_def)

lemma require_proposal_Inr [simp]:
  "require_proposal d i db = Inr p \<longleftrightarrow> proposals_repo_get_for_decision d i db = Some p"
  by (simp add: require_proposal_def)

lemma require_criterion_Inr [simp]:
  "require_criterion d i db = Inr c \<longleftrightarrow> proposals_repo_get_criterion d i db = Some c"
  by (simp add: require_criterion_def)

lemma proposal_getD:
  "proposals_repo_get_for_decision d i db = Some p \<Longrightarrow> p \<in> set (proposals db) \<and> p_id p = i \<and> p_decision_id p = d"
  unfolding proposals_repo_get_for_decision_def by (rule proposal_table.get_Some)

lemma proposal_get_lookup:
  "distinct (map p_id (proposals db)) \<Longrightarrow> proposals_repo_get_for_decision d i db = Some p \<Longrightarrow>
     lookup p_id (p_id p) (proposals db) = Some p"
  using proposal_table.get_lookup proposal_table.get_Some
  unfolding proposals_repo_get_for_decision_def by metis

lemma write_proposal_key [simp]:
  "p_id (write_proposal env old new cur) = p_id cur"
  "p_decision_id (write_proposal env old new cur) = p_decision_id cur"
  "p_created_by_id (write_proposal env old new cur) = p_created_by_id cur"
  "p_created_at (write_proposal env old new cur) = p_created_at cur"
  by (simp_all add: write_proposal_def)

lemma write_proposal_fresh [simp]:
  "p_title (write_proposal env p new p) = p_title new"
  "p_summary (write_proposal env p new p) = p_summary new"
  "p_content (write_proposal env p new p) = p_content new"
  "p_status (write_proposal env p new p) = p_status new"
  "p_submitted_at (write_proposal env p new p) = p_submitted_at new"
  "p_withdrawn_at (write_proposal env p new p) = p_withdrawn_at new"
  by (cases "new = p"; simp add: write_proposal_def)+

lemma proposals_repo_update_InrD:
  assumes "proposals_repo_update env p f db = Inr (r, db')" and "lookup p_id (p_id p) (proposals db) = Some p"
  shows "r = write_proposal env p (f p) p \<and> db' = db\<lparr>proposals := store p_id r (proposals db)\<rparr>"
  using assms by (auto simp: proposals_repo_update_def)

lemma proposal_update_InrD:
  assumes "proposal_update env me w d i q db = Inr (r, db')" and "distinct (map p_id (proposals db))"
  obtains m dec p where "workspaces_repo_get_membership w (u_id me) db = Some m"
    and "decisions_repo_get_for_workspace w d db = Some dec" and "d_status dec \<in> {D_DRAFT, D_ACTIVE}"
    and "proposals_repo_get_for_decision d i db = Some p"
    and "can_manage_proposal (m_role m) (p_created_by_id p) (u_id me)" and "p_status p = P_DRAFT"
    and "r = write_proposal env p (p\<lparr>p_title := patch_required (pu_title q) (p_title p),
               p_summary := patch_nullable (pu_summary q) (p_summary p),
               p_content := patch_nullable (pu_content q) (p_content p)\<rparr>) p"
    and "db' = db\<lparr>proposals := store p_id r (proposals db)\<rparr>"
  using assms(1)
  by (auto simp: proposal_update_def dest!: proposals_repo_update_InrD [OF _ proposal_get_lookup [OF assms(2)]])

lemma proposal_transition_InrD:
  assumes "proposal_transition env me w d i target db = Inr (r, db')" and "distinct (map p_id (proposals db))"
  obtains m dec p where "workspaces_repo_get_membership w (u_id me) db = Some m"
    and "decisions_repo_get_for_workspace w d db = Some dec" and "d_status dec \<in> {D_DRAFT, D_ACTIVE}"
    and "proposals_repo_get_for_decision d i db = Some p"
    and "can_manage_proposal (m_role m) (p_created_by_id p) (u_id me)"
    and "target \<in> PROPOSAL_TRANSITIONS (p_status p)"
    and "r = write_proposal env p (p\<lparr>p_status := target,
               p_submitted_at := (if target = P_SUBMITTED then Some (now env) else None),
               p_withdrawn_at := (if target = P_WITHDRAWN then Some (now env) else None)\<rparr>) p"
    and "db' = db\<lparr>proposals := store p_id r (proposals db)\<rparr>"
  using assms(1)
  by (auto simp: proposal_transition_def dest!: proposals_repo_update_InrD [OF _ proposal_get_lookup [OF assms(2)]])

lemma proposal_delete_Inr:
  "proposal_delete me w d i db = Inr (u, db') \<longleftrightarrow>
     (\<exists>m dec p. workspaces_repo_get_by_id w db \<noteq> None \<and> workspaces_repo_get_membership w (u_id me) db = Some m \<and>
        decisions_repo_get_for_workspace w d db = Some dec \<and> d_status dec \<in> {D_DRAFT, D_ACTIVE} \<and>
        proposals_repo_get_for_decision d i db = Some p \<and>
        can_manage_proposal (m_role m) (p_created_by_id p) (u_id me) \<and> p_status p = P_DRAFT \<and>
        proposals_unreferenced (\<lambda>j. j = p_id p) db \<and> db' = cascade_proposals (\<lambda>j. j = p_id p) db)"
  by (auto simp: proposal_delete_def proposals_repo_delete_def delete_proposal_row_def)

section \<open>Proposals: invariant and steps\<close>

definition proposal_row_ok :: "proposal \<Rightarrow> bool" where
  "proposal_row_ok p \<longleftrightarrow>
     (p_submitted_at p \<noteq> None \<longleftrightarrow> p_status p = P_SUBMITTED) \<and>
     (p_withdrawn_at p \<noteq> None \<longleftrightarrow> p_status p = P_WITHDRAWN)"

definition proposal_inv :: "proposal list \<Rightarrow> bool" where
  "proposal_inv ps \<longleftrightarrow> distinct (map p_id ps) \<and> (\<forall>p \<in> set ps. proposal_row_ok p)"

text \<open>The text of a proposal changes only in a draft, and a status move leaves the text alone.\<close>

definition proposal_evolves :: "proposal \<Rightarrow> proposal \<Rightarrow> bool" where
  "proposal_evolves p p' \<longleftrightarrow> p' = p \<or>
     (p_id p' = p_id p \<and> p_decision_id p' = p_decision_id p \<and> p_created_by_id p' = p_created_by_id p \<and>
      p_created_at p' = p_created_at p \<and>
      (p_status p = P_DRAFT \<and> p_status p' = P_DRAFT \<or>
       p_status p' \<in> PROPOSAL_TRANSITIONS (p_status p) \<and>
       p_title p' = p_title p \<and> p_summary p' = p_summary p \<and> p_content p' = p_content p))"

interpretation proposal_history: row_history p_id "\<lambda>p. p_status p = P_DRAFT" proposal_evolves
  by unfold_locales (auto simp: proposal_evolves_def)

abbreviation proposals_follow :: "proposal list \<Rightarrow> proposal list \<Rightarrow> bool" where
  "proposals_follow \<equiv> follows p_id (\<lambda>p. p_status p = P_DRAFT) proposal_evolves"

lemma proposal_inv_distinct: "proposal_inv ps \<Longrightarrow> distinct (map p_id ps)"
  by (simp add: proposal_inv_def)

lemma proposal_inv_row: "proposal_inv ps \<Longrightarrow> p \<in> set ps \<Longrightarrow> proposal_row_ok p"
  by (simp add: proposal_inv_def)

lemma proposal_inv_append:
  "proposal_inv ps \<Longrightarrow> p_id p \<notin> p_id ` set ps \<Longrightarrow> proposal_row_ok p \<Longrightarrow> proposal_inv (ps @ [p])"
  by (auto simp: proposal_inv_def)

lemma proposal_inv_store: "proposal_inv ps \<Longrightarrow> proposal_row_ok p \<Longrightarrow> proposal_inv (store p_id p ps)"
  by (auto simp: proposal_inv_def dest!: mem_storeD)

lemma proposal_inv_filter: "proposal_inv ps \<Longrightarrow> proposal_inv (filter P ps)"
  by (auto simp: proposal_inv_def intro: distinct_map_filter)

inductive proposal_step :: "db \<Rightarrow> db \<Rightarrow> bool" where
  create: "ProposalCreateRequest b = Inr q \<Longrightarrow> proposal_create env me w d q db = Inr (r, db') \<Longrightarrow>
             proposal_step db db'"
| update: "ProposalUpdateRequest b' = Inr q' \<Longrightarrow> proposal_update env me w d i q' db = Inr (r, db') \<Longrightarrow>
             proposal_step db db'"
| transition: "proposal_transition env me w d i target db = Inr (r, db') \<Longrightarrow> proposal_step db db'"
| delete: "proposal_delete me w d i db = Inr (u, db') \<Longrightarrow> proposal_step db db'"

text \<open>Every step of the component, as its effect on the table.\<close>

lemma proposal_step_effect:
  assumes "proposal_step db db'" and inv: "proposal_inv (proposals db)"
  shows "(\<exists>p. p_id p \<notin> p_id ` set (proposals db) \<and> p_status p = P_DRAFT \<and> proposal_row_ok p \<and>
            db' = db\<lparr>proposals := proposals db @ [p]\<rparr>) \<or>
         (\<exists>p p'. lookup p_id (p_id p) (proposals db) = Some p \<and> proposal_evolves p p' \<and> proposal_row_ok p' \<and>
            db' = db\<lparr>proposals := store p_id p' (proposals db)\<rparr>) \<or>
         (\<exists>p. p \<in> set (proposals db) \<and> p_status p = P_DRAFT \<and> proposals_unreferenced (\<lambda>j. j = p_id p) db \<and>
            db' = cascade_proposals (\<lambda>j. j = p_id p) db)"
    (is "?ins \<or> ?upd \<or> ?del")
  using assms(1)
proof cases
  case (create b q env me w d r)
  then have "p_id r \<notin> p_id ` set (proposals db) \<and> p_status r = P_DRAFT \<and> proposal_row_ok r \<and>
      db' = db\<lparr>proposals := proposals db @ [r]\<rparr>"
    by (auto simp: proposal_create_def proposals_repo_create_def proposal_row_ok_def)
  then show ?thesis by blast
next
  case (update b' q' env me w d i r)
  from update(2) proposal_inv_distinct [OF inv] obtain p where p: "proposals_repo_get_for_decision d i db = Some p"
    "p_status p = P_DRAFT" "db' = db\<lparr>proposals := store p_id r (proposals db)\<rparr>"
    and r: "r = write_proposal env p (p\<lparr>p_title := patch_required (pu_title q') (p_title p),
               p_summary := patch_nullable (pu_summary q') (p_summary p),
               p_content := patch_nullable (pu_content q') (p_content p)\<rparr>) p"
    by (elim proposal_update_InrD) auto
  have "proposal_row_ok p" using p(1) inv by (auto dest: proposal_getD proposal_inv_row)
  then have "proposal_row_ok r" "proposal_evolves p r"
    using p(2) by (simp_all add: r proposal_row_ok_def proposal_evolves_def)
  then show ?thesis using p proposal_get_lookup [OF proposal_inv_distinct [OF inv] p(1)] by blast
next
  case (transition env me w d i target r)
  from transition proposal_inv_distinct [OF inv] obtain p where p: "proposals_repo_get_for_decision d i db = Some p"
    "target \<in> PROPOSAL_TRANSITIONS (p_status p)" "db' = db\<lparr>proposals := store p_id r (proposals db)\<rparr>"
    and r: "r = write_proposal env p (p\<lparr>p_status := target,
               p_submitted_at := (if target = P_SUBMITTED then Some (now env) else None),
               p_withdrawn_at := (if target = P_WITHDRAWN then Some (now env) else None)\<rparr>) p"
    by (elim proposal_transition_InrD) auto
  have "proposal_row_ok r" "proposal_evolves p r"
    using p(2) by (simp_all add: r proposal_row_ok_def proposal_evolves_def)
  then show ?thesis using p proposal_get_lookup [OF proposal_inv_distinct [OF inv] p(1)] by blast
next
  case (delete me w d i u)
  then have ?del by (auto simp: proposal_delete_Inr dest: proposal_getD)
  then show ?thesis by blast
qed

lemma proposal_step_inv:
  "proposal_step db db' \<Longrightarrow> proposal_inv (proposals db) \<Longrightarrow> proposal_inv (proposals db')"
  by (drule (1) proposal_step_effect)
    (auto intro: proposal_inv_append proposal_inv_store simp: cascade_proposals_def proposal_inv_filter)

lemma proposal_step_follow:
  assumes "proposal_step db db'" and inv: "proposal_inv (proposals db)"
  shows "proposals_follow (proposals db) (proposals db')"
  using proposal_step_effect [OF assms]
proof (elim disjE exE conjE)
  fix p assume p: "p \<in> set (proposals db)" "p_status p = P_DRAFT" "db' = cascade_proposals (\<lambda>j. j = p_id p) db"
  have "x = p" if "x \<in> set (proposals db)" "p_id x = p_id p" for x
    using that p(1) distinct_key_eq [OF proposal_inv_distinct [OF inv]] by metis
  then show ?thesis
    using p(2) by (auto simp: p(3) cascade_proposals_def intro!: proposal_history.filter proposal_inv_distinct [OF inv])
next
  fix p p' assume "lookup p_id (p_id p) (proposals db) = Some p" "proposal_evolves p p'"
    "db' = db\<lparr>proposals := store p_id p' (proposals db)\<rparr>"
  then show ?thesis using proposal_history.store [OF proposal_inv_distinct [OF inv]] by simp
qed (simp add: proposal_history.append proposal_inv_distinct [OF inv])

section \<open>Criteria: positions\<close>

definition criteria_inv :: "decision_criterion list \<Rightarrow> bool" where
  "criteria_inv cs \<longleftrightarrow> distinct (map c_id cs) \<and> (\<forall>c \<in> set cs. ck_decision_criteria c) \<and> uq_criteria_position cs"

lemma criteria_invD:
  assumes "criteria_inv cs"
  shows "distinct (map c_id cs)" and "c \<in> set cs \<Longrightarrow> ck_decision_criteria c" and "uq_criteria_position cs"
  using assms by (simp_all add: criteria_inv_def)

lemma criteria_inv_filter: "criteria_inv cs \<Longrightarrow> criteria_inv (filter P cs)"
  by (auto simp: criteria_inv_def uq_criteria_position_def intro: distinct_map_filter)

lemma criterion_getD:
  "proposals_repo_get_criterion d i db = Some c \<Longrightarrow> c \<in> set (criteria db) \<and> c_id c = i \<and> c_decision_id c = d"
  unfolding proposals_repo_get_criterion_def by (rule criterion_table.get_Some)

lemma uq_position_eq:
  "uq_criteria_position cs \<Longrightarrow> x \<in> set cs \<Longrightarrow> y \<in> set cs \<Longrightarrow> c_decision_id x = c_decision_id y \<Longrightarrow>
     c_position x = c_position y \<Longrightarrow> x = y"
  unfolding uq_criteria_position_def by (drule distinct_key_eq [of _ _ x y]) auto

text \<open>The next position is above every position in use, so a new criterion goes to the end.\<close>

lemma foldr_max_ge: "c \<in> set cs \<Longrightarrow> f c \<le> foldr (\<lambda>c m. max (f c) m) cs (b :: int)"
  by (induction cs) auto

lemma foldr_max_base: "b \<le> foldr (\<lambda>c m. max (f c) m) cs (b :: int)"
  by (induction cs) auto

lemma next_position_fresh:
  "c \<in> set (criteria db) \<Longrightarrow> c_decision_id c = d \<Longrightarrow> c_position c < proposals_repo_next_criterion_position d db"
  using foldr_max_ge [of c "filter (\<lambda>c. c_decision_id c = d) (criteria db)" c_position "-1"]
  by (simp add: proposals_repo_next_criterion_position_def)

lemma next_position_nonneg: "0 \<le> proposals_repo_next_criterion_position d db"
  using foldr_max_base [of "-1" c_position "filter (\<lambda>c. c_decision_id c = d) (criteria db)"]
  by (simp add: proposals_repo_next_criterion_position_def)

lemma uq_position_append:
  assumes "uq_criteria_position (criteria db)" and "c_position c = proposals_repo_next_criterion_position (c_decision_id c) db"
  shows "uq_criteria_position (criteria db @ [c])"
  using assms next_position_fresh [of _ db "c_decision_id c"]
  by (fastforce simp: uq_criteria_position_def)

text \<open>Sorting by a key without duplicates is determined by the set of rows.\<close>

lemma sort_key_eqI:
  assumes "sorted (map f xs)" and "distinct (map f xs)" and "set xs = set ys" and "distinct ys"
  shows "sort_key (f :: 'a \<Rightarrow> 'b :: linorder) ys = xs"
proof (rule map_sorted_distinct_set_unique)
  have inj: "inj_on f (set ys)" using assms by (simp add: distinct_map)
  then show "inj_on f (set (sort_key f ys) \<union> set xs)" using assms(3) by simp
  show "distinct (map f (sort_key f ys))" using inj assms(4) by (simp add: distinct_map)
qed (use assms in auto)

definition repositioned :: "env \<Rightarrow> int \<Rightarrow> decision_criterion \<Rightarrow> decision_criterion" where
  "repositioned env position c = write_criterion env c (c\<lparr>c_position := position\<rparr>) c"

lemma repositioned_fields [simp]:
  "c_id (repositioned env i c) = c_id c"
  "c_decision_id (repositioned env i c) = c_decision_id c"
  "c_weight (repositioned env i c) = c_weight c"
  "c_name (repositioned env i c) = c_name c"
  "c_position (repositioned env i c) = i"
  by (cases "c\<lparr>c_position := i\<rparr> = c"; simp add: repositioned_def write_criterion_def;
      metis decision_criterion.select_convs(7) decision_criterion.surjective decision_criterion.update_convs(7))+

lemma flush_positions_total:
  assumes "distinct (map c_id cs)" and "distinct (map c_id ordered)" and "set ordered \<subseteq> set cs"
    and "\<And>c. c \<in> set ordered \<Longrightarrow> ck_decision_criteria c" and "0 \<le> i"
  shows "\<exists>cs'. flush_positions env i ordered cs = Inr cs' \<and> map c_id cs' = map c_id cs \<and>
     (\<forall>k < length ordered. lookup c_id (c_id (ordered ! k)) cs' = Some (repositioned env (i + int k) (ordered ! k))) \<and>
     (\<forall>j. j \<notin> c_id ` set ordered \<longrightarrow> lookup c_id j cs' = lookup c_id j cs)"
  using assms
proof (induction ordered arbitrary: i cs)
  case (Cons c rest)
  let ?c = "repositioned env i c" and ?cs = "store c_id (repositioned env i c) cs"
  have look: "lookup c_id (c_id c) cs = Some c" using Cons.prems(1,3) by (simp add: lookup_distinct)
  have ck: "ck_decision_criteria ?c"
    using Cons.prems(4) [of c] Cons.prems(5) by (simp add: ck_decision_criteria_def)
  have "c_id x \<noteq> c_id c" if "x \<in> set rest" for x
    using Cons.prems(2) imageI [OF that, of c_id] by auto
  then have sub: "set rest \<subseteq> set ?cs" using Cons.prems(3) by (auto simp: set_store)
  obtain cs' where cs': "flush_positions env (i + 1) rest ?cs = Inr cs'" "map c_id cs' = map c_id ?cs"
    and in_rest: "\<And>k. k < length rest \<Longrightarrow>
          lookup c_id (c_id (rest ! k)) cs' = Some (repositioned env (i + 1 + int k) (rest ! k))"
    and others: "\<And>j. j \<notin> c_id ` set rest \<Longrightarrow> lookup c_id j cs' = lookup c_id j ?cs"
    using Cons.IH [of ?cs "i + 1"] Cons.prems sub by auto
  have "flush_positions env i (c # rest) cs = Inr cs'"
    using look ck cs'(1) by (simp add: repositioned_def)
  moreover have "lookup c_id (c_id ((c # rest) ! k)) cs' = Some (repositioned env (i + int k) ((c # rest) ! k))"
    if "k < length (c # rest)" for k
  proof (cases k)
    case 0
    have "c_id c \<notin> c_id ` set rest" using Cons.prems(2) by simp
    then show ?thesis using 0 others look by (force simp: lookup_store dest!: lookup_SomeD)
  next
    case (Suc l)
    then show ?thesis using in_rest [of l] that by (simp add: algebra_simps)
  qed
  moreover have "lookup c_id j cs' = lookup c_id j cs" if "j \<notin> c_id ` set (c # rest)" for j
    using that others [of j] by (simp add: lookup_store)
  ultimately show ?case using cs'(2) by auto
qed simp

lemma flush_positions_rows:
  assumes cs: "distinct (map c_id cs)" and dist: "distinct (map c_id ordered)"
    and rows: "set ordered = set (filter (\<lambda>c. c_decision_id c = d) cs)"
    and ck: "\<And>c. c \<in> set cs \<Longrightarrow> ck_decision_criteria c"
  obtains cs' where "flush_positions env 0 ordered cs = Inr cs'" and "map c_id cs' = map c_id cs"
    and "\<And>k. k < length ordered \<Longrightarrow> lookup c_id (c_id (ordered ! k)) cs' = Some (repositioned env (int k) (ordered ! k))"
    and "set cs' = (\<lambda>k. repositioned env (int k) (ordered ! k)) ` {..<length ordered} \<union>
           set (filter (\<lambda>c. c_decision_id c \<noteq> d) cs)"
proof -
  have sub: "set ordered \<subseteq> set cs" using rows by auto
  obtain cs' where fl: "flush_positions env 0 ordered cs = Inr cs'" and ids: "map c_id cs' = map c_id cs"
    and new: "\<And>k. k < length ordered \<Longrightarrow> lookup c_id (c_id (ordered ! k)) cs' = Some (repositioned env (int k) (ordered ! k))"
    and old: "\<And>j. j \<notin> c_id ` set ordered \<Longrightarrow> lookup c_id j cs' = lookup c_id j cs"
    using flush_positions_total [OF cs dist sub, of 0 env] ck sub by auto
  have look: "c \<in> set cs' \<longleftrightarrow> lookup c_id (c_id c) cs' = Some c" for c
    using ids cs by (simp add: lookup_distinct)
  have "set cs' \<subseteq> (\<lambda>k. repositioned env (int k) (ordered ! k)) ` {..<length ordered} \<union>
           set (filter (\<lambda>c. c_decision_id c \<noteq> d) cs)"
  proof
    fix c assume c: "c \<in> set cs'"
    show "c \<in> (\<lambda>k. repositioned env (int k) (ordered ! k)) ` {..<length ordered} \<union>
            set (filter (\<lambda>c. c_decision_id c \<noteq> d) cs)"
    proof (cases "c_id c \<in> c_id ` set ordered")
      case True
      then obtain k where k: "k < length ordered" "c_id c = c_id (ordered ! k)" by (auto simp: in_set_conv_nth)
      then have "c = repositioned env (int k) (ordered ! k)" using new [OF k(1)] c by (simp add: look)
      then show ?thesis using k(1) by blast
    next
      case False
      then have m: "c \<in> set cs" using c old [OF False] by (simp add: look lookup_distinct [OF cs])
      have "c \<notin> set ordered" using False by blast
      then show ?thesis using m rows by simp
    qed
  qed
  moreover have "c \<in> set cs'" if "c \<in> set cs" "c_decision_id c \<noteq> d" for c
  proof -
    have "c_id x \<noteq> c_id c" if x: "x \<in> set ordered" for x
    proof
      assume "c_id x = c_id c"
      then have "x = c" using distinct_key_eq [OF cs, of x c] x sub \<open>c \<in> set cs\<close> by blast
      then show False using x rows \<open>c_decision_id c \<noteq> d\<close> by simp
    qed
    then have "c_id c \<notin> c_id ` set ordered" by (metis imageE)
    then show ?thesis using old that(1) by (simp add: look lookup_distinct [OF cs])
  qed
  moreover have "repositioned env (int k) (ordered ! k) \<in> set cs'" if "k < length ordered" for k
    using lookup_SomeD [OF new [OF that]] by blast
  ultimately have m: "set cs' = (\<lambda>k. repositioned env (int k) (ordered ! k)) ` {..<length ordered} \<union>
           set (filter (\<lambda>c. c_decision_id c \<noteq> d) cs)"
    by (intro equalityI) auto
  show thesis
  proof (rule that [of cs'])
    show "lookup c_id (c_id (ordered ! k)) cs' = Some (repositioned env (int k) (ordered ! k))"
      if "k < length ordered" for k by (rule new [OF that])
  qed (fact fl ids m)+
qed

text \<open>The dict \<open>by_id\<close>, and the rows it gives in the order of the request.\<close>

lemma reorder_rows:
  assumes inv: "criteria_inv (criteria db)"
    and same: "set ids = set (map c_id (proposals_repo_list_criteria d db))"
    and ordered: "ordered = map (\<lambda>i. the (lookup c_id i (rev (proposals_repo_list_criteria d db)))) ids"
  shows "map c_id ordered = ids"
    and "set ordered = set (filter (\<lambda>c. c_decision_id c = d) (criteria db))"
proof -
  let ?mine = "filter (\<lambda>c. c_decision_id c = d) (criteria db)"
  let ?l = "proposals_repo_list_criteria d db"
  have l: "set ?l = set ?mine" by (simp add: proposals_repo_list_criteria_def)
  have get: "the (lookup c_id i (rev ?l)) \<in> set ?mine \<and> c_id (the (lookup c_id i (rev ?l))) = i"
    if "i \<in> set ids" for i
  proof -
    have "lookup c_id i (rev ?l) \<noteq> None" using that same by (simp add: lookup_None_iff)
    then obtain c where c: "lookup c_id i (rev ?l) = Some c" by blast
    then have "c \<in> set ?mine" using lookup_SomeD [OF c] l by simp
    then show ?thesis using lookup_SomeD [OF c] c by simp
  qed
  show ids: "map c_id ordered = ids"
    unfolding ordered map_map by (rule map_idI) (simp add: get)
  have "c \<in> set ordered" if c: "c \<in> set ?mine" for c
  proof -
    have "c_id c \<in> c_id ` set ordered" using c same l ids by (metis image_eqI list.set_map)
    then obtain x where x: "x \<in> set ordered" "c_id x = c_id c" by fastforce
    then have "x \<in> set ?mine" using get by (auto simp: ordered)
    then have "x = c" using c x distinct_key_eq [OF criteria_invD(1) [OF inv], of x c] by simp
    with x show ?thesis by simp
  qed
  then show "set ordered = set ?mine" using get by (auto simp: ordered)
qed

text \<open>
  Reordering with a permutation of the decision's criteria always commits; afterwards the list of
  the decision is the permutation, numbered from zero, and no other decision is affected.
\<close>

lemma reorder_criteria_ok:
  assumes inv: "criteria_inv (criteria db)" and dist: "distinct ids"
    and same: "set ids = set (map c_id (proposals_repo_list_criteria d db))"
    and ordered: "ordered = map (\<lambda>i. the (lookup c_id i (rev (proposals_repo_list_criteria d db)))) ids"
  obtains cs' where "proposals_repo_reorder_criteria env ordered db =
       Inr (map (\<lambda>k. repositioned env (int k) (ordered ! k)) [0..<length ids], db\<lparr>criteria := cs'\<rparr>)"
    and "criteria_inv cs'" and "map c_id cs' = map c_id (criteria db)"
    and "proposals_repo_list_criteria d (db\<lparr>criteria := cs'\<rparr>) =
           map (\<lambda>k. repositioned env (int k) (ordered ! k)) [0..<length ids]"
    and "\<And>e. e \<noteq> d \<Longrightarrow>
           set (filter (\<lambda>c. c_decision_id c = e) cs') = set (filter (\<lambda>c. c_decision_id c = e) (criteria db))"
proof -
  note D = criteria_invD [OF inv] and R = reorder_rows [OF inv same ordered]
  have len: "length ordered = length ids" by (simp add: ordered)
  have dist_ord: "distinct (map c_id ordered)" using R(1) dist by simp
  obtain cs' where fl: "flush_positions env 0 ordered (criteria db) = Inr cs'"
    and ids': "map c_id cs' = map c_id (criteria db)"
    and new: "\<And>k. k < length ids \<Longrightarrow> lookup c_id (c_id (ordered ! k)) cs' = Some (repositioned env (int k) (ordered ! k))"
    and mem: "set cs' = (\<lambda>k. repositioned env (int k) (ordered ! k)) ` {..<length ids} \<union>
           set (filter (\<lambda>c. c_decision_id c \<noteq> d) (criteria db))"
    using flush_positions_rows [OF D(1) dist_ord R(2) D(2), of env] len by auto
  have ord_d: "c_decision_id (ordered ! k) = d \<and> ordered ! k \<in> set (criteria db)" if "k < length ids" for k
    using that R(2) len nth_mem [of k ordered] by auto
  have dist': "distinct (map c_id cs')" using ids' D(1) by simp
  have "inj_on (\<lambda>c. (c_decision_id c, c_position c)) (set cs')"
  proof (rule inj_onI)
    fix x y assume xy: "x \<in> set cs'" "y \<in> set cs'"
      and eq: "(c_decision_id x, c_position x) = (c_decision_id y, c_position y)"
    have x: "x \<in> set (criteria db) \<and> c_decision_id x \<noteq> d \<or>
               (\<exists>k < length ids. x = repositioned env (int k) (ordered ! k) \<and> c_decision_id x = d)"
      using xy(1) ord_d by (auto simp: mem)
    have y: "y \<in> set (criteria db) \<and> c_decision_id y \<noteq> d \<or>
               (\<exists>k < length ids. y = repositioned env (int k) (ordered ! k) \<and> c_decision_id y = d)"
      using xy(2) ord_d by (auto simp: mem)
    from x y show "x = y"
    proof (elim disjE exE conjE)
      assume "x \<in> set (criteria db)" "y \<in> set (criteria db)"
      then show "x = y" using eq by (intro uq_position_eq [OF D(3)]) simp_all
    qed (use eq in auto)
  qed
  then have uq: "uq_criteria_position cs'"
    using dist' by (simp add: uq_criteria_position_def distinct_map)
  have cks: "ck_decision_criteria c" if "c \<in> set cs'" for c
    using that D(2) ord_d by (auto simp: mem ck_decision_criteria_def)
  let ?xs = "map (\<lambda>k. repositioned env (int k) (ordered ! k)) [0..<length ids]"
  have listed: "proposals_repo_list_criteria d (db\<lparr>criteria := cs'\<rparr>) = ?xs"
    unfolding proposals_repo_list_criteria_def
  proof (rule sort_key_eqI)
    have pos: "map c_position ?xs = map int [0..<length ids]" by simp
    show "sorted (map c_position ?xs)" unfolding pos by (simp add: sorted_map)
    show "distinct (map c_position ?xs)" unfolding pos by (simp add: distinct_map inj_on_def)
    have "set ?xs = (\<lambda>k. repositioned env (int k) (ordered ! k)) ` {..<length ids}"
      by (simp add: lessThan_atLeast0)
    moreover have "c_decision_id c = d" if "c \<in> (\<lambda>k. repositioned env (int k) (ordered ! k)) ` {..<length ids}" for c
      using that ord_d by auto
    ultimately show "set ?xs = set (filter (\<lambda>c. c_decision_id c = d) (criteria (db\<lparr>criteria := cs'\<rparr>)))"
      using mem by auto
    show "distinct (filter (\<lambda>c. c_decision_id c = d) (criteria (db\<lparr>criteria := cs'\<rparr>)))"
      using dist' by (simp add: distinct_map)
  qed
  have rows: "map (\<lambda>c. the (lookup c_id (c_id c) cs')) ordered = ?xs"
    using new len by (intro nth_equalityI) auto
  show thesis
  proof (rule that [of cs'])
    show "proposals_repo_reorder_criteria env ordered db = Inr (?xs, db\<lparr>criteria := cs'\<rparr>)"
      using fl uq rows by (simp add: proposals_repo_reorder_criteria_def)
    show "criteria_inv cs'" using dist' cks uq by (simp add: criteria_inv_def)
    show "set (filter (\<lambda>c. c_decision_id c = e) cs') = set (filter (\<lambda>c. c_decision_id c = e) (criteria db))"
      if "e \<noteq> d" for e
      using that ord_d by (auto simp: mem)
  qed (use ids' listed in auto)
qed

section \<open>Criteria and scores: steps\<close>

inductive criterion_step :: "db \<Rightarrow> db \<Rightarrow> bool" where
  create: "CriterionCreateRequest b = Inr q \<Longrightarrow> criterion_create env me w d q db = Inr (c, db') \<Longrightarrow>
             criterion_step db db'"
| update: "CriterionUpdateRequest b' = Inr q' \<Longrightarrow> criterion_update env me w d i q' db = Inr (c, db') \<Longrightarrow>
             criterion_step db db'"
| reorder: "CriterionReorderRequest ids = Inr ids' \<Longrightarrow> criterion_reorder env me w d ids' db = Inr (cs, db') \<Longrightarrow>
             criterion_step db db'"
| delete: "criterion_delete me w d i db = Inr (u, db') \<Longrightarrow> criterion_step db db'"
| score: "ProposalScoreUpsertRequest s = Inr s' \<Longrightarrow> score_upsert env me w d pid cid s' db = Inr (r, db') \<Longrightarrow>
             criterion_step db db'"

definition scores_inv :: "proposal_score list \<Rightarrow> bool" where
  "scores_inv ss \<longleftrightarrow> distinct (map s_id ss) \<and> distinct (map (\<lambda>s. (s_proposal_id s, s_criterion_id s)) ss) \<and>
     (\<forall>s \<in> set ss. ck_proposal_scores s)"

lemma scores_inv_filter: "scores_inv ss \<Longrightarrow> scores_inv (filter P ss)"
  by (auto simp: scores_inv_def intro: distinct_map_filter)

lemma write_criterion_key [simp]: "c_id (write_criterion env old new cur) = c_id cur"
  by (simp add: write_criterion_def)

lemma write_score_key [simp]:
  "s_id (write_score env old new cur) = s_id cur"
  "s_proposal_id (write_score env old new cur) = s_proposal_id cur"
  "s_criterion_id (write_score env old new cur) = s_criterion_id cur"
  by (simp_all add: write_score_def)

lemma flush_positions_inv:
  "flush_positions env i ordered cs = Inr cs' \<Longrightarrow> (\<forall>c \<in> set cs. ck_decision_criteria c) \<Longrightarrow>
     map c_id cs' = map c_id cs \<and> (\<forall>c \<in> set cs'. ck_decision_criteria c)"
  by (induction env i ordered cs rule: flush_positions.induct) (fastforce dest: mem_storeD)+

lemma criteria_inv_store:
  "criteria_inv cs \<Longrightarrow> ck_decision_criteria c \<Longrightarrow> uq_criteria_position (store c_id c cs) \<Longrightarrow>
     criteria_inv (store c_id c cs)"
  by (auto simp: criteria_inv_def dest!: mem_storeD)

lemma scores_inv_store:
  assumes "scores_inv ss" and "lookup s_id i ss = Some cur" and "s_id s = s_id cur"
    and "s_proposal_id s = s_proposal_id cur" and "s_criterion_id s = s_criterion_id cur" and "ck_proposal_scores s"
  shows "scores_inv (store s_id s ss)"
proof -
  have "x = cur" if "x \<in> set ss" "s_id x = s_id s" for x
    using assms that distinct_key_eq [of s_id ss x cur] by (auto simp: scores_inv_def dest!: lookup_SomeD)
  then have "map (\<lambda>s. (s_proposal_id s, s_criterion_id s)) (store s_id s ss) =
             map (\<lambda>s. (s_proposal_id s, s_criterion_id s)) ss"
    using assms by (intro map_store_same) auto
  moreover have "\<forall>x \<in> set (store s_id s ss). ck_proposal_scores x"
    using assms by (auto simp: scores_inv_def dest!: mem_storeD)
  ultimately show ?thesis using assms(1) by (simp add: scores_inv_def)
qed

lemma criterion_step_frame:
  assumes "criterion_step db db'"
  shows "db' = db\<lparr>criteria := criteria db', scores := scores db'\<rparr>"
  using assms
  by cases (auto simp: criterion_create_def proposals_repo_create_criterion_def criterion_update_def
      proposals_repo_update_criterion_def criterion_reorder_def proposals_repo_reorder_criteria_def
      criterion_delete_def proposals_repo_delete_criterion_def delete_criterion_row_def score_upsert_def
      proposals_repo_upsert_score_def Let_def split: if_splits)

lemma criterion_step_inv:
  assumes "criterion_step db db'" and inv: "criteria_inv (criteria db)"
  shows "criteria_inv (criteria db')"
  using assms(1)
proof cases
  case (create b q env me w d c)
  then show ?thesis
    using inv by (auto simp: criterion_create_def proposals_repo_create_criterion_def criteria_inv_def)
next
  case (update b' q' env me w d i c)
  then show ?thesis
    using inv by (auto simp: criterion_update_def proposals_repo_update_criterion_def intro!: criteria_inv_store)
next
  case (reorder ids ids' env me w d cs)
  then show ?thesis
    using inv by (auto simp: criterion_reorder_def proposals_repo_reorder_criteria_def Let_def criteria_inv_def
        dest!: flush_positions_inv)
next
  case (delete me w d i u)
  then show ?thesis
    using inv by (auto simp: criterion_delete_def proposals_repo_delete_criterion_def
        delete_criterion_row_def criteria_inv_filter)
next
  case (score s s' env me w d pid cid r)
  then show ?thesis
    using inv by (auto simp: score_upsert_def proposals_repo_upsert_score_def Let_def split: if_splits)
qed

lemma score_upsert_inv:
  assumes "score_upsert env me w d pid cid q db = Inr (r, db')" and inv: "scores_inv (scores db)"
  shows "scores_inv (scores db')"
proof (cases "proposals_repo_get_score pid cid db")
  case None
  then show ?thesis
    using assms by (auto simp: score_upsert_def proposals_repo_upsert_score_def Let_def scores_inv_def
        uq_proposal_scores_def)
next
  case (Some s)
  then obtain cur where "lookup s_id (s_id s) (scores db) = Some cur"
    "scores db' = store s_id (write_score env s (s\<lparr>s_score := su_score q, s_rationale := su_rationale q,
       s_scored_by_id := u_id me\<rparr>) cur) (scores db)"
    "ck_proposal_scores (write_score env s (s\<lparr>s_score := su_score q, s_rationale := su_rationale q,
       s_scored_by_id := u_id me\<rparr>) cur)"
    using assms(1) by (auto simp: score_upsert_def proposals_repo_upsert_score_def Let_def)
  then show ?thesis using scores_inv_store [OF inv] by simp
qed

lemma criterion_step_scores:
  assumes "criterion_step db db'" and inv: "scores_inv (scores db)"
  shows "scores_inv (scores db')"
  using assms(1)
proof cases
  case (score s s' env me w d pid cid r)
  then show ?thesis using inv score_upsert_inv by blast
next
  case (delete me w d i u)
  then show ?thesis
    using inv by (auto simp: criterion_delete_def proposals_repo_delete_criterion_def
        delete_criterion_row_def scores_inv_filter)
qed (use inv in \<open>auto simp: criterion_create_def proposals_repo_create_criterion_def criterion_update_def
      proposals_repo_update_criterion_def criterion_reorder_def proposals_repo_reorder_criteria_def Let_def\<close>)

text \<open>A new criterion is accepted and listed last.\<close>

lemma criterion_create_ok:
  assumes ctx: "decision_context (u_id me) w d db = Inr (m, dec)" and st: "d_status dec \<in> {D_DRAFT, D_ACTIVE}"
    and role: "can_manage_criteria (m_role m)" and q: "CriterionCreateRequest b = Inr q"
    and new: "fresh env 0 \<notin> c_id ` set (criteria db)" and inv: "criteria_inv (criteria db)"
  shows "\<exists>c. criterion_create env me w d q db = Inr (c, db\<lparr>criteria := criteria db @ [c]\<rparr>) \<and>
     c_position c = proposals_repo_next_criterion_position d db \<and>
     proposals_repo_list_criteria d (db\<lparr>criteria := criteria db @ [c]\<rparr>) =
       proposals_repo_list_criteria d db @ [c]"
proof -
  let ?c = "\<lparr>c_id = fresh env 0, c_decision_id = d, c_created_by_id = u_id me, c_name = cc_name q,
        c_description = cc_description q, c_weight = cc_weight q,
        c_position = proposals_repo_next_criterion_position d db, c_created_at = db_now env,
        c_updated_at = db_now env\<rparr>"
  note D = criteria_invD [OF inv]
  have w: "1 \<le> cc_weight q \<and> cc_weight q \<le> 100"
    using q by (auto simp: CriterionCreateRequest_def int_field_def)
  have fresh_c: "?c \<notin> set (criteria db)"
    using new by (metis decision_criterion.select_convs(1) image_eqI)
  have "uq_criteria_position (criteria db @ [?c])" by (rule uq_position_append [OF D(3)]) simp
  then have "criterion_create env me w d q db = Inr (?c, db\<lparr>criteria := criteria db @ [?c]\<rparr>)"
    using ctx st role new w next_position_nonneg [of d db]
    by (simp add: criterion_create_def proposals_repo_create_criterion_def flush_insert_def
        ck_decision_criteria_def require_mutable_decision_def proposal_MUTABLE_DECISION_STATUSES_def)
  moreover have "proposals_repo_list_criteria d (db\<lparr>criteria := criteria db @ [?c]\<rparr>) =
       proposals_repo_list_criteria d db @ [?c]"
    unfolding proposals_repo_list_criteria_def
  proof (rule sort_key_eqI)
    let ?mine = "filter (\<lambda>c. c_decision_id c = d) (criteria db)"
    show "sorted (map c_position (sort_key c_position ?mine @ [?c]))"
      using next_position_fresh [of _ db d] by (fastforce simp: sorted_append intro: less_imp_le)
    have "inj_on c_position (set ?mine)"
      by (rule inj_onI) (auto intro: uq_position_eq [OF D(3)])
    moreover have "distinct ?mine" using D(1) by (simp add: distinct_map)
    ultimately show "distinct (map c_position (sort_key c_position ?mine @ [?c]))"
      using next_position_fresh [of _ db d] by (fastforce simp: distinct_map)
    show "distinct (filter (\<lambda>c. c_decision_id c = d) (criteria (db\<lparr>criteria := criteria db @ [?c]\<rparr>)))"
      using D(1) fresh_c by (simp add: distinct_map)
  qed auto
  ultimately show ?thesis by (intro exI [of _ ?c]) simp
qed

section \<open>The comparison\<close>

lemma score_by_pair_SomeD:
  "score_by_pair ss p c = Some s \<Longrightarrow> s \<in> set ss \<and> s_proposal_id s = p \<and> s_criterion_id s = c"
  unfolding score_by_pair_def by (drule first_where_SomeD) simp

lemma score_by_pair_None_iff:
  "score_by_pair ss p c = None \<longleftrightarrow> (\<forall>s \<in> set ss. \<not> (s_proposal_id s = p \<and> s_criterion_id s = c))"
  by (simp add: score_by_pair_def first_where_None_iff)

lemma length_map_filter_all:
  "length (List.map_filter f xs) = length xs \<longleftrightarrow> (\<forall>x \<in> set xs. f x \<noteq> None)"
proof (induction xs)
  case (Cons x xs)
  have "length (List.map_filter f xs) \<le> length xs" by (simp add: map_filter_def)
  with Cons show ?case by (auto simp: map_filter_simps split: option.splits)
qed (simp add: map_filter_simps)

lemma sum_list_between:
  assumes "\<And>x. x \<in> set xs \<Longrightarrow> 1 \<le> (w x :: int)" and "\<And>x. x \<in> set xs \<Longrightarrow> lo \<le> s x \<and> s x \<le> (hi :: int)"
  shows "lo * sum_list (map w xs) \<le> sum_list (map (\<lambda>x. s x * w x) xs) \<and>
         sum_list (map (\<lambda>x. s x * w x) xs) \<le> hi * sum_list (map w xs) \<and>
         int (length xs) \<le> sum_list (map w xs)"
  using assms
proof (induction xs)
  case (Cons x xs)
  have "1 \<le> w x" "lo \<le> s x" "s x \<le> hi" using Cons.prems by auto
  then have "lo * w x \<le> s x * w x" "s x * w x \<le> hi * w x" by (intro mult_right_mono; simp)+
  moreover have "lo * sum_list (map w xs) \<le> sum_list (map (\<lambda>x. s x * w x) xs) \<and>
         sum_list (map (\<lambda>x. s x * w x) xs) \<le> hi * sum_list (map w xs) \<and>
         int (length xs) \<le> sum_list (map w xs)"
    using Cons by simp
  ultimately show ?case
    using \<open>1 \<le> w x\<close> unfolding list.map sum_list.Cons distrib_left length_Cons of_nat_Suc by linarith
qed simp

lemma weighted_round_between:
  fixes lo hi :: nat
  assumes t: "0 < t" and s: "int lo * t \<le> s" "s \<le> int hi * t" and lo: "0 < lo" and hi: "hi < 1000"
  shows "int (lo * 100) \<le> round2 (truediv (nat s) (nat t)) \<and> round2 (truediv (nat s) (nat t)) \<le> int (hi * 100)"
proof -
  obtain b where b: "t = int b" using t by (metis zero_less_imp_eq_int)
  have "0 \<le> s" using s(1) t by (meson mult_nonneg_nonneg of_nat_0_le_iff order_less_imp_le order_trans)
  then obtain a where a: "s = int a" by (metis nonneg_int_cases)
  have nats: "lo * nat t \<le> nat s" "nat s \<le> hi * nat t"
    using s by (simp_all add: a b flip: of_nat_mult)
  have "0 < nat t" using t by simp
  moreover from this have "0 < lo * nat t" using lo by simp
  ultimately have pos: "0 < nat s" "0 < nat t" using nats(1) by linarith+
  have "(of_nat (nat s) :: rat) \<le> of_nat (hi * nat t)" using nats(2) by (simp only: of_nat_le_iff)
  then have "of_nat (nat s) / of_nat (nat t) \<le> (of_nat hi :: rat)" using pos(2) by (simp add: pos_divide_le_eq)
  also have "hi < 2 ^ 46" using hi by (rule less_trans) simp
  then have "(of_nat hi :: rat) < of_nat (2 ^ 46)" by (simp only: of_nat_less_iff)
  finally have small: "of_nat (nat s) / of_nat (nat t) < (2 :: rat) ^ 46" by simp
  show ?thesis
    using round2_bounds [OF truediv_ge_int [OF pos small nats(1)] truediv_le_int [OF pos small nats(2)]] by simp
qed

text \<open>
  A proposal has a weighted score exactly when there are criteria and each has a score of it; the
  score then lies between the smallest and the largest of them (hence in 1.00 .. 5.00), whatever
  the rounding of the division.
\<close>

lemma compare_weighted_score:
  assumes cs: "\<And>c. c \<in> set cs \<Longrightarrow> ck_decision_criteria c"
  shows "pcr_weighted_score (compare_proposal cs ss p) \<noteq> None \<longleftrightarrow>
       cs \<noteq> [] \<and> (\<forall>c \<in> set cs. score_by_pair ss (p_id p) (c_id c) \<noteq> None)"
proof -
  have "int (length cs) \<le> sum_list (map c_weight cs)"
    using sum_list_between [of cs c_weight 0 "\<lambda>_. 0" 0] cs by (simp add: ck_decision_criteria_def)
  then have "cs \<noteq> [] \<Longrightarrow> sum_list (map c_weight cs) \<noteq> 0" by (cases cs) auto
  then show ?thesis by (auto simp: compare_proposal_def Let_def length_map_filter_all)
qed

lemma compare_weighted_score_between:
  fixes lo hi :: nat
  assumes cs: "\<And>c. c \<in> set cs \<Longrightarrow> ck_decision_criteria c" and lo: "0 < lo" and hi: "hi < 1000"
    and ws: "pcr_weighted_score (compare_proposal cs ss p) = Some x"
    and range: "\<And>c s. c \<in> set cs \<Longrightarrow> score_by_pair ss (p_id p) (c_id c) = Some s \<Longrightarrow>
                  int lo \<le> s_score s \<and> s_score s \<le> int hi"
  shows "int (lo * 100) \<le> x \<and> x \<le> int (hi * 100)"
proof -
  have full: "cs \<noteq> []" "\<forall>c \<in> set cs. score_by_pair ss (p_id p) (c_id c) \<noteq> None"
    using ws compare_weighted_score [of cs ss p] cs by auto
  have between: "int lo * sum_list (map c_weight cs) \<le> sum_list (map (\<lambda>c. s_score (the (score_by_pair ss (p_id p) (c_id c))) * c_weight c) cs) \<and>
      sum_list (map (\<lambda>c. s_score (the (score_by_pair ss (p_id p) (c_id c))) * c_weight c) cs) \<le> int hi * sum_list (map c_weight cs) \<and>
      int (length cs) \<le> sum_list (map c_weight cs)"
    using cs full(2) range by (intro sum_list_between) (auto simp: ck_decision_criteria_def)
  have "0 < sum_list (map c_weight cs)" using between full(1) by (cases cs) auto
  then show ?thesis
    using ws weighted_round_between [OF _ _ _ lo hi] between
    by (auto simp: compare_proposal_def Let_def split: if_splits)
qed

text \<open>The operations of the service, for statements about all of them.\<close>

lemmas proposal_ops = proposal_create_def proposal_list_def proposal_get_def proposal_update_def proposal_transition_def proposal_delete_def proposal_compare_def criterion_create_def criterion_list_def criterion_update_def criterion_reorder_def criterion_delete_def score_upsert_def

end
