(* ===== verification/Objections.thy ===== *)
theory Objections imports Proposals begin

text \<open>
  Objections to proposals and their history: \<open>app/schemas/objection.py\<close>,
  \<open>app/repositories/objection.py\<close> and \<open>app/services/objection.py\<close>. An open blocking objection is
  what keeps a vote from opening and a decision from being locked.
\<close>

section \<open>Requests\<close>

record objection_create_request =
  oc_severity :: objection_severity
  oc_title :: string
  oc_description :: string

definition ObjectionCreateRequest :: "objection_create_request \<Rightarrow> error + objection_create_request" where
  "ObjectionCreateRequest b =
     bindE (normalized_field 3 200 (oc_title b)) (\<lambda>title.
     bindE (normalized_field 3 10000 (oc_description b)) (\<lambda>description.
     Inr \<lparr>oc_severity = oc_severity b, oc_title = title, oc_description = description\<rparr>))"

record objection_update_request =
  ou_severity :: "objection_severity patch"
  ou_title :: "string patch"
  ou_description :: "string patch"

definition ObjectionUpdateRequest :: "objection_update_request \<Rightarrow> error + objection_update_request" where
  "ObjectionUpdateRequest b =
     bindE (patch_field (normalized_field 3 200) (ou_title b)) (\<lambda>title.
     bindE (patch_field (normalized_field 3 10000) (ou_description b)) (\<lambda>description.
     Inr \<lparr>ou_severity = ou_severity b, ou_title = title, ou_description = description\<rparr>))"

definition ObjectionTransitionRequest :: "objection_status \<Rightarrow> string \<Rightarrow> error + objection_status \<times> string" where
  "ObjectionTransitionRequest status note =
     bindE (field_length 3 5000 note) (\<lambda>_.
     let n = py_strip note in
     bindE (ensure (3 \<le> length n) ValidationError) (\<lambda>_. Inr (status, n)))"

section \<open>The repository\<close>

definition objections_repo_create :: "objection \<Rightarrow> db \<Rightarrow> error + objection \<times> db" where
  "objections_repo_create x db =
     bindE (flush_insert o_id ck_objections_resolution_state x (objections db)) (\<lambda>xs.
     Inr (x, db\<lparr>objections := xs\<rparr>))"

definition objections_repo_list_for_proposal ::
  "uuid \<Rightarrow> objection_severity option \<Rightarrow> objection_status option \<Rightarrow> db \<Rightarrow> objection list" where
  "objections_repo_list_for_proposal p severity status db =
     sort_key (\<lambda>x. - o_created_at x)
       (filter (\<lambda>x. o_proposal_id x = p \<and> (\<forall>s \<in> set_option severity. o_severity x = s) \<and>
                  (\<forall>s \<in> set_option status. o_status x = s)) (objections db))"

definition objection_for_proposal :: "uuid \<Rightarrow> uuid \<Rightarrow> objection list \<Rightarrow> objection option" where
  "objection_for_proposal p i xs = first_where (\<lambda>x. o_id x = i \<and> o_proposal_id x = p) xs"

definition objections_repo_get_for_proposal :: "uuid \<Rightarrow> uuid \<Rightarrow> db \<Rightarrow> objection option" where
  "objections_repo_get_for_proposal p i db = objection_for_proposal p i (objections db)"

interpretation objection_table: scoped_table o_id o_proposal_id objection_for_proposal
  by unfold_locales (auto simp: objection_for_proposal_def first_where_None_iff dest!: first_where_SomeD)

definition write_objection :: "env \<Rightarrow> objection \<Rightarrow> objection \<Rightarrow> objection \<Rightarrow> objection" where
  "write_objection env old new cur =
     (if new = old then cur
      else cur\<lparr>o_severity := put_if_dirty (o_severity old) (o_severity new) (o_severity cur),
               o_status := put_if_dirty (o_status old) (o_status new) (o_status cur),
               o_title := put_if_dirty (o_title old) (o_title new) (o_title cur),
               o_description := put_if_dirty (o_description old) (o_description new) (o_description cur),
               o_resolution_note := put_if_dirty (o_resolution_note old) (o_resolution_note new) (o_resolution_note cur),
               o_resolved_by_id := put_if_dirty (o_resolved_by_id old) (o_resolved_by_id new) (o_resolved_by_id cur),
               o_resolved_at := put_if_dirty (o_resolved_at old) (o_resolved_at new) (o_resolved_at cur),
               o_updated_at := db_now env\<rparr>)"

definition save_objection :: "env \<Rightarrow> objection \<Rightarrow> objection \<Rightarrow> db \<Rightarrow> error + objection \<times> db" where
  "save_objection env old new db =
     bindE (flush_update o_id ck_objections_resolution_state (o_id old) (write_objection env old new) (objections db))
       (\<lambda>(x, xs). Inr (x, db\<lparr>objections := xs\<rparr>))"

definition objections_repo_update ::
  "env \<Rightarrow> objection \<Rightarrow> (objection \<Rightarrow> objection) \<Rightarrow> db \<Rightarrow> error + objection \<times> db" where
  "objections_repo_update env x values db = save_objection env x (values x) db"

definition objections_repo_transition ::
  "env \<Rightarrow> objection \<Rightarrow> uuid \<Rightarrow> objection_status \<Rightarrow> string \<Rightarrow> time option \<Rightarrow> db \<Rightarrow> error + objection \<times> db" where
  "objections_repo_transition env x actor status note resolved_at db =
     bindE (save_objection env x (x\<lparr>o_status := status,
              o_resolution_note := (if status \<noteq> O_OPEN then Some note else None),
              o_resolved_by_id := (if status \<noteq> O_OPEN then Some actor else None),
              o_resolved_at := resolved_at\<rparr>) db) (\<lambda>(x', db1).
     bindE (flush_insert oe_id (\<lambda>_. True)
              \<lparr>oe_id = fresh env 0, oe_objection_id = o_id x, oe_actor_id = actor, oe_from_status = o_status x,
               oe_to_status = status, oe_note = note, oe_created_at = db_now env\<rparr> (objection_events db1)) (\<lambda>es.
     Inr (x', db1\<lparr>objection_events := es\<rparr>)))"

definition objections_repo_list_status_events :: "uuid \<Rightarrow> db \<Rightarrow> objection_status_event list" where
  "objections_repo_list_status_events i db =
     sort_key oe_created_at (filter (\<lambda>e. oe_objection_id e = i) (objection_events db))"

definition has_open_blocking_for_decision :: "uuid \<Rightarrow> db \<Rightarrow> bool" where
  "has_open_blocking_for_decision d db \<longleftrightarrow>
     (\<exists>x \<in> set (objections db). \<exists>p \<in> set (proposals db).
        o_proposal_id x = p_id p \<and> p_decision_id p = d \<and> o_severity x = BLOCKING \<and> o_status x = O_OPEN)"

section \<open>The service\<close>

definition objection_MUTABLE_DECISION_STATUSES :: "decision_status set" where
  "objection_MUTABLE_DECISION_STATUSES = {D_DRAFT, D_ACTIVE}"

fun OBJECTION_TRANSITIONS :: "objection_status \<Rightarrow> objection_status set" where
  "OBJECTION_TRANSITIONS O_OPEN = {O_RESOLVED, O_DISMISSED}"
| "OBJECTION_TRANSITIONS O_RESOLVED = {O_OPEN}"
| "OBJECTION_TRANSITIONS O_DISMISSED = {O_OPEN}"

text \<open>No state is final: every objection can be reopened, and closed again.\<close>

interpretation objection_cycle: lifecycle OBJECTION_TRANSITIONS "\<lambda>_. False"
proof
  show "False \<longleftrightarrow> OBJECTION_TRANSITIONS s = {}" for s by (cases s) simp_all
  show "s \<notin> OBJECTION_TRANSITIONS s" for s by (cases s) simp_all
qed

definition objection_context ::
  "uuid \<Rightarrow> uuid \<Rightarrow> uuid \<Rightarrow> uuid \<Rightarrow> db \<Rightarrow> error + workspace_member \<times> decision \<times> proposal" where
  "objection_context user w d p db =
     bindE (require (workspaces_repo_get_by_id w db) WorkspaceNotFoundError) (\<lambda>_.
     bindE (require (workspaces_repo_get_membership w user db) WorkspaceNotFoundError) (\<lambda>m.
     bindE (require (decisions_repo_get_for_workspace w d db) DecisionNotFoundError) (\<lambda>decision.
     bindE (require (proposals_repo_get_for_decision d p db) ProposalNotFoundError) (\<lambda>prop.
     Inr (m, decision, prop)))))"

definition objection_require_mutable_decision :: "decision \<Rightarrow> error + unit" where
  "objection_require_mutable_decision d =
     ensure (d_status d \<in> objection_MUTABLE_DECISION_STATUSES) DecisionImmutableError"

definition require_objection :: "uuid \<Rightarrow> uuid \<Rightarrow> db \<Rightarrow> error + objection" where
  "require_objection p i db = require (objections_repo_get_for_proposal p i db) ObjectionNotFoundError"

definition objection_create ::
  "env \<Rightarrow> user \<Rightarrow> uuid \<Rightarrow> uuid \<Rightarrow> uuid \<Rightarrow> objection_create_request \<Rightarrow> db \<Rightarrow> error + objection \<times> db" where
  "objection_create env me w d p payload db =
     bindE (objection_context (u_id me) w d p db) (\<lambda>(m, decision, prop).
     bindE (objection_require_mutable_decision decision) (\<lambda>_.
     bindE (ensure (can_create_objections (m_role m)) ObjectionAccessDeniedError) (\<lambda>_.
     bindE (ensure (p_status prop = P_SUBMITTED) ProposalImmutableError) (\<lambda>_.
     objections_repo_create
       \<lparr>o_id = fresh env 0, o_proposal_id = p, o_created_by_id = u_id me, o_severity = oc_severity payload,
        o_status = O_OPEN, o_title = oc_title payload, o_description = oc_description payload,
        o_resolution_note = None, o_resolved_by_id = None, o_resolved_at = None,
        o_created_at = db_now env, o_updated_at = db_now env\<rparr> db))))"

definition objection_list ::
  "user \<Rightarrow> uuid \<Rightarrow> uuid \<Rightarrow> uuid \<Rightarrow> objection_severity option \<Rightarrow> objection_status option \<Rightarrow> db
     \<Rightarrow> error + objection list" where
  "objection_list me w d p severity status db =
     bindE (objection_context (u_id me) w d p db) (\<lambda>_.
     Inr (objections_repo_list_for_proposal p severity status db))"

definition objection_get :: "user \<Rightarrow> uuid \<Rightarrow> uuid \<Rightarrow> uuid \<Rightarrow> uuid \<Rightarrow> db \<Rightarrow> error + objection" where
  "objection_get me w d p i db =
     bindE (objection_context (u_id me) w d p db) (\<lambda>_. require_objection p i db)"

definition objection_update ::
  "env \<Rightarrow> user \<Rightarrow> uuid \<Rightarrow> uuid \<Rightarrow> uuid \<Rightarrow> uuid \<Rightarrow> objection_update_request \<Rightarrow> db
     \<Rightarrow> error + objection \<times> db" where
  "objection_update env me w d p i payload db =
     bindE (objection_context (u_id me) w d p db) (\<lambda>(m, decision, _).
     bindE (objection_require_mutable_decision decision) (\<lambda>_.
     bindE (require_objection p i db) (\<lambda>x.
     bindE (ensure (can_edit_objection (m_role m) (o_created_by_id x) (u_id me)) ObjectionAccessDeniedError) (\<lambda>_.
     bindE (ensure (o_status x = O_OPEN) ObjectionImmutableError) (\<lambda>_.
     objections_repo_update env x (\<lambda>x. x\<lparr>
       o_severity := patch_required (ou_severity payload) (o_severity x),
       o_title := patch_required (ou_title payload) (o_title x),
       o_description := patch_required (ou_description payload) (o_description x)\<rparr>) db)))))"

definition objection_transition ::
  "env \<Rightarrow> user \<Rightarrow> uuid \<Rightarrow> uuid \<Rightarrow> uuid \<Rightarrow> uuid \<Rightarrow> objection_status \<Rightarrow> string \<Rightarrow> db
     \<Rightarrow> error + objection \<times> db" where
  "objection_transition env me w d p i target note db =
     bindE (objection_context (u_id me) w d p db) (\<lambda>(m, decision, _).
     bindE (objection_require_mutable_decision decision) (\<lambda>_.
     bindE (require_objection p i db) (\<lambda>x.
     bindE (ensure (target \<in> OBJECTION_TRANSITIONS (o_status x)) ObjectionInvalidTransitionError) (\<lambda>_.
     bindE (ensure (can_transition_objection (m_role m) (o_created_by_id x) (u_id me) target)
              ObjectionAccessDeniedError) (\<lambda>_.
     objections_repo_transition env x (u_id me) target note
       (if target \<noteq> O_OPEN then Some (now env) else None) db)))))"

definition objection_list_history ::
  "user \<Rightarrow> uuid \<Rightarrow> uuid \<Rightarrow> uuid \<Rightarrow> uuid \<Rightarrow> db \<Rightarrow> error + objection_status_event list" where
  "objection_list_history me w d p i db =
     bindE (objection_context (u_id me) w d p db) (\<lambda>_.
     bindE (require_objection p i db) (\<lambda>x.
     Inr (objections_repo_list_status_events (o_id x) db)))"

section \<open>What the operations do\<close>

lemma objection_context_Inr [simp]:
  "objection_context u w d p db = Inr (m, dec, prop) \<longleftrightarrow>
     workspaces_repo_get_by_id w db \<noteq> None \<and> workspaces_repo_get_membership w u db = Some m \<and>
     decisions_repo_get_for_workspace w d db = Some dec \<and> proposals_repo_get_for_decision d p db = Some prop"
  by (auto simp: objection_context_def)

lemma objection_context_outsider:
  "workspaces_repo_get_membership w u db = None \<Longrightarrow> objection_context u w d p db = Inl WorkspaceNotFoundError"
  by (cases "workspaces_repo_get_by_id w db") (simp_all add: objection_context_def)

lemma objection_require_mutable_Inr [simp]:
  "objection_require_mutable_decision d = Inr u \<longleftrightarrow> d_status d \<in> {D_DRAFT, D_ACTIVE}"
  by (simp add: objection_require_mutable_decision_def objection_MUTABLE_DECISION_STATUSES_def)

lemma require_objection_Inr [simp]:
  "require_objection p i db = Inr x \<longleftrightarrow> objections_repo_get_for_proposal p i db = Some x"
  by (simp add: require_objection_def)

lemma objection_getD:
  "objections_repo_get_for_proposal p i db = Some x \<Longrightarrow> x \<in> set (objections db) \<and> o_id x = i \<and> o_proposal_id x = p"
  unfolding objections_repo_get_for_proposal_def by (rule objection_table.get_Some)

lemma objection_get_lookup:
  "distinct (map o_id (objections db)) \<Longrightarrow> objections_repo_get_for_proposal p i db = Some x \<Longrightarrow>
     lookup o_id (o_id x) (objections db) = Some x"
  using objection_table.get_lookup objection_table.get_Some
  unfolding objections_repo_get_for_proposal_def by metis

lemma write_objection_key [simp]:
  "o_id (write_objection env old new cur) = o_id cur"
  "o_proposal_id (write_objection env old new cur) = o_proposal_id cur"
  "o_created_by_id (write_objection env old new cur) = o_created_by_id cur"
  "o_created_at (write_objection env old new cur) = o_created_at cur"
  by (simp_all add: write_objection_def)

lemma write_objection_fresh [simp]:
  "o_severity (write_objection env x new x) = o_severity new"
  "o_status (write_objection env x new x) = o_status new"
  "o_title (write_objection env x new x) = o_title new"
  "o_description (write_objection env x new x) = o_description new"
  "o_resolution_note (write_objection env x new x) = o_resolution_note new"
  "o_resolved_by_id (write_objection env x new x) = o_resolved_by_id new"
  "o_resolved_at (write_objection env x new x) = o_resolved_at new"
  by (cases "new = x"; simp add: write_objection_def)+

lemma save_objection_InrD:
  assumes "save_objection env x new db = Inr (r, db')" and "lookup o_id (o_id x) (objections db) = Some x"
  shows "r = write_objection env x new x \<and> ck_objections_resolution_state r \<and>
         db' = db\<lparr>objections := store o_id r (objections db)\<rparr>"
  using assms by (auto simp: save_objection_def)

lemma objection_update_InrD:
  assumes "objection_update env me w d p i q db = Inr (r, db')" and "distinct (map o_id (objections db))"
  obtains m x where "workspaces_repo_get_membership w (u_id me) db = Some m"
    and "objections_repo_get_for_proposal p i db = Some x" and "o_status x = O_OPEN"
    and "can_edit_objection (m_role m) (o_created_by_id x) (u_id me)"
    and "r = write_objection env x (x\<lparr>o_severity := patch_required (ou_severity q) (o_severity x),
       o_title := patch_required (ou_title q) (o_title x),
       o_description := patch_required (ou_description q) (o_description x)\<rparr>) x"
    and "ck_objections_resolution_state r" and "db' = db\<lparr>objections := store o_id r (objections db)\<rparr>"
  using assms(1)
  by (auto simp: objection_update_def objections_repo_update_def
      dest!: save_objection_InrD [OF _ objection_get_lookup [OF assms(2)]])

definition objection_moved :: "env \<Rightarrow> uuid \<Rightarrow> objection_status \<Rightarrow> string \<Rightarrow> objection \<Rightarrow> objection" where
  "objection_moved env actor target note x = write_objection env x (x\<lparr>o_status := target,
     o_resolution_note := (if target \<noteq> O_OPEN then Some note else None),
     o_resolved_by_id := (if target \<noteq> O_OPEN then Some actor else None),
     o_resolved_at := (if target \<noteq> O_OPEN then Some (now env) else None)\<rparr>) x"

definition objection_event :: "env \<Rightarrow> uuid \<Rightarrow> objection_status \<Rightarrow> string \<Rightarrow> objection \<Rightarrow> objection_status_event" where
  "objection_event env actor target note x =
     \<lparr>oe_id = fresh env 0, oe_objection_id = o_id x, oe_actor_id = actor, oe_from_status = o_status x,
      oe_to_status = target, oe_note = note, oe_created_at = db_now env\<rparr>"

lemma objection_transition_InrD:
  assumes "objection_transition env me w d p i target note db = Inr (r, db')"
    and "distinct (map o_id (objections db))"
  obtains m dec x where "workspaces_repo_get_membership w (u_id me) db = Some m"
    and "decisions_repo_get_for_workspace w d db = Some dec" and "d_status dec \<in> {D_DRAFT, D_ACTIVE}"
    and "objections_repo_get_for_proposal p i db = Some x"
    and "target \<in> OBJECTION_TRANSITIONS (o_status x)"
    and "can_transition_objection (m_role m) (o_created_by_id x) (u_id me) target"
    and "r = objection_moved env (u_id me) target note x" and "ck_objections_resolution_state r"
    and "fresh env 0 \<notin> oe_id ` set (objection_events db)"
    and "db' = db\<lparr>objections := store o_id r (objections db),
           objection_events := objection_events db @ [objection_event env (u_id me) target note x]\<rparr>"
  using assms(1)
  by (auto simp: objection_transition_def objections_repo_transition_def objection_moved_def objection_event_def
      dest!: save_objection_InrD [OF _ objection_get_lookup [OF assms(2)]])

section \<open>Invariant: the history explains the status\<close>

fun runs :: "objection_status \<Rightarrow> objection_status_event list \<Rightarrow> objection_status \<Rightarrow> bool" where
  "runs s [] t \<longleftrightarrow> s = t"
| "runs s (e # es) t \<longleftrightarrow> oe_from_status e = s \<and> oe_to_status e \<in> OBJECTION_TRANSITIONS s \<and> runs (oe_to_status e) es t"

lemma runs_append: "runs s (es @ fs) t \<longleftrightarrow> (\<exists>u. runs s es u \<and> runs u fs t)"
  by (induction es arbitrary: s) auto

abbreviation events_of :: "uuid \<Rightarrow> objection_status_event list \<Rightarrow> objection_status_event list" where
  "events_of i es \<equiv> filter (\<lambda>e. oe_objection_id e = i) es"

definition objection_inv :: "objection list \<Rightarrow> objection_status_event list \<Rightarrow> bool" where
  "objection_inv xs es \<longleftrightarrow>
     distinct (map o_id xs) \<and> distinct (map oe_id es) \<and>
     (\<forall>x \<in> set xs. ck_objections_resolution_state x) \<and>
     (\<forall>e \<in> set es. oe_objection_id e \<in> o_id ` set xs) \<and>
     (\<forall>x \<in> set xs. runs O_OPEN (events_of (o_id x) es) (o_status x))"

lemma objection_invD:
  assumes "objection_inv xs es"
  shows "distinct (map o_id xs)" and "distinct (map oe_id es)"
    and "x \<in> set xs \<Longrightarrow> ck_objections_resolution_state x"
    and "e \<in> set es \<Longrightarrow> oe_objection_id e \<in> o_id ` set xs"
    and "x \<in> set xs \<Longrightarrow> runs O_OPEN (events_of (o_id x) es) (o_status x)"
  using assms by (simp_all add: objection_inv_def)

lemma objection_invI:
  assumes "distinct (map o_id xs)" and "distinct (map oe_id es)"
    and "\<And>x. x \<in> set xs \<Longrightarrow> ck_objections_resolution_state x"
    and "\<And>e. e \<in> set es \<Longrightarrow> oe_objection_id e \<in> o_id ` set xs"
    and "\<And>x. x \<in> set xs \<Longrightarrow> runs O_OPEN (events_of (o_id x) es) (o_status x)"
  shows "objection_inv xs es"
  using assms by (simp add: objection_inv_def)

definition objection_evolves :: "objection \<Rightarrow> objection \<Rightarrow> bool" where
  "objection_evolves x x' \<longleftrightarrow> x' = x \<or>
     (o_id x' = o_id x \<and> o_proposal_id x' = o_proposal_id x \<and> o_created_by_id x' = o_created_by_id x \<and>
      o_created_at x' = o_created_at x \<and>
      (o_status x = O_OPEN \<and> o_status x' = O_OPEN \<or>
       o_status x' \<in> OBJECTION_TRANSITIONS (o_status x) \<and>
       o_severity x' = o_severity x \<and> o_title x' = o_title x \<and> o_description x' = o_description x))"

inductive objection_step :: "db \<Rightarrow> db \<Rightarrow> bool" where
  create: "ObjectionCreateRequest b = Inr q \<Longrightarrow> objection_create env me w d p q db = Inr (r, db') \<Longrightarrow>
             objection_step db db'"
| update: "ObjectionUpdateRequest b' = Inr q' \<Longrightarrow> objection_update env me w d p i q' db = Inr (r, db') \<Longrightarrow>
             objection_step db db'"
| transition: "ObjectionTransitionRequest s n = Inr (target, note) \<Longrightarrow>
             objection_transition env me w d p i target note db = Inr (r, db') \<Longrightarrow> objection_step db db'"

lemma events_of_other: "x \<noteq> i \<Longrightarrow> oe_objection_id e = i \<Longrightarrow> events_of x (es @ [e]) = events_of x es"
  by simp

lemma objection_inv_append:
  assumes inv: "objection_inv xs es" and new: "o_id x \<notin> o_id ` set xs"
    and x: "ck_objections_resolution_state x" "o_status x = O_OPEN"
  shows "objection_inv (xs @ [x]) es"
proof (rule objection_invI)
  have none: "events_of (o_id x) es = []" using objection_invD(4) [OF inv] new by (metis (mono_tags, lifting) filter_False)
  show "runs O_OPEN (events_of (o_id y) es) (o_status y)" if "y \<in> set (xs @ [x])" for y
    using that objection_invD(5) [OF inv, of y] x(2) none by auto
qed (use objection_invD(1-4) [OF inv] new x in auto)

lemma objection_inv_store:
  assumes inv: "objection_inv xs es" and cur: "lookup o_id i xs = Some cur" and key: "o_id x = o_id cur"
    and ck: "ck_objections_resolution_state x"
    and es': "es' = es \<and> o_status x = o_status cur \<or>
              (\<exists>e. es' = es @ [e] \<and> oe_id e \<notin> oe_id ` set es \<and> oe_objection_id e = o_id cur \<and>
                 oe_from_status e = o_status cur \<and> oe_to_status e = o_status x \<and>
                 o_status x \<in> OBJECTION_TRANSITIONS (o_status cur))"
  shows "objection_inv (store o_id x xs) es'"
proof (rule objection_invI)
  have c: "cur \<in> set xs" using cur by (auto dest: lookup_SomeD)
  show "runs O_OPEN (events_of (o_id y) es') (o_status y)" if y: "y \<in> set (store o_id x xs)" for y
  proof (cases "y = x")
    case True
    then show ?thesis using es' objection_invD(5) [OF inv c] key by (auto simp: runs_append)
  next
    case False
    then have "y \<in> set xs" "o_id y \<noteq> o_id cur" using mem_storeD [OF y] key by auto
    then show ?thesis using es' objection_invD(5) [OF inv] by auto
  qed
  show "oe_objection_id e \<in> o_id ` set (store o_id x xs)" if "e \<in> set es'" for e
    using that es' objection_invD(4) [OF inv, of e] c by auto
  show "ck_objections_resolution_state y" if "y \<in> set (store o_id x xs)" for y
    using mem_storeD [OF that] ck objection_invD(3) [OF inv] by auto
  show "distinct (map oe_id es')" using es' objection_invD(2) [OF inv] by auto
qed (use objection_invD(1) [OF inv] in simp)

lemma objection_inv_cascade:
  assumes inv: "objection_inv xs es"
  shows "objection_inv (filter (\<lambda>x. \<not> gone (o_proposal_id x)) xs)
           (filter (\<lambda>e. \<not> objection_gone gone xs (oe_objection_id e)) es)"
proof (rule objection_invI)
  show "runs O_OPEN (events_of (o_id x) (filter (\<lambda>e. \<not> objection_gone gone xs (oe_objection_id e)) es)) (o_status x)"
    if "x \<in> set (filter (\<lambda>x. \<not> gone (o_proposal_id x)) xs)" for x
  proof -
    have x: "x \<in> set xs" "\<not> gone (o_proposal_id x)" using that by auto
    have "\<not> objection_gone gone xs (o_id x)"
    proof
      assume "objection_gone gone xs (o_id x)"
      then obtain y where y: "y \<in> set xs" "o_id y = o_id x" "gone (o_proposal_id y)"
        by (auto simp: objection_gone_def)
      then have "y = x" using distinct_key_eq [OF objection_invD(1) [OF inv]] x(1) by blast
      with y x show False by simp
    qed
    then have "events_of (o_id x) (filter (\<lambda>e. \<not> objection_gone gone xs (oe_objection_id e)) es) = events_of (o_id x) es"
      by (auto simp: conj_commute intro: filter_cong)
    then show ?thesis using objection_invD(5) [OF inv x(1)] by simp
  qed
  show "oe_objection_id e \<in> o_id ` set (filter (\<lambda>x. \<not> gone (o_proposal_id x)) xs)"
    if "e \<in> set (filter (\<lambda>e. \<not> objection_gone gone xs (oe_objection_id e)) es)" for e
  proof -
    have "e \<in> set es" using that by simp
    from objection_invD(4) [OF inv this] obtain y where "y \<in> set xs" "oe_objection_id e = o_id y" by auto
    then show ?thesis using that by (auto simp: objection_gone_def)
  qed
qed (use objection_invD [OF inv] in \<open>auto intro: distinct_map_filter\<close>)

lemma objection_step_effect:
  assumes "objection_step db db'" and inv: "objection_inv (objections db) (objection_events db)"
  shows "(\<exists>x. o_id x \<notin> o_id ` set (objections db) \<and> ck_objections_resolution_state x \<and> o_status x = O_OPEN \<and>
            db' = db\<lparr>objections := objections db @ [x]\<rparr>) \<or>
         (\<exists>x x' es'. lookup o_id (o_id x) (objections db) = Some x \<and> o_id x' = o_id x \<and>
            ck_objections_resolution_state x' \<and> objection_evolves x x' \<and>
            (es' = objection_events db \<and> o_status x' = o_status x \<or>
              (\<exists>e. es' = objection_events db @ [e] \<and> oe_id e \<notin> oe_id ` set (objection_events db) \<and>
                 oe_objection_id e = o_id x \<and> oe_from_status e = o_status x \<and> oe_to_status e = o_status x' \<and>
                 o_status x' \<in> OBJECTION_TRANSITIONS (o_status x))) \<and>
            db' = db\<lparr>objections := store o_id x' (objections db), objection_events := es'\<rparr>)"
    (is "?ins \<or> ?upd")
  using assms(1)
proof cases
  case (create b q env me w d p r)
  then have "o_id r \<notin> o_id ` set (objections db) \<and> ck_objections_resolution_state r \<and> o_status r = O_OPEN \<and>
      db' = db\<lparr>objections := objections db @ [r]\<rparr>"
    by (auto simp: objection_create_def objections_repo_create_def)
  then show ?thesis by blast
next
  case (update b' q' env me w d p i r)
  from update(2) objection_invD(1) [OF inv] obtain x where x: "objections_repo_get_for_proposal p i db = Some x"
    "o_status x = O_OPEN" "ck_objections_resolution_state r" "db' = db\<lparr>objections := store o_id r (objections db)\<rparr>"
    and r: "r = write_objection env x (x\<lparr>o_severity := patch_required (ou_severity q') (o_severity x),
       o_title := patch_required (ou_title q') (o_title x),
       o_description := patch_required (ou_description q') (o_description x)\<rparr>) x"
    by (elim objection_update_InrD) auto
  have "o_id r = o_id x" "o_status r = o_status x" "objection_evolves x r"
    using x(2) by (simp_all add: r objection_evolves_def)
  moreover have "db' = db\<lparr>objections := store o_id r (objections db), objection_events := objection_events db\<rparr>"
    using x(4) by simp
  ultimately have ?upd using objection_get_lookup [OF objection_invD(1) [OF inv] x(1)] x(3) by blast
  then show ?thesis by blast
next
  case (transition s n target msg env me w d p i r)
  from transition(2) objection_invD(1) [OF inv] obtain x where x: "objections_repo_get_for_proposal p i db = Some x"
    "target \<in> OBJECTION_TRANSITIONS (o_status x)" "r = objection_moved env (u_id me) target msg x"
    "ck_objections_resolution_state r" "fresh env 0 \<notin> oe_id ` set (objection_events db)"
    "db' = db\<lparr>objections := store o_id r (objections db),
           objection_events := objection_events db @ [objection_event env (u_id me) target msg x]\<rparr>"
    by (elim objection_transition_InrD) auto
  have r: "o_id r = o_id x" "o_status r = target" "objection_evolves x r"
    using x(2) by (simp_all add: x(3) objection_moved_def objection_evolves_def)
  have e: "oe_id (objection_event env (u_id me) target msg x) = fresh env 0"
    "oe_objection_id (objection_event env (u_id me) target msg x) = o_id x"
    "oe_from_status (objection_event env (u_id me) target msg x) = o_status x"
    "oe_to_status (objection_event env (u_id me) target msg x) = target"
    by (simp_all add: objection_event_def)
  have "lookup o_id (o_id x) (objections db) = Some x"
    by (rule objection_get_lookup [OF objection_invD(1) [OF inv] x(1)])
  then have ?upd using r e x(2,4,5,6) by metis
  then show ?thesis by blast
qed

lemma objection_step_inv:
  assumes "objection_step db db'" and inv: "objection_inv (objections db) (objection_events db)"
  shows "objection_inv (objections db') (objection_events db')"
  using objection_step_effect [OF assms]
proof (elim disjE exE conjE)
  fix x assume "o_id x \<notin> o_id ` set (objections db)" "ck_objections_resolution_state x" "o_status x = O_OPEN"
    "db' = db\<lparr>objections := objections db @ [x]\<rparr>"
  then show ?thesis using objection_inv_append [OF inv] by simp
qed (auto intro!: objection_inv_store [OF inv])

text \<open>The operations of the service, for statements about all of them.\<close>

lemmas objection_ops = objection_create_def objection_list_def objection_get_def objection_update_def objection_transition_def objection_list_history_def

end
