(* ===== verification/Voting.thy ===== *)
theory Voting imports Objections begin

text \<open>
  Voting sessions, ballots and results: \<open>app/schemas/voting.py\<close>, \<open>app/repositories/voting.py\<close>
  and \<open>app/services/voting.py\<close>. Opening a session writes down who may vote and on what; from then
  on ballots are checked against those rows, not against the members and proposals of the moment.
\<close>

section \<open>Requests\<close>

record session_create_request =
  vc_quorum_percentage :: int
  vc_closes_at :: "time option"

definition VotingSessionCreateRequest :: "env \<Rightarrow> int \<Rightarrow> datetime option \<Rightarrow> error + session_create_request" where
  "VotingSessionCreateRequest env quorum_percentage closes_at =
     bindE (int_field 1 100 quorum_percentage) (\<lambda>q.
     bindE (require_timezone closes_at) (\<lambda>c.
     bindE (ensure (\<forall>t \<in> set_option c. now env < t) ValidationError) (\<lambda>_.
     Inr \<lparr>vc_quorum_percentage = q, vc_closes_at = c\<rparr>)))"

section \<open>The repository\<close>

text \<open>An \<open>IntegrityError\<close> of the commit, translated by the repository.\<close>

definition on_integrity_error :: "error \<Rightarrow> error + 'a \<Rightarrow> error + 'a" where
  "on_integrity_error e r = (case r of Inl IntegrityError \<Rightarrow> Inl e | _ \<Rightarrow> r)"

definition voting_repo_create :: "voting_session \<Rightarrow> db \<Rightarrow> error + voting_session \<times> db" where
  "voting_repo_create v db =
     on_integrity_error VotingConflictError
       (bindE (flush_insert v_id ck_voting_sessions v (sessions db)) (\<lambda>vs.
        bindE (ensure (uq_one_unfinished vs) IntegrityError) (\<lambda>_.
        Inr (v, db\<lparr>sessions := vs\<rparr>))))"

definition voting_repo_list_for_decision :: "uuid \<Rightarrow> db \<Rightarrow> voting_session list" where
  "voting_repo_list_for_decision d db =
     sort_key (\<lambda>v. - v_created_at v) (filter (\<lambda>v. v_decision_id v = d) (sessions db))"

definition session_for_decision :: "uuid \<Rightarrow> uuid \<Rightarrow> voting_session list \<Rightarrow> voting_session option" where
  "session_for_decision d i vs = first_where (\<lambda>v. v_id v = i \<and> v_decision_id v = d) vs"

definition voting_repo_get_for_decision :: "uuid \<Rightarrow> uuid \<Rightarrow> db \<Rightarrow> voting_session option" where
  "voting_repo_get_for_decision d i db = session_for_decision d i (sessions db)"

interpretation session_table: scoped_table v_id v_decision_id session_for_decision
  by unfold_locales (auto simp: session_for_decision_def first_where_None_iff dest!: first_where_SomeD)

definition has_unfinished_for_decision :: "uuid \<Rightarrow> db \<Rightarrow> bool" where
  "has_unfinished_for_decision d db \<longleftrightarrow>
     (\<exists>v \<in> set (sessions db). v_decision_id v = d \<and> v_status v \<in> {V_DRAFT, V_OPEN})"

definition write_session :: "env \<Rightarrow> voting_session \<Rightarrow> voting_session \<Rightarrow> voting_session \<Rightarrow> voting_session" where
  "write_session env old new cur =
     (if new = old then cur
      else cur\<lparr>v_status := put_if_dirty (v_status old) (v_status new) (v_status cur),
               v_eligible_voter_count :=
                 put_if_dirty (v_eligible_voter_count old) (v_eligible_voter_count new) (v_eligible_voter_count cur),
               v_opened_at := put_if_dirty (v_opened_at old) (v_opened_at new) (v_opened_at cur),
               v_closed_at := put_if_dirty (v_closed_at old) (v_closed_at new) (v_closed_at cur),
               v_cancelled_at := put_if_dirty (v_cancelled_at old) (v_cancelled_at new) (v_cancelled_at cur),
               v_updated_at := db_now env\<rparr>)"

definition save_session :: "env \<Rightarrow> voting_session \<Rightarrow> voting_session \<Rightarrow> db \<Rightarrow> error + voting_session \<times> db" where
  "save_session env old new db =
     bindE (flush_update v_id ck_voting_sessions (v_id old) (write_session env old new) (sessions db)) (\<lambda>(v, vs).
     bindE (ensure (uq_one_unfinished vs) IntegrityError) (\<lambda>_.
     Inr (v, db\<lparr>sessions := vs\<rparr>)))"

definition insert_all :: "('r \<Rightarrow> uuid) \<Rightarrow> 'r list \<Rightarrow> 'r list \<Rightarrow> error + 'r list" where
  "insert_all key new rs =
     (if distinct (map key new) \<and> (\<forall>r \<in> set new. key r \<notin> key ` set rs) then Inr (rs @ new)
      else Inl IntegrityError)"

text \<open>The rows of the two \<open>add_all\<close> calls, with the ids \<open>uuid4()\<close> draws for them from the \<open>k\<close>-th on.\<close>

definition eligible_rows :: "env \<Rightarrow> nat \<Rightarrow> uuid \<Rightarrow> uuid list \<Rightarrow> voting_eligible_voter list" where
  "eligible_rows env k sid user_ids =
     map (\<lambda>(j, u). \<lparr>ev_id = fresh env (k + j), ev_voting_session_id = sid, ev_user_id = u,
                    ev_created_at = db_now env\<rparr>) (enumerate 0 user_ids)"

definition session_proposal_rows :: "env \<Rightarrow> nat \<Rightarrow> uuid \<Rightarrow> uuid list \<Rightarrow> voting_session_proposal list" where
  "session_proposal_rows env k sid props =
     map (\<lambda>(j, p). \<lparr>sp_id = fresh env (k + j), sp_voting_session_id = sid, sp_proposal_id = p,
                    sp_created_at = db_now env\<rparr>) (enumerate 0 props)"

definition voting_repo_open ::
  "env \<Rightarrow> voting_session \<Rightarrow> uuid list \<Rightarrow> uuid list \<Rightarrow> time \<Rightarrow> db \<Rightarrow> error + voting_session \<times> db" where
  "voting_repo_open env v eligible_user_ids proposal_ids opened_at db =
     bindE (save_session env v (v\<lparr>v_status := V_OPEN, v_opened_at := Some opened_at,
              v_eligible_voter_count := int (length eligible_user_ids)\<rparr>) db) (\<lambda>(v', db1).
     bindE (insert_all ev_id (eligible_rows env 1 (v_id v) eligible_user_ids) (eligible_voters db1)) (\<lambda>es.
     bindE (ensure (uq_eligible_voters es) IntegrityError) (\<lambda>_.
     bindE (insert_all sp_id (session_proposal_rows env (1 + length eligible_user_ids) (v_id v) proposal_ids)
              (session_proposals db1)) (\<lambda>ps.
     bindE (ensure (uq_session_proposals ps) IntegrityError) (\<lambda>_.
     Inr (v', db1\<lparr>eligible_voters := es, session_proposals := ps\<rparr>))))))"

definition voting_repo_close :: "env \<Rightarrow> voting_session \<Rightarrow> time \<Rightarrow> db \<Rightarrow> error + voting_session \<times> db" where
  "voting_repo_close env v closed_at db =
     save_session env v (v\<lparr>v_status := V_CLOSED, v_closed_at := Some closed_at\<rparr>) db"

definition voting_repo_cancel :: "env \<Rightarrow> voting_session \<Rightarrow> time \<Rightarrow> db \<Rightarrow> error + voting_session \<times> db" where
  "voting_repo_cancel env v cancelled_at db =
     save_session env v (v\<lparr>v_status := V_CANCELLED, v_cancelled_at := Some cancelled_at\<rparr>) db"

definition is_eligible_voter :: "uuid \<Rightarrow> uuid \<Rightarrow> db \<Rightarrow> bool" where
  "is_eligible_voter sid user db \<longleftrightarrow>
     (\<exists>e \<in> set (eligible_voters db). ev_voting_session_id e = sid \<and> ev_user_id e = user)"

definition is_session_proposal :: "uuid \<Rightarrow> uuid \<Rightarrow> db \<Rightarrow> bool" where
  "is_session_proposal sid prop db \<longleftrightarrow>
     (\<exists>p \<in> set (session_proposals db). sp_voting_session_id p = sid \<and> sp_proposal_id p = prop)"

definition voting_repo_create_vote :: "vote \<Rightarrow> db \<Rightarrow> error + vote \<times> db" where
  "voting_repo_create_vote b db =
     on_integrity_error VoteAlreadyCastError
       (bindE (flush_insert b_id (\<lambda>b. uq_votes (votes db @ [b])) b (votes db)) (\<lambda>bs.
        Inr (b, db\<lparr>votes := bs\<rparr>)))"

definition count_votes :: "uuid \<Rightarrow> db \<Rightarrow> nat" where
  "count_votes sid db = length (filter (\<lambda>b. b_voting_session_id b = sid) (votes db))"

text \<open>
  The outer join, grouped by proposal: a proposal without ballots counts zero (\<open>count(votes.id)\<close>
  ignores the null row), and the groups come in the order of the proposal ids.
\<close>

definition list_tallies :: "uuid \<Rightarrow> db \<Rightarrow> (uuid \<times> nat) list" where
  "list_tallies sid db =
     (let mine = filter (\<lambda>p. sp_voting_session_id p = sid) (session_proposals db) in
      map (\<lambda>i. (i, length [b. p \<leftarrow> mine, b \<leftarrow> votes db,
                     sp_proposal_id p = i \<and> b_voting_session_id b = sid \<and> b_proposal_id b = i]))
        (sort (remdups (map sp_proposal_id mine))))"

section \<open>The service\<close>

definition require_active_decision :: "decision \<Rightarrow> error + unit" where
  "require_active_decision d = ensure (d_status d = D_ACTIVE) DecisionImmutableError"

definition require_session :: "uuid \<Rightarrow> uuid \<Rightarrow> db \<Rightarrow> error + voting_session" where
  "require_session d i db = require (voting_repo_get_for_decision d i db) VotingSessionNotFoundError"

definition voting_create_session ::
  "env \<Rightarrow> user \<Rightarrow> uuid \<Rightarrow> uuid \<Rightarrow> session_create_request \<Rightarrow> db \<Rightarrow> error + voting_session \<times> db" where
  "voting_create_session env me w d payload db =
     bindE (decision_context (u_id me) w d db) (\<lambda>(m, decision).
     bindE (require_active_decision decision) (\<lambda>_.
     bindE (ensure (can_manage_voting (m_role m)) VotingAccessDeniedError) (\<lambda>_.
     bindE (ensure (\<not> has_unfinished_for_decision d db) VotingConflictError) (\<lambda>_.
     voting_repo_create
       \<lparr>v_id = fresh env 0, v_decision_id = d, v_created_by_id = u_id me, v_status = V_DRAFT,
        v_quorum_percentage = vc_quorum_percentage payload, v_eligible_voter_count = 0, v_opened_at = None,
        v_closes_at = vc_closes_at payload, v_closed_at = None, v_cancelled_at = None,
        v_created_at = db_now env, v_updated_at = db_now env\<rparr> db))))"

definition voting_list_sessions :: "user \<Rightarrow> uuid \<Rightarrow> uuid \<Rightarrow> db \<Rightarrow> error + voting_session list" where
  "voting_list_sessions me w d db =
     bindE (decision_context (u_id me) w d db) (\<lambda>_. Inr (voting_repo_list_for_decision d db))"

definition voting_get_session :: "user \<Rightarrow> uuid \<Rightarrow> uuid \<Rightarrow> uuid \<Rightarrow> db \<Rightarrow> error + voting_session" where
  "voting_get_session me w d i db =
     bindE (decision_context (u_id me) w d db) (\<lambda>_. require_session d i db)"

definition voting_opened_payload :: "env \<Rightarrow> user \<Rightarrow> uuid \<Rightarrow> decision \<Rightarrow> voting_session \<Rightarrow> nat \<Rightarrow> json" where
  "voting_opened_payload env me w d v n = JObj
     [(''workspace_id'', JStr (uuid_str w)), (''decision_id'', JStr (uuid_str (d_id d))),
      (''decision_title'', JStr (d_title d)), (''voting_session_id'', JStr (uuid_str (v_id v))),
      (''actor_id'', JStr (uuid_str (u_id me))), (''actor_name'', JStr (u_display_name me)),
      (''eligible_voter_count'', JInt (int n)), (''opened_at'', JStr (isoformat (now env))),
      (''closes_at'', jopt (\<lambda>t. JStr (isoformat t)) (v_closes_at v))]"

definition voting_open_session ::
  "env \<Rightarrow> user \<Rightarrow> uuid \<Rightarrow> uuid \<Rightarrow> uuid \<Rightarrow> db \<Rightarrow> error + voting_session \<times> db" where
  "voting_open_session env me w d i db =
     bindE (decision_context (u_id me) w d db) (\<lambda>(m, decision).
     bindE (require_active_decision decision) (\<lambda>_.
     bindE (ensure (can_manage_voting (m_role m)) VotingAccessDeniedError) (\<lambda>_.
     bindE (require_session d i db) (\<lambda>v.
     bindE (ensure (v_status v = V_DRAFT) VotingInvalidTransitionError) (\<lambda>_.
     bindE (ensure (\<forall>t \<in> set_option (v_closes_at v). now env < t) VotingClosedError) (\<lambda>_.
     bindE (ensure (\<not> has_open_blocking_for_decision d db) VotingBlockedByObjectionsError) (\<lambda>_.
     let props = proposals_repo_list_for_decision d (Some P_SUBMITTED) db in
     bindE (ensure (2 \<le> length props) VotingConflictError) (\<lambda>_.
     let eligible = workspaces_repo_list_voting_eligible_user_ids w db in
     bindE (ensure (eligible \<noteq> []) VotingConflictError) (\<lambda>_.
     on_integrity_error VotingConflictError
       (with_event (emitter env)
         (emitter_stage env (fresh env 0) w VOTING_OPENED (v_id v)
            (voting_opened_payload env me w decision v (length eligible)))
         (voting_repo_open env v eligible (map p_id props) (now env)) db))))))))))"

definition voting_cast_vote ::
  "env \<Rightarrow> user \<Rightarrow> uuid \<Rightarrow> uuid \<Rightarrow> uuid \<Rightarrow> uuid \<Rightarrow> db \<Rightarrow> error + vote \<times> db" where
  "voting_cast_vote env me w d i prop db =
     bindE (decision_context (u_id me) w d db) (\<lambda>_.
     bindE (require_session d i db) (\<lambda>v.
     bindE (ensure (v_status v = V_OPEN) VotingClosedError) (\<lambda>_.
     bindE (ensure (\<forall>t \<in> set_option (v_closes_at v). now env < t) VotingClosedError) (\<lambda>_.
     bindE (ensure (is_eligible_voter (v_id v) (u_id me) db) VotingAccessDeniedError) (\<lambda>_.
     bindE (ensure (is_session_proposal (v_id v) prop db) ProposalNotFoundError) (\<lambda>_.
     voting_repo_create_vote
       \<lparr>b_id = fresh env 0, b_voting_session_id = v_id v, b_voter_id = u_id me, b_proposal_id = prop,
        b_created_at = db_now env\<rparr> db))))))"

definition voting_closed_payload :: "env \<Rightarrow> user \<Rightarrow> uuid \<Rightarrow> decision \<Rightarrow> voting_session \<Rightarrow> json" where
  "voting_closed_payload env me w d v = JObj
     [(''workspace_id'', JStr (uuid_str w)), (''decision_id'', JStr (uuid_str (d_id d))),
      (''decision_title'', JStr (d_title d)), (''voting_session_id'', JStr (uuid_str (v_id v))),
      (''actor_id'', JStr (uuid_str (u_id me))), (''actor_name'', JStr (u_display_name me)),
      (''closed_at'', JStr (isoformat (now env)))]"

definition voting_close_session ::
  "env \<Rightarrow> user \<Rightarrow> uuid \<Rightarrow> uuid \<Rightarrow> uuid \<Rightarrow> db \<Rightarrow> error + voting_session \<times> db" where
  "voting_close_session env me w d i db =
     bindE (decision_context (u_id me) w d db) (\<lambda>(m, decision).
     bindE (ensure (can_manage_voting (m_role m)) VotingAccessDeniedError) (\<lambda>_.
     bindE (require_session d i db) (\<lambda>v.
     bindE (ensure (v_status v = V_OPEN) VotingInvalidTransitionError) (\<lambda>_.
     with_event (emitter env)
       (emitter_stage env (fresh env 0) w VOTING_CLOSED (v_id v) (voting_closed_payload env me w decision v))
       (voting_repo_close env v (now env)) db))))"

definition voting_cancel_session ::
  "env \<Rightarrow> user \<Rightarrow> uuid \<Rightarrow> uuid \<Rightarrow> uuid \<Rightarrow> db \<Rightarrow> error + voting_session \<times> db" where
  "voting_cancel_session env me w d i db =
     bindE (decision_context (u_id me) w d db) (\<lambda>(m, _).
     bindE (ensure (can_manage_voting (m_role m)) VotingAccessDeniedError) (\<lambda>_.
     bindE (require_session d i db) (\<lambda>v.
     bindE (ensure (v_status v \<in> {V_DRAFT, V_OPEN}) VotingInvalidTransitionError) (\<lambda>_.
     voting_repo_cancel env v (now env) db))))"

section \<open>The result\<close>

text \<open>Percentages are in hundredths, what \<open>round(x, 2)\<close> leaves of the quotient.\<close>

record tally =
  t_proposal_id :: uuid
  t_votes :: nat
  t_percentage :: int

record voting_result =
  vr_voting_session_id :: uuid
  vr_eligible_voter_count :: int
  vr_votes_cast :: nat
  vr_quorum_percentage :: int
  vr_required_votes :: int
  vr_quorum_met :: bool
  vr_result_valid :: bool
  vr_winner_proposal_id :: "uuid option"
  vr_is_tie :: bool
  vr_tallies :: "tally list"

definition required_votes :: "int \<Rightarrow> int \<Rightarrow> int" where
  "required_votes eligible_voter_count quorum_percentage =
     py_ceil (truediv (nat (eligible_voter_count * quorum_percentage)) 100)"

text \<open>\<open>max(...)\<close> over the tallies, which are not negative, and the tallies that reach it.\<close>

definition highest_votes :: "tally list \<Rightarrow> nat" where
  "highest_votes ts = foldr max (map t_votes ts) 0"

definition leaders :: "tally list \<Rightarrow> uuid list" where
  "leaders ts = map t_proposal_id (filter (\<lambda>t. t_votes t = highest_votes ts) ts)"

definition voting_result_of :: "voting_session \<Rightarrow> db \<Rightarrow> voting_result" where
  "voting_result_of v db =
     (let votes_cast = count_votes (v_id v) db;
          required = required_votes (v_eligible_voter_count v) (v_quorum_percentage v);
          quorum_met = (required \<le> int votes_cast);
          tallies = map (\<lambda>(i, n). \<lparr>t_proposal_id = i, t_votes = n,
                       t_percentage = (if votes_cast \<noteq> 0 then round2 (truediv (n * 100) votes_cast) else 0)\<rparr>)
                      (list_tallies (v_id v) db);
          decided = (quorum_met \<and> tallies \<noteq> []);
          is_tie = (decided \<and> 1 < length (leaders tallies)) in
      \<lparr>vr_voting_session_id = v_id v, vr_eligible_voter_count = v_eligible_voter_count v,
       vr_votes_cast = votes_cast, vr_quorum_percentage = v_quorum_percentage v,
       vr_required_votes = required, vr_quorum_met = quorum_met, vr_result_valid = quorum_met,
       vr_winner_proposal_id = (if decided \<and> \<not> is_tie then Some (hd (leaders tallies)) else None),
       vr_is_tie = is_tie, vr_tallies = tallies\<rparr>)"

definition voting_get_result :: "user \<Rightarrow> uuid \<Rightarrow> uuid \<Rightarrow> uuid \<Rightarrow> db \<Rightarrow> error + voting_result" where
  "voting_get_result me w d i db =
     bindE (decision_context (u_id me) w d db) (\<lambda>_.
     bindE (require_session d i db) (\<lambda>v.
     bindE (ensure (v_status v = V_CLOSED) VotingResultUnavailableError) (\<lambda>_.
     Inr (voting_result_of v db))))"

section \<open>What the operations do\<close>

lemma on_integrity_error_Inr [simp]: "on_integrity_error e r = Inr x \<longleftrightarrow> r = Inr x"
  by (auto simp: on_integrity_error_def split: sum.splits error.splits)

lemma require_active_Inr [simp]: "require_active_decision d = Inr u \<longleftrightarrow> d_status d = D_ACTIVE"
  by (simp add: require_active_decision_def)

lemma require_session_Inr [simp]:
  "require_session d i db = Inr v \<longleftrightarrow> voting_repo_get_for_decision d i db = Some v"
  by (simp add: require_session_def)

lemma session_getD:
  "voting_repo_get_for_decision d i db = Some v \<Longrightarrow> v \<in> set (sessions db) \<and> v_id v = i \<and> v_decision_id v = d"
  unfolding voting_repo_get_for_decision_def by (rule session_table.get_Some)

lemma session_get_lookup:
  "distinct (map v_id (sessions db)) \<Longrightarrow> voting_repo_get_for_decision d i db = Some v \<Longrightarrow>
     lookup v_id (v_id v) (sessions db) = Some v"
  using session_table.get_lookup session_table.get_Some
  unfolding voting_repo_get_for_decision_def by metis

lemma write_session_key [simp]:
  "v_id (write_session env old new cur) = v_id cur"
  "v_decision_id (write_session env old new cur) = v_decision_id cur"
  "v_created_by_id (write_session env old new cur) = v_created_by_id cur"
  "v_quorum_percentage (write_session env old new cur) = v_quorum_percentage cur"
  "v_closes_at (write_session env old new cur) = v_closes_at cur"
  "v_created_at (write_session env old new cur) = v_created_at cur"
  by (simp_all add: write_session_def)

lemma write_session_fresh [simp]:
  "v_status (write_session env v new v) = v_status new"
  "v_eligible_voter_count (write_session env v new v) = v_eligible_voter_count new"
  "v_opened_at (write_session env v new v) = v_opened_at new"
  "v_closed_at (write_session env v new v) = v_closed_at new"
  "v_cancelled_at (write_session env v new v) = v_cancelled_at new"
  by (cases "new = v"; simp add: write_session_def)+

lemma save_session_InrD:
  assumes "save_session env v new db = Inr (r, db')" and "lookup v_id (v_id v) (sessions db) = Some v"
  shows "r = write_session env v new v \<and> ck_voting_sessions r \<and> uq_one_unfinished (store v_id r (sessions db)) \<and>
         db' = db\<lparr>sessions := store v_id r (sessions db)\<rparr>"
  using assms by (auto simp: save_session_def)

text \<open>
  A ballot and a close race: the writer that still sees the session open, after another request
  closed or cancelled it, is stopped by the CHECK on the four states.
\<close>

lemma stale_session_refused:
  assumes cur: "lookup v_id (v_id stale) (sessions db) = Some cur" and st: "v_status stale \<in> {V_DRAFT, V_OPEN}"
    and old: "v_closed_at stale = None" "v_cancelled_at stale = None"
    and fin: "v_status cur \<in> {V_CLOSED, V_CANCELLED}" "ck_voting_sessions cur"
  shows "v_status cur = V_CANCELLED \<Longrightarrow> voting_repo_close env stale t db = Inl IntegrityError"
    and "v_status cur = V_CLOSED \<Longrightarrow> voting_repo_cancel env stale t db = Inl IntegrityError"
proof -
  let ?closed = "stale\<lparr>v_status := V_CLOSED, v_closed_at := Some t\<rparr>"
  let ?cancelled = "stale\<lparr>v_status := V_CANCELLED, v_cancelled_at := Some t\<rparr>"
  have "v_status ?closed \<noteq> v_status stale" "v_status ?cancelled \<noteq> v_status stale" using st by auto
  then have ne: "?closed \<noteq> stale" "?cancelled \<noteq> stale" by metis+
  show "v_status cur = V_CANCELLED \<Longrightarrow> voting_repo_close env stale t db = Inl IntegrityError"
    using cur st old fin ne(1)
    by (auto simp: voting_repo_close_def save_session_def flush_update_def ensure_def write_session_def
        put_if_dirty_def ck_voting_sessions_def)
  show "v_status cur = V_CLOSED \<Longrightarrow> voting_repo_cancel env stale t db = Inl IntegrityError"
    using cur st old fin ne(2)
    by (auto simp: voting_repo_cancel_def save_session_def flush_update_def ensure_def write_session_def
        put_if_dirty_def ck_voting_sessions_def)
qed

lemma insert_all_Inr [simp]:
  "insert_all key new rs = Inr rs' \<longleftrightarrow>
     distinct (map key new) \<and> (\<forall>r \<in> set new. key r \<notin> key ` set rs) \<and> rs' = rs @ new"
  by (auto simp: insert_all_def)

lemma eligible_rows_map [simp]:
  "map ev_user_id (eligible_rows env k sid us) = us"
  "e \<in> set (eligible_rows env k sid us) \<Longrightarrow> ev_voting_session_id e = sid"
  "length (eligible_rows env k sid us) = length us"
  by (auto simp: eligible_rows_def comp_def case_prod_unfold)

lemma session_proposal_rows_map [simp]:
  "map sp_proposal_id (session_proposal_rows env k sid ps) = ps"
  "p \<in> set (session_proposal_rows env k sid ps) \<Longrightarrow> sp_voting_session_id p = sid"
  "length (session_proposal_rows env k sid ps) = length ps"
  by (auto simp: session_proposal_rows_def comp_def case_prod_unfold)

definition session_opened :: "env \<Rightarrow> nat \<Rightarrow> voting_session \<Rightarrow> voting_session" where
  "session_opened env n v = write_session env v (v\<lparr>v_status := V_OPEN, v_opened_at := Some (now env),
     v_eligible_voter_count := int n\<rparr>) v"

lemma voting_repo_open_InrD:
  assumes "voting_repo_open env v us ps (now env) db = Inr (r, db')" and "lookup v_id (v_id v) (sessions db) = Some v"
  shows "r = session_opened env (length us) v \<and> ck_voting_sessions r \<and> uq_one_unfinished (store v_id r (sessions db)) \<and>
    db' = db\<lparr>sessions := store v_id r (sessions db),
      eligible_voters := eligible_voters db @ eligible_rows env 1 (v_id v) us,
      session_proposals := session_proposals db @ session_proposal_rows env (1 + length us) (v_id v) ps\<rparr> \<and>
    distinct (map ev_id (eligible_rows env 1 (v_id v) us)) \<and>
    (\<forall>e \<in> set (eligible_rows env 1 (v_id v) us). ev_id e \<notin> ev_id ` set (eligible_voters db)) \<and>
    distinct (map sp_id (session_proposal_rows env (1 + length us) (v_id v) ps)) \<and>
    (\<forall>p \<in> set (session_proposal_rows env (1 + length us) (v_id v) ps). sp_id p \<notin> sp_id ` set (session_proposals db)) \<and>
    uq_eligible_voters (eligible_voters db') \<and> uq_session_proposals (session_proposals db')"
  using assms(1) unfolding voting_repo_open_def
  by (auto simp: session_opened_def dest!: save_session_InrD [OF _ assms(2)])

lemma save_session_frame:
  "save_session env v new db = Inr (r, db') \<Longrightarrow> outbox db' = outbox db \<and> published db' = published db"
  by (auto simp: save_session_def)

lemma voting_repo_open_frame:
  "voting_repo_open env v us ps t db = Inr (r, db') \<Longrightarrow> outbox db' = outbox db \<and> published db' = published db"
  by (auto simp: voting_repo_open_def dest!: save_session_frame)

lemma voting_open_InrD:
  assumes "voting_open_session env me w d i db = Inr (r, db')"
  obtains m dec v xs ys db2 where "workspaces_repo_get_membership w (u_id me) db = Some m"
    and "decisions_repo_get_for_workspace w d db = Some dec" and "d_status dec = D_ACTIVE"
    and "can_manage_voting (m_role m)" and "voting_repo_get_for_decision d i db = Some v"
    and "v_status v = V_DRAFT" and "\<forall>t \<in> set_option (v_closes_at v). now env < t"
    and "\<not> has_open_blocking_for_decision d db"
    and "2 \<le> length (proposals_repo_list_for_decision d (Some P_SUBMITTED) db)"
    and "workspaces_repo_list_voting_eligible_user_ids w db \<noteq> []"
    and "voting_repo_open env v (workspaces_repo_list_voting_eligible_user_ids w db)
           (map p_id (proposals_repo_list_for_decision d (Some P_SUBMITTED) db)) (now env) (db\<lparr>outbox := xs\<rparr>) = Inr (r, db2)"
    and "db' = db2\<lparr>published := ys\<rparr>"
    and "emitted (emitter env) w VOTING_OPENED (v_id v) (voting_opened_payload env me w dec v
           (length (workspaces_repo_list_voting_eligible_user_ids w db))) db db'"
proof -
  obtain m dec v where g: "workspaces_repo_get_membership w (u_id me) db = Some m"
    "decisions_repo_get_for_workspace w d db = Some dec" "d_status dec = D_ACTIVE"
    "can_manage_voting (m_role m)" "voting_repo_get_for_decision d i db = Some v"
    "v_status v = V_DRAFT" "\<forall>t \<in> set_option (v_closes_at v). now env < t"
    "\<not> has_open_blocking_for_decision d db"
    "2 \<le> length (proposals_repo_list_for_decision d (Some P_SUBMITTED) db)"
    "workspaces_repo_list_voting_eligible_user_ids w db \<noteq> []"
    and run: "with_event (emitter env)
         (emitter_stage env (fresh env 0) w VOTING_OPENED (v_id v)
            (voting_opened_payload env me w dec v (length (workspaces_repo_list_voting_eligible_user_ids w db))))
         (voting_repo_open env v (workspaces_repo_list_voting_eligible_user_ids w db)
            (map p_id (proposals_repo_list_for_decision d (Some P_SUBMITTED) db)) (now env)) db = Inr (r, db')"
    using assms by (auto simp: voting_open_session_def Let_def)
  from run show thesis
    by (rule with_event_InrD) (erule voting_repo_open_frame, rule that [OF g])
qed

lemma voting_close_InrD:
  assumes "voting_close_session env me w d i db = Inr (r, db')" and "distinct (map v_id (sessions db))"
  obtains m dec v xs ys where "workspaces_repo_get_membership w (u_id me) db = Some m"
    and "decisions_repo_get_for_workspace w d db = Some dec"
    and "can_manage_voting (m_role m)" and "voting_repo_get_for_decision d i db = Some v"
    and "v_status v = V_OPEN"
    and "r = write_session env v (v\<lparr>v_status := V_CLOSED, v_closed_at := Some (now env)\<rparr>) v"
    and "ck_voting_sessions r" and "uq_one_unfinished (store v_id r (sessions db))"
    and "db' = db\<lparr>sessions := store v_id r (sessions db), outbox := xs, published := ys\<rparr>"
    and "emitted (emitter env) w VOTING_CLOSED (v_id v) (voting_closed_payload env me w dec v) db db'"
proof -
  obtain m dec v where g: "workspaces_repo_get_membership w (u_id me) db = Some m"
    "decisions_repo_get_for_workspace w d db = Some dec" "can_manage_voting (m_role m)"
    "voting_repo_get_for_decision d i db = Some v" "v_status v = V_OPEN"
    and run: "with_event (emitter env)
       (emitter_stage env (fresh env 0) w VOTING_CLOSED (v_id v) (voting_closed_payload env me w dec v))
       (voting_repo_close env v (now env)) db = Inr (r, db')"
    using assms(1) by (auto simp: voting_close_session_def)
  from run obtain xs ys db2 where c: "voting_repo_close env v (now env) (db\<lparr>outbox := xs\<rparr>) = Inr (r, db2)"
    and db': "db' = db2\<lparr>published := ys\<rparr>"
    and e: "emitted (emitter env) w VOTING_CLOSED (v_id v) (voting_closed_payload env me w dec v) db db'"
    by (rule with_event_InrD) (auto simp: voting_repo_close_def dest: save_session_frame)
  have "lookup v_id (v_id v) (sessions (db\<lparr>outbox := xs\<rparr>)) = Some v"
    using session_get_lookup [OF assms(2) g(4)] by simp
  from save_session_InrD [OF c [unfolded voting_repo_close_def] this] show thesis
    by (intro that [OF g _ _ _ _ e, where xs = xs and ys = ys]) (auto simp: db')
qed

lemma voting_cancel_InrD:
  assumes "voting_cancel_session env me w d i db = Inr (r, db')" and "distinct (map v_id (sessions db))"
  obtains m v where "workspaces_repo_get_membership w (u_id me) db = Some m"
    and "can_manage_voting (m_role m)" and "voting_repo_get_for_decision d i db = Some v"
    and "v_status v \<in> {V_DRAFT, V_OPEN}"
    and "r = write_session env v (v\<lparr>v_status := V_CANCELLED, v_cancelled_at := Some (now env)\<rparr>) v"
    and "ck_voting_sessions r" and "uq_one_unfinished (store v_id r (sessions db))"
    and "db' = db\<lparr>sessions := store v_id r (sessions db)\<rparr>"
  using assms(1)
  by (auto simp: voting_cancel_session_def voting_repo_cancel_def
      dest!: save_session_InrD [OF _ session_get_lookup [OF assms(2)]])

lemma voting_create_Inr:
  "voting_create_session env me w d q db = Inr (v, db') \<longleftrightarrow>
     (\<exists>m dec. decision_context (u_id me) w d db = Inr (m, dec) \<and> d_status dec = D_ACTIVE \<and>
        can_manage_voting (m_role m) \<and> \<not> has_unfinished_for_decision d db \<and>
        v = \<lparr>v_id = fresh env 0, v_decision_id = d, v_created_by_id = u_id me, v_status = V_DRAFT,
             v_quorum_percentage = vc_quorum_percentage q, v_eligible_voter_count = 0, v_opened_at = None,
             v_closes_at = vc_closes_at q, v_closed_at = None, v_cancelled_at = None,
             v_created_at = db_now env, v_updated_at = db_now env\<rparr> \<and>
        v_id v \<notin> v_id ` set (sessions db) \<and> ck_voting_sessions v \<and>
        uq_one_unfinished (sessions db @ [v]) \<and> db' = db\<lparr>sessions := sessions db @ [v]\<rparr>)"
  by (auto simp: voting_create_session_def voting_repo_create_def)

lemma voting_cast_Inr:
  "voting_cast_vote env me w d i prop db = Inr (b, db') \<longleftrightarrow>
     (\<exists>m dec v. decision_context (u_id me) w d db = Inr (m, dec) \<and> voting_repo_get_for_decision d i db = Some v \<and>
        v_status v = V_OPEN \<and> (\<forall>t \<in> set_option (v_closes_at v). now env < t) \<and>
        is_eligible_voter (v_id v) (u_id me) db \<and> is_session_proposal (v_id v) prop db \<and>
        b = \<lparr>b_id = fresh env 0, b_voting_session_id = v_id v, b_voter_id = u_id me, b_proposal_id = prop,
             b_created_at = db_now env\<rparr> \<and>
        b_id b \<notin> b_id ` set (votes db) \<and> uq_votes (votes db @ [b]) \<and> db' = db\<lparr>votes := votes db @ [b]\<rparr>)"
  by (auto simp: voting_cast_vote_def voting_repo_create_vote_def)

text \<open>The operations of the service, for statements about all of them.\<close>

lemmas voting_ops = voting_create_session_def voting_list_sessions_def voting_get_session_def voting_open_session_def voting_cast_vote_def voting_close_session_def voting_cancel_session_def voting_get_result_def

end
