(* ===== verification/Voting_Register.thy ===== *)
theory Voting_Register imports Voting begin

text \<open>
  What holds of the four voting tables in every state: the sessions satisfy their constraints, the
  register of voters and proposals written when a session opens matches the session row, and each
  ballot was cast by a registered voter for a registered proposal, once.
\<close>

abbreviation eligible_of :: "uuid \<Rightarrow> voting_eligible_voter list \<Rightarrow> uuid list" where
  "eligible_of i es \<equiv> map ev_user_id (filter (\<lambda>e. ev_voting_session_id e = i) es)"

abbreviation choices_of :: "uuid \<Rightarrow> voting_session_proposal list \<Rightarrow> uuid list" where
  "choices_of i ps \<equiv> map sp_proposal_id (filter (\<lambda>p. sp_voting_session_id p = i) ps)"

abbreviation ballots_of :: "uuid \<Rightarrow> vote list \<Rightarrow> vote list" where
  "ballots_of i bs \<equiv> filter (\<lambda>b. b_voting_session_id b = i) bs"

definition session_inv :: "voting_session list \<Rightarrow> bool" where
  "session_inv vs \<longleftrightarrow> distinct (map v_id vs) \<and> (\<forall>v \<in> set vs. ck_voting_sessions v) \<and> uq_one_unfinished vs"

text \<open>The register agrees with the session row.\<close>

definition session_registered ::
  "voting_eligible_voter list \<Rightarrow> voting_session_proposal list \<Rightarrow> voting_session \<Rightarrow> bool" where
  "session_registered es ps v \<longleftrightarrow>
     v_eligible_voter_count v = int (length (eligible_of (v_id v) es)) \<and>
     (v_status v = V_DRAFT \<longrightarrow> eligible_of (v_id v) es = [] \<and> choices_of (v_id v) ps = []) \<and>
     (v_status v \<in> {V_OPEN, V_CLOSED} \<longrightarrow> 2 \<le> length (choices_of (v_id v) ps))"

definition register_inv ::
  "voting_session list \<Rightarrow> voting_eligible_voter list \<Rightarrow> voting_session_proposal list \<Rightarrow> bool" where
  "register_inv vs es ps \<longleftrightarrow>
     distinct (map ev_id es) \<and> uq_eligible_voters es \<and> distinct (map sp_id ps) \<and> uq_session_proposals ps \<and>
     (\<forall>e \<in> set es. ev_voting_session_id e \<in> v_id ` set vs) \<and>
     (\<forall>p \<in> set ps. sp_voting_session_id p \<in> v_id ` set vs) \<and>
     (\<forall>v \<in> set vs. session_registered es ps v)"

definition ballot_inv ::
  "voting_eligible_voter list \<Rightarrow> voting_session_proposal list \<Rightarrow> vote list \<Rightarrow> bool" where
  "ballot_inv es ps bs \<longleftrightarrow>
     distinct (map b_id bs) \<and> uq_votes bs \<and>
     (\<forall>b \<in> set bs. b_voter_id b \<in> set (eligible_of (b_voting_session_id b) es) \<and>
        b_proposal_id b \<in> set (choices_of (b_voting_session_id b) ps))"

section \<open>The life of one session\<close>

definition session_evolves :: "voting_session \<Rightarrow> voting_session \<Rightarrow> bool" where
  "session_evolves v v' \<longleftrightarrow> v' = v \<or>
     (v_id v' = v_id v \<and> v_decision_id v' = v_decision_id v \<and> v_created_by_id v' = v_created_by_id v \<and>
      v_quorum_percentage v' = v_quorum_percentage v \<and> v_closes_at v' = v_closes_at v \<and>
      (v_status v, v_status v') \<in>
        {(V_DRAFT, V_OPEN), (V_OPEN, V_CLOSED), (V_DRAFT, V_CANCELLED), (V_OPEN, V_CANCELLED)} \<and>
      (v_status v \<noteq> V_DRAFT \<longrightarrow> v_eligible_voter_count v' = v_eligible_voter_count v \<and>
         v_opened_at v' = v_opened_at v))"

interpretation session_history: row_history v_id "\<lambda>_. False" session_evolves
  by unfold_locales (auto simp: session_evolves_def)

text \<open>\<open>V_CLOSED\<close> and \<open>V_CANCELLED\<close> are final, a draft can only be opened or cancelled, and so on.\<close>

fun session_transitions :: "voting_session_status \<Rightarrow> voting_session_status set" where
  "session_transitions V_DRAFT = {V_OPEN, V_CANCELLED}"
| "session_transitions V_OPEN = {V_CLOSED, V_CANCELLED}"
| "session_transitions V_CLOSED = {}"
| "session_transitions V_CANCELLED = {}"

interpretation session_cycle: lifecycle session_transitions "\<lambda>s. s \<in> {V_CLOSED, V_CANCELLED}"
proof
  show "s \<in> {V_CLOSED, V_CANCELLED} \<longleftrightarrow> session_transitions s = {}" for s by (cases s) simp_all
  show "s \<notin> session_transitions s" for s by (cases s) simp_all
qed

lemma session_evolves_status:
  "session_evolves v v' \<Longrightarrow> v' = v \<or> v_status v' \<in> session_transitions (v_status v)"
  by (auto simp: session_evolves_def)

lemma final_session_stays:
  "session_evolves v v' \<Longrightarrow> v_status v \<in> {V_CLOSED, V_CANCELLED} \<Longrightarrow> v' = v"
  by (auto simp: session_evolves_def)

section \<open>Steps\<close>

inductive voting_step :: "db \<Rightarrow> db \<Rightarrow> bool" where
  create: "VotingSessionCreateRequest env q c = Inr payload \<Longrightarrow>
             voting_create_session env me w d payload db = Inr (r, db') \<Longrightarrow> voting_step db db'"
| openS: "voting_open_session env me w d i db = Inr (r, db') \<Longrightarrow> voting_step db db'"
| cast: "voting_cast_vote env me w d i choice db = Inr (b, db') \<Longrightarrow> voting_step db db'"
| close: "voting_close_session env me w d i db = Inr (r, db') \<Longrightarrow> voting_step db db'"
| cancel: "voting_cancel_session env me w d i db = Inr (r, db') \<Longrightarrow> voting_step db db'"

text \<open>The tables after each kind of step.\<close>

inductive voting_effect :: "db \<Rightarrow> db \<Rightarrow> bool" where
  created: "dec \<in> set (decisions db) \<Longrightarrow> d_id dec = v_decision_id v \<Longrightarrow> d_status dec = D_ACTIVE \<Longrightarrow>
     v_id v \<notin> v_id ` set (sessions db) \<Longrightarrow> ck_voting_sessions v \<Longrightarrow> v_status v = V_DRAFT \<Longrightarrow>
     v_eligible_voter_count v = 0 \<Longrightarrow> uq_one_unfinished (sessions db @ [v]) \<Longrightarrow>
     db' = db\<lparr>sessions := sessions db @ [v]\<rparr> \<Longrightarrow> voting_effect db db'"
| opened: "lookup v_id (v_id v) (sessions db) = Some v \<Longrightarrow> v_status v = V_DRAFT \<Longrightarrow>
     r = session_opened env (length es) v \<Longrightarrow> ck_voting_sessions r \<Longrightarrow> uq_one_unfinished (store v_id r (sessions db)) \<Longrightarrow>
     (\<And>e. e \<in> set es \<Longrightarrow> ev_voting_session_id e = v_id v) \<Longrightarrow>
     (\<And>p. p \<in> set ps \<Longrightarrow> sp_voting_session_id p = v_id v) \<Longrightarrow> 2 \<le> length ps \<Longrightarrow>
     sp_proposal_id ` set ps \<subseteq> p_id ` {q \<in> set (proposals db). p_decision_id q = v_decision_id v} \<Longrightarrow>
     distinct (map ev_id (eligible_voters db @ es)) \<Longrightarrow> distinct (map sp_id (session_proposals db @ ps)) \<Longrightarrow>
     uq_eligible_voters (eligible_voters db @ es) \<Longrightarrow> uq_session_proposals (session_proposals db @ ps) \<Longrightarrow>
     db' = db\<lparr>sessions := store v_id r (sessions db), eligible_voters := eligible_voters db @ es,
              session_proposals := session_proposals db @ ps, outbox := xs, published := ys\<rparr> \<Longrightarrow>
     voting_effect db db'"
| ballot: "lookup v_id (v_id v) (sessions db) = Some v \<Longrightarrow> v_status v = V_OPEN \<Longrightarrow> b_voting_session_id b = v_id v \<Longrightarrow>
     b_voter_id b \<in> set (eligible_of (v_id v) (eligible_voters db)) \<Longrightarrow>
     b_proposal_id b \<in> set (choices_of (v_id v) (session_proposals db)) \<Longrightarrow>
     b_id b \<notin> b_id ` set (votes db) \<Longrightarrow> uq_votes (votes db @ [b]) \<Longrightarrow> db' = db\<lparr>votes := votes db @ [b]\<rparr> \<Longrightarrow>
     voting_effect db db'"
| ended: "lookup v_id (v_id v) (sessions db) = Some v \<Longrightarrow> session_evolves v r \<Longrightarrow> v_id r = v_id v \<Longrightarrow>
     v_eligible_voter_count r = v_eligible_voter_count v \<Longrightarrow> v_status r \<in> {V_CLOSED, V_CANCELLED} \<Longrightarrow>
     (v_status r = V_CLOSED \<Longrightarrow> v_status v = V_OPEN) \<Longrightarrow> ck_voting_sessions r \<Longrightarrow>
     uq_one_unfinished (store v_id r (sessions db)) \<Longrightarrow>
     db' = db\<lparr>sessions := store v_id r (sessions db), outbox := xs, published := ys\<rparr> \<Longrightarrow> voting_effect db db'"

lemma session_invD:
  assumes "session_inv vs"
  shows "distinct (map v_id vs)" and "v \<in> set vs \<Longrightarrow> ck_voting_sessions v" and "uq_one_unfinished vs"
  using assms by (simp_all add: session_inv_def)

lemma is_eligible_voter_iff: "is_eligible_voter i u db \<longleftrightarrow> u \<in> set (eligible_of i (eligible_voters db))"
  by (auto simp: is_eligible_voter_def)

lemma is_session_proposal_iff: "is_session_proposal i p db \<longleftrightarrow> p \<in> set (choices_of i (session_proposals db))"
  by (auto simp: is_session_proposal_def)

lemma distinct_append_fresh:
  "distinct (map f xs) \<Longrightarrow> distinct (map f ys) \<Longrightarrow> (\<forall>y \<in> set ys. f y \<notin> f ` set xs) \<Longrightarrow> distinct (map f (xs @ ys))"
  by (simp add: disjoint_iff) (metis imageE)

lemma open_step:
  assumes "voting_open_session env me w d i db = Inr (r, db')" and inv: "session_inv (sessions db)"
    and ids: "distinct (map ev_id (eligible_voters db))" "distinct (map sp_id (session_proposals db))"
  shows "voting_effect db db'"
  using assms(1)
proof (rule voting_open_InrD)
  fix m dec xs ys and v :: voting_session and db2 :: db
  let ?us = "workspaces_repo_list_voting_eligible_user_ids w db"
  let ?props = "map p_id (proposals_repo_list_for_decision d (Some P_SUBMITTED) db)"
  let ?es = "eligible_rows env 1 (v_id v) ?us" and ?ps = "session_proposal_rows env (1 + length ?us) (v_id v) ?props"
  assume v: "voting_repo_get_for_decision d i db = Some v" "v_status v = V_DRAFT"
    and two: "2 \<le> length (proposals_repo_list_for_decision d (Some P_SUBMITTED) db)"
    and run: "voting_repo_open env v ?us ?props (now env) (db\<lparr>outbox := xs\<rparr>) = Inr (r, db2)"
    and db': "db' = db2\<lparr>published := ys\<rparr>"
  have look: "lookup v_id (v_id v) (sessions (db\<lparr>outbox := xs\<rparr>)) = Some v"
    using session_get_lookup [OF session_invD(1) [OF inv] v(1)] by simp
  note R = voting_repo_open_InrD [OF run look]
  have "sp_proposal_id ` set ?ps = p_id ` set (proposals_repo_list_for_decision d (Some P_SUBMITTED) db)"
    using session_proposal_rows_map(1) [of env "1 + length ?us" "v_id v" ?props] by (metis list.set_map)
  then have props: "sp_proposal_id ` set ?ps \<subseteq> p_id ` {q \<in> set (proposals db). p_decision_id q = v_decision_id v}"
    using session_getD [OF v(1)] by (auto simp: proposals_repo_list_for_decision_def)
  show ?thesis
  proof (rule voting_effect.opened [where v = v and r = r and env = env and es = ?es and ps = ?ps and xs = xs and ys = ys])
    show "distinct (map ev_id (eligible_voters db @ ?es))" using R ids(1) by (intro distinct_append_fresh) auto
    show "distinct (map sp_id (session_proposals db @ ?ps))" using R ids(2) by (intro distinct_append_fresh) auto
    show "db' = db\<lparr>sessions := store v_id r (sessions db), eligible_voters := eligible_voters db @ ?es,
              session_proposals := session_proposals db @ ?ps, outbox := xs, published := ys\<rparr>"
      using R by (simp add: db')
  qed (use R look v(2) two props in auto)
qed

lemma voting_step_effect:
  assumes "voting_step db db'" and inv: "session_inv (sessions db)"
    and ids: "distinct (map ev_id (eligible_voters db))" "distinct (map sp_id (session_proposals db))"
  shows "voting_effect db db'"
  using assms(1)
proof cases
  case (create env q c payload me w d r)
  then obtain m dec where "decision_context (u_id me) w d db = Inr (m, dec)" "d_status dec = D_ACTIVE"
    and r: "v_decision_id r = d" "v_id r \<notin> v_id ` set (sessions db)" "ck_voting_sessions r" "v_status r = V_DRAFT"
      "v_eligible_voter_count r = 0" "uq_one_unfinished (sessions db @ [r])" "db' = db\<lparr>sessions := sessions db @ [r]\<rparr>"
    by (auto simp: voting_create_Inr)
  then show ?thesis by (intro voting_effect.created [where dec = dec and v = r]) (auto dest: decision_getD)
next
  case (openS env me w d i r)
  then show ?thesis using open_step [OF _ inv ids] by blast
next
  case (cast env me w d i choice b)
  then obtain v where v: "voting_repo_get_for_decision d i db = Some v" "v_status v = V_OPEN"
    "is_eligible_voter (v_id v) (u_id me) db" "is_session_proposal (v_id v) choice db"
    "b_voting_session_id b = v_id v" "b_voter_id b = u_id me" "b_proposal_id b = choice"
    "b_id b \<notin> b_id ` set (votes db)" "uq_votes (votes db @ [b])" "db' = db\<lparr>votes := votes db @ [b]\<rparr>"
    by (auto simp: voting_cast_Inr)
  then show ?thesis
    using session_get_lookup [OF session_invD(1) [OF inv] v(1)]
    by (intro voting_effect.ballot [where v = v and b = b]) (simp_all add: is_eligible_voter_iff is_session_proposal_iff)
next
  case (close env me w d i r)
  show ?thesis
  proof (rule voting_close_InrD [OF close session_invD(1) [OF inv]])
    fix m dec xs ys and v :: voting_session
    assume get: "voting_repo_get_for_decision d i db = Some v" and st: "v_status v = V_OPEN"
      and r: "r = write_session env v (v\<lparr>v_status := V_CLOSED, v_closed_at := Some (now env)\<rparr>) v"
      and ok: "ck_voting_sessions r" "uq_one_unfinished (store v_id r (sessions db))"
      and db': "db' = db\<lparr>sessions := store v_id r (sessions db), outbox := xs, published := ys\<rparr>"
    have "session_evolves v r" "v_id r = v_id v" "v_eligible_voter_count r = v_eligible_voter_count v" "v_status r = V_CLOSED"
      using st by (simp_all add: r session_evolves_def)
    then show "voting_effect db db'"
      using session_get_lookup [OF session_invD(1) [OF inv] get] st ok db'
      by (intro voting_effect.ended [where v = v and r = r and xs = xs and ys = ys]) simp_all
  qed
next
  case (cancel env me w d i r)
  from cancel session_invD(1) [OF inv] obtain v where v: "voting_repo_get_for_decision d i db = Some v"
    "v_status v \<in> {V_DRAFT, V_OPEN}"
    "r = write_session env v (v\<lparr>v_status := V_CANCELLED, v_cancelled_at := Some (now env)\<rparr>) v"
    "ck_voting_sessions r" "uq_one_unfinished (store v_id r (sessions db))"
    "db' = db\<lparr>sessions := store v_id r (sessions db)\<rparr>"
    by (elim voting_cancel_InrD) auto
  have "session_evolves v r" "v_id r = v_id v" "v_eligible_voter_count r = v_eligible_voter_count v" "v_status r = V_CANCELLED"
    using v(2) by (auto simp: v(3) session_evolves_def)
  then show ?thesis
    using session_get_lookup [OF session_invD(1) [OF inv] v(1)] v(4,5,6)
    by (intro voting_effect.ended [where v = v and r = r and xs = "outbox db" and ys = "published db"]) simp_all
qed

section \<open>The invariants\<close>

definition voting_inv :: "db \<Rightarrow> bool" where
  "voting_inv db \<longleftrightarrow> session_inv (sessions db) \<and>
     register_inv (sessions db) (eligible_voters db) (session_proposals db) \<and>
     ballot_inv (eligible_voters db) (session_proposals db) (votes db)"

lemma voting_invD:
  assumes "voting_inv db"
  shows "session_inv (sessions db)" and "register_inv (sessions db) (eligible_voters db) (session_proposals db)"
    and "ballot_inv (eligible_voters db) (session_proposals db) (votes db)"
  using assms by (simp_all add: voting_inv_def)

lemma register_invD:
  assumes "register_inv vs es ps"
  shows "distinct (map ev_id es)" and "uq_eligible_voters es" and "distinct (map sp_id ps)" and "uq_session_proposals ps"
    and "e \<in> set es \<Longrightarrow> ev_voting_session_id e \<in> v_id ` set vs"
    and "p \<in> set ps \<Longrightarrow> sp_voting_session_id p \<in> v_id ` set vs"
    and "v \<in> set vs \<Longrightarrow> session_registered es ps v"
  using assms by (simp_all add: register_inv_def)

lemma register_invI:
  assumes "distinct (map ev_id es)" and "uq_eligible_voters es" and "distinct (map sp_id ps)" and "uq_session_proposals ps"
    and "\<And>e. e \<in> set es \<Longrightarrow> ev_voting_session_id e \<in> v_id ` set vs"
    and "\<And>p. p \<in> set ps \<Longrightarrow> sp_voting_session_id p \<in> v_id ` set vs"
    and "\<And>v. v \<in> set vs \<Longrightarrow> session_registered es ps v"
  shows "register_inv vs es ps"
  using assms by (simp add: register_inv_def)

lemma eligible_of_nil: "(\<And>e. e \<in> set es \<Longrightarrow> ev_voting_session_id e \<noteq> i) \<Longrightarrow> eligible_of i es = []"
  by (simp add: filter_False)

lemma choices_of_nil: "(\<And>p. p \<in> set ps \<Longrightarrow> sp_voting_session_id p \<noteq> i) \<Longrightarrow> choices_of i ps = []"
  by (simp add: filter_False)

lemma register_inv_create:
  assumes inv: "register_inv vs es ps" and v: "v_id v \<notin> v_id ` set vs" "v_status v = V_DRAFT" "v_eligible_voter_count v = 0"
  shows "register_inv (vs @ [v]) es ps"
proof (rule register_invI)
  have "eligible_of (v_id v) es = []"
    by (rule eligible_of_nil) (use v(1) register_invD(5) [OF inv] in metis)
  moreover have "choices_of (v_id v) ps = []"
    by (rule choices_of_nil) (use v(1) register_invD(6) [OF inv] in metis)
  ultimately have "session_registered es ps v" using v by (simp add: session_registered_def)
  then show "session_registered es ps x" if "x \<in> set (vs @ [v])" for x
    using that register_invD(7) [OF inv, of x] by auto
qed (use register_invD(1-6) [OF inv] in auto)

lemma register_inv_store:
  assumes inv: "register_inv vs es ps" and cur: "lookup v_id i vs = Some cur" and d: "distinct (map v_id vs)"
    and v: "v_id v = v_id cur" "v_eligible_voter_count v = v_eligible_voter_count cur"
      "v_status v \<in> {V_CLOSED, V_CANCELLED}" "v_status v = V_CLOSED \<Longrightarrow> v_status cur = V_OPEN"
  shows "register_inv (store v_id v vs) es ps"
proof (rule register_invI)
  have "cur \<in> set vs" using cur by (auto dest: lookup_SomeD)
  then have "session_registered es ps v" using register_invD(7) [OF inv, of cur] v by (auto simp: session_registered_def)
  then show "session_registered es ps x" if "x \<in> set (store v_id v vs)" for x
    using mem_storeD [OF that] register_invD(7) [OF inv] by auto
qed (use register_invD(1-6) [OF inv] in auto)

lemma register_inv_open:
  assumes inv: "register_inv vs es ps" and cur: "lookup v_id i vs = Some cur" and d: "distinct (map v_id vs)"
    and draft: "v_status cur = V_DRAFT"
    and v: "v_id v = v_id cur" "v_eligible_voter_count v = int (length es')" "v_status v = V_OPEN"
    and es': "\<And>e. e \<in> set es' \<Longrightarrow> ev_voting_session_id e = v_id cur"
    and ps': "\<And>p. p \<in> set ps' \<Longrightarrow> sp_voting_session_id p = v_id cur" "2 \<le> length ps'"
    and ok: "distinct (map ev_id (es @ es'))" "distinct (map sp_id (ps @ ps'))"
      "uq_eligible_voters (es @ es')" "uq_session_proposals (ps @ ps')"
  shows "register_inv (store v_id v vs) (es @ es') (ps @ ps')"
proof (rule register_invI)
  have c: "cur \<in> set vs" using cur by (auto dest: lookup_SomeD)
  note reg = register_invD(7) [OF inv c, unfolded session_registered_def]
  have new: "filter (\<lambda>e. ev_voting_session_id e = v_id cur) es' = es'"
    "filter (\<lambda>p. sp_voting_session_id p = v_id cur) ps' = ps'"
    using es' ps'(1) by (simp_all add: filter_True)
  show "session_registered (es @ es') (ps @ ps') x" if x: "x \<in> set (store v_id v vs)" for x
  proof (cases "x = v")
    case True
    then show ?thesis using reg draft v ps'(2) by (simp add: session_registered_def new)
  next
    case False
    then have y: "x \<in> set vs" "v_id x \<noteq> v_id cur" using mem_storeD [OF x] v(1) by auto
    then have "eligible_of (v_id x) es' = []" "choices_of (v_id x) ps' = []"
      using es' ps'(1) by (auto intro!: filter_False)
    then show ?thesis using register_invD(7) [OF inv y(1)] by (simp add: session_registered_def)
  qed
  show "ev_voting_session_id e \<in> v_id ` set (store v_id v vs)" if "e \<in> set (es @ es')" for e
    using that es' c register_invD(5) [OF inv, of e] by auto
  show "sp_voting_session_id p \<in> v_id ` set (store v_id v vs)" if "p \<in> set (ps @ ps')" for p
    using that ps'(1) c register_invD(6) [OF inv, of p] by auto
qed (use ok in simp_all)

lemma session_inv_store:
  "session_inv vs \<Longrightarrow> ck_voting_sessions v \<Longrightarrow> uq_one_unfinished (store v_id v vs) \<Longrightarrow> session_inv (store v_id v vs)"
  by (auto simp: session_inv_def dest!: mem_storeD)

lemma ballot_inv_mono:
  "ballot_inv es ps bs \<Longrightarrow> ballot_inv (es @ es') (ps @ ps') bs"
  by (auto simp: ballot_inv_def)

lemma session_opened_fields [simp]:
  "v_id (session_opened env n v) = v_id v"
  "v_status (session_opened env n v) = V_OPEN"
  "v_eligible_voter_count (session_opened env n v) = int n"
  "v_decision_id (session_opened env n v) = v_decision_id v"
  by (simp_all add: session_opened_def)

lemma session_opened_evolves: "v_status v = V_DRAFT \<Longrightarrow> session_evolves v (session_opened env n v)"
  by (simp add: session_evolves_def session_opened_def)

lemma voting_effect_inv:
  assumes "voting_effect db db'" and inv: "voting_inv db"
  shows "voting_inv db'"
  using assms(1)
proof cases
  case (created dec v)
  then show ?thesis
    using inv by (auto simp: voting_inv_def session_inv_def intro!: register_inv_create)
next
  case (opened v r env es ps xs ys)
  note I = voting_invD [OF inv]
  have "register_inv (store v_id r (sessions db)) (eligible_voters db @ es) (session_proposals db @ ps)"
    using opened by (intro register_inv_open [OF I(2) opened(1) session_invD(1) [OF I(1)]]) auto
  then show ?thesis
    using opened session_inv_store [OF I(1)] ballot_inv_mono [OF I(3)] by (simp add: voting_inv_def)
next
  case (ballot v b)
  then show ?thesis using inv by (auto simp: voting_inv_def ballot_inv_def)
next
  case (ended v r xs ys)
  note I = voting_invD [OF inv]
  have "register_inv (store v_id r (sessions db)) (eligible_voters db) (session_proposals db)"
    using ended by (intro register_inv_store [OF I(2) ended(1) session_invD(1) [OF I(1)]]) auto
  then show ?thesis
    using ended session_inv_store [OF I(1)] I(3) by (simp add: voting_inv_def)
qed

lemma voting_step_inv:
  assumes "voting_step db db'" and inv: "voting_inv db"
  shows "voting_inv db'"
  using voting_effect_inv [OF voting_step_effect inv] assms voting_invD [OF inv] register_invD(1,3) by blast

lemma voting_effect_follow:
  assumes "voting_effect db db'" and inv: "session_inv (sessions db)"
  shows "follows v_id (\<lambda>_. False) session_evolves (sessions db) (sessions db')"
  using assms(1)
proof cases
  case (opened v r env es ps xs ys)
  then show ?thesis
    using session_history.store [OF session_invD(1) [OF inv] opened(1) session_opened_evolves [OF opened(2)]] by simp
next
  case (ended v r xs ys)
  then show ?thesis using session_history.store [OF session_invD(1) [OF inv] ended(1,2)] by simp
qed (simp_all add: session_history.append session_history.refl session_invD(1) [OF inv])

end
