(* ===== verification/Voting_Results.thy ===== *)
theory Voting_Results imports Voting_Register begin

text \<open>
  What \<open>get_result\<close> computes, against a specification that only counts ballots: the quorum is the
  exact ceiling in spite of the floating-point division, the tallies add up to the ballots cast,
  a winner is the only proposal with the most ballots, and voter identities play no role.
\<close>

section \<open>The quorum\<close>

text \<open>\<open>eligible_voter_count\<close> is a PostgreSQL \<open>INTEGER\<close>, below \<open>2 ^ 31\<close>.\<close>

lemma required_votes_exact:
  assumes "0 \<le> e" and "e < 2 ^ 31" and "1 \<le> q" and "q \<le> 100"
  shows "required_votes e q = (e * q + 99) div 100"
proof -
  have nn: "0 \<le> e * q" using assms by simp
  have "e * q \<le> e * 100" using assms by (intro mult_left_mono) auto
  also have "\<dots> < 2 ^ 46" using assms(2) by simp
  finally have "nat (e * q) < 2 ^ 46" using nn by (simp add: nat_less_iff)
  then have "required_votes e q = int ((nat (e * q) + 99) div 100)"
    unfolding required_votes_def by (rule py_ceil_hundredth)
  also have "\<dots> = (e * q + 99) div 100" using nn by (simp add: zdiv_int)
  finally show ?thesis .
qed

lemma required_votes_ceiling:
  assumes "0 \<le> e" and "e < 2 ^ 31" and "1 \<le> q" and "q \<le> 100"
  shows "e * q \<le> 100 * required_votes e q" and "100 * required_votes e q < e * q + 100"
    and "0 \<le> required_votes e q" and "required_votes e q \<le> e"
    and "0 < e \<Longrightarrow> 0 < required_votes e q"
proof -
  have eq: "required_votes e q = (e * q + 99) div 100" by (rule required_votes_exact [OF assms])
  have x: "e * q \<le> e * 100" "0 \<le> e * q" "0 < e \<Longrightarrow> 0 < e * q" using assms by (simp_all add: mult_left_mono)
  have "e * q + 99 = 100 * required_votes e q + (e * q + 99) mod 100" unfolding eq by simp
  moreover have "0 \<le> (e * q + 99) mod 100" "(e * q + 99) mod 100 < 100" by simp_all
  ultimately show "e * q \<le> 100 * required_votes e q" "100 * required_votes e q < e * q + 100"
    "0 \<le> required_votes e q" "required_votes e q \<le> e" "0 < e \<Longrightarrow> 0 < required_votes e q"
    using x by linarith+
qed

section \<open>Counting ballots\<close>

text \<open>The specification of a tally: the ballots of a session for one proposal.\<close>

definition ballots_for :: "uuid \<Rightarrow> uuid \<Rightarrow> vote list \<Rightarrow> nat" where
  "ballots_for sid p bs = length (filter (\<lambda>b. b_voting_session_id b = sid \<and> b_proposal_id b = p) bs)"

lemma distinct_choices: "uq_session_proposals ps \<Longrightarrow> distinct (choices_of i ps)"
  unfolding uq_session_proposals_def by (rule distinct_pair_filter)

lemma distinct_eligible: "uq_eligible_voters es \<Longrightarrow> distinct (eligible_of i es)"
  unfolding uq_eligible_voters_def by (rule distinct_pair_filter)

lemma distinct_ballot_voters: "uq_votes bs \<Longrightarrow> distinct (map b_voter_id (ballots_of i bs))"
  unfolding uq_votes_def by (rule distinct_pair_filter)

lemma length_joined:
  "length [b. p \<leftarrow> ps, b \<leftarrow> bs, f p = i \<and> g b = sid \<and> h b = i] =
     length (filter (\<lambda>p. f p = i) ps) * length (filter (\<lambda>b. g b = sid \<and> h b = i) bs)"
proof (induction ps)
  case (Cons p ps)
  have "length (concat (map (\<lambda>b. if f p = i \<and> g b = sid \<and> h b = i then [b] else []) bs)) =
        (if f p = i then length (filter (\<lambda>b. g b = sid \<and> h b = i) bs) else 0)"
    by (induction bs) auto
  with Cons show ?case by simp
qed simp

lemma count_distinct_map:
  "distinct (map f xs) \<Longrightarrow> i \<in> f ` set xs \<Longrightarrow> length (filter (\<lambda>x. f x = i) xs) = 1"
  by (induction xs) (auto simp: filter_empty_conv rev_image_eqI)

lemma list_tallies_eq:
  assumes "uq_session_proposals (session_proposals db)"
  shows "list_tallies sid db =
     map (\<lambda>i. (i, ballots_for sid i (votes db))) (sort (choices_of sid (session_proposals db)))"
proof -
  let ?mine = "filter (\<lambda>p. sp_voting_session_id p = sid) (session_proposals db)"
  have d: "distinct (map sp_proposal_id ?mine)" by (rule distinct_choices [OF assms])
  have "length [b. p \<leftarrow> ?mine, b \<leftarrow> votes db, sp_proposal_id p = i \<and> b_voting_session_id b = sid \<and> b_proposal_id b = i]
        = ballots_for sid i (votes db)" if "i \<in> sp_proposal_id ` set ?mine" for i
    unfolding length_joined ballots_for_def count_distinct_map [OF d that] by simp
  then show ?thesis by (simp add: list_tallies_def Let_def distinct_remdups_id [OF d])
qed

lemma sum_ballots:
  "distinct is \<Longrightarrow> (\<And>b. b \<in> set bs \<Longrightarrow> b_voting_session_id b = sid \<Longrightarrow> b_proposal_id b \<in> set is) \<Longrightarrow>
     sum_list (map (\<lambda>i. ballots_for sid i bs) is) = length (ballots_of sid bs)"
proof (induction bs)
  case (Cons b bs)
  have ih: "sum_list (map (\<lambda>i. ballots_for sid i bs) is) = length (ballots_of sid bs)"
    using Cons.IH Cons.prems by simp
  have split: "ballots_for sid i (b # bs) = (if b_voting_session_id b = sid \<and> b_proposal_id b = i then 1 else 0) + ballots_for sid i bs" for i
    by (simp add: ballots_for_def)
  have one: "sum_list (map (\<lambda>i. if p = i then 1 else 0) is) = (1 :: nat)" if "p \<in> set is" for p
    using Cons.prems(1) that by (induction "is") auto
  have zero: "sum_list (map (\<lambda>i. 0) is) = (0 :: nat)" by (induction "is") auto
  show ?case
    unfolding split sum_list_addf ih
    using one [of "b_proposal_id b"] zero Cons.prems(2) [of b] by (cases "b_voting_session_id b = sid") auto
qed (simp add: ballots_for_def)

lemma tallies_sum:
  assumes "voting_inv db"
  shows "sum_list (map t_votes (vr_tallies (voting_result_of v db))) = vr_votes_cast (voting_result_of v db)"
proof -
  note I = voting_invD [OF assms]
  have uq: "uq_session_proposals (session_proposals db)" using I(2) by (simp add: register_inv_def)
  let ?is = "sort (choices_of (v_id v) (session_proposals db))"
  have "map t_votes (vr_tallies (voting_result_of v db)) = map (\<lambda>i. ballots_for (v_id v) i (votes db)) ?is"
    by (simp add: voting_result_of_def Let_def list_tallies_eq [OF uq] comp_def)
  moreover have "sum_list (map (\<lambda>i. ballots_for (v_id v) i (votes db)) ?is) = length (ballots_of (v_id v) (votes db))"
    using distinct_choices [OF uq] I(3) by (intro sum_ballots) (auto simp: ballot_inv_def)
  ultimately show ?thesis by (simp add: voting_result_of_def Let_def count_votes_def)
qed

text \<open>No more ballots than registered voters.\<close>

lemma votes_cast_le:
  assumes inv: "voting_inv db" and v: "v \<in> set (sessions db)"
  shows "int (count_votes (v_id v) db) \<le> v_eligible_voter_count v"
proof -
  note I = voting_invD [OF inv]
  have "set (map b_voter_id (ballots_of (v_id v) (votes db))) \<subseteq> set (eligible_of (v_id v) (eligible_voters db))"
    using I(3) by (auto simp: ballot_inv_def)
  moreover have "distinct (map b_voter_id (ballots_of (v_id v) (votes db)))"
    using I(3) by (intro distinct_ballot_voters) (simp add: ballot_inv_def)
  ultimately have "length (ballots_of (v_id v) (votes db)) \<le> length (eligible_of (v_id v) (eligible_voters db))"
    by (metis card_length card_mono distinct_card finite_set le_trans length_map)
  then show ?thesis
    using register_invD(7) [OF I(2) v] by (simp add: session_registered_def count_votes_def)
qed

section \<open>The winner\<close>

lemma foldr_max_mem: "xs \<noteq> [] \<Longrightarrow> foldr max xs 0 \<in> set (xs :: nat list)"
proof (induction xs)
  case (Cons x xs)
  show ?case by (cases "xs = []") (use Cons in \<open>auto simp: max_def\<close>)
qed simp

lemma foldr_max_upper: "x \<in> set xs \<Longrightarrow> x \<le> foldr max xs (0 :: nat)"
  by (induction xs) auto

lemma leaders_iff:
  "p \<in> set (leaders ts) \<longleftrightarrow> (\<exists>t \<in> set ts. t_proposal_id t = p \<and> (\<forall>u \<in> set ts. t_votes u \<le> t_votes t))"
proof -
  have "t_votes t = highest_votes ts \<longleftrightarrow> (\<forall>u \<in> set ts. t_votes u \<le> t_votes t)" if "t \<in> set ts" for t
  proof
    assume "t_votes t = highest_votes ts"
    then show "\<forall>u \<in> set ts. t_votes u \<le> t_votes t" by (auto simp: highest_votes_def intro: foldr_max_upper)
  next
    assume le: "\<forall>u \<in> set ts. t_votes u \<le> t_votes t"
    have "highest_votes ts \<in> set (map t_votes ts)"
      unfolding highest_votes_def using that by (intro foldr_max_mem) auto
    then have "highest_votes ts \<le> t_votes t" using le by auto
    moreover have "t_votes t \<le> highest_votes ts"
      using that by (auto simp: highest_votes_def intro: foldr_max_upper)
    ultimately show "t_votes t = highest_votes ts" by simp
  qed
  then show ?thesis by (auto simp: leaders_def)
qed

lemma distinct_leaders: "distinct (map t_proposal_id ts) \<Longrightarrow> distinct (leaders ts)"
  by (simp add: leaders_def distinct_map_filter)

lemma leaders_nonempty: "ts \<noteq> [] \<Longrightarrow> leaders ts \<noteq> []"
proof -
  assume "ts \<noteq> []"
  then have "highest_votes ts \<in> set (map t_votes ts)" unfolding highest_votes_def by (intro foldr_max_mem) auto
  then show ?thesis by (auto simp: leaders_def filter_empty_conv)
qed

text \<open>The specification of the outcome: the only choice with the most ballots.\<close>

definition plurality_winner :: "uuid \<Rightarrow> db \<Rightarrow> uuid \<Rightarrow> bool" where
  "plurality_winner sid db p \<longleftrightarrow>
     p \<in> set (choices_of sid (session_proposals db)) \<and>
     (\<forall>q \<in> set (choices_of sid (session_proposals db)). q \<noteq> p \<longrightarrow>
        ballots_for sid q (votes db) < ballots_for sid p (votes db))"

lemma result_tallies:
  assumes "uq_session_proposals (session_proposals db)"
  shows "map t_proposal_id (vr_tallies (voting_result_of v db)) = sort (choices_of (v_id v) (session_proposals db))"
    and "t \<in> set (vr_tallies (voting_result_of v db)) \<Longrightarrow>
           t_votes t = ballots_for (v_id v) (t_proposal_id t) (votes db)"
  by (auto simp: voting_result_of_def Let_def list_tallies_eq [OF assms] comp_def map_idI)

lemma leaders_spec:
  assumes uq: "uq_session_proposals (session_proposals db)"
  shows "p \<in> set (leaders (vr_tallies (voting_result_of v db))) \<longleftrightarrow>
     p \<in> set (choices_of (v_id v) (session_proposals db)) \<and>
     (\<forall>q \<in> set (choices_of (v_id v) (session_proposals db)).
        ballots_for (v_id v) q (votes db) \<le> ballots_for (v_id v) p (votes db))"
proof -
  let ?ts = "vr_tallies (voting_result_of v db)"
  note T = result_tallies [OF uq, where v = v]
  have ids: "set (choices_of (v_id v) (session_proposals db)) = t_proposal_id ` set ?ts"
    using T(1) by (metis list.set_map set_sort)
  show ?thesis
    unfolding leaders_iff ids using T(2) by (auto; metis)
qed

lemma winner_iff:
  assumes inv: "voting_inv db" and v: "v \<in> set (sessions db)" and closed: "v_status v = V_CLOSED"
  shows "vr_winner_proposal_id (voting_result_of v db) = Some p \<longleftrightarrow>
     vr_quorum_met (voting_result_of v db) \<and> plurality_winner (v_id v) db p"
proof -
  note I = voting_invD [OF inv]
  have uq: "uq_session_proposals (session_proposals db)" using I(2) by (simp add: register_inv_def)
  let ?r = "voting_result_of v db" and ?c = "choices_of (v_id v) (session_proposals db)"
  let ?ls = "leaders (vr_tallies ?r)"
  note T = result_tallies [OF uq, where v = v] and L = leaders_spec [OF uq, of _ v]
  have "2 \<le> length ?c" using register_invD(7) [OF I(2) v] closed by (simp add: session_registered_def)
  then have ne: "vr_tallies ?r \<noteq> []" using T(1) by (metis length_map length_sort list.size(3) not_numeral_le_zero)
  have dl: "distinct ?ls" using distinct_choices [OF uq] T(1) by (intro distinct_leaders) (simp add: distinct_sort)
  have win: "vr_winner_proposal_id ?r = (if vr_quorum_met ?r \<and> \<not> 1 < length ?ls then Some (hd ?ls) else None)"
    using ne by (auto simp: voting_result_of_def Let_def)
  have "(\<not> 1 < length ?ls \<and> hd ?ls = p) \<longleftrightarrow> ?ls = [p]"
    using leaders_nonempty [OF ne] by (cases ?ls) auto
  also have "\<dots> \<longleftrightarrow> set ?ls = {p}"
  proof
    assume s: "set ?ls = {p}"
    then have "length ?ls = 1" using distinct_card [OF dl] by simp
    with s show "?ls = [p]" by (cases ?ls) auto
  qed simp
  also have "\<dots> \<longleftrightarrow> plurality_winner (v_id v) db p"
  proof
    assume s: "set ?ls = {p}"
    have p: "p \<in> set ?c" "\<forall>q \<in> set ?c. ballots_for (v_id v) q (votes db) \<le> ballots_for (v_id v) p (votes db)"
      using L [of p] s by auto
    have "ballots_for (v_id v) q (votes db) < ballots_for (v_id v) p (votes db)" if "q \<in> set ?c" "q \<noteq> p" for q
    proof (rule ccontr)
      assume "\<not> ballots_for (v_id v) q (votes db) < ballots_for (v_id v) p (votes db)"
      then have "q \<in> set ?ls" using L [of q] that(1) p by force
      with s that(2) show False by simp
    qed
    with p(1) show "plurality_winner (v_id v) db p" by (simp add: plurality_winner_def)
  next
    assume w: "plurality_winner (v_id v) db p"
    then have "p \<in> set ?ls" using L [of p] by (auto simp: plurality_winner_def intro: less_imp_le)
    moreover have "q = p" if "q \<in> set ?ls" for q
      using L [of q] that w by (auto simp: plurality_winner_def) (meson leD)
    ultimately show "set ?ls = {p}" by blast
  qed
  finally show ?thesis unfolding win by (auto split: if_splits)
qed

text \<open>A tie is reported exactly when two choices share the lead, and then nobody wins.\<close>

lemma tie_iff:
  assumes inv: "voting_inv db" and v: "v \<in> set (sessions db)" and closed: "v_status v = V_CLOSED"
    and quorum: "vr_quorum_met (voting_result_of v db)"
  shows "vr_is_tie (voting_result_of v db) \<longleftrightarrow> (\<nexists>p. plurality_winner (v_id v) db p)"
proof -
  note I = voting_invD [OF inv]
  have uq: "uq_session_proposals (session_proposals db)" using I(2) by (simp add: register_inv_def)
  have "2 \<le> length (choices_of (v_id v) (session_proposals db))"
    using register_invD(7) [OF I(2) v] closed by (simp add: session_registered_def)
  then have ne: "vr_tallies (voting_result_of v db) \<noteq> []"
    using result_tallies(1) [OF uq, where v = v] by (metis length_map length_sort list.size(3) not_numeral_le_zero)
  have "vr_is_tie (voting_result_of v db) \<longleftrightarrow> vr_winner_proposal_id (voting_result_of v db) = None"
    using ne quorum by (auto simp: voting_result_of_def Let_def)
  also have "\<dots> \<longleftrightarrow> (\<nexists>p. vr_winner_proposal_id (voting_result_of v db) = Some p)" by auto
  finally show ?thesis using winner_iff [OF inv v closed] quorum by simp
qed

section \<open>Ballot secrecy of the result\<close>

text \<open>Renaming the voters changes nothing in the result.\<close>

lemma ballots_rename:
  assumes "\<And>b. b_voting_session_id (f b) = b_voting_session_id b \<and> b_proposal_id (f b) = b_proposal_id b"
  shows "length (filter (\<lambda>b. P (b_voting_session_id b) (b_proposal_id b)) (map f bs)) =
         length (filter (\<lambda>b. P (b_voting_session_id b) (b_proposal_id b)) bs)"
  using assms by (induction bs) auto

lemma result_rename_voters:
  assumes f: "\<And>b. b_voting_session_id (f b) = b_voting_session_id b \<and> b_proposal_id (f b) = b_proposal_id b"
    and uq: "uq_session_proposals (session_proposals db)"
  shows "voting_result_of v (db\<lparr>votes := map f (votes db)\<rparr>) = voting_result_of v db"
proof -
  have c: "count_votes i (db\<lparr>votes := map f (votes db)\<rparr>) = count_votes i db" for i
    using ballots_rename [OF f, of "\<lambda>s p. s = i" "votes db"] by (simp add: count_votes_def)
  have b: "ballots_for i p (map f (votes db)) = ballots_for i p (votes db)" for i p
    using ballots_rename [OF f, of "\<lambda>s q. s = i \<and> q = p" "votes db"] by (simp add: ballots_for_def)
  have "uq_session_proposals (session_proposals (db\<lparr>votes := map f (votes db)\<rparr>))" using uq by simp
  note t = list_tallies_eq [OF this] list_tallies_eq [OF uq]
  show ?thesis unfolding voting_result_of_def t c by (simp add: b)
qed

text \<open>The result of a session reads only its own register and ballots.\<close>

lemma result_cong:
  assumes "ballots_of (v_id v) (votes db') = ballots_of (v_id v) (votes db)"
    and "filter (\<lambda>p. sp_voting_session_id p = v_id v) (session_proposals db') =
         filter (\<lambda>p. sp_voting_session_id p = v_id v) (session_proposals db)"
    and uq: "uq_session_proposals (session_proposals db)" "uq_session_proposals (session_proposals db')"
  shows "voting_result_of v db' = voting_result_of v db"
proof -
  have "ballots_for (v_id v) p bs = length (filter (\<lambda>b. b_proposal_id b = p) (ballots_of (v_id v) bs))" for p bs
    by (simp add: ballots_for_def conj_commute)
  then have b: "ballots_for (v_id v) p (votes db') = ballots_for (v_id v) p (votes db)" for p
    by (simp only: assms(1))
  have "list_tallies (v_id v) db' = list_tallies (v_id v) db"
    by (simp add: list_tallies_eq uq assms(2) b)
  moreover have "count_votes (v_id v) db' = count_votes (v_id v) db" by (simp add: count_votes_def assms(1))
  ultimately show ?thesis by (simp add: voting_result_of_def)
qed

end
