(* ===== verification/Locks.thy ===== *)
theory Locks imports Voting_Results begin

text \<open>
  Decision locks: \<open>app/repositories/decision_lock.py\<close> and \<open>app/services/decision_lock.py\<close>. A lock
  freezes the outcome of a closed voting session in a JSON snapshot, with the digest of its
  canonical text; the decision row becomes \<open>locked\<close> in the same transaction.
\<close>

section \<open>The snapshot\<close>

text \<open>The \<open>value\<close> of the string enums that the snapshot holds.\<close>

fun decision_category_value :: "decision_category \<Rightarrow> string" where
  "decision_category_value TECHNOLOGY = ''technology''"
| "decision_category_value ARCHITECTURE = ''architecture''"
| "decision_category_value DELIVERY = ''delivery''"
| "decision_category_value TEAM_PROCESS = ''team_process''"
| "decision_category_value OTHER = ''other''"

fun proposal_status_value :: "proposal_status \<Rightarrow> string" where
  "proposal_status_value P_DRAFT = ''draft''"
| "proposal_status_value P_SUBMITTED = ''submitted''"
| "proposal_status_value P_WITHDRAWN = ''withdrawn''"

fun objection_severity_value :: "objection_severity \<Rightarrow> string" where
  "objection_severity_value INFORMATIONAL = ''informational''"
| "objection_severity_value MAJOR = ''major''"
| "objection_severity_value BLOCKING = ''blocking''"

fun objection_status_value :: "objection_status \<Rightarrow> string" where
  "objection_status_value O_OPEN = ''open''"
| "objection_status_value O_RESOLVED = ''resolved''"
| "objection_status_value O_DISMISSED = ''dismissed''"

definition datetime_value :: "time option \<Rightarrow> json" where
  "datetime_value value = jopt (\<lambda>t. JStr (isoformat t)) value"

definition proposal_snapshot :: "proposal \<Rightarrow> json" where
  "proposal_snapshot p = JObj
     [(''id'', JStr (uuid_str (p_id p))),
      (''decision_id'', JStr (uuid_str (p_decision_id p))),
      (''created_by_id'', JStr (uuid_str (p_created_by_id p))),
      (''title'', JStr (p_title p)),
      (''summary'', jopt JStr (p_summary p)),
      (''content'', jopt JStr (p_content p)),
      (''status'', JStr (proposal_status_value (p_status p))),
      (''submitted_at'', datetime_value (p_submitted_at p))]"

definition objection_snapshot :: "objection \<Rightarrow> json" where
  "objection_snapshot x = JObj
     [(''id'', JStr (uuid_str (o_id x))),
      (''proposal_id'', JStr (uuid_str (o_proposal_id x))),
      (''created_by_id'', JStr (uuid_str (o_created_by_id x))),
      (''severity'', JStr (objection_severity_value (o_severity x))),
      (''status'', JStr (objection_status_value (o_status x))),
      (''title'', JStr (o_title x)),
      (''description'', JStr (o_description x)),
      (''resolution_note'', jopt JStr (o_resolution_note x)),
      (''resolved_by_id'', jopt (\<lambda>u. JStr (uuid_str u)) (o_resolved_by_id x)),
      (''resolved_at'', datetime_value (o_resolved_at x))]"

text \<open>\<open>result.model_dump(mode="json")\<close>\<close>

definition tally_dump :: "tally \<Rightarrow> json" where
  "tally_dump t = JObj
     [(''proposal_id'', JStr (uuid_str (t_proposal_id t))),
      (''votes'', JInt (int (t_votes t))),
      (''percentage'', JHundredths (t_percentage t))]"

definition voting_result_dump :: "voting_result \<Rightarrow> json" where
  "voting_result_dump r = JObj
     [(''voting_session_id'', JStr (uuid_str (vr_voting_session_id r))),
      (''eligible_voter_count'', JInt (vr_eligible_voter_count r)),
      (''votes_cast'', JInt (int (vr_votes_cast r))),
      (''quorum_percentage'', JInt (vr_quorum_percentage r)),
      (''required_votes'', JInt (vr_required_votes r)),
      (''quorum_met'', JBool (vr_quorum_met r)),
      (''result_valid'', JBool (vr_result_valid r)),
      (''winner_proposal_id'', jopt (\<lambda>p. JStr (uuid_str p)) (vr_winner_proposal_id r)),
      (''is_tie'', JBool (vr_is_tie r)),
      (''tallies'', JList (map tally_dump (vr_tallies r)))]"

definition objections_snapshot :: "uuid \<Rightarrow> db \<Rightarrow> json" where
  "objections_snapshot p db =
     JList (map objection_snapshot (objections_repo_list_for_proposal p None None db))"

definition alternative_snapshot :: "proposal \<Rightarrow> tally \<Rightarrow> db \<Rightarrow> json" where
  "alternative_snapshot p t db = JObj
     [(''proposal'', proposal_snapshot p),
      (''votes'', JInt (int (t_votes t))),
      (''percentage'', JHundredths (t_percentage t)),
      (''objections'', objections_snapshot (p_id p) db)]"

text \<open>The loop over the tallies; the winner is skipped, a proposal that is gone ends the request.\<close>

fun alternatives :: "uuid \<Rightarrow> uuid \<Rightarrow> tally list \<Rightarrow> db \<Rightarrow> error + json list" where
  "alternatives d win [] db = Inr []"
| "alternatives d win (t # ts) db =
     (if t_proposal_id t = win then alternatives d win ts db
      else bindE (require (proposals_repo_get_for_decision d (t_proposal_id t) db) ProposalNotFoundError) (\<lambda>p.
           bindE (alternatives d win ts db) (\<lambda>js.
           Inr (alternative_snapshot p t db # js))))"

definition build_snapshot :: "decision \<Rightarrow> proposal \<Rightarrow> voting_result \<Rightarrow> db \<Rightarrow> error + json" where
  "build_snapshot d win result db =
     bindE (alternatives (d_id d) (p_id win) (vr_tallies result) db) (\<lambda>alts.
     Inr (JObj
       [(''decision'', JObj
          [(''id'', JStr (uuid_str (d_id d))),
           (''workspace_id'', JStr (uuid_str (d_workspace_id d))),
           (''created_by_id'', JStr (uuid_str (d_created_by_id d))),
           (''title'', JStr (d_title d)),
           (''summary'', jopt JStr (d_summary d)),
           (''category'', JStr (decision_category_value (d_category d))),
           (''due_at'', datetime_value (d_due_at d)),
           (''review_at'', datetime_value (d_review_at d))]),
        (''approved_proposal'', proposal_snapshot win),
        (''voting_result'', voting_result_dump result),
        (''dissent'', JObj
          [(''objections_to_approved_proposal'', objections_snapshot (p_id win) db),
           (''alternative_proposals'', JList alts)])]))"

definition hash_snapshot :: "env \<Rightarrow> json \<Rightarrow> string" where
  "hash_snapshot env snapshot = sha256_hex env (dumps snapshot)"

section \<open>The repository\<close>

definition locks_repo_get_for_decision :: "uuid \<Rightarrow> db \<Rightarrow> decision_lock option" where
  "locks_repo_get_for_decision d db = first_where (\<lambda>l. l_decision_id l = d) (locks db)"

definition locks_repo_create ::
  "env \<Rightarrow> decision_lock \<Rightarrow> decision \<Rightarrow> time \<Rightarrow> db \<Rightarrow> error + decision_lock \<times> db" where
  "locks_repo_create env l d locked_at db =
     on_integrity_error DecisionLockConflictError
       (bindE (save_decision env d
                 (d\<lparr>d_status := D_LOCKED, d_closed_at := Some locked_at, d_locked_at := Some locked_at\<rparr>) db)
          (\<lambda>(_, db1).
        bindE (flush_insert l_id (ck_decision_locks (locks db1)) l (locks db1)) (\<lambda>ls.
        Inr (l, db1\<lparr>locks := ls\<rparr>))))"

section \<open>The service\<close>

definition decision_locked_payload :: "env \<Rightarrow> user \<Rightarrow> uuid \<Rightarrow> decision \<Rightarrow> uuid \<Rightarrow> proposal \<Rightarrow> json" where
  "decision_locked_payload env me w d lock_id win = JObj
     [(''workspace_id'', JStr (uuid_str w)),
      (''decision_id'', JStr (uuid_str (d_id d))),
      (''decision_title'', JStr (d_title d)),
      (''decision_lock_id'', JStr (uuid_str lock_id)),
      (''winning_proposal_id'', JStr (uuid_str (p_id win))),
      (''winning_proposal_title'', JStr (p_title win)),
      (''actor_id'', JStr (uuid_str (u_id me))),
      (''actor_name'', JStr (u_display_name me)),
      (''locked_at'', JStr (isoformat (now env)))]"

definition lock_create ::
  "env \<Rightarrow> user \<Rightarrow> uuid \<Rightarrow> uuid \<Rightarrow> uuid \<Rightarrow> db \<Rightarrow> error + decision_lock \<times> db" where
  "lock_create env me w d session_id db =
     bindE (decision_context (u_id me) w d db) (\<lambda>(m, decision).
     bindE (ensure (can_lock_decisions (m_role m)) DecisionLockAccessDeniedError) (\<lambda>_.
     bindE (ensure (d_status decision = D_ACTIVE) DecisionImmutableError) (\<lambda>_.
     bindE (ensure (locks_repo_get_for_decision d db = None) DecisionLockConflictError) (\<lambda>_.
     bindE (ensure (\<not> has_open_blocking_for_decision d db) VotingBlockedByObjectionsError) (\<lambda>_.
     bindE (voting_get_result me w d session_id db) (\<lambda>result.
     bindE (ensure (vr_result_valid result \<and> \<not> vr_is_tie result) DecisionLockInvalidResultError) (\<lambda>_.
     bindE (require (vr_winner_proposal_id result) DecisionLockInvalidResultError) (\<lambda>winner_id.
     bindE (require (proposals_repo_get_for_decision d winner_id db) ProposalNotFoundError) (\<lambda>win.
     bindE (ensure (p_status win = P_SUBMITTED) DecisionLockInvalidResultError) (\<lambda>_.
     bindE (build_snapshot decision win result db) (\<lambda>snapshot.
     let l = \<lparr>l_id = fresh env 0, l_decision_id = d_id decision, l_voting_session_id = session_id,
              l_winning_proposal_id = p_id win, l_locked_by_id = u_id me, l_snapshot_version = 1,
              l_snapshot = snapshot, l_document_hash = hash_snapshot env snapshot,
              l_locked_at = now env\<rparr> in
     on_integrity_error DecisionLockConflictError
       (with_event (emitter env)
          (emitter_stage env (fresh env 1) w DECISION_LOCKED (l_id l)
             (decision_locked_payload env me w decision (l_id l) win))
          (locks_repo_create env l decision (now env)) db))))))))))))"

definition lock_get :: "user \<Rightarrow> uuid \<Rightarrow> uuid \<Rightarrow> db \<Rightarrow> error + decision_lock" where
  "lock_get me w d db =
     bindE (decision_context (u_id me) w d db) (\<lambda>_.
     require (locks_repo_get_for_decision d db) DecisionLockNotFoundError)"

record lock_verification =
  lv_decision_id :: uuid
  lv_document_hash :: string
  lv_computed_hash :: string
  lv_valid :: bool

definition lock_verify :: "env \<Rightarrow> user \<Rightarrow> uuid \<Rightarrow> uuid \<Rightarrow> db \<Rightarrow> error + lock_verification" where
  "lock_verify env me w d db =
     bindE (lock_get me w d db) (\<lambda>l.
     let computed = hash_snapshot env (l_snapshot l) in
     Inr \<lparr>lv_decision_id = d, lv_document_hash = l_document_hash l, lv_computed_hash = computed,
          lv_valid = (computed = l_document_hash l)\<rparr>)"

section \<open>What the operations do\<close>

text \<open>The decision row after the lock.\<close>

definition decision_locked :: "env \<Rightarrow> decision \<Rightarrow> decision" where
  "decision_locked env d = write_decision env d
     (d\<lparr>d_status := D_LOCKED, d_closed_at := Some (now env), d_locked_at := Some (now env)\<rparr>) d"

lemma decision_locked_fields [simp]:
  "d_id (decision_locked env d) = d_id d"
  "d_workspace_id (decision_locked env d) = d_workspace_id d"
  "d_created_by_id (decision_locked env d) = d_created_by_id d"
  "d_created_at (decision_locked env d) = d_created_at d"
  "d_title (decision_locked env d) = d_title d"
  "d_summary (decision_locked env d) = d_summary d"
  "d_category (decision_locked env d) = d_category d"
  "d_due_at (decision_locked env d) = d_due_at d"
  "d_review_at (decision_locked env d) = d_review_at d"
  "d_archived_at (decision_locked env d) = d_archived_at d"
  "d_status (decision_locked env d) = D_LOCKED"
  "d_closed_at (decision_locked env d) = Some (now env)"
  "d_locked_at (decision_locked env d) = Some (now env)"
  by (simp_all add: decision_locked_def)

lemma decision_locked_ok:
  assumes "decision_row_ok d" and "d_status d = D_ACTIVE"
  shows "decision_row_ok (decision_locked env d)" and "decision_evolves d (decision_locked env d)"
  using assms
  by (auto simp: decision_row_ok_def ck_decisions_locked_state_def decision_evolves_def decision_final_def)

lemma locks_repo_get_SomeD:
  "locks_repo_get_for_decision d db = Some l \<Longrightarrow> l \<in> set (locks db) \<and> l_decision_id l = d"
  unfolding locks_repo_get_for_decision_def by (rule first_where_SomeD)

lemma locks_repo_get_None_iff:
  "locks_repo_get_for_decision d db = None \<longleftrightarrow> d \<notin> l_decision_id ` set (locks db)"
  by (auto simp: locks_repo_get_for_decision_def first_where_None_iff)

lemma locks_repo_create_InrD:
  assumes "locks_repo_create env l d (now env) db = Inr (r, db')" and "lookup d_id (d_id d) (decisions db) = Some d"
  shows "r = l \<and> l_id l \<notin> l_id ` set (locks db) \<and> ck_decision_locks (locks db) l \<and>
    db' = db\<lparr>decisions := store d_id (decision_locked env d) (decisions db), locks := locks db @ [l]\<rparr>"
  using assms by (auto simp: locks_repo_create_def save_decision_Inr decision_locked_def)

lemma locks_repo_create_frame:
  "locks_repo_create env l d t db = Inr (r, db') \<Longrightarrow> outbox db' = outbox db \<and> published db' = published db"
  by (auto simp: locks_repo_create_def dest!: save_decision_frame)

lemma voting_get_result_Inr [simp]:
  "voting_get_result me w d i db = Inr result \<longleftrightarrow>
     (\<exists>m dec v. decision_context (u_id me) w d db = Inr (m, dec) \<and> voting_repo_get_for_decision d i db = Some v \<and>
        v_status v = V_CLOSED \<and> result = voting_result_of v db)"
  by (auto simp: voting_get_result_def)

text \<open>The row a successful request inserts.\<close>

definition lock_row :: "env \<Rightarrow> user \<Rightarrow> decision \<Rightarrow> uuid \<Rightarrow> proposal \<Rightarrow> json \<Rightarrow> decision_lock" where
  "lock_row env me d session_id win snapshot =
     \<lparr>l_id = fresh env 0, l_decision_id = d_id d, l_voting_session_id = session_id,
      l_winning_proposal_id = p_id win, l_locked_by_id = u_id me, l_snapshot_version = 1,
      l_snapshot = snapshot, l_document_hash = hash_snapshot env snapshot, l_locked_at = now env\<rparr>"

text \<open>What must hold for a lock: \<open>lockable\<close> is the conjunction of the guards.\<close>

definition lockable :: "uuid \<Rightarrow> voting_session \<Rightarrow> proposal \<Rightarrow> json \<Rightarrow> decision \<Rightarrow> db \<Rightarrow> bool" where
  "lockable session_id v win snapshot dec db \<longleftrightarrow>
     d_status dec = D_ACTIVE \<and> d_id dec \<notin> l_decision_id ` set (locks db) \<and>
     \<not> has_open_blocking_for_decision (d_id dec) db \<and>
     voting_repo_get_for_decision (d_id dec) session_id db = Some v \<and> v_status v = V_CLOSED \<and>
     vr_result_valid (voting_result_of v db) \<and> \<not> vr_is_tie (voting_result_of v db) \<and>
     vr_winner_proposal_id (voting_result_of v db) = Some (p_id win) \<and>
     proposals_repo_get_for_decision (d_id dec) (p_id win) db = Some win \<and> p_status win = P_SUBMITTED \<and>
     build_snapshot dec win (voting_result_of v db) db = Inr snapshot"

lemma lock_create_InrD:
  assumes "lock_create env me w d i db = Inr (l, db')" and "distinct (map d_id (decisions db))"
  obtains m dec v win snapshot xs ys where "decision_context (u_id me) w d db = Inr (m, dec)" and "d_id dec = d"
    and "can_lock_decisions (m_role m)" and "lockable i v win snapshot dec db"
    and "l = lock_row env me dec i win snapshot"
    and "l_id l \<notin> l_id ` set (locks db)" and "ck_decision_locks (locks db) l"
    and "db' = db\<lparr>decisions := store d_id (decision_locked env dec) (decisions db), locks := locks db @ [l],
                  outbox := xs, published := ys\<rparr>"
    and "emitted (emitter env) w DECISION_LOCKED (l_id l) (decision_locked_payload env me w dec (l_id l) win) db db'"
proof -
  obtain m dec v win winner_id snapshot where ctx: "decision_context (u_id me) w d db = Inr (m, dec)"
    and g: "can_lock_decisions (m_role m)" "d_status dec = D_ACTIVE" "locks_repo_get_for_decision d db = None"
      "\<not> has_open_blocking_for_decision d db" "voting_repo_get_for_decision d i db = Some v" "v_status v = V_CLOSED"
      "vr_result_valid (voting_result_of v db)" "\<not> vr_is_tie (voting_result_of v db)"
      "vr_winner_proposal_id (voting_result_of v db) = Some winner_id"
      "proposals_repo_get_for_decision d winner_id db = Some win" "p_status win = P_SUBMITTED"
      "build_snapshot dec win (voting_result_of v db) db = Inr snapshot"
    and run: "with_event (emitter env)
          (emitter_stage env (fresh env 1) w DECISION_LOCKED (fresh env 0)
             (decision_locked_payload env me w dec (fresh env 0) win))
          (locks_repo_create env (lock_row env me dec i win snapshot) dec (now env)) db = Inr (l, db')"
    using assms(1) by (auto simp: lock_create_def lock_row_def Let_def)
  have dec: "decisions_repo_get_for_workspace w d db = Some dec" using ctx by simp
  have d: "d_id dec = d" using decision_getD [OF dec] by simp
  have win: "p_id win = winner_id" using proposal_getD [OF g(10)] by simp
  have look: "lookup d_id (d_id dec) (decisions db) = Some dec" by (rule decision_get_lookup [OF assms(2) dec])
  have able: "lockable i v win snapshot dec db"
    using g by (simp add: lockable_def d win locks_repo_get_None_iff)
  from run obtain xs ys db2 where
    c: "locks_repo_create env (lock_row env me dec i win snapshot) dec (now env) (db\<lparr>outbox := xs\<rparr>) = Inr (l, db2)"
    and db': "db' = db2\<lparr>published := ys\<rparr>"
    and e: "emitted (emitter env) w DECISION_LOCKED (fresh env 0)
              (decision_locked_payload env me w dec (fresh env 0) win) db db'"
    by (rule with_event_InrD) (auto dest: locks_repo_create_frame)
  have "lookup d_id (d_id dec) (decisions (db\<lparr>outbox := xs\<rparr>)) = Some dec" using look by simp
  note R = locks_repo_create_InrD [OF c this]
  have l: "l = lock_row env me dec i win snapshot" "l_id l = fresh env 0" using R by (simp_all add: lock_row_def)
  show thesis
    by (rule that [OF ctx d g(1) able l(1), where xs = xs and ys = ys]) (use R l e in \<open>auto simp: db'\<close>)
qed

text \<open>A request whose guards hold, with unused ids and a 64-character digest, succeeds.\<close>

lemma lock_create_ok:
  assumes ctx: "decision_context (u_id me) w d db = Inr (m, dec)" and dist: "distinct (map d_id (decisions db))"
    and role: "can_lock_decisions (m_role m)" and able: "lockable i v win snapshot dec db"
    and ids: "fresh env 0 \<notin> l_id ` set (locks db)" "fresh env 1 \<notin> x_id ` set (outbox db)"
      "\<not> staged DECISION_LOCKED (fresh env 0) (outbox db)" "i \<notin> l_voting_session_id ` set (locks db)"
    and digest: "length (sha256_hex env (dumps snapshot)) = 64"
  shows "\<exists>db'. lock_create env me w d i db = Inr (lock_row env me dec i win snapshot, db')"
proof -
  have dec: "decisions_repo_get_for_workspace w d db = Some dec" using ctx by simp
  have d: "d_id dec = d" using decision_getD [OF dec] by simp
  have look: "lookup d_id d (decisions db) = Some dec" using decision_get_lookup [OF dist dec] d by simp
  let ?row = "lock_row env me dec i win snapshot"
  have ck: "ck_decision_locks (locks db) ?row"
    using able ids digest by (auto simp: ck_decision_locks_def lock_row_def lockable_def hash_snapshot_def)
  have locked: "ck_decisions_locked_state (decision_locked env dec)" by (simp add: ck_decisions_locked_state_def)
  have commit: "\<exists>db2. locks_repo_create env ?row dec (now env) (db\<lparr>outbox := xs\<rparr>) = Inr (?row, db2)" for xs
    using look ck locked ids
    by (auto simp: locks_repo_create_def save_decision_Inr d decision_locked_def lock_row_def)
  obtain x db1 where st: "emitter_stage env (fresh env 1) w DECISION_LOCKED (fresh env 0)
      (decision_locked_payload env me w dec (fresh env 0) win) db = Inr (x, db1)" and db1: "db1 = db\<lparr>outbox := outbox db @ [x]\<rparr>"
    using ids unfolding emitter_stage_Inr by blast
  have run: "\<exists>db'. with_event (emitter env) (emitter_stage env (fresh env 1) w DECISION_LOCKED (fresh env 0)
      (decision_locked_payload env me w dec (fresh env 0) win))
      (locks_repo_create env ?row dec (now env)) db = Inr (?row, db')"
  proof (cases "emitter env")
    case True
    then show ?thesis using commit [of "outbox db @ [x]"] st by (auto simp: with_event_def db1)
  next
    case False
    then show ?thesis using commit [of "outbox db"] by simp
  qed
  show ?thesis
    using able run ctx role d unfolding lock_row_def
    by (auto simp: lock_create_def lockable_def locks_repo_get_None_iff voting_get_result_def)
qed

text \<open>The operations of the service, for statements about all of them.\<close>

lemmas lock_ops = lock_create_def lock_get_def lock_verify_def

end
