(* ===== verification/Docket.thy ===== *)
theory Docket imports Locks begin

text \<open>
  The docket of a decision: its row, its proposals and criteria, the objections to its proposals
  and their histories. Every service that writes one of these tables first asks for a decision in
  a mutable status, so the docket of a locked or archived decision stands still; only deleting its
  workspace can remove it, and a lock forbids that too.
\<close>

record docket =
  k_decision :: "decision list"
  k_proposals :: "proposal list"
  k_criteria :: "decision_criterion list"
  k_objections :: "objection list"
  k_events :: "objection_status_event list"

text \<open>\<open>of_decision i ps p\<close>: the proposal with id \<open>p\<close> belongs to decision \<open>i\<close>.\<close>

abbreviation of_decision :: "uuid \<Rightarrow> proposal list \<Rightarrow> uuid \<Rightarrow> bool" where
  "of_decision i ps p \<equiv> in_decision (\<lambda>j. j = i) ps p"

definition docket :: "uuid \<Rightarrow> db \<Rightarrow> docket" where
  "docket i db =
     \<lparr>k_decision = filter (\<lambda>d. d_id d = i) (decisions db),
      k_proposals = filter (\<lambda>p. p_decision_id p = i) (proposals db),
      k_criteria = filter (\<lambda>c. c_decision_id c = i) (criteria db),
      k_objections = filter (\<lambda>x. of_decision i (proposals db) (o_proposal_id x)) (objections db),
      k_events = filter (\<lambda>e. objection_gone (of_decision i (proposals db)) (objections db) (oe_objection_id e))
                   (objection_events db)\<rparr>"

section \<open>Changes elsewhere\<close>

lemma in_decision_iff:
  "distinct (map p_id ps) \<Longrightarrow> p \<in> set ps \<Longrightarrow> in_decision g ps (p_id p) \<longleftrightarrow> g (p_decision_id p)"
  by (auto simp: in_decision_def dest: distinct_key_eq)

lemma objection_gone_iff:
  "distinct (map o_id xs) \<Longrightarrow> x \<in> set xs \<Longrightarrow> objection_gone g xs (o_id x) \<longleftrightarrow> g (o_proposal_id x)"
  by (auto simp: objection_gone_def dest: distinct_key_eq)

lemma docket_other_tables [simp]:
  "docket i (db\<lparr>workspaces := a1\<rparr>) = docket i db" "docket i (db\<lparr>members := a2\<rparr>) = docket i db"
  "docket i (db\<lparr>locks := a3\<rparr>) = docket i db" "docket i (db\<lparr>scores := a4\<rparr>) = docket i db"
  "docket i (db\<lparr>sessions := a5\<rparr>) = docket i db" "docket i (db\<lparr>eligible_voters := a6\<rparr>) = docket i db"
  "docket i (db\<lparr>session_proposals := a7\<rparr>) = docket i db" "docket i (db\<lparr>votes := a8\<rparr>) = docket i db"
  "docket i (db\<lparr>actions := a9\<rparr>) = docket i db" "docket i (db\<lparr>reviews := a10\<rparr>) = docket i db"
  "docket i (db\<lparr>revisions := a11\<rparr>) = docket i db" "docket i (db\<lparr>notifications := a12\<rparr>) = docket i db"
  "docket i (db\<lparr>attachments := a13\<rparr>) = docket i db" "docket i (db\<lparr>outbox := a14\<rparr>) = docket i db"
  "docket i (db\<lparr>connections := a17\<rparr>) = docket i db" "docket i (db\<lparr>subscriptions := a18\<rparr>) = docket i db"
  "docket i (db\<lparr>deliveries := a19\<rparr>) = docket i db"
  "docket i (db\<lparr>published := a15\<rparr>) = docket i db" "docket i (db\<lparr>users := a16\<rparr>) = docket i db"
  by (simp_all add: docket_def)

lemma docket_append_decision: "d_id d \<noteq> i \<Longrightarrow> docket i (db\<lparr>decisions := decisions db @ [d]\<rparr>) = docket i db"
  by (simp add: docket_def)

lemma docket_store_decision:
  "d_id d \<noteq> i \<Longrightarrow> docket i (db\<lparr>decisions := store d_id d (decisions db)\<rparr>) = docket i db"
  by (auto simp: docket_def intro: filter_store_other)

lemma docket_append_proposal:
  "p_decision_id p \<noteq> i \<Longrightarrow> docket i (db\<lparr>proposals := proposals db @ [p]\<rparr>) = docket i db"
  by (simp add: docket_def in_decision_def)

lemma of_decision_store:
  assumes "distinct (map p_id ps)" and "lookup p_id k ps = Some p" and "p_id p' = p_id p"
    and "p_decision_id p \<noteq> i" and "p_decision_id p' \<noteq> i"
  shows "of_decision i (store p_id p' ps) j \<longleftrightarrow> of_decision i ps j"
    and "filter (\<lambda>p. p_decision_id p = i) (store p_id p' ps) = filter (\<lambda>p. p_decision_id p = i) ps"
proof -
  have same: "x = p" if "x \<in> set ps" "p_id x = p_id p'" for x
    using that assms(1,3) lookup_SomeD [OF assms(2)] distinct_key_eq by metis
  then show "of_decision i (store p_id p' ps) j \<longleftrightarrow> of_decision i ps j"
    using assms(4,5) by (auto simp: in_decision_def set_store split: if_splits)
  show "filter (\<lambda>p. p_decision_id p = i) (store p_id p' ps) = filter (\<lambda>p. p_decision_id p = i) ps"
    using same assms(4,5) by (intro filter_store_other) auto
qed

lemma docket_store_proposal:
  assumes "distinct (map p_id (proposals db))" and "lookup p_id k (proposals db) = Some p" and "p_id p' = p_id p"
    and "p_decision_id p \<noteq> i" and "p_decision_id p' \<noteq> i"
  shows "docket i (db\<lparr>proposals := store p_id p' (proposals db)\<rparr>) = docket i db"
  unfolding docket_def by (simp add: of_decision_store [OF assms] objection_gone_def)

lemma docket_cascade_proposals:
  assumes kept: "\<And>p. p \<in> set (proposals db) \<Longrightarrow> p_decision_id p = i \<Longrightarrow> \<not> g (p_id p)"
    and ids: "distinct (map p_id (proposals db))" "distinct (map o_id (objections db))"
  shows "docket i (cascade_proposals g db) = docket i db"
proof -
  let ?ps = "filter (\<lambda>p. \<not> g (p_id p)) (proposals db)"
  have same: "of_decision i ?ps = of_decision i (proposals db)"
    using kept by (intro ext) (auto simp: in_decision_def)
  have stay: "\<not> g j" if "of_decision i (proposals db) j" for j using that kept by (auto simp: in_decision_def)
  have ev: "objection_gone (of_decision i (proposals db)) (filter (\<lambda>x. \<not> g (o_proposal_id x)) (objections db)) j \<and>
      \<not> objection_gone g (objections db) j \<longleftrightarrow> objection_gone (of_decision i (proposals db)) (objections db) j" for j
  proof
    assume "objection_gone (of_decision i (proposals db)) (objections db) j"
    then obtain x where x: "x \<in> set (objections db)" "o_id x = j" "of_decision i (proposals db) (o_proposal_id x)"
      by (auto simp: objection_gone_def)
    then show "objection_gone (of_decision i (proposals db)) (filter (\<lambda>x. \<not> g (o_proposal_id x)) (objections db)) j \<and>
      \<not> objection_gone g (objections db) j"
      using stay objection_gone_iff [OF ids(2) x(1)] by (auto simp: objection_gone_def)
  qed (auto simp: objection_gone_def)
  show ?thesis
    unfolding docket_def cascade_proposals_def
    by (simp add: same, intro conjI filter_cong refl) (use kept stay ev in \<open>auto simp: conj_commute\<close>)
qed

lemma docket_cascade_decisions:
  assumes "\<not> g i" and ids: "distinct (map p_id (proposals db))" "distinct (map o_id (objections db))"
  shows "docket i (cascade_decisions g db) = docket i db"
proof -
  have "docket i (cascade_decisions g db) =
    (docket i (cascade_proposals (in_decision g (proposals db)) db))
      \<lparr>k_decision := filter (\<lambda>d. d_id d = i) (filter (\<lambda>d. \<not> g (d_id d)) (decisions db)),
       k_criteria := filter (\<lambda>c. c_decision_id c = i) (filter (\<lambda>c. \<not> g (c_decision_id c)) (criteria db))\<rparr>"
    by (simp add: docket_def cascade_decisions_def Let_def)
  also have "docket i (cascade_proposals (in_decision g (proposals db)) db) = docket i db"
    using assms by (intro docket_cascade_proposals) (auto simp: in_decision_iff)
  also have "(docket i db)\<lparr>k_decision := filter (\<lambda>d. d_id d = i) (filter (\<lambda>d. \<not> g (d_id d)) (decisions db)),
       k_criteria := filter (\<lambda>c. c_decision_id c = i) (filter (\<lambda>c. \<not> g (c_decision_id c)) (criteria db))\<rparr> = docket i db"
    using assms(1) by (auto simp: docket_def intro!: filter_cong)
  finally show ?thesis .
qed

section \<open>The steps of the components\<close>

text \<open>\<open>works_on d db\<close>: the request found decision \<open>d\<close> in a mutable status.\<close>

definition works_on :: "uuid \<Rightarrow> db \<Rightarrow> bool" where
  "works_on d db \<longleftrightarrow> (\<exists>dec \<in> set (decisions db). d_id dec = d \<and> d_status dec \<in> {D_DRAFT, D_ACTIVE})"

lemma works_onI:
  "decisions_repo_get_for_workspace w d db = Some dec \<Longrightarrow> d_status dec \<in> {D_DRAFT, D_ACTIVE} \<Longrightarrow> works_on d db"
  by (auto simp: works_on_def dest: decision_getD)

lemma works_on_not_final:
  assumes "works_on d db" and "distinct (map d_id (decisions db))"
    and "dec \<in> set (decisions db)" and "decision_final (d_status dec)"
  shows "d \<noteq> d_id dec"
  using assms distinct_key_eq [OF assms(2)] by (fastforce simp: works_on_def decision_final_def)

lemma proposal_step_docket:
  assumes "proposal_step db db'" and ids: "distinct (map p_id (proposals db))" "distinct (map o_id (objections db))"
  shows "\<exists>d. works_on d db \<and> (\<forall>i. i \<noteq> d \<longrightarrow> docket i db' = docket i db)"
  using assms(1)
proof cases
  case (create b q env me w d r)
  then have "works_on d db \<and> p_decision_id r = d \<and> db' = db\<lparr>proposals := proposals db @ [r]\<rparr>"
    by (auto simp: proposal_create_def proposals_repo_create_def intro: works_onI)
  then show ?thesis by (auto intro: docket_append_proposal)
next
  case (update b' q' env me w d i r)
  from update(2) ids(1) show ?thesis
  proof (rule proposal_update_InrD)
    fix m dec p assume p: "decisions_repo_get_for_workspace w d db = Some dec" "d_status dec \<in> {D_DRAFT, D_ACTIVE}"
      "proposals_repo_get_for_decision d i db = Some p"
      "r = write_proposal env p (p\<lparr>p_title := patch_required (pu_title q') (p_title p),
               p_summary := patch_nullable (pu_summary q') (p_summary p),
               p_content := patch_nullable (pu_content q') (p_content p)\<rparr>) p"
      "db' = db\<lparr>proposals := store p_id r (proposals db)\<rparr>"
    have "docket j db' = docket j db" if "j \<noteq> d" for j
      unfolding p(5)
      using that proposal_getD [OF p(3)]
      by (intro docket_store_proposal [OF ids(1) proposal_get_lookup [OF ids(1) p(3)]]) (auto simp: p(4))
    then show ?thesis using works_onI [OF p(1,2)] by blast
  qed
next
  case (transition env me w d i target r)
  from transition ids(1) show ?thesis
  proof (rule proposal_transition_InrD)
    fix m dec p assume p: "decisions_repo_get_for_workspace w d db = Some dec" "d_status dec \<in> {D_DRAFT, D_ACTIVE}"
      "proposals_repo_get_for_decision d i db = Some p"
      "r = write_proposal env p (p\<lparr>p_status := target,
               p_submitted_at := (if target = P_SUBMITTED then Some (now env) else None),
               p_withdrawn_at := (if target = P_WITHDRAWN then Some (now env) else None)\<rparr>) p"
      "db' = db\<lparr>proposals := store p_id r (proposals db)\<rparr>"
    have "docket j db' = docket j db" if "j \<noteq> d" for j
      unfolding p(5)
      using that proposal_getD [OF p(3)]
      by (intro docket_store_proposal [OF ids(1) proposal_get_lookup [OF ids(1) p(3)]]) (auto simp: p(4))
    then show ?thesis using works_onI [OF p(1,2)] by blast
  qed
next
  case (delete me w d i u)
  then obtain dec p where p: "decisions_repo_get_for_workspace w d db = Some dec" "d_status dec \<in> {D_DRAFT, D_ACTIVE}"
    "proposals_repo_get_for_decision d i db = Some p" "db' = cascade_proposals (\<lambda>j. j = p_id p) db"
    by (auto simp: proposal_delete_Inr)
  have "docket j db' = docket j db" if "j \<noteq> d" for j
    unfolding p(4)
  proof (rule docket_cascade_proposals [OF _ ids])
    show "p_id q \<noteq> p_id p" if q: "q \<in> set (proposals db)" "p_decision_id q = j" for q
      using proposal_getD [OF p(3)] q \<open>j \<noteq> d\<close> distinct_key_eq [OF ids(1) q(1)] by metis
  qed
  then show ?thesis using works_onI [OF p(1,2)] by blast
qed

lemma write_criterion_decision [simp]: "c_decision_id (write_criterion env old new cur) = c_decision_id cur"
  by (simp add: write_criterion_def)

lemma criteria_store_other:
  assumes "distinct (map c_id cs)" and "lookup c_id k cs = Some c" and "c_id c' = c_id c"
    and "c_decision_id c \<noteq> i" and "c_decision_id c' \<noteq> i"
  shows "filter (\<lambda>c. c_decision_id c = i) (store c_id c' cs) = filter (\<lambda>c. c_decision_id c = i) cs"
proof (rule filter_store_other)
  show "c_decision_id x \<noteq> i" if "x \<in> set cs" "c_id x = c_id c'" for x
    using that assms lookup_SomeD [OF assms(2)] distinct_key_eq [OF assms(1)] by metis
qed (rule assms(5))

text \<open>The ids of \<open>ordered\<close> name rows of decision \<open>d\<close>.\<close>

definition rows_of :: "uuid \<Rightarrow> decision_criterion list \<Rightarrow> decision_criterion list \<Rightarrow> bool" where
  "rows_of d ordered cs \<longleftrightarrow> (\<forall>c \<in> set ordered. \<exists>x \<in> set cs. c_id x = c_id c \<and> c_decision_id x = d)"

lemma rows_of_store:
  assumes "rows_of d ordered cs" and "lookup c_id k cs = Some cur" and "c_id c' = c_id cur" and "c_decision_id c' = c_decision_id cur"
    and "distinct (map c_id cs)"
  shows "rows_of d ordered (store c_id c' cs)"
  unfolding rows_of_def
proof
  fix c assume "c \<in> set ordered"
  then obtain x where x: "x \<in> set cs" "c_id x = c_id c" "c_decision_id x = d"
    using assms(1) by (auto simp: rows_of_def)
  show "\<exists>x \<in> set (store c_id c' cs). c_id x = c_id c \<and> c_decision_id x = d"
  proof (cases "c_id x = c_id c'")
    case True
    have "x = cur" using True distinct_key_eq [OF assms(5) x(1)] lookup_SomeD [OF assms(2)] assms(3) by metis
    have "c_id c' \<in> c_id ` set cs" using x(1) True by (metis imageI)
    then have "c' \<in> set (store c_id c' cs)" by (simp add: set_store)
    then show ?thesis using x \<open>x = cur\<close> assms(4) True by metis
  next
    case False
    then show ?thesis using x by (intro bexI [of _ x]) (auto simp: set_store)
  qed
qed

lemma flush_positions_other:
  "flush_positions env k ordered cs = Inr cs' \<Longrightarrow> distinct (map c_id cs) \<Longrightarrow> rows_of d ordered cs \<Longrightarrow> i \<noteq> d \<Longrightarrow>
     filter (\<lambda>c. c_decision_id c = i) cs' = filter (\<lambda>c. c_decision_id c = i) cs"
proof (induction env k ordered cs rule: flush_positions.induct)
  case (2 env k c rest cs)
  let ?w = "\<lambda>cur. write_criterion env c (c\<lparr>c_position := k\<rparr>) cur"
  obtain cur where cur: "lookup c_id (c_id c) cs = Some cur" "ck_decision_criteria (?w cur)"
    and run: "flush_positions env (k + 1) rest (store c_id (?w cur) cs) = Inr cs'"
    using "2.prems"(1) by auto
  obtain x where x: "x \<in> set cs" "c_id x = c_id c" "c_decision_id x = d"
    using "2.prems"(3) by (auto simp: rows_of_def)
  then have "cur = x" using lookup_SomeD [OF cur(1)] distinct_key_eq [OF "2.prems"(2)] by metis
  then have d: "c_decision_id cur = d" using x by simp
  have rest: "rows_of d rest (store c_id (?w cur) cs)"
    using "2.prems"(3) by (intro rows_of_store [OF _ cur(1) _ _ "2.prems"(2)]) (simp_all add: rows_of_def)
  have "filter (\<lambda>c. c_decision_id c = i) cs' = filter (\<lambda>c. c_decision_id c = i) (store c_id (?w cur) cs)"
    using "2.IH" [OF _ refl run _ rest "2.prems"(4)] "2.prems"(2) cur by simp
  also have "\<dots> = filter (\<lambda>c. c_decision_id c = i) cs"
    using d "2.prems"(4) by (intro criteria_store_other [OF "2.prems"(2) cur(1)]) auto
  finally show ?case .
qed simp

lemma docket_criteria:
  "filter (\<lambda>c. c_decision_id c = i) cs = filter (\<lambda>c. c_decision_id c = i) (criteria db) \<Longrightarrow>
     docket i (db\<lparr>criteria := cs\<rparr>) = docket i db"
  by (simp add: docket_def)

lemma listed_rows:
  assumes "set ids = set (map c_id (proposals_repo_list_criteria d db))"
  shows "rows_of d (map (\<lambda>i. the (lookup c_id i (rev (proposals_repo_list_criteria d db)))) ids) (criteria db)"
  unfolding rows_of_def
proof
  let ?cs = "rev (proposals_repo_list_criteria d db)"
  fix c assume "c \<in> set (map (\<lambda>i. the (lookup c_id i ?cs)) ids)"
  then obtain k where k: "k \<in> set ids" "c = the (lookup c_id k ?cs)" by auto
  then have "lookup c_id k ?cs \<noteq> None" using assms by (auto simp: lookup_None_iff)
  then have "lookup c_id k ?cs = Some c" using k(2) by auto
  then have "c \<in> set ?cs" using lookup_SomeD by metis
  then show "\<exists>x \<in> set (criteria db). c_id x = c_id c \<and> c_decision_id x = d"
    by (auto simp: proposals_repo_list_criteria_def)
qed

lemma criterion_step_docket:
  assumes "criterion_step db db'" and inv: "criteria_inv (criteria db)"
  shows "\<exists>d. works_on d db \<and> (\<forall>i. i \<noteq> d \<longrightarrow> docket i db' = docket i db)"
  using assms(1)
proof cases
  case (create b q env me w d c)
  then have "works_on d db \<and> c_decision_id c = d \<and> db' = db\<lparr>criteria := criteria db @ [c]\<rparr>"
    by (auto simp: criterion_create_def proposals_repo_create_criterion_def intro: works_onI)
  moreover have "docket j (db\<lparr>criteria := criteria db @ [c]\<rparr>) = docket j db" if "j \<noteq> c_decision_id c" for j
    using that by (intro docket_criteria) simp
  ultimately show ?thesis by blast
next
  case (update b' q' env me w d i c)
  then obtain dec c0 cur where dec: "decisions_repo_get_for_workspace w d db = Some dec" "d_status dec \<in> {D_DRAFT, D_ACTIVE}"
    and c0: "proposals_repo_get_criterion d i db = Some c0" and cur: "lookup c_id (c_id c0) (criteria db) = Some cur"
    and db': "db' = db\<lparr>criteria := store c_id c (criteria db)\<rparr>" "c_id c = c_id cur" "c_decision_id c = c_decision_id cur"
    by (auto simp: criterion_update_def proposals_repo_update_criterion_def)
  have "c_decision_id cur = d"
    using criterion_getD [OF c0] lookup_SomeD [OF cur] distinct_key_eq [OF criteria_invD(1) [OF inv]] by metis
  then have "docket j db' = docket j db" if "j \<noteq> d" for j
    unfolding db'(1) using that db'(2,3)
    by (intro docket_criteria criteria_store_other [OF criteria_invD(1) [OF inv] cur]) auto
  then show ?thesis using works_onI [OF dec] by blast
next
  case (reorder ids ids' env me w d cs)
  then obtain dec cs' where dec: "decisions_repo_get_for_workspace w d db = Some dec" "d_status dec \<in> {D_DRAFT, D_ACTIVE}"
    and ids: "set ids' = set (map c_id (proposals_repo_list_criteria d db))"
    and run: "flush_positions env 0 (map (\<lambda>i. the (lookup c_id i (rev (proposals_repo_list_criteria d db)))) ids')
               (criteria db) = Inr cs'" and db': "db' = db\<lparr>criteria := cs'\<rparr>"
    by (auto simp: criterion_reorder_def proposals_repo_reorder_criteria_def Let_def)
  have "docket j db' = docket j db" if "j \<noteq> d" for j
    unfolding db' by (intro docket_criteria flush_positions_other [OF run criteria_invD(1) [OF inv] listed_rows [OF ids] that])
  then show ?thesis using works_onI [OF dec] by blast
next
  case (delete me w d i u)
  then obtain dec c where dec: "decisions_repo_get_for_workspace w d db = Some dec" "d_status dec \<in> {D_DRAFT, D_ACTIVE}"
    and c: "proposals_repo_get_criterion d i db = Some c" and db': "db' = delete_criterion_row (c_id c) db"
    by (auto simp: criterion_delete_def proposals_repo_delete_criterion_def)
  have "docket j db' = docket j db" if "j \<noteq> d" for j
  proof -
    have "c_id x \<noteq> c_id c" if "x \<in> set (criteria db)" "c_decision_id x = j" for x
      using that criterion_getD [OF c] \<open>j \<noteq> d\<close> distinct_key_eq [OF criteria_invD(1) [OF inv]] by metis
    then have "docket j (db\<lparr>criteria := filter (\<lambda>x. c_id x \<noteq> c_id c) (criteria db)\<rparr>) = docket j db"
      by (intro docket_criteria) (auto intro: filter_cong)
    then show ?thesis by (simp add: db' delete_criterion_row_def)
  qed
  then show ?thesis using works_onI [OF dec] by blast
next
  case (score s s' env me w d pid cid r)
  then obtain dec ss where "decisions_repo_get_for_workspace w d db = Some dec" "d_status dec \<in> {D_DRAFT, D_ACTIVE}"
    "db' = db\<lparr>scores := ss\<rparr>"
    by (auto simp: score_upsert_def proposals_repo_upsert_score_def Let_def split: if_splits option.splits)
  then show ?thesis using works_onI by (metis docket_other_tables(4))
qed

text \<open>Objections: the proposal of the request's path belongs to its decision.\<close>

lemma objection_gone_keys:
  "objection_gone g xs j \<longleftrightarrow> (\<exists>k \<in> set (map (\<lambda>x. (o_id x, o_proposal_id x)) xs). fst k = j \<and> g (snd k))"
  by (auto simp: objection_gone_def)

lemma objection_gone_store:
  assumes "distinct (map o_id xs)" and "lookup o_id k xs = Some x" and "o_id x' = o_id x" and "o_proposal_id x' = o_proposal_id x"
  shows "objection_gone g (store o_id x' xs) = objection_gone g xs"
proof -
  have "y = x" if "y \<in> set xs" "o_id y = o_id x'" for y
    using that assms(3) lookup_SomeD [OF assms(2)] distinct_key_eq [OF assms(1)] by metis
  then have "map (\<lambda>x. (o_id x, o_proposal_id x)) (store o_id x' xs) = map (\<lambda>x. (o_id x, o_proposal_id x)) xs"
    using assms(3,4) by (intro map_store_same) auto
  then show ?thesis by (intro ext) (simp only: objection_gone_keys)
qed

lemma docket_append_objection:
  assumes "\<not> of_decision i (proposals db) (o_proposal_id x)"
    and "\<And>e. e \<in> set (objection_events db) \<Longrightarrow> oe_objection_id e \<noteq> o_id x"
  shows "docket i (db\<lparr>objections := objections db @ [x]\<rparr>) = docket i db"
  using assms by (auto simp: docket_def objection_gone_def intro!: filter_cong)

lemma docket_store_objection:
  assumes ids: "distinct (map o_id (objections db))" and x: "lookup o_id k (objections db) = Some x"
    and x': "o_id x' = o_id x" "o_proposal_id x' = o_proposal_id x"
    and other: "\<not> of_decision i (proposals db) (o_proposal_id x)"
    and es: "\<And>e. e \<in> set es \<Longrightarrow> oe_objection_id e = o_id x"
  shows "docket i (db\<lparr>objections := store o_id x' (objections db),
                      objection_events := objection_events db @ es\<rparr>) = docket i db"
proof -
  have same: "y = x" if "y \<in> set (objections db)" "o_id y = o_id x" for y
    using that lookup_SomeD [OF x] distinct_key_eq [OF ids] by metis
  have "filter (\<lambda>x. of_decision i (proposals db) (o_proposal_id x)) (store o_id x' (objections db)) =
        filter (\<lambda>x. of_decision i (proposals db) (o_proposal_id x)) (objections db)"
    using other x' same by (intro filter_store_other) auto
  moreover have "\<not> objection_gone (of_decision i (proposals db)) (objections db) (o_id x)"
    using objection_gone_iff [OF ids] lookup_SomeD [OF x] other by metis
  ultimately show ?thesis
    using es by (simp add: docket_def objection_gone_store [OF ids x x'] filter_empty_conv)
qed

lemma objection_context_Inr_iff:
  "objection_context u w d p db = Inr (m, dec, pr) \<longleftrightarrow>
     workspaces_repo_get_by_id w db \<noteq> None \<and> workspaces_repo_get_membership w u db = Some m \<and>
     decisions_repo_get_for_workspace w d db = Some dec \<and> proposals_repo_get_for_decision d p db = Some pr"
  by (auto simp: objection_context_def)

lemma other_decision:
  assumes "distinct (map p_id (proposals db))" and "proposals_repo_get_for_decision d p db = Some pr" and "i \<noteq> d"
  shows "\<not> of_decision i (proposals db) p"
  using proposal_getD [OF assms(2)] in_decision_iff [OF assms(1), of pr "\<lambda>j. j = i"] assms(3) by auto

lemma objection_step_docket:
  assumes "objection_step db db'" and pids: "distinct (map p_id (proposals db))"
    and inv: "objection_inv (objections db) (objection_events db)"
  shows "\<exists>d. works_on d db \<and> (\<forall>i. i \<noteq> d \<longrightarrow> docket i db' = docket i db)"
  using assms(1)
proof cases
  case (create b q env me w d p r)
  then obtain dec pr where c: "decisions_repo_get_for_workspace w d db = Some dec" "d_status dec \<in> {D_DRAFT, D_ACTIVE}"
    "proposals_repo_get_for_decision d p db = Some pr"
    and r: "o_id r \<notin> o_id ` set (objections db)" "o_proposal_id r = p" "db' = db\<lparr>objections := objections db @ [r]\<rparr>"
    by (auto simp: objection_create_def objections_repo_create_def objection_MUTABLE_DECISION_STATUSES_def
        objection_require_mutable_decision_def)
  have "docket j db' = docket j db" if "j \<noteq> d" for j
    unfolding r(3)
  proof (rule docket_append_objection)
    show "oe_objection_id e \<noteq> o_id r" if "e \<in> set (objection_events db)" for e
      using objection_invD(4) [OF inv that] r(1) by metis
  qed (use other_decision [OF pids c(3) that] r(2) in simp)
  then show ?thesis using works_onI [OF c(1,2)] by blast
next
  case (update b' q' env me w d p i r)
  from update(2) obtain m dec pr where ctx: "objection_context (u_id me) w d p db = Inr (m, dec, pr)"
    and st: "d_status dec \<in> {D_DRAFT, D_ACTIVE}"
    by (auto simp: objection_update_def objection_require_mutable_decision_def objection_MUTABLE_DECISION_STATUSES_def)
  then have c: "decisions_repo_get_for_workspace w d db = Some dec" "proposals_repo_get_for_decision d p db = Some pr"
    unfolding objection_context_Inr_iff by simp_all
  from update(2) objection_invD(1) [OF inv] obtain x where x: "objections_repo_get_for_proposal p i db = Some x"
    "o_id r = o_id x" "o_proposal_id r = o_proposal_id x" "db' = db\<lparr>objections := store o_id r (objections db)\<rparr>"
    by (elim objection_update_InrD) auto
  have "docket j db' = docket j db" if "j \<noteq> d" for j
    unfolding x(4)
    using docket_store_objection [OF objection_invD(1) [OF inv] objection_get_lookup [OF objection_invD(1) [OF inv] x(1)]
        x(2,3), of j "[]"] other_decision [OF pids c(2) that] objection_getD [OF x(1)]
    by simp
  then show ?thesis using works_onI [OF c(1) st] by blast
next
  case (transition s n target msg env me w d p i r)
  from transition(2) obtain m dec pr where ctx: "objection_context (u_id me) w d p db = Inr (m, dec, pr)"
    and st: "d_status dec \<in> {D_DRAFT, D_ACTIVE}"
    by (auto simp: objection_transition_def objection_require_mutable_decision_def objection_MUTABLE_DECISION_STATUSES_def)
  then have c: "decisions_repo_get_for_workspace w d db = Some dec" "proposals_repo_get_for_decision d p db = Some pr"
    unfolding objection_context_Inr_iff by simp_all
  from transition(2) objection_invD(1) [OF inv] obtain x where x: "objections_repo_get_for_proposal p i db = Some x"
    "r = objection_moved env (u_id me) target msg x"
    "db' = db\<lparr>objections := store o_id r (objections db),
           objection_events := objection_events db @ [objection_event env (u_id me) target msg x]\<rparr>"
    by (elim objection_transition_InrD) auto
  have r: "o_id r = o_id x" "o_proposal_id r = o_proposal_id x" by (simp_all add: x(2) objection_moved_def)
  have "docket j db' = docket j db" if "j \<noteq> d" for j
    unfolding x(3)
    by (rule docket_store_objection [OF objection_invD(1) [OF inv] objection_get_lookup [OF objection_invD(1) [OF inv] x(1)] r])
      (use other_decision [OF pids c(2) that] objection_getD [OF x(1)] in \<open>auto simp: objection_event_def\<close>)
  then show ?thesis using works_onI [OF c(1) st] by blast
qed

text \<open>\<open>sealed i db\<close>: decision \<open>i\<close> is locked or archived.\<close>

definition sealed :: "uuid \<Rightarrow> db \<Rightarrow> bool" where
  "sealed i db \<longleftrightarrow> (\<exists>dec \<in> set (decisions db). d_id dec = i \<and> decision_final (d_status dec))"

lemma works_on_not_sealed:
  "works_on d db \<Longrightarrow> distinct (map d_id (decisions db)) \<Longrightarrow> sealed i db \<Longrightarrow> i \<noteq> d"
  by (auto simp: sealed_def dest: works_on_not_final)

lemma decision_step_docket:
  assumes "decision_step db db'" and ids: "distinct (map d_id (decisions db))" "distinct (map p_id (proposals db))"
      "distinct (map o_id (objections db))" and seal: "sealed i db"
  shows "docket i db' = docket i db"
proof -
  have other: "d_id d \<noteq> i" if "d \<in> set (decisions db)" "\<not> decision_final (d_status d)" for d
    using seal that distinct_key_eq [OF ids(1) that(1)] by (auto simp: sealed_def)
  show ?thesis
    using assms(1)
  proof cases
    case (create b p env me w r)
    have "i \<in> d_id ` set (decisions db)" using seal by (auto simp: sealed_def)
    with create show ?thesis by (auto simp: decision_create_Inr intro!: docket_append_decision)
  next
    case (update b' p' env me w k r)
    from update(2) ids(1) obtain d where d: "decisions_repo_get_for_workspace w k db = Some d"
      "d_id r = d_id d" "d_status d \<in> decision_EDITABLE_STATUSES" "db' = db\<lparr>decisions := store d_id r (decisions db)\<rparr>"
      by (elim decision_update_InrD) auto
    have "d_id d \<noteq> i"
      using decision_getD [OF d(1)] d(3) by (intro other) (auto simp: decision_final_def decision_EDITABLE_STATUSES_def)
    then show ?thesis by (simp add: d docket_store_decision)
  next
    case (transition env me w k target r)
    from transition ids(1) obtain d xs ys where d: "decisions_repo_get_for_workspace w k db = Some d"
      "target \<in> decision_ALLOWED_TRANSITIONS (d_status d)" "r = decision_moved env target d"
      "db' = db\<lparr>decisions := store d_id r (decisions db), outbox := xs, published := ys\<rparr>"
      by (rule decision_transition_InrD)
    have "d_id r = d_id d" by (simp add: d(3) decision_moved_def)
    moreover have "d_id d \<noteq> i"
      using decision_getD [OF d(1)] decision_cycle.final_step d(2) by (intro other) auto
    ultimately show ?thesis by (simp add: d(4) docket_store_decision)
  next
    case (delete me w k u)
    then obtain d where d: "decisions_repo_get_for_workspace w k db = Some d" "d_status d = D_DRAFT"
      "db' = cascade_decisions (\<lambda>j. j = d_id d) db"
      by (auto simp: decision_delete_Inr delete_decision_row_def)
    have "i \<noteq> d_id d" using other [of d] decision_getD [OF d(1)] d(2) by (simp add: decision_final_def)
    then show ?thesis unfolding d(3) by (intro docket_cascade_decisions ids(2,3)) simp
  qed
qed

text \<open>A workspace with a locked decision cannot be deleted.\<close>

lemma delete_workspace_row_unreferenced:
  "delete_workspace_row w db = Inr db' \<Longrightarrow> l \<in> set (locks db) \<Longrightarrow> \<not> in_workspace w (decisions db) (l_decision_id l)"
  by (auto simp: delete_workspace_row_def decisions_unreferenced_def)

lemma delete_workspace_row_docket:
  assumes "delete_workspace_row w db = Inr db'" and "\<not> in_workspace w (decisions db) i"
    and "distinct (map p_id (proposals db))" and "distinct (map o_id (objections db))"
  shows "docket i db' = docket i db"
proof -
  obtain a b c d e f g h where "db' = (cascade_decisions (in_workspace w (decisions db)) db)\<lparr>workspaces := a, members := b,
      notifications := c, attachments := d, outbox := e, connections := f, subscriptions := g, deliveries := h\<rparr>"
    using assms(1) by (auto simp: delete_workspace_row_def Let_def)
  then show ?thesis using docket_cascade_decisions [where g = "in_workspace w (decisions db)" and i = i, OF assms(2-4)] by simp
qed

lemma workspace_step_cases:
  assumes "workspace_step db db'"
  shows "(\<exists>ws ms. db' = db\<lparr>workspaces := ws, members := ms\<rparr>) \<or> (\<exists>w. delete_workspace_row w db = Inr db')"
  using assms
proof cases
  case (create env me p r)
  then show ?thesis by (auto simp: workspace_create_def workspaces_repo_defs)
next
  case (update env me w p' r)
  then obtain ws where "db' = db\<lparr>workspaces := ws\<rparr>"
    by (auto simp: workspace_update_def dest!: workspaces_repo_update_InrD)
  then have "db' = db\<lparr>workspaces := ws, members := members db\<rparr>" by simp
  then show ?thesis by blast
next
  case (delete me w u)
  then show ?thesis by (auto simp: workspace_delete_def workspaces_repo_delete_def)
next
  case (add_member env me w email role mr)
  then obtain ms where "db' = db\<lparr>members := ms\<rparr>"
    by (auto simp: workspace_add_member_def workspaces_repo_defs split: sum.splits)
  then have "db' = db\<lparr>workspaces := workspaces db, members := ms\<rparr>" by simp
  then show ?thesis by blast
next
  case (update_member_role me w member role mr)
  then obtain ms where "db' = db\<lparr>members := ms\<rparr>"
    by (auto simp: workspace_update_member_role_def workspaces_repo_defs)
  then have "db' = db\<lparr>workspaces := workspaces db, members := ms\<rparr>" by simp
  then show ?thesis by blast
next
  case (remove_member me w member u)
  then obtain ms where "db' = db\<lparr>members := ms\<rparr>"
    by (auto simp: workspace_remove_member_def workspaces_repo_defs)
  then have "db' = db\<lparr>workspaces := workspaces db, members := ms\<rparr>" by simp
  then show ?thesis by blast
qed

lemma workspace_step_docket:
  assumes "workspace_step db db'" and "l \<in> set (locks db)"
    and "distinct (map p_id (proposals db))" and "distinct (map o_id (objections db))"
  shows "docket (l_decision_id l) db' = docket (l_decision_id l) db"
  using workspace_step_cases [OF assms(1)] delete_workspace_row_unreferenced [OF _ assms(2)]
    delete_workspace_row_docket [OF _ _ assms(3,4)] by auto

lemma voting_effect_docket: "voting_effect db db' \<Longrightarrow> docket i db' = docket i db"
  by (cases rule: voting_effect.cases) auto

section \<open>The file of a voting session\<close>

record session_file =
  f_session :: "voting_session list"
  f_voters :: "voting_eligible_voter list"
  f_choices :: "voting_session_proposal list"
  f_ballots :: "vote list"

definition session_file :: "uuid \<Rightarrow> db \<Rightarrow> session_file" where
  "session_file k db =
     \<lparr>f_session = filter (\<lambda>v. v_id v = k) (sessions db),
      f_voters = filter (\<lambda>e. ev_voting_session_id e = k) (eligible_voters db),
      f_choices = filter (\<lambda>p. sp_voting_session_id p = k) (session_proposals db),
      f_ballots = ballots_of k (votes db)\<rparr>"

lemma session_file_other_tables [simp]:
  "session_file i (db\<lparr>workspaces := a1\<rparr>) = session_file i db" "session_file i (db\<lparr>members := a2\<rparr>) = session_file i db"
  "session_file i (db\<lparr>locks := a3\<rparr>) = session_file i db" "session_file i (db\<lparr>scores := a4\<rparr>) = session_file i db"
  "session_file i (db\<lparr>decisions := a5\<rparr>) = session_file i db" "session_file i (db\<lparr>proposals := a6\<rparr>) = session_file i db"
  "session_file i (db\<lparr>criteria := a7\<rparr>) = session_file i db" "session_file i (db\<lparr>objections := a8\<rparr>) = session_file i db"
  "session_file i (db\<lparr>actions := a9\<rparr>) = session_file i db" "session_file i (db\<lparr>reviews := a10\<rparr>) = session_file i db"
  "session_file i (db\<lparr>revisions := a11\<rparr>) = session_file i db" "session_file i (db\<lparr>notifications := a12\<rparr>) = session_file i db"
  "session_file i (db\<lparr>attachments := a13\<rparr>) = session_file i db" "session_file i (db\<lparr>outbox := a14\<rparr>) = session_file i db"
  "session_file i (db\<lparr>connections := a18\<rparr>) = session_file i db" "session_file i (db\<lparr>subscriptions := a19\<rparr>) = session_file i db"
  "session_file i (db\<lparr>deliveries := a20\<rparr>) = session_file i db"
  "session_file i (db\<lparr>published := a15\<rparr>) = session_file i db" "session_file i (db\<lparr>users := a16\<rparr>) = session_file i db"
  "session_file i (db\<lparr>objection_events := a17\<rparr>) = session_file i db"
  by (simp_all add: session_file_def)

lemma session_gone_iff:
  "distinct (map v_id vs) \<Longrightarrow> v \<in> set vs \<Longrightarrow> session_gone g vs (v_id v) \<longleftrightarrow> g (v_decision_id v)"
  by (auto simp: session_gone_def dest: distinct_key_eq)

lemma session_file_cascade_proposals [simp]: "session_file k (cascade_proposals g db) = session_file k db"
  by (simp add: cascade_proposals_def)

lemma session_file_cascade_decisions:
  assumes "distinct (map v_id (sessions db))" and "v \<in> set (sessions db)" and "v_id v = k" and "\<not> g (v_decision_id v)"
  shows "session_file k (cascade_decisions g db) = session_file k db"
proof -
  have "\<not> session_gone g (sessions db) k" using session_gone_iff [OF assms(1,2)] assms(3,4) by simp
  moreover have "\<not> g (v_decision_id x)" if "x \<in> set (sessions db)" "v_id x = k" for x
    using that assms distinct_key_eq [OF assms(1) that(1)] by metis
  ultimately show ?thesis
    by (simp add: session_file_def cascade_decisions_tables, intro conjI filter_cong refl) auto
qed

text \<open>A session that is closed or cancelled no longer changes, nor do its register and ballots.\<close>

lemma voting_effect_file:
  assumes "voting_effect db db'" and ids: "distinct (map v_id (sessions db))"
    and v: "v \<in> set (sessions db)" "v_status v \<in> {V_CLOSED, V_CANCELLED}"
  shows "session_file (v_id v) db' = session_file (v_id v) db"
proof -
  have other: "v_id x \<noteq> v_id v" if "lookup v_id (v_id x) (sessions db) = Some x" "v_status x \<in> {V_DRAFT, V_OPEN}" for x
    using that v distinct_key_eq [OF ids] lookup_SomeD [OF that(1)] by fastforce
  have stored: "filter (\<lambda>y. v_id y = v_id v) (store v_id r (sessions db)) = filter (\<lambda>y. v_id y = v_id v) (sessions db)"
    if "v_id r \<noteq> v_id v" for r
    using that by (intro filter_store_other) auto
  show ?thesis
    using assms(1)
  proof cases
    case (created dec x)
    then have "v_id x \<noteq> v_id v" using v(1) by auto
    then show ?thesis by (simp add: created session_file_def)
  next
    case (opened x r env es ps xs ys)
    then have x: "v_id x \<noteq> v_id v" "v_id r \<noteq> v_id v" using other [of x] by (simp_all add: session_opened_def)
    then have "filter (\<lambda>e. ev_voting_session_id e = v_id v) es = []" "filter (\<lambda>p. sp_voting_session_id p = v_id v) ps = []"
      using opened(6,7) by (simp_all add: filter_empty_conv)
    then show ?thesis using stored [OF x(2)] by (simp add: opened(14) session_file_def)
  next
    case (ballot x b)
    then have "v_id x \<noteq> v_id v" using other [of x] by simp
    then show ?thesis using ballot by (simp add: session_file_def)
  next
    case (ended x r xs ys)
    then have "v_status x \<in> {V_DRAFT, V_OPEN} \<or> r = x" using session_evolves_status by (cases "v_status x") fastforce+
    then show ?thesis
    proof
      assume "v_status x \<in> {V_DRAFT, V_OPEN}"
      then have "v_id r \<noteq> v_id v" using other [OF ended(1)] ended(3) by simp
      then show ?thesis using stored by (simp add: ended(9) session_file_def)
    next
      assume "r = x"
      then have "store v_id r (sessions db) = sessions db"
        using ended(1) distinct_key_eq [OF ids] lookup_SomeD [OF ended(1)] by (auto simp: store_def intro!: map_idI)
      then show ?thesis by (simp add: ended(9) session_file_def)
    qed
  qed
qed

end
