(* ===== verification/Lock_Records.thy ===== *)
theory Lock_Records imports Docket begin

text \<open>
  What a lock promises. Its snapshot is what \<open>build_snapshot\<close> computed when the lock was made;
  because the docket of a locked decision and the file of a closed session stand still, computing it
  again in any later state gives the same document, whose digest is the stored one.
\<close>

section \<open>What the snapshot reads\<close>

lemma first_where_filter: "first_where (\<lambda>x. P x \<and> Q x) xs = first_where P (filter Q xs)"
  by (induction xs) auto

lemma proposal_in_docket:
  "proposals_repo_get_for_decision d i db = first_where (\<lambda>p. p_id p = i) (k_proposals (docket d db))"
  by (simp add: proposals_repo_get_for_decision_def proposal_for_decision_def docket_def first_where_filter)

lemma objections_in_docket:
  assumes "of_decision d (proposals db) p"
  shows "objections_repo_list_for_proposal p None None db =
    sort_key (\<lambda>x. - o_created_at x) (filter (\<lambda>x. o_proposal_id x = p) (k_objections (docket d db)))"
  using assms by (auto simp: objections_repo_list_for_proposal_def docket_def intro!: arg_cong [of _ _ "sort_key _"] filter_cong)

lemma of_decision_docket:
  "of_decision d (proposals db) p \<longleftrightarrow> p \<in> p_id ` set (k_proposals (docket d db))"
  by (auto simp: in_decision_def docket_def)

lemma objections_snapshot_cong:
  assumes "docket d db' = docket d db" and "of_decision d (proposals db) p"
  shows "objections_snapshot p db' = objections_snapshot p db"
  using assms objections_in_docket [of d db p] objections_in_docket [of d db' p]
  by (simp add: objections_snapshot_def of_decision_docket)

lemma proposal_get_of_decision:
  "proposals_repo_get_for_decision d i db = Some p \<Longrightarrow> of_decision d (proposals db) (p_id p)"
  by (auto simp: in_decision_def dest: proposal_getD)

lemma alternatives_cong:
  assumes "docket d db' = docket d db"
  shows "alternatives d win ts db' = alternatives d win ts db"
proof (induction ts)
  case (Cons t ts)
  have "proposals_repo_get_for_decision d (t_proposal_id t) db' = proposals_repo_get_for_decision d (t_proposal_id t) db"
    by (simp add: proposal_in_docket assms)
  then show ?case
    using Cons objections_snapshot_cong [OF assms proposal_get_of_decision]
    by (cases "proposals_repo_get_for_decision d (t_proposal_id t) db") (simp_all add: alternative_snapshot_def)
qed simp

text \<open>The columns of the decision row that the snapshot holds; \<open>status\<close> is not one of them.\<close>

definition same_text :: "decision \<Rightarrow> decision \<Rightarrow> bool" where
  "same_text d d' \<longleftrightarrow> d_id d' = d_id d \<and> d_workspace_id d' = d_workspace_id d \<and>
     d_created_by_id d' = d_created_by_id d \<and> d_title d' = d_title d \<and> d_summary d' = d_summary d \<and>
     d_category d' = d_category d \<and> d_due_at d' = d_due_at d \<and> d_review_at d' = d_review_at d"

lemma build_snapshot_cong:
  assumes "docket (d_id d) db' = docket (d_id d) db" and "of_decision (d_id d) (proposals db) (p_id win)"
  shows "build_snapshot d win result db' = build_snapshot d win result db"
  unfolding build_snapshot_def alternatives_cong [OF assms(1)] objections_snapshot_cong [OF assms] ..

lemma build_snapshot_same_text:
  "same_text d d' \<Longrightarrow> build_snapshot d' win result db = build_snapshot d win result db"
  by (simp add: build_snapshot_def same_text_def)

lemma build_snapshot_tables:
  assumes "proposals db' = proposals db" and "objections db' = objections db"
  shows "build_snapshot d win result db' = build_snapshot d win result db"
proof -
  have objs: "objections_snapshot p db' = objections_snapshot p db" for p
    by (simp add: objections_snapshot_def objections_repo_list_for_proposal_def assms)
  have "alternatives d' p ts db' = alternatives d' p ts db" for d' p ts
    by (induction ts) (simp_all add: alternative_snapshot_def objs proposals_repo_get_for_decision_def assms(1))
  then show ?thesis by (simp add: build_snapshot_def objs)
qed

lemma same_text_locked [simp]: "same_text d (decision_locked env d)"
  by (simp add: same_text_def)

lemma result_of_file:
  assumes "session_file (v_id v) db' = session_file (v_id v) db"
    and "uq_session_proposals (session_proposals db)" and "uq_session_proposals (session_proposals db')"
  shows "voting_result_of v db' = voting_result_of v db"
  using assms by (intro result_cong) (simp_all add: session_file_def)

section \<open>The promise of one lock\<close>

definition lock_faithful :: "(string \<Rightarrow> string) \<Rightarrow> decision_lock \<Rightarrow> db \<Rightarrow> bool" where
  "lock_faithful H l db \<longleftrightarrow>
     (\<exists>d v win. d \<in> set (decisions db) \<and> v \<in> set (sessions db) \<and> win \<in> set (proposals db) \<and>
        d_id d = l_decision_id l \<and> d_status d = D_LOCKED \<and> d_locked_at d = Some (l_locked_at l) \<and>
        v_id v = l_voting_session_id l \<and> v_decision_id v = d_id d \<and> v_status v = V_CLOSED \<and>
        p_id win = l_winning_proposal_id l \<and> p_decision_id win = d_id d \<and> p_status win = P_SUBMITTED \<and>
        vr_winner_proposal_id (voting_result_of v db) = Some (p_id win) \<and>
        build_snapshot d win (voting_result_of v db) db = Inr (l_snapshot l) \<and>
        l_document_hash l = H (dumps (l_snapshot l)) \<and> l_snapshot_version l = 1)"

lemma lock_faithful_stands:
  assumes faithful: "lock_faithful H l db"
    and docket: "docket (l_decision_id l) db' = docket (l_decision_id l) db"
    and session: "session_file (l_voting_session_id l) db' = session_file (l_voting_session_id l) db"
    and uq: "uq_session_proposals (session_proposals db)" "uq_session_proposals (session_proposals db')"
  shows "lock_faithful H l db'"
proof -
  obtain d v win where r: "d \<in> set (decisions db)" "v \<in> set (sessions db)" "win \<in> set (proposals db)"
    and f: "d_id d = l_decision_id l" "d_status d = D_LOCKED" "d_locked_at d = Some (l_locked_at l)"
      "v_id v = l_voting_session_id l" "v_decision_id v = d_id d" "v_status v = V_CLOSED"
      "p_id win = l_winning_proposal_id l" "p_decision_id win = d_id d" "p_status win = P_SUBMITTED"
      "vr_winner_proposal_id (voting_result_of v db) = Some (p_id win)"
      "build_snapshot d win (voting_result_of v db) db = Inr (l_snapshot l)"
      "l_document_hash l = H (dumps (l_snapshot l))" "l_snapshot_version l = 1"
    using faithful unfolding lock_faithful_def by blast
  have res: "voting_result_of v db' = voting_result_of v db"
    using session f(4) by (intro result_of_file uq) simp
  have snap: "build_snapshot d win (voting_result_of v db) db' = build_snapshot d win (voting_result_of v db) db"
    using docket f(1,8) r(3) by (intro build_snapshot_cong) (auto simp: in_decision_def)
  have "d \<in> set (k_decision (docket (l_decision_id l) db))" "win \<in> set (k_proposals (docket (l_decision_id l) db))"
    "v \<in> set (f_session (session_file (l_voting_session_id l) db))"
    using r f by (simp_all add: docket_def session_file_def)
  then have "d \<in> set (decisions db')" "win \<in> set (proposals db')" "v \<in> set (sessions db')"
    unfolding docket [symmetric] session [symmetric] by (simp_all add: docket_def session_file_def)
  then show ?thesis unfolding lock_faithful_def using f res snap by (intro exI [of _ d] exI [of _ v] exI [of _ win]) simp
qed

section \<open>The table of locks\<close>

definition lock_inv :: "(string \<Rightarrow> string) \<Rightarrow> db \<Rightarrow> bool" where
  "lock_inv H db \<longleftrightarrow>
     distinct (map l_id (locks db)) \<and> distinct (map l_decision_id (locks db)) \<and>
     distinct (map l_voting_session_id (locks db)) \<and>
     (\<forall>l \<in> set (locks db). lock_faithful H l db) \<and>
     (\<forall>d \<in> set (decisions db). d_status d = D_LOCKED \<longrightarrow> d_id d \<in> l_decision_id ` set (locks db))"

lemma lock_invD:
  assumes "lock_inv H db"
  shows "distinct (map l_id (locks db))" and "distinct (map l_decision_id (locks db))"
    and "distinct (map l_voting_session_id (locks db))"
    and "l \<in> set (locks db) \<Longrightarrow> lock_faithful H l db"
    and "d \<in> set (decisions db) \<Longrightarrow> d_status d = D_LOCKED \<Longrightarrow> d_id d \<in> l_decision_id ` set (locks db)"
  using assms by (simp_all add: lock_inv_def)

lemma lock_faithful_sealed: "lock_faithful H l db \<Longrightarrow> sealed (l_decision_id l) db"
  by (auto simp: lock_faithful_def sealed_def decision_final_def)

text \<open>
  A step of another component keeps the invariant if it keeps the lock table, the dockets of the
  locked decisions and the files of their sessions, and locks no decision.
\<close>

lemma lock_inv_other:
  assumes inv: "lock_inv H db" and same: "locks db' = locks db"
    and docket: "\<And>l. l \<in> set (locks db) \<Longrightarrow> docket (l_decision_id l) db' = docket (l_decision_id l) db"
    and session: "\<And>l. l \<in> set (locks db) \<Longrightarrow>
       session_file (l_voting_session_id l) db' = session_file (l_voting_session_id l) db"
    and uq: "uq_session_proposals (session_proposals db)" "uq_session_proposals (session_proposals db')"
    and new: "\<And>d. d \<in> set (decisions db') \<Longrightarrow> d_status d = D_LOCKED \<Longrightarrow>
       \<exists>x \<in> set (decisions db). d_id x = d_id d \<and> d_status x = D_LOCKED"
  shows "lock_inv H db'"
proof -
  have "d_id d \<in> l_decision_id ` set (locks db)" if d: "d \<in> set (decisions db')" "d_status d = D_LOCKED" for d
    using new [OF d] lock_invD(5) [OF inv] by metis
  moreover have "lock_faithful H l db'" if "l \<in> set (locks db)" for l
    by (rule lock_faithful_stands [OF lock_invD(4) [OF inv that] docket [OF that] session [OF that] uq])
  ultimately show ?thesis using lock_invD(1-3) [OF inv] by (simp add: lock_inv_def same)
qed

inductive lock_step :: "(string \<Rightarrow> string) \<Rightarrow> db \<Rightarrow> db \<Rightarrow> bool" for H where
  create: "sha256_hex env = H \<Longrightarrow> lock_create env me w d i db = Inr (l, db') \<Longrightarrow> lock_step H db db'"

lemma lockable_docket:
  assumes "lockable i v win snapshot dec db"
  shows "v \<in> set (sessions db)" and "v_id v = i" and "v_decision_id v = d_id dec"
    and "win \<in> set (proposals db)" and "p_decision_id win = d_id dec"
    and "of_decision (d_id dec) (proposals db) (p_id win)"
  using assms by (auto simp: lockable_def in_decision_def dest: session_getD proposal_getD)

lemma lock_step_inv:
  assumes "lock_step H db db'" and ids: "distinct (map d_id (decisions db))" and inv: "lock_inv H db"
    and uq: "uq_session_proposals (session_proposals db)"
  shows "lock_inv H db'"
  using assms(1)
proof cases
  case (create env me w d i l)
  from create(2) ids show ?thesis
  proof (rule lock_create_InrD)
    fix m dec v win snapshot xs ys
    assume ctx: "decision_context (u_id me) w d db = Inr (m, dec)" and able: "lockable i v win snapshot dec db"
      and l: "l = lock_row env me dec i win snapshot" "l_id l \<notin> l_id ` set (locks db)" "ck_decision_locks (locks db) l"
      and db': "db' = db\<lparr>decisions := store d_id (decision_locked env dec) (decisions db), locks := locks db @ [l],
                  outbox := xs, published := ys\<rparr>"
    note V = lockable_docket [OF able]
    have dec: "dec \<in> set (decisions db)" using ctx by (auto dest: decision_getD)
    have stored: "decision_locked env dec \<in> set (decisions db')"
      using dec by (auto simp: db' set_store)
    have res: "voting_result_of v db' = voting_result_of v db"
      using uq by (intro result_of_file) (simp_all add: db' session_file_def)
    have snap: "build_snapshot (decision_locked env dec) win result db' = build_snapshot dec win result db" for result
      using build_snapshot_same_text [OF same_text_locked] build_snapshot_tables [of db' db]
      by (simp add: db')
    have "lock_faithful H l db'"
      unfolding lock_faithful_def
      using stored V able res snap create(1)
      by (intro exI [of _ "decision_locked env dec"] exI [of _ v] exI [of _ win])
        (auto simp: l(1) lock_row_def lockable_def hash_snapshot_def db')
    moreover have "lock_faithful H x db'" if x: "x \<in> set (locks db)" for x
    proof -
      have "d_id (decision_locked env dec) \<noteq> l_decision_id x"
        using able x by (auto simp: lockable_def)
      then have "docket (l_decision_id x) db' = docket (l_decision_id x) db"
        by (simp add: db' docket_store_decision)
      then show ?thesis
        using lock_faithful_stands [OF lock_invD(4) [OF inv x]] uq by (simp add: db' session_file_def)
    qed
    moreover have "d_id y \<in> l_decision_id ` set (locks db')" if "y \<in> set (decisions db')" "d_status y = D_LOCKED" for y
      using that lock_invD(5) [OF inv] by (auto simp: db' l(1) lock_row_def dest!: mem_storeD)
    ultimately show ?thesis
      using lock_invD(1-3) [OF inv] l by (auto simp: lock_inv_def db' ck_decision_locks_def)
  qed
qed

lemma lock_step_decisions:
  assumes "lock_step H db db'" and inv: "decision_inv (decisions db)"
  shows "decision_inv (decisions db')" and "decisions_follow (decisions db) (decisions db')"
proof -
  note ids = decision_inv_distinct [OF inv]
  have "decision_inv (decisions db') \<and> decisions_follow (decisions db) (decisions db')"
    using assms(1)
  proof cases
    case (create env me w d i l)
    from create(2) ids show ?thesis
    proof (rule lock_create_InrD)
      fix m dec v win snapshot xs ys
      assume ctx: "decision_context (u_id me) w d db = Inr (m, dec)" and able: "lockable i v win snapshot dec db"
        and db': "db' = db\<lparr>decisions := store d_id (decision_locked env dec) (decisions db), locks := locks db @ [l],
                  outbox := xs, published := ys\<rparr>"
      have dec: "decisions_repo_get_for_workspace w d db = Some dec" using ctx by simp
      have row: "decision_row_ok dec" "d_status dec = D_ACTIVE"
        using decision_get_row [OF inv dec] able by (simp_all add: lockable_def)
      show ?thesis
        using decision_inv_store [OF inv decision_locked_ok(1) [OF row]]
          decision_history.store [OF ids decision_get_lookup [OF ids dec] decision_locked_ok(2) [OF row]]
        by (simp add: db')
    qed
  qed
  then show "decision_inv (decisions db')" "decisions_follow (decisions db) (decisions db')" by simp_all
qed

section \<open>Verification\<close>

lemma lock_get_Inr:
  "lock_get me w d db = Inr l \<longleftrightarrow>
     (\<exists>m dec. decision_context (u_id me) w d db = Inr (m, dec)) \<and> locks_repo_get_for_decision d db = Some l"
  by (auto simp: lock_get_def)

text \<open>
  PostgreSQL may hand the keys of a stored JSON object back in another order; the digest is taken
  of the text with sorted keys, so it does not see the difference.
\<close>

lemma verify_reordered:
  assumes "lock_get me w d db = Inr l" and "canon (l_snapshot l) = canon snapshot"
    and "l_document_hash l = hash_snapshot env snapshot"
  shows "\<exists>r. lock_verify env me w d db = Inr r \<and> lv_valid r"
  using assms dumps_cong [OF assms(2)] by (simp add: lock_verify_def hash_snapshot_def Let_def)

lemma lock_verify_Inr:
  "lock_verify env me w d db = Inr r \<longleftrightarrow>
     (\<exists>l. lock_get me w d db = Inr l \<and>
        r = \<lparr>lv_decision_id = d, lv_document_hash = l_document_hash l,
             lv_computed_hash = sha256_hex env (dumps (l_snapshot l)),
             lv_valid = (sha256_hex env (dumps (l_snapshot l)) = l_document_hash l)\<rparr>)"
  by (auto simp: lock_verify_def hash_snapshot_def Let_def)

text \<open>The snapshot does not tell who voted for what: renaming the voters leaves it as it is.\<close>

lemma snapshot_rename_voters:
  "build_snapshot d win result (db\<lparr>votes := bs\<rparr>) = build_snapshot d win result db"
  by (rule build_snapshot_tables) simp_all

end
