(* ===== verification/Action_Reviews.thy ===== *)
theory Action_Reviews imports Locks begin

text \<open>
  What follows a lock: implementation actions, scheduled reviews and the revisions they lead to.
  \<open>app/schemas/action_review.py\<close>, \<open>app/repositories/action_review.py\<close>,
  \<open>app/services/action_review.py\<close>. A review that does not confirm the decision opens a new draft
  decision; the row in \<open>decision_revisions\<close> links the two.
\<close>

section \<open>Requests\<close>

record action_create_body =
  acb_title :: string
  acb_description :: "string option"
  acb_assignee_id :: uuid
  acb_due_at :: "datetime option"

record action_create_request =
  ac_title :: string
  ac_description :: "string option"
  ac_assignee_id :: uuid
  ac_due_at :: "time option"

definition ActionCreateRequest :: "action_create_body \<Rightarrow> error + action_create_request" where
  "ActionCreateRequest b =
     bindE (normalized_field 3 200 (acb_title b)) (\<lambda>title.
     bindE (optional_field py_strip 5000 (acb_description b)) (\<lambda>description.
     bindE (require_timezone (acb_due_at b)) (\<lambda>due_at.
     Inr \<lparr>ac_title = title, ac_description = description, ac_assignee_id = acb_assignee_id b, ac_due_at = due_at\<rparr>)))"

record action_update_body =
  aub_title :: "string patch"
  aub_description :: "string patch"
  aub_assignee_id :: "uuid patch"
  aub_due_at :: "datetime patch"

record action_update_request =
  au_title :: "string patch"
  au_description :: "string patch"
  au_assignee_id :: "uuid patch"
  au_due_at :: "time patch"

definition ActionUpdateRequest :: "action_update_body \<Rightarrow> error + action_update_request" where
  "ActionUpdateRequest b =
     bindE (patch_field (normalized_field 3 200) (aub_title b)) (\<lambda>title.
     bindE (patch_optional (optional_field py_strip 5000) (aub_description b)) (\<lambda>description.
     bindE (patch_optional require_timezone (aub_due_at b)) (\<lambda>due_at.
     Inr \<lparr>au_title = title, au_description = description, au_assignee_id = aub_assignee_id b, au_due_at = due_at\<rparr>)))"

record review_create_body =
  rcb_scheduled_for :: datetime
  rcb_notes :: "string option"

record review_create_request =
  rc_scheduled_for :: time
  rc_notes :: "string option"

definition ReviewCreateRequest :: "review_create_body \<Rightarrow> error + review_create_request" where
  "ReviewCreateRequest b =
     bindE (require_timezone (Some (rcb_scheduled_for b))) (\<lambda>scheduled_for.
     bindE (optional_field py_strip 5000 (rcb_notes b)) (\<lambda>notes.
     Inr \<lparr>rc_scheduled_for = the scheduled_for, rc_notes = notes\<rparr>))"

record review_update_body =
  rub_scheduled_for :: "datetime patch"
  rub_notes :: "string patch"

record review_update_request =
  ru_scheduled_for :: "time patch"
  ru_notes :: "string patch"

definition ReviewUpdateRequest :: "review_update_body \<Rightarrow> error + review_update_request" where
  "ReviewUpdateRequest b =
     bindE (patch_optional require_timezone (rub_scheduled_for b)) (\<lambda>scheduled_for.
     bindE (patch_optional (optional_field py_strip 5000) (rub_notes b)) (\<lambda>notes.
     Inr \<lparr>ru_scheduled_for = scheduled_for, ru_notes = notes\<rparr>))"

record review_outcome_request =
  ro_outcome :: review_outcome
  ro_rationale :: string
  ro_successor_title :: "string option"
  ro_successor_summary :: "string option"
  ro_successor_category :: "decision_category option"

fun optional_title :: "string option \<Rightarrow> error + string option" where
  "optional_title None = Inr None"
| "optional_title (Some s) = bindE (normalized_field 3 200 s) (\<lambda>t. Inr (Some t))"

definition ReviewOutcomeRequest :: "review_outcome_request \<Rightarrow> error + review_outcome_request" where
  "ReviewOutcomeRequest b =
     bindE (normalized_field 3 5000 (ro_rationale b)) (\<lambda>rationale.
     bindE (optional_title (ro_successor_title b)) (\<lambda>title.
     bindE (optional_field py_strip 5000 (ro_successor_summary b)) (\<lambda>summary.
     bindE (ensure (\<not> (ro_outcome b = CONFIRMED \<and>
              (title \<noteq> None \<or> summary \<noteq> None \<or> ro_successor_category b \<noteq> None))) ValidationError) (\<lambda>_.
     bindE (ensure (\<not> (ro_outcome b = SUPERSEDED \<and> title = None)) ValidationError) (\<lambda>_.
     Inr (b\<lparr>ro_rationale := rationale, ro_successor_title := title, ro_successor_summary := summary\<rparr>))))))"

section \<open>The repository: actions\<close>

definition records_repo_create_action :: "implementation_action \<Rightarrow> db \<Rightarrow> error + implementation_action \<times> db" where
  "records_repo_create_action a db =
     bindE (flush_insert a_id ck_implementation_actions a (actions db)) (\<lambda>as. Inr (a, db\<lparr>actions := as\<rparr>))"

text \<open>\<open>ORDER BY due_at ASC NULLS LAST, created_at ASC\<close>\<close>

definition records_repo_list_actions ::
  "uuid \<Rightarrow> action_status option \<Rightarrow> uuid option \<Rightarrow> db \<Rightarrow> implementation_action list" where
  "records_repo_list_actions d status assignee db =
     (let rows = sort_key a_created_at
            (filter (\<lambda>a. a_decision_id a = d \<and> (\<forall>s \<in> set_option status. a_status a = s) \<and>
                       (\<forall>u \<in> set_option assignee. a_assignee_id a = u)) (actions db))
      in sort_key (\<lambda>a. the (a_due_at a)) (filter (\<lambda>a. a_due_at a \<noteq> None) rows) @
         filter (\<lambda>a. a_due_at a = None) rows)"

definition action_for_decision :: "uuid \<Rightarrow> uuid \<Rightarrow> implementation_action list \<Rightarrow> implementation_action option" where
  "action_for_decision d i as = first_where (\<lambda>a. a_id a = i \<and> a_decision_id a = d) as"

definition records_repo_get_action :: "uuid \<Rightarrow> uuid \<Rightarrow> db \<Rightarrow> implementation_action option" where
  "records_repo_get_action d i db = action_for_decision d i (actions db)"

interpretation action_table: scoped_table a_id a_decision_id action_for_decision
  by unfold_locales (auto simp: action_for_decision_def first_where_None_iff dest!: first_where_SomeD)

definition write_action ::
  "env \<Rightarrow> implementation_action \<Rightarrow> implementation_action \<Rightarrow> implementation_action \<Rightarrow> implementation_action" where
  "write_action env old new cur =
     (if new = old then cur
      else cur\<lparr>a_assignee_id := put_if_dirty (a_assignee_id old) (a_assignee_id new) (a_assignee_id cur),
               a_title := put_if_dirty (a_title old) (a_title new) (a_title cur),
               a_description := put_if_dirty (a_description old) (a_description new) (a_description cur),
               a_status := put_if_dirty (a_status old) (a_status new) (a_status cur),
               a_due_at := put_if_dirty (a_due_at old) (a_due_at new) (a_due_at cur),
               a_completed_at := put_if_dirty (a_completed_at old) (a_completed_at new) (a_completed_at cur),
               a_cancelled_at := put_if_dirty (a_cancelled_at old) (a_cancelled_at new) (a_cancelled_at cur),
               a_updated_at := db_now env\<rparr>)"

definition save_action ::
  "env \<Rightarrow> implementation_action \<Rightarrow> implementation_action \<Rightarrow> db \<Rightarrow> error + implementation_action \<times> db" where
  "save_action env old new db =
     bindE (flush_update a_id ck_implementation_actions (a_id old) (write_action env old new) (actions db))
       (\<lambda>(a, as). Inr (a, db\<lparr>actions := as\<rparr>))"

text \<open>
  \<open>setattr\<close> with every field of the request, \<open>None\<close> too: for the NOT NULL columns that is an
  \<open>IntegrityError\<close> of the commit, which nobody catches.
\<close>

definition records_repo_update_action ::
  "env \<Rightarrow> implementation_action \<Rightarrow> action_update_request \<Rightarrow> db \<Rightarrow> error + implementation_action \<times> db" where
  "records_repo_update_action env a values db =
     bindE (ensure (au_title values \<noteq> Present None \<and> au_assignee_id values \<noteq> Present None) IntegrityError) (\<lambda>_.
     save_action env a (a\<lparr>
       a_title := patch_required (au_title values) (a_title a),
       a_description := patch_nullable (au_description values) (a_description a),
       a_assignee_id := patch_required (au_assignee_id values) (a_assignee_id a),
       a_due_at := patch_nullable (au_due_at values) (a_due_at a)\<rparr>) db)"

definition records_repo_transition_action ::
  "env \<Rightarrow> implementation_action \<Rightarrow> action_status \<Rightarrow> time option \<Rightarrow> time option \<Rightarrow> db
     \<Rightarrow> error + implementation_action \<times> db" where
  "records_repo_transition_action env a status completed_at cancelled_at db =
     save_action env a (a\<lparr>a_status := status, a_completed_at := completed_at, a_cancelled_at := cancelled_at\<rparr>) db"

section \<open>The repository: reviews and revisions\<close>

definition records_repo_create_review :: "decision_review \<Rightarrow> db \<Rightarrow> error + decision_review \<times> db" where
  "records_repo_create_review r db =
     on_integrity_error ReviewConflictError
       (bindE (flush_insert r_id ck_decision_reviews r (reviews db)) (\<lambda>rs.
        bindE (ensure (uq_one_scheduled rs) IntegrityError) (\<lambda>_.
        Inr (r, db\<lparr>reviews := rs\<rparr>))))"

definition records_repo_list_reviews :: "uuid \<Rightarrow> db \<Rightarrow> decision_review list" where
  "records_repo_list_reviews d db =
     sort_key (\<lambda>r. - r_scheduled_for r) (filter (\<lambda>r. r_decision_id r = d) (reviews db))"

definition review_for_decision :: "uuid \<Rightarrow> uuid \<Rightarrow> decision_review list \<Rightarrow> decision_review option" where
  "review_for_decision d i rs = first_where (\<lambda>r. r_id r = i \<and> r_decision_id r = d) rs"

definition records_repo_get_review :: "uuid \<Rightarrow> uuid \<Rightarrow> db \<Rightarrow> decision_review option" where
  "records_repo_get_review d i db = review_for_decision d i (reviews db)"

interpretation review_table: scoped_table r_id r_decision_id review_for_decision
  by unfold_locales (auto simp: review_for_decision_def first_where_None_iff dest!: first_where_SomeD)

definition write_review :: "env \<Rightarrow> decision_review \<Rightarrow> decision_review \<Rightarrow> decision_review \<Rightarrow> decision_review" where
  "write_review env old new cur =
     (if new = old then cur
      else cur\<lparr>r_scheduled_for := put_if_dirty (r_scheduled_for old) (r_scheduled_for new) (r_scheduled_for cur),
               r_status := put_if_dirty (r_status old) (r_status new) (r_status cur),
               r_notes := put_if_dirty (r_notes old) (r_notes new) (r_notes cur),
               r_outcome := put_if_dirty (r_outcome old) (r_outcome new) (r_outcome cur),
               r_outcome_rationale :=
                 put_if_dirty (r_outcome_rationale old) (r_outcome_rationale new) (r_outcome_rationale cur),
               r_completed_by_id := put_if_dirty (r_completed_by_id old) (r_completed_by_id new) (r_completed_by_id cur),
               r_completed_at := put_if_dirty (r_completed_at old) (r_completed_at new) (r_completed_at cur),
               r_cancelled_by_id := put_if_dirty (r_cancelled_by_id old) (r_cancelled_by_id new) (r_cancelled_by_id cur),
               r_cancelled_at := put_if_dirty (r_cancelled_at old) (r_cancelled_at new) (r_cancelled_at cur),
               r_updated_at := db_now env\<rparr>)"

text \<open>No update makes a review scheduled, so the partial unique index has nothing to check here.\<close>

definition save_review :: "env \<Rightarrow> decision_review \<Rightarrow> decision_review \<Rightarrow> db \<Rightarrow> error + decision_review \<times> db" where
  "save_review env old new db =
     bindE (flush_update r_id ck_decision_reviews (r_id old) (write_review env old new) (reviews db))
       (\<lambda>(r, rs). Inr (r, db\<lparr>reviews := rs\<rparr>))"

definition records_repo_update_review ::
  "env \<Rightarrow> decision_review \<Rightarrow> (decision_review \<Rightarrow> decision_review) \<Rightarrow> db \<Rightarrow> error + decision_review \<times> db" where
  "records_repo_update_review env r values db = save_review env r (values r) db"

definition records_repo_cancel_review ::
  "env \<Rightarrow> decision_review \<Rightarrow> uuid \<Rightarrow> time \<Rightarrow> db \<Rightarrow> error + decision_review \<times> db" where
  "records_repo_cancel_review env r cancelled_by cancelled_at db =
     save_review env r (r\<lparr>r_status := R_CANCELLED, r_cancelled_by_id := Some cancelled_by,
                         r_cancelled_at := Some cancelled_at\<rparr>) db"

definition records_repo_get_decision_lock :: "uuid \<Rightarrow> db \<Rightarrow> decision_lock option" where
  "records_repo_get_decision_lock d db = first_where (\<lambda>l. l_decision_id l = d) (locks db)"

definition records_repo_get_revision_root :: "uuid \<Rightarrow> db \<Rightarrow> uuid" where
  "records_repo_get_revision_root d db =
     (case first_where (\<lambda>n. n_successor_decision_id n = d) (revisions db) of
        Some n \<Rightarrow> n_root_decision_id n
      | None \<Rightarrow> d)"

definition records_repo_next_revision_number :: "uuid \<Rightarrow> db \<Rightarrow> int" where
  "records_repo_next_revision_number root_id db =
     (case filter (\<lambda>n. n_root_decision_id n = root_id) (revisions db) of
        [] \<Rightarrow> 1
      | ns \<Rightarrow> Max (set (map n_revision_number ns)) + 1)"

definition review_completed :: "review_outcome \<Rightarrow> string \<Rightarrow> uuid \<Rightarrow> time \<Rightarrow> decision_review \<Rightarrow> decision_review" where
  "review_completed outcome rationale completed_by completed_at r =
     r\<lparr>r_status := R_COMPLETED, r_outcome := Some outcome, r_outcome_rationale := Some rationale,
       r_completed_by_id := Some completed_by, r_completed_at := Some completed_at\<rparr>"

definition records_repo_complete_review ::
  "env \<Rightarrow> decision_review \<Rightarrow> review_outcome \<Rightarrow> string \<Rightarrow> uuid \<Rightarrow> time \<Rightarrow> db \<Rightarrow> error + decision_review \<times> db" where
  "records_repo_complete_review env r outcome rationale completed_by completed_at db =
     save_review env r (review_completed outcome rationale completed_by completed_at r) db"

text \<open>The foreign keys of a new revision are checked at its INSERT.\<close>

definition insert_revision :: "decision_revision \<Rightarrow> db \<Rightarrow> error + db" where
  "insert_revision n db =
     bindE (ensure (n_successor_decision_id n \<in> d_id ` set (decisions db)) IntegrityError) (\<lambda>_.
     bindE (flush_insert n_id (ck_decision_revisions (revisions db)) n (revisions db)) (\<lambda>ns.
     Inr (db\<lparr>revisions := ns\<rparr>)))"

definition insert_decision :: "decision \<Rightarrow> db \<Rightarrow> error + db" where
  "insert_decision d db =
     bindE (flush_insert d_id ck_decisions_locked_state d (decisions db)) (\<lambda>ds. Inr (db\<lparr>decisions := ds\<rparr>))"

definition records_repo_complete_review_with_revision ::
  "env \<Rightarrow> decision_review \<Rightarrow> decision \<Rightarrow> decision_revision \<Rightarrow> uuid \<Rightarrow> time \<Rightarrow> db
     \<Rightarrow> error + (decision_review \<times> decision_revision \<times> decision) \<times> db" where
  "records_repo_complete_review_with_revision env r successor revision completed_by completed_at db =
     on_integrity_error ReviewConflictError
       (bindE (save_review env r
                (review_completed (n_outcome revision) (n_rationale revision) completed_by completed_at r) db)
          (\<lambda>(r', db1).
        bindE (if revision_first env
               then bindE (insert_revision revision db1) (insert_decision successor)
               else bindE (insert_decision successor db1) (insert_revision revision))
          (\<lambda>db2. Inr ((r', revision, successor), db2))))"

definition records_repo_list_revisions :: "uuid \<Rightarrow> db \<Rightarrow> decision_revision list" where
  "records_repo_list_revisions root_id db =
     sort_key n_revision_number (filter (\<lambda>n. n_root_decision_id n = root_id) (revisions db))"

definition records_repo_get_revision :: "uuid \<Rightarrow> uuid \<Rightarrow> db \<Rightarrow> decision_revision option" where
  "records_repo_get_revision root_id i db =
     first_where (\<lambda>n. n_id n = i \<and> n_root_decision_id n = root_id) (revisions db)"

section \<open>The service: actions\<close>

fun ACTION_TRANSITIONS :: "action_status \<Rightarrow> action_status set" where
  "ACTION_TRANSITIONS A_TODO = {A_IN_PROGRESS, A_BLOCKED, A_COMPLETED, A_CANCELLED}"
| "ACTION_TRANSITIONS A_IN_PROGRESS = {A_TODO, A_BLOCKED, A_COMPLETED, A_CANCELLED}"
| "ACTION_TRANSITIONS A_BLOCKED = {A_TODO, A_IN_PROGRESS, A_COMPLETED, A_CANCELLED}"
| "ACTION_TRANSITIONS A_COMPLETED = {}"
| "ACTION_TRANSITIONS A_CANCELLED = {}"

definition action_final :: "action_status \<Rightarrow> bool" where
  "action_final s \<longleftrightarrow> s \<in> {A_COMPLETED, A_CANCELLED}"

interpretation action_cycle: lifecycle ACTION_TRANSITIONS action_final
proof
  show "action_final s \<longleftrightarrow> ACTION_TRANSITIONS s = {}" for s by (cases s) (simp_all add: action_final_def)
  show "s \<notin> ACTION_TRANSITIONS s" for s by (cases s) simp_all
qed

definition require_locked :: "decision \<Rightarrow> error + unit" where
  "require_locked d = ensure (d_status d = D_LOCKED) DecisionImmutableError"

definition require_eligible_assignee :: "uuid \<Rightarrow> uuid \<Rightarrow> db \<Rightarrow> error + unit" where
  "require_eligible_assignee w assignee db =
     (case workspaces_repo_get_membership w assignee db of
        None \<Rightarrow> Inl ActionAssigneeInvalidError
      | Some m \<Rightarrow> ensure (m_role m \<noteq> VIEWER) ActionAssigneeInvalidError)"

definition require_action :: "uuid \<Rightarrow> uuid \<Rightarrow> db \<Rightarrow> error + implementation_action" where
  "require_action d i db = require (records_repo_get_action d i db) ActionNotFoundError"

definition action_create ::
  "env \<Rightarrow> user \<Rightarrow> uuid \<Rightarrow> uuid \<Rightarrow> action_create_request \<Rightarrow> db \<Rightarrow> error + implementation_action \<times> db" where
  "action_create env me w d payload db =
     bindE (decision_context (u_id me) w d db) (\<lambda>(m, decision).
     bindE (ensure (can_manage_actions (m_role m)) ActionAccessDeniedError) (\<lambda>_.
     bindE (require_locked decision) (\<lambda>_.
     bindE (require_eligible_assignee w (ac_assignee_id payload) db) (\<lambda>_.
     records_repo_create_action
       \<lparr>a_id = fresh env 0, a_decision_id = d_id decision, a_created_by_id = u_id me,
        a_assignee_id = ac_assignee_id payload, a_title = ac_title payload, a_description = ac_description payload,
        a_status = A_TODO, a_due_at = ac_due_at payload, a_completed_at = None, a_cancelled_at = None,
        a_created_at = db_now env, a_updated_at = db_now env\<rparr> db))))"

definition action_list ::
  "user \<Rightarrow> uuid \<Rightarrow> uuid \<Rightarrow> action_status option \<Rightarrow> uuid option \<Rightarrow> db \<Rightarrow> error + implementation_action list" where
  "action_list me w d status assignee db =
     bindE (decision_context (u_id me) w d db) (\<lambda>_. Inr (records_repo_list_actions d status assignee db))"

definition action_get :: "user \<Rightarrow> uuid \<Rightarrow> uuid \<Rightarrow> uuid \<Rightarrow> db \<Rightarrow> error + implementation_action" where
  "action_get me w d i db = bindE (decision_context (u_id me) w d db) (\<lambda>_. require_action d i db)"

definition action_update ::
  "env \<Rightarrow> user \<Rightarrow> uuid \<Rightarrow> uuid \<Rightarrow> uuid \<Rightarrow> action_update_request \<Rightarrow> db \<Rightarrow> error + implementation_action \<times> db" where
  "action_update env me w d i payload db =
     bindE (decision_context (u_id me) w d db) (\<lambda>(m, decision).
     bindE (ensure (can_manage_actions (m_role m)) ActionAccessDeniedError) (\<lambda>_.
     bindE (require_locked decision) (\<lambda>_.
     bindE (require_action d i db) (\<lambda>a.
     bindE (ensure (a_status a \<notin> {A_COMPLETED, A_CANCELLED}) ActionInvalidTransitionError) (\<lambda>_.
     bindE (case patch_value (au_assignee_id payload) of
              None \<Rightarrow> Inr ()
            | Some u \<Rightarrow> require_eligible_assignee w u db) (\<lambda>_.
     records_repo_update_action env a payload db))))))"

definition action_transition ::
  "env \<Rightarrow> user \<Rightarrow> uuid \<Rightarrow> uuid \<Rightarrow> uuid \<Rightarrow> action_status \<Rightarrow> db \<Rightarrow> error + implementation_action \<times> db" where
  "action_transition env me w d i target db =
     bindE (decision_context (u_id me) w d db) (\<lambda>(m, decision).
     bindE (require_locked decision) (\<lambda>_.
     bindE (require_action d i db) (\<lambda>a.
     bindE (ensure (can_transition_action (m_role m) (u_id me) (a_assignee_id a)) ActionAccessDeniedError) (\<lambda>_.
     bindE (ensure (target \<in> ACTION_TRANSITIONS (a_status a)) ActionInvalidTransitionError) (\<lambda>_.
     records_repo_transition_action env a target
       (if target = A_COMPLETED then Some (now env) else None)
       (if target = A_CANCELLED then Some (now env) else None) db)))))"

section \<open>The service: reviews and revisions\<close>

definition require_review :: "uuid \<Rightarrow> uuid \<Rightarrow> db \<Rightarrow> error + decision_review" where
  "require_review d i db = require (records_repo_get_review d i db) ReviewNotFoundError"

definition require_future_review :: "env \<Rightarrow> time \<Rightarrow> error + unit" where
  "require_future_review env scheduled_for = ensure (now env < scheduled_for) ReviewInvalidScheduleError"

definition review_create ::
  "env \<Rightarrow> user \<Rightarrow> uuid \<Rightarrow> uuid \<Rightarrow> review_create_request \<Rightarrow> db \<Rightarrow> error + decision_review \<times> db" where
  "review_create env me w d payload db =
     bindE (decision_context (u_id me) w d db) (\<lambda>(m, decision).
     bindE (ensure (can_manage_reviews (m_role m)) ReviewAccessDeniedError) (\<lambda>_.
     bindE (require_locked decision) (\<lambda>_.
     bindE (require_future_review env (rc_scheduled_for payload)) (\<lambda>_.
     records_repo_create_review
       \<lparr>r_id = fresh env 0, r_decision_id = d_id decision, r_scheduled_by_id = u_id me,
        r_scheduled_for = rc_scheduled_for payload, r_status = R_SCHEDULED, r_notes = rc_notes payload,
        r_outcome = None, r_outcome_rationale = None, r_completed_by_id = None, r_completed_at = None,
        r_cancelled_by_id = None, r_cancelled_at = None, r_created_at = db_now env, r_updated_at = db_now env\<rparr> db))))"

definition review_list :: "user \<Rightarrow> uuid \<Rightarrow> uuid \<Rightarrow> db \<Rightarrow> error + decision_review list" where
  "review_list me w d db = bindE (decision_context (u_id me) w d db) (\<lambda>_. Inr (records_repo_list_reviews d db))"

definition review_get :: "user \<Rightarrow> uuid \<Rightarrow> uuid \<Rightarrow> uuid \<Rightarrow> db \<Rightarrow> error + decision_review" where
  "review_get me w d i db = bindE (decision_context (u_id me) w d db) (\<lambda>_. require_review d i db)"

fun new_schedule :: "env \<Rightarrow> time patch \<Rightarrow> error + unit" where
  "new_schedule env Absent = Inr ()"
| "new_schedule env (Present None) = Inl ReviewInvalidScheduleError"
| "new_schedule env (Present (Some t)) = require_future_review env t"

definition review_update ::
  "env \<Rightarrow> user \<Rightarrow> uuid \<Rightarrow> uuid \<Rightarrow> uuid \<Rightarrow> review_update_request \<Rightarrow> db \<Rightarrow> error + decision_review \<times> db" where
  "review_update env me w d i payload db =
     bindE (decision_context (u_id me) w d db) (\<lambda>(m, decision).
     bindE (ensure (can_manage_reviews (m_role m)) ReviewAccessDeniedError) (\<lambda>_.
     bindE (require_locked decision) (\<lambda>_.
     bindE (require_review d i db) (\<lambda>r.
     bindE (ensure (r_status r = R_SCHEDULED) ReviewInvalidScheduleError) (\<lambda>_.
     bindE (new_schedule env (ru_scheduled_for payload)) (\<lambda>_.
     records_repo_update_review env r (\<lambda>r. r\<lparr>
       r_scheduled_for := patch_required (ru_scheduled_for payload) (r_scheduled_for r),
       r_notes := patch_nullable (ru_notes payload) (r_notes r)\<rparr>) db))))))"

definition review_cancel ::
  "env \<Rightarrow> user \<Rightarrow> uuid \<Rightarrow> uuid \<Rightarrow> uuid \<Rightarrow> db \<Rightarrow> error + decision_review \<times> db" where
  "review_cancel env me w d i db =
     bindE (decision_context (u_id me) w d db) (\<lambda>(m, decision).
     bindE (ensure (can_manage_reviews (m_role m)) ReviewAccessDeniedError) (\<lambda>_.
     bindE (require_locked decision) (\<lambda>_.
     bindE (require_review d i db) (\<lambda>r.
     bindE (ensure (r_status r = R_SCHEDULED) ReviewInvalidScheduleError) (\<lambda>_.
     records_repo_cancel_review env r (u_id me) (now env) db)))))"

record review_outcome_result =
  ror_review :: decision_review
  ror_revision :: "decision_revision option"
  ror_successor_decision :: "decision option"

text \<open>The draft that takes over: \<open>x or y\<close> also passes over an empty title.\<close>

definition successor_of :: "env \<Rightarrow> user \<Rightarrow> decision \<Rightarrow> review_outcome_request \<Rightarrow> decision" where
  "successor_of env me d payload =
     \<lparr>d_id = fresh env 0, d_workspace_id = d_workspace_id d, d_created_by_id = u_id me,
      d_title = (case ro_successor_title payload of None \<Rightarrow> d_title d | Some t \<Rightarrow> if t = [] then d_title d else t),
      d_summary = (case ro_successor_summary payload of None \<Rightarrow> d_summary d | Some s \<Rightarrow> Some s),
      d_category = (case ro_successor_category payload of None \<Rightarrow> d_category d | Some c \<Rightarrow> c),
      d_status = D_DRAFT, d_due_at = None, d_review_at = None, d_closed_at = None, d_archived_at = None,
      d_locked_at = None, d_created_at = db_now env, d_updated_at = db_now env\<rparr>"

definition review_complete ::
  "env \<Rightarrow> user \<Rightarrow> uuid \<Rightarrow> uuid \<Rightarrow> uuid \<Rightarrow> review_outcome_request \<Rightarrow> db \<Rightarrow> error + review_outcome_result \<times> db" where
  "review_complete env me w d i payload db =
     bindE (decision_context (u_id me) w d db) (\<lambda>(m, decision).
     bindE (ensure (can_manage_reviews (m_role m)) ReviewAccessDeniedError) (\<lambda>_.
     bindE (require_locked decision) (\<lambda>_.
     bindE (require_review d i db) (\<lambda>r.
     bindE (ensure (r_status r = R_SCHEDULED) ReviewOutcomeInvalidError) (\<lambda>_.
     bindE (ensure (r_scheduled_for r \<le> now env) ReviewNotDueError) (\<lambda>_.
     if ro_outcome payload = CONFIRMED then
       bindE (records_repo_complete_review env r CONFIRMED (ro_rationale payload) (u_id me) (now env) db) (\<lambda>(r', db').
       Inr (\<lparr>ror_review = r', ror_revision = None, ror_successor_decision = None\<rparr>, db'))
     else
       bindE (require (records_repo_get_decision_lock (d_id decision) db) ReviewOutcomeInvalidError) (\<lambda>l.
       let root_id = records_repo_get_revision_root (d_id decision) db;
           successor = successor_of env me decision payload;
           revision = \<lparr>n_id = fresh env 1, n_root_decision_id = root_id, n_predecessor_decision_id = d_id decision,
             n_successor_decision_id = d_id successor, n_source_lock_id = l_id l, n_review_id = r_id r,
             n_created_by_id = u_id me, n_revision_number = records_repo_next_revision_number root_id db,
             n_outcome = ro_outcome payload, n_rationale = ro_rationale payload, n_created_at = db_now env\<rparr> in
       bindE (records_repo_complete_review_with_revision env r successor revision (u_id me) (now env) db)
         (\<lambda>((r', n, s), db').
       Inr (\<lparr>ror_review = r', ror_revision = Some n, ror_successor_decision = Some s\<rparr>, db')))))))))"

definition revision_list :: "user \<Rightarrow> uuid \<Rightarrow> uuid \<Rightarrow> db \<Rightarrow> error + decision_revision list" where
  "revision_list me w d db =
     bindE (decision_context (u_id me) w d db) (\<lambda>_.
     Inr (records_repo_list_revisions (records_repo_get_revision_root d db) db))"

definition revision_get :: "user \<Rightarrow> uuid \<Rightarrow> uuid \<Rightarrow> uuid \<Rightarrow> db \<Rightarrow> error + decision_revision" where
  "revision_get me w d i db =
     bindE (decision_context (u_id me) w d db) (\<lambda>_.
     require (records_repo_get_revision (records_repo_get_revision_root d db) i db) DecisionRevisionNotFoundError)"

text \<open>The operations of the service, for statements about all of them.\<close>

lemmas record_ops = action_create_def action_list_def action_get_def action_update_def action_transition_def review_create_def review_list_def review_get_def review_update_def review_cancel_def review_complete_def revision_list_def revision_get_def

section \<open>What the operations do\<close>

lemma optional_title_stable:
  assumes "optional_title s = Inr t"
  shows "optional_title t = Inr t"
proof (cases s)
  case (Some x)
  then obtain n where "normalized_field 3 200 x = Inr n" "t = Some n" using assms by auto
  then show ?thesis using stable_fields(1) [of 3 200 x n] by simp
qed (use assms in simp)

lemma ReviewOutcomeRequest_stable:
  assumes "ReviewOutcomeRequest b = Inr r"
  shows "ReviewOutcomeRequest r = Inr r"
proof -
  obtain rationale title summary where parts: "normalized_field 3 5000 (ro_rationale b) = Inr rationale"
    "optional_title (ro_successor_title b) = Inr title" "optional_field py_strip 5000 (ro_successor_summary b) = Inr summary"
    and ok: "\<not> (ro_outcome b = CONFIRMED \<and> (title \<noteq> None \<or> summary \<noteq> None \<or> ro_successor_category b \<noteq> None))"
      "\<not> (ro_outcome b = SUPERSEDED \<and> title = None)"
    and r: "r = b\<lparr>ro_rationale := rationale, ro_successor_title := title, ro_successor_summary := summary\<rparr>"
    using assms by (auto simp: ReviewOutcomeRequest_def)
  show ?thesis
    using ok stable_fields(1) [OF parts(1)] optional_title_stable [OF parts(2)] stable_fields(2) [OF parts(3)]
    by (simp add: ReviewOutcomeRequest_def r)
qed

end
