(* ===== verification/Record_Steps.thy ===== *)
theory Record_Steps imports Action_Reviews begin

text \<open>
  What a request on the actions and reviews of a locked decision does to the tables, and the chain
  the revisions of a decision form: each revision starts where the one before it ended.
\<close>

section \<open>Rows\<close>

lemma write_action_key [simp]:
  "a_id (write_action env old new cur) = a_id cur"
  "a_decision_id (write_action env old new cur) = a_decision_id cur"
  "a_created_by_id (write_action env old new cur) = a_created_by_id cur"
  "a_created_at (write_action env old new cur) = a_created_at cur"
  by (simp_all add: write_action_def)

lemma write_action_fresh [simp]:
  "a_status (write_action env a new a) = a_status new"
  "a_completed_at (write_action env a new a) = a_completed_at new"
  "a_cancelled_at (write_action env a new a) = a_cancelled_at new"
  "a_assignee_id (write_action env a new a) = a_assignee_id new"
  "a_title (write_action env a new a) = a_title new"
  by (cases "new = a"; simp add: write_action_def)+

lemma write_review_key [simp]:
  "r_id (write_review env old new cur) = r_id cur"
  "r_decision_id (write_review env old new cur) = r_decision_id cur"
  "r_scheduled_by_id (write_review env old new cur) = r_scheduled_by_id cur"
  "r_created_at (write_review env old new cur) = r_created_at cur"
  by (simp_all add: write_review_def)

lemma write_review_fresh [simp]:
  "r_status (write_review env r new r) = r_status new"
  "r_outcome (write_review env r new r) = r_outcome new"
  "r_outcome_rationale (write_review env r new r) = r_outcome_rationale new"
  "r_completed_at (write_review env r new r) = r_completed_at new"
  "r_completed_by_id (write_review env r new r) = r_completed_by_id new"
  "r_cancelled_at (write_review env r new r) = r_cancelled_at new"
  "r_scheduled_for (write_review env r new r) = r_scheduled_for new"
  by (cases "new = r"; simp add: write_review_def)+

text \<open>How a row may change: finished actions and reviews not at all.\<close>

definition action_evolves :: "implementation_action \<Rightarrow> implementation_action \<Rightarrow> bool" where
  "action_evolves a a' \<longleftrightarrow> a' = a \<or>
     (\<not> action_final (a_status a) \<and> a_id a' = a_id a \<and> a_decision_id a' = a_decision_id a \<and>
      a_created_by_id a' = a_created_by_id a \<and> a_created_at a' = a_created_at a \<and>
      (a_status a' = a_status a \<or> a_status a' \<in> ACTION_TRANSITIONS (a_status a)))"

definition review_evolves :: "decision_review \<Rightarrow> decision_review \<Rightarrow> bool" where
  "review_evolves r r' \<longleftrightarrow> r' = r \<or>
     (r_status r = R_SCHEDULED \<and> r_id r' = r_id r \<and> r_decision_id r' = r_decision_id r \<and>
      r_scheduled_by_id r' = r_scheduled_by_id r \<and> r_created_at r' = r_created_at r)"

interpretation action_history: row_history a_id "\<lambda>_. False" action_evolves
  by unfold_locales (auto simp: action_evolves_def)

interpretation review_history: row_history r_id "\<lambda>_. False" review_evolves
  by unfold_locales (auto simp: review_evolves_def)

lemma require_locked_Inr [simp]: "require_locked d = Inr u \<longleftrightarrow> d_status d = D_LOCKED"
  by (simp add: require_locked_def)

lemma require_action_Inr [simp]: "require_action d i db = Inr a \<longleftrightarrow> records_repo_get_action d i db = Some a"
  by (simp add: require_action_def)

lemma require_review_Inr [simp]: "require_review d i db = Inr r \<longleftrightarrow> records_repo_get_review d i db = Some r"
  by (simp add: require_review_def)

lemma action_getD:
  "records_repo_get_action d i db = Some a \<Longrightarrow> a \<in> set (actions db) \<and> a_id a = i \<and> a_decision_id a = d"
  unfolding records_repo_get_action_def by (rule action_table.get_Some)

lemma action_get_lookup:
  "distinct (map a_id (actions db)) \<Longrightarrow> records_repo_get_action d i db = Some a \<Longrightarrow> lookup a_id (a_id a) (actions db) = Some a"
  using action_table.get_lookup action_table.get_Some unfolding records_repo_get_action_def by metis

lemma review_getD:
  "records_repo_get_review d i db = Some r \<Longrightarrow> r \<in> set (reviews db) \<and> r_id r = i \<and> r_decision_id r = d"
  unfolding records_repo_get_review_def by (rule review_table.get_Some)

lemma review_get_lookup:
  "distinct (map r_id (reviews db)) \<Longrightarrow> records_repo_get_review d i db = Some r \<Longrightarrow> lookup r_id (r_id r) (reviews db) = Some r"
  using review_table.get_lookup review_table.get_Some unfolding records_repo_get_review_def by metis

lemma save_action_InrD:
  assumes "save_action env a new db = Inr (r, db')" and "lookup a_id (a_id a) (actions db) = Some a"
  shows "r = write_action env a new a" and "ck_implementation_actions r" and "db' = db\<lparr>actions := store a_id r (actions db)\<rparr>"
  using assms by (auto simp: save_action_def)

lemma save_review_InrD:
  assumes "save_review env r new db = Inr (x, db')" and "lookup r_id (r_id r) (reviews db) = Some r"
  shows "x = write_review env r new r" and "ck_decision_reviews x" and "db' = db\<lparr>reviews := store r_id x (reviews db)\<rparr>"
  using assms by (auto simp: save_review_def)

section \<open>Effects\<close>

abbreviation locked_decision :: "uuid \<Rightarrow> db \<Rightarrow> bool" where
  "locked_decision i db \<equiv> \<exists>d \<in> set (decisions db). d_id d = i \<and> d_status d = D_LOCKED"

inductive record_effect :: "db \<Rightarrow> db \<Rightarrow> bool" where
  action_added: "a_id a \<notin> a_id ` set (actions db) \<Longrightarrow> ck_implementation_actions a \<Longrightarrow> a_status a = A_TODO \<Longrightarrow>
     locked_decision (a_decision_id a) db \<Longrightarrow> db' = db\<lparr>actions := actions db @ [a]\<rparr> \<Longrightarrow> record_effect db db'"
| action_changed: "lookup a_id (a_id a) (actions db) = Some a \<Longrightarrow> action_evolves a a' \<Longrightarrow> ck_implementation_actions a' \<Longrightarrow>
     db' = db\<lparr>actions := store a_id a' (actions db)\<rparr> \<Longrightarrow> record_effect db db'"
| review_added: "r_id r \<notin> r_id ` set (reviews db) \<Longrightarrow> ck_decision_reviews r \<Longrightarrow> r_status r = R_SCHEDULED \<Longrightarrow>
     uq_one_scheduled (reviews db @ [r]) \<Longrightarrow> locked_decision (r_decision_id r) db \<Longrightarrow>
     db' = db\<lparr>reviews := reviews db @ [r]\<rparr> \<Longrightarrow> record_effect db db'"
| review_changed: "lookup r_id (r_id r) (reviews db) = Some r \<Longrightarrow> r_status r = R_SCHEDULED \<Longrightarrow> r_id r' = r_id r \<Longrightarrow>
     review_evolves r r' \<Longrightarrow> ck_decision_reviews r' \<Longrightarrow> r_decision_id r' = r_decision_id r \<Longrightarrow>
     (r_outcome r' = None \<or> r_outcome r' = Some CONFIRMED) \<Longrightarrow>
     db' = db\<lparr>reviews := store r_id r' (reviews db)\<rparr> \<Longrightarrow> record_effect db db'"
| revised: "lookup r_id (r_id r) (reviews db) = Some r \<Longrightarrow> r_status r = R_SCHEDULED \<Longrightarrow> r_id r' = r_id r \<Longrightarrow>
     review_evolves r r' \<Longrightarrow> ck_decision_reviews r' \<Longrightarrow> r_decision_id r' = r_decision_id r \<Longrightarrow>
     r_status r' = R_COMPLETED \<Longrightarrow> r_outcome r' = Some (n_outcome n) \<Longrightarrow> r_outcome_rationale r' = Some (n_rationale n) \<Longrightarrow>
     locked_decision (n_predecessor_decision_id n) db \<Longrightarrow> r_decision_id r = n_predecessor_decision_id n \<Longrightarrow>
     n_root_decision_id n = records_repo_get_revision_root (n_predecessor_decision_id n) db \<Longrightarrow>
     n_revision_number n = records_repo_next_revision_number (n_root_decision_id n) db \<Longrightarrow>
     n_review_id n = r_id r \<Longrightarrow> l \<in> set (locks db) \<Longrightarrow> l_decision_id l = n_predecessor_decision_id n \<Longrightarrow>
     n_source_lock_id n = l_id l \<Longrightarrow> n_id n \<notin> n_id ` set (revisions db) \<Longrightarrow> ck_decision_revisions (revisions db) n \<Longrightarrow>
     d_id s = n_successor_decision_id n \<Longrightarrow> d_id s \<notin> d_id ` set (decisions db) \<Longrightarrow> d_status s = D_DRAFT \<Longrightarrow>
     decision_row_ok s \<Longrightarrow>
     db' = db\<lparr>reviews := store r_id r' (reviews db), decisions := decisions db @ [s], revisions := revisions db @ [n]\<rparr> \<Longrightarrow>
     record_effect db db'"

lemma context_locked:
  assumes "decision_context u w d db = Inr (m, dec)" and "d_status dec = D_LOCKED"
  shows "d_id dec = d" and "locked_decision d db"
  using assms by (auto dest: decision_getD)

lemma action_create_effect:
  assumes "action_create env me w d q db = Inr (a, db')"
  shows "record_effect db db'"
proof -
  obtain m dec where ctx: "decision_context (u_id me) w d db = Inr (m, dec)" "d_status dec = D_LOCKED"
    and a: "a_decision_id a = d_id dec" "a_status a = A_TODO" "a_id a \<notin> a_id ` set (actions db)" "ck_implementation_actions a"
      "db' = db\<lparr>actions := actions db @ [a]\<rparr>"
    using assms by (auto simp: action_create_def records_repo_create_action_def simp del: decision_context_Inr)
  have "locked_decision (a_decision_id a) db" unfolding a(1) context_locked(1) [OF ctx] by (rule context_locked(2) [OF ctx])
  from action_added [OF a(3,4,2) this a(5)] show ?thesis .
qed

lemma action_update_effect:
  assumes "action_update env me w d i q db = Inr (r, db')" and ids: "distinct (map a_id (actions db))"
  shows "record_effect db db'"
proof -
  obtain a new where a: "records_repo_get_action d i db = Some a" "\<not> action_final (a_status a)"
    "save_action env a new db = Inr (r, db')" "a_status new = a_status a"
    using assms by (auto simp: action_update_def records_repo_update_action_def action_final_def)
  note look = action_get_lookup [OF ids a(1)]
  note s = save_action_InrD [OF a(3) look]
  have "action_evolves a r" using a(2,4) s(1) by (simp add: action_evolves_def)
  from action_changed [OF look this s(2,3)] show ?thesis .
qed

lemma action_transition_effect:
  assumes "action_transition env me w d i target db = Inr (r, db')" and ids: "distinct (map a_id (actions db))"
  shows "record_effect db db'"
proof -
  obtain a new where a: "records_repo_get_action d i db = Some a" "target \<in> ACTION_TRANSITIONS (a_status a)"
    "save_action env a new db = Inr (r, db')" "a_status new = target"
    using assms by (auto simp: action_transition_def records_repo_transition_action_def)
  note look = action_get_lookup [OF ids a(1)]
  note s = save_action_InrD [OF a(3) look]
  have "\<not> action_final (a_status a)" using a(2) action_cycle.final_step by blast
  then have "action_evolves a r" using a(2,4) s(1) by (simp add: action_evolves_def)
  from action_changed [OF look this s(2,3)] show ?thesis .
qed

lemma review_create_effect:
  assumes "review_create env me w d q db = Inr (r, db')"
  shows "record_effect db db'"
proof -
  obtain m dec where ctx: "decision_context (u_id me) w d db = Inr (m, dec)" "d_status dec = D_LOCKED"
    and r: "r_decision_id r = d_id dec" "r_status r = R_SCHEDULED" "r_id r \<notin> r_id ` set (reviews db)" "ck_decision_reviews r"
      "uq_one_scheduled (reviews db @ [r])" "db' = db\<lparr>reviews := reviews db @ [r]\<rparr>"
    using assms by (auto simp: review_create_def records_repo_create_review_def simp del: decision_context_Inr)
  have "locked_decision (r_decision_id r) db" unfolding r(1) context_locked(1) [OF ctx] by (rule context_locked(2) [OF ctx])
  from review_added [OF r(3,4,2,5) this r(6)] show ?thesis .
qed

lemma review_saved_effect:
  assumes r: "records_repo_get_review d i db = Some r" "r_status r = R_SCHEDULED"
    and run: "save_review env r new db = Inr (r', db')" and ids: "distinct (map r_id (reviews db))"
    and new: "r_outcome new = None \<or> r_outcome new = Some CONFIRMED"
  shows "record_effect db db'"
proof -
  note look = review_get_lookup [OF ids r(1)]
  note s = save_review_InrD [OF run look]
  have "review_evolves r r'" "r_id r' = r_id r" "r_decision_id r' = r_decision_id r" "r_outcome r' = None \<or> r_outcome r' = Some CONFIRMED"
    using r(2) new by (simp_all add: s(1) review_evolves_def)
  from review_changed [OF look r(2) this(2,1) s(2) this(3,4) s(3)] show ?thesis .
qed

lemma scheduled_no_outcome: "ck_decision_reviews r \<Longrightarrow> r_status r = R_SCHEDULED \<Longrightarrow> r_outcome r = None"
  by (auto simp: ck_decision_reviews_def)

lemma review_update_effect:
  assumes "review_update env me w d i q db = Inr (x, db')" and ids: "distinct (map r_id (reviews db))"
    and ck: "\<And>r. r \<in> set (reviews db) \<Longrightarrow> ck_decision_reviews r"
  shows "record_effect db db'"
proof -
  obtain r where r: "records_repo_get_review d i db = Some r" "r_status r = R_SCHEDULED"
    "save_review env r (r\<lparr>r_scheduled_for := patch_required (ru_scheduled_for q) (r_scheduled_for r),
       r_notes := patch_nullable (ru_notes q) (r_notes r)\<rparr>) db = Inr (x, db')"
    using assms(1) by (auto simp: review_update_def records_repo_update_review_def)
  have "r_outcome r = None" using scheduled_no_outcome [OF ck r(2)] review_getD [OF r(1)] by simp
  then show ?thesis by (intro review_saved_effect [OF r ids]) simp
qed

lemma review_cancel_effect:
  assumes "review_cancel env me w d i db = Inr (x, db')" and ids: "distinct (map r_id (reviews db))"
    and ck: "\<And>r. r \<in> set (reviews db) \<Longrightarrow> ck_decision_reviews r"
  shows "record_effect db db'"
proof -
  obtain r where r: "records_repo_get_review d i db = Some r" "r_status r = R_SCHEDULED"
    "save_review env r (r\<lparr>r_status := R_CANCELLED, r_cancelled_by_id := Some (u_id me), r_cancelled_at := Some (now env)\<rparr>) db
       = Inr (x, db')"
    using assms(1) by (auto simp: review_cancel_def records_repo_cancel_review_def)
  have "r_outcome r = None" using scheduled_no_outcome [OF ck r(2)] review_getD [OF r(1)] by simp
  then show ?thesis by (intro review_saved_effect [OF r ids]) simp
qed

text \<open>Completing with a revision: all three rows, in the order that lets the foreign key pass.\<close>

lemma on_integrity_error_Inr_iff: "on_integrity_error e r = Inr x \<longleftrightarrow> r = Inr x"
  by simp

lemma complete_with_revision_InrD:
  assumes run: "records_repo_complete_review_with_revision env r s n by t db = Inr (y, db')"
    and look: "lookup r_id (r_id r) (reviews db) = Some r"
    and new: "n_successor_decision_id n \<notin> d_id ` set (decisions db)"
  obtains r' where "r' = write_review env r (review_completed (n_outcome n) (n_rationale n) by t r) r"
    and "y = (r', n, s)" and "ck_decision_reviews r'" and "d_id s \<notin> d_id ` set (decisions db)" and "ck_decisions_locked_state s"
    and "n_id n \<notin> n_id ` set (revisions db)" and "ck_decision_revisions (revisions db) n" and "\<not> revision_first env"
    and "db' = db\<lparr>reviews := store r_id r' (reviews db), decisions := decisions db @ [s], revisions := revisions db @ [n]\<rparr>"
proof (cases "revision_first env")
  case True
  then show thesis
    using run new by (auto simp: records_repo_complete_review_with_revision_def insert_revision_def save_review_def)
next
  case False
  let ?r = "write_review env r (review_completed (n_outcome n) (n_rationale n) by t r) r"
  have e: "y = (?r, n, s)" "ck_decision_reviews ?r" "d_id s \<notin> d_id ` set (decisions db)" "ck_decisions_locked_state s"
    "n_id n \<notin> n_id ` set (revisions db)" "ck_decision_revisions (revisions db) n"
    "db' = db\<lparr>reviews := store r_id ?r (reviews db), decisions := decisions db @ [s], revisions := revisions db @ [n]\<rparr>"
    using run look False
    by (auto simp: records_repo_complete_review_with_revision_def save_review_def insert_decision_def insert_revision_def)
  show thesis by (rule that [OF refl e(1-6) False e(7)])
qed

lemma successor_fields [simp]:
  "d_id (successor_of env me d q) = fresh env 0" "d_status (successor_of env me d q) = D_DRAFT"
  "d_workspace_id (successor_of env me d q) = d_workspace_id d" "d_created_by_id (successor_of env me d q) = u_id me"
  "decision_row_ok (successor_of env me d q)"
  by (simp_all add: successor_of_def decision_row_ok_def ck_decisions_locked_state_def)

text \<open>The revision row a request prepares.\<close>

definition revision_of :: "env \<Rightarrow> user \<Rightarrow> uuid \<Rightarrow> decision_review \<Rightarrow> decision_lock \<Rightarrow> review_outcome_request \<Rightarrow> db \<Rightarrow> decision_revision" where
  "revision_of env me d r l q db =
     (let rt = records_repo_get_revision_root d db in
      \<lparr>n_id = fresh env 1, n_root_decision_id = rt, n_predecessor_decision_id = d, n_successor_decision_id = fresh env 0,
       n_source_lock_id = l_id l, n_review_id = r_id r, n_created_by_id = u_id me,
       n_revision_number = records_repo_next_revision_number rt db, n_outcome = ro_outcome q, n_rationale = ro_rationale q,
       n_created_at = db_now env\<rparr>)"

lemma review_complete_cases:
  assumes "review_complete env me w d i q db = Inr (x, db')"
  obtains (confirmed) m dec r r' where "decision_context (u_id me) w d db = Inr (m, dec)" "can_manage_reviews (m_role m)"
      "d_status dec = D_LOCKED" "records_repo_get_review d i db = Some r" "r_status r = R_SCHEDULED" "r_scheduled_for r \<le> now env"
      "ro_outcome q = CONFIRMED" "save_review env r (review_completed CONFIRMED (ro_rationale q) (u_id me) (now env) r) db = Inr (r', db')"
      "x = \<lparr>ror_review = r', ror_revision = None, ror_successor_decision = None\<rparr>"
  | (revision) m dec r l r' where "decision_context (u_id me) w d db = Inr (m, dec)" "can_manage_reviews (m_role m)"
      "d_status dec = D_LOCKED" "records_repo_get_review d i db = Some r" "r_status r = R_SCHEDULED" "r_scheduled_for r \<le> now env"
      "ro_outcome q \<noteq> CONFIRMED" "records_repo_get_decision_lock d db = Some l" "d_id dec = d"
      "records_repo_complete_review_with_revision env r (successor_of env me dec q) (revision_of env me d r l q db) (u_id me) (now env) db =
         Inr ((r', revision_of env me d r l q db, successor_of env me dec q), db')"
      "x = \<lparr>ror_review = r', ror_revision = Some (revision_of env me d r l q db), ror_successor_decision = Some (successor_of env me dec q)\<rparr>"
proof -
  obtain m dec r where pre: "decision_context (u_id me) w d db = Inr (m, dec)" "can_manage_reviews (m_role m)"
    "d_status dec = D_LOCKED" "records_repo_get_review d i db = Some r" "r_status r = R_SCHEDULED" "r_scheduled_for r \<le> now env"
    using assms by (auto simp: review_complete_def simp del: decision_context_Inr)
  note id = context_locked(1) [OF pre(1,3)]
  have req: "require_locked dec = Inr ()" "require_review d i db = Inr r" using pre by simp_all
  show thesis
  proof (cases "ro_outcome q = CONFIRMED")
    case True
    then obtain r' where "save_review env r (review_completed CONFIRMED (ro_rationale q) (u_id me) (now env) r) db = Inr (r', db')"
      "x = \<lparr>ror_review = r', ror_revision = None, ror_successor_decision = None\<rparr>"
      using assms pre by (auto simp: review_complete_def records_repo_complete_review_def simp del: decision_context_Inr)
    then show thesis by (rule confirmed [OF pre True])
  next
    case False
    have body: "bindE (require (records_repo_get_decision_lock d db) ReviewOutcomeInvalidError) (\<lambda>l.
       bindE (records_repo_complete_review_with_revision env r (successor_of env me dec q) (revision_of env me d r l q db) (u_id me) (now env) db)
         (\<lambda>((r', n, s), db'). Inr (\<lparr>ror_review = r', ror_revision = Some n, ror_successor_decision = Some s\<rparr>, db'))) = Inr (x, db')"
      using assms pre(1,2,5,6) req False id
      by (simp add: review_complete_def revision_of_def Let_def
          del: decision_context_Inr require_locked_Inr require_review_Inr bindE_Inr_iff)
    then obtain l r' n s where l: "records_repo_get_decision_lock d db = Some l"
      and c: "records_repo_complete_review_with_revision env r (successor_of env me dec q) (revision_of env me d r l q db) (u_id me) (now env) db
         = Inr ((r', n, s), db')" and x: "x = \<lparr>ror_review = r', ror_revision = Some n, ror_successor_decision = Some s\<rparr>"
      by auto
    have "n = revision_of env me d r l q db \<and> s = successor_of env me dec q"
      using c by (auto simp: records_repo_complete_review_with_revision_def split: if_splits)
    with c x show thesis by (intro revision [OF pre False l id]) simp_all
  qed
qed

lemma review_complete_effect:
  assumes run: "review_complete env me w d i q db = Inr (x, db')" and ids: "distinct (map r_id (reviews db))"
  shows "record_effect db db'"
  using run
proof (cases rule: review_complete_cases)
  case (confirmed m dec r r')
  then show ?thesis by (intro review_saved_effect [OF confirmed(4,5,8) ids]) (simp add: review_completed_def)
next
  case (revision m dec r l r')
  note look = review_get_lookup [OF ids revision(4)]
  let ?n = "revision_of env me d r l q db" and ?s = "successor_of env me dec q"
  have n: "n_predecessor_decision_id ?n = d" "n_successor_decision_id ?n = fresh env 0" "n_review_id ?n = r_id r"
    "n_source_lock_id ?n = l_id l" "n_root_decision_id ?n = records_repo_get_revision_root d db"
    "n_revision_number ?n = records_repo_next_revision_number (n_root_decision_id ?n) db"
    "n_outcome ?n = ro_outcome q" "n_rationale ?n = ro_rationale q"
    by (simp_all add: revision_of_def Let_def)
  have l: "l \<in> set (locks db)" "l_decision_id l = d"
    using revision(8) unfolding records_repo_get_decision_lock_def by (auto dest: first_where_SomeD)
  have r: "r_decision_id r = d" using review_getD [OF revision(4)] by simp
  have fresh_s: "n_successor_decision_id ?n \<notin> d_id ` set (decisions db)"
    using revision(10) by (auto simp: records_repo_complete_review_with_revision_def insert_decision_def insert_revision_def
        save_review_def n split: if_splits)
  from revision(10) look fresh_s show ?thesis
  proof (rule complete_with_revision_InrD)
    fix r''
    assume a: "r'' = write_review env r (review_completed (n_outcome ?n) (n_rationale ?n) (u_id me) (now env) r) r"
      "ck_decision_reviews r''" "n_id ?n \<notin> n_id ` set (revisions db)" "ck_decision_revisions (revisions db) ?n"
      "d_id ?s \<notin> d_id ` set (decisions db)"
      "db' = db\<lparr>reviews := store r_id r'' (reviews db), decisions := decisions db @ [?s], revisions := revisions db @ [?n]\<rparr>"
    have "review_evolves r r''" using revision(5) by (simp add: a(1) review_evolves_def)
    then show ?thesis
      using a look revision(5) context_locked(2) [OF revision(1,3)] l r n
      by (intro revised [of r _ r'' ?n l ?s]) (simp_all add: review_completed_def)
  qed
qed

section \<open>Steps\<close>

inductive record_step :: "db \<Rightarrow> db \<Rightarrow> bool" where
  action_create: "ActionCreateRequest b = Inr q \<Longrightarrow> action_create env me w d q db = Inr (a, db') \<Longrightarrow> record_step db db'"
| action_update: "ActionUpdateRequest b' = Inr q' \<Longrightarrow> action_update env me w d i q' db = Inr (a, db') \<Longrightarrow> record_step db db'"
| action_transition: "action_transition env me w d i target db = Inr (a, db') \<Longrightarrow> record_step db db'"
| review_create: "ReviewCreateRequest c = Inr p \<Longrightarrow> review_create env me w d p db = Inr (r, db') \<Longrightarrow> record_step db db'"
| review_update: "ReviewUpdateRequest c' = Inr p' \<Longrightarrow> review_update env me w d i p' db = Inr (r, db') \<Longrightarrow> record_step db db'"
| review_cancel: "review_cancel env me w d i db = Inr (r, db') \<Longrightarrow> record_step db db'"
| review_complete: "ReviewOutcomeRequest o1 = Inr o2 \<Longrightarrow> review_complete env me w d i o2 db = Inr (x, db') \<Longrightarrow> record_step db db'"

text \<open>Whatever the request, the decision table is as it was or has one more draft at its end.\<close>

lemma complete_with_revision_frame:
  assumes "records_repo_complete_review_with_revision env r s n by t db = Inr (y, db')"
  shows "\<exists>rs ns. d_id s \<notin> d_id ` set (decisions db) \<and> db' = db\<lparr>reviews := rs, revisions := ns, decisions := decisions db @ [s]\<rparr>"
proof -
  obtain r1 rs where rs: "flush_update r_id ck_decision_reviews (r_id r)
      (write_review env r (review_completed (n_outcome n) (n_rationale n) by t r)) (reviews db) = Inr (r1, rs)"
    using assms by (auto simp: records_repo_complete_review_with_revision_def save_review_def)
  have "d_id s \<notin> d_id ` set (decisions db) \<and>
      db' = db\<lparr>reviews := rs, revisions := revisions db @ [n], decisions := decisions db @ [s]\<rparr>"
    using assms
    by (auto simp: records_repo_complete_review_with_revision_def save_review_def rs insert_decision_def insert_revision_def
        simp del: flush_update_Inr_iff split: if_splits)
  then show ?thesis by blast
qed

lemma review_complete_frame:
  assumes "review_complete env me w d i q db = Inr (x, db')"
  shows "\<exists>rs ns. db' = db\<lparr>reviews := rs, revisions := ns\<rparr> \<or>
    (\<exists>s. d_id s \<notin> d_id ` set (decisions db) \<and> d_status s = D_DRAFT \<and> decision_row_ok s \<and>
       db' = db\<lparr>reviews := rs, revisions := ns, decisions := decisions db @ [s]\<rparr>)"
  using assms
proof (cases rule: review_complete_cases)
  case (confirmed m dec r r')
  then obtain rs where "db' = db\<lparr>reviews := rs\<rparr>" by (auto simp: save_review_def)
  then have "db' = db\<lparr>reviews := rs, revisions := revisions db\<rparr>" by simp
  then show ?thesis by blast
next
  case (revision m dec r l r')
  obtain rs ns where f: "d_id (successor_of env me dec q) \<notin> d_id ` set (decisions db)"
    "db' = db\<lparr>reviews := rs, revisions := ns, decisions := decisions db @ [successor_of env me dec q]\<rparr>"
    using complete_with_revision_frame [OF revision(10)] by blast
  show ?thesis
    by (intro exI [of _ rs] exI [of _ ns] disjI2 exI [of _ "successor_of env me dec q"] conjI f successor_fields)
qed

lemma record_step_frame:
  assumes "record_step db db'"
  shows "\<exists>as rs ns. db' = db\<lparr>actions := as, reviews := rs, revisions := ns\<rparr> \<or>
    (\<exists>s. d_id s \<notin> d_id ` set (decisions db) \<and> d_status s = D_DRAFT \<and> decision_row_ok s \<and>
       db' = db\<lparr>actions := as, reviews := rs, revisions := ns, decisions := decisions db @ [s]\<rparr>)"
proof -
  have acts: ?thesis if "\<exists>as. db' = db\<lparr>actions := as\<rparr>"
  proof -
    from that obtain as where "db' = db\<lparr>actions := as\<rparr>" by blast
    then have "db' = db\<lparr>actions := as, reviews := reviews db, revisions := revisions db\<rparr>" by simp
    then show ?thesis by blast
  qed
  have revs: ?thesis if "\<exists>rs. db' = db\<lparr>reviews := rs\<rparr>"
  proof -
    from that obtain rs where "db' = db\<lparr>reviews := rs\<rparr>" by blast
    then have "db' = db\<lparr>actions := actions db, reviews := rs, revisions := revisions db\<rparr>" by simp
    then show ?thesis by blast
  qed
  from assms show ?thesis
  proof cases
    case action_create
    then show ?thesis by (intro acts) (auto simp: action_create_def records_repo_create_action_def)
  next
    case action_update
    then show ?thesis
      by (intro acts) (auto simp: action_update_def records_repo_update_action_def save_action_def)
  next
    case action_transition
    then show ?thesis
      by (intro acts) (auto simp: action_transition_def records_repo_transition_action_def save_action_def)
  next
    case review_create
    then show ?thesis by (intro revs) (auto simp: review_create_def records_repo_create_review_def)
  next
    case review_update
    then show ?thesis by (intro revs) (auto simp: review_update_def records_repo_update_review_def save_review_def)
  next
    case review_cancel
    then show ?thesis by (intro revs) (auto simp: review_cancel_def records_repo_cancel_review_def save_review_def)
  next
    case (review_complete o1 o2 env me w d i x)
    from review_complete_frame [OF this(2)] obtain rs ns where "db' = db\<lparr>reviews := rs, revisions := ns\<rparr> \<or>
      (\<exists>s. d_id s \<notin> d_id ` set (decisions db) \<and> d_status s = D_DRAFT \<and> decision_row_ok s \<and>
       db' = db\<lparr>reviews := rs, revisions := ns, decisions := decisions db @ [s]\<rparr>)" by blast
    then have "db' = db\<lparr>actions := actions db, reviews := rs, revisions := ns\<rparr> \<or>
      (\<exists>s. d_id s \<notin> d_id ` set (decisions db) \<and> d_status s = D_DRAFT \<and> decision_row_ok s \<and>
       db' = db\<lparr>actions := actions db, reviews := rs, revisions := ns, decisions := decisions db @ [s]\<rparr>)" by simp
    then show ?thesis by blast
  qed
qed

lemma record_step_effect:
  assumes "record_step db db'" and ids: "distinct (map a_id (actions db))" "distinct (map r_id (reviews db))"
    and ck: "\<And>r. r \<in> set (reviews db) \<Longrightarrow> ck_decision_reviews r"
  shows "record_effect db db'"
  using assms(1)
proof cases
  case action_create
  then show ?thesis by (blast intro: action_create_effect)
next
  case action_update
  then show ?thesis by (blast intro: action_update_effect ids)
next
  case action_transition
  then show ?thesis by (blast intro: action_transition_effect ids)
next
  case review_create
  then show ?thesis by (blast intro: review_create_effect)
next
  case review_update
  then show ?thesis by (blast intro: review_update_effect ids ck)
next
  case review_cancel
  then show ?thesis by (blast intro: review_cancel_effect ids ck)
next
  case review_complete
  then show ?thesis by (blast intro: review_complete_effect ids)
qed

end
