(* ===== verification/Notifications.thy ===== *)
theory Notifications imports Requests Data_Model begin

text \<open>
  Notifications: \<open>app/models/notification.py\<close>, \<open>app/repositories/notification.py\<close>,
  \<open>app/services/notification.py\<close> and the delivery task of \<open>app/workers/tasks.py\<close>. A scheduled job turns
  due actions, reviews, deadlines and votes into rows, one per recipient and due time; a Celery task
  claims a row, sends the e-mail and records the outcome; another job frees rows whose worker died.
  Each function is one transaction; a task is several of them, between which others may run.
\<close>

section \<open>Candidates\<close>

record reminder_candidate =
  rk_recipient_id :: uuid
  rk_workspace_id :: uuid
  rk_kind :: notification_kind
  rk_source_id :: uuid
  rk_due_at :: time
  rk_title :: string
  rk_body :: string

fun kind_value :: "notification_kind \<Rightarrow> string" where
  "kind_value ACTION_DUE = ''action_due''"
| "kind_value DECISION_REVIEW = ''decision_review''"
| "kind_value DECISION_DEADLINE = ''decision_deadline''"
| "kind_value VOTING_CLOSE = ''voting_close''"
| "kind_value MENTION = ''mention''"

definition idempotency_key :: "reminder_candidate \<Rightarrow> string" where
  "idempotency_key c =
     kind_value (rk_kind c) @ '':'' @ uuid_str (rk_source_id c) @ '':'' @ uuid_str (rk_recipient_id c) @ '':'' @
     isoformat (rk_due_at c)"

text \<open>The joins, in the order of the tables: the statements have no ORDER BY.\<close>

definition due_action_candidates :: "time \<Rightarrow> time \<Rightarrow> db \<Rightarrow> reminder_candidate list" where
  "due_action_candidates after before db =
     [\<lparr>rk_recipient_id = a_assignee_id a, rk_workspace_id = d_workspace_id d, rk_kind = ACTION_DUE, rk_source_id = a_id a,
       rk_due_at = the (a_due_at a), rk_title = ''Action due: '' @ a_title a,
       rk_body = ''Your implementation action '' @ [CHR 0x22] @ a_title a @ [CHR 0x22] @ '' is due soon.''\<rparr>.
      a \<leftarrow> actions db,
      a_status a \<in> {A_TODO, A_IN_PROGRESS, A_BLOCKED} \<and> a_due_at a \<noteq> None \<and> after < the (a_due_at a) \<and> the (a_due_at a) \<le> before,
      d \<leftarrow> decisions db, d_id d = a_decision_id a]"

definition due_review_candidates :: "time \<Rightarrow> time \<Rightarrow> db \<Rightarrow> reminder_candidate list" where
  "due_review_candidates after before db =
     [\<lparr>rk_recipient_id = m_user_id m, rk_workspace_id = d_workspace_id d, rk_kind = DECISION_REVIEW, rk_source_id = r_id r,
       rk_due_at = r_scheduled_for r, rk_title = ''Decision review due'', rk_body = ''A scheduled decision review is due soon.''\<rparr>.
      r \<leftarrow> reviews db, r_status r = R_SCHEDULED \<and> after < r_scheduled_for r \<and> r_scheduled_for r \<le> before,
      d \<leftarrow> decisions db, d_id d = r_decision_id r,
      m \<leftarrow> members db, m_workspace_id m = d_workspace_id d \<and> m_role m \<in> {OWNER, ADMIN}]"

definition due_decision_candidates :: "time \<Rightarrow> time \<Rightarrow> db \<Rightarrow> reminder_candidate list" where
  "due_decision_candidates after before db =
     [\<lparr>rk_recipient_id = m_user_id m, rk_workspace_id = d_workspace_id d, rk_kind = DECISION_DEADLINE, rk_source_id = d_id d,
       rk_due_at = the (d_due_at d), rk_title = ''Decision deadline: '' @ d_title d,
       rk_body = ''The decision '' @ [CHR 0x22] @ d_title d @ [CHR 0x22] @ '' is approaching its deadline.''\<rparr>.
      d \<leftarrow> decisions db,
      d_status d = D_ACTIVE \<and> d_due_at d \<noteq> None \<and> after < the (d_due_at d) \<and> the (d_due_at d) \<le> before,
      m \<leftarrow> members db, m_workspace_id m = d_workspace_id d \<and> m_role m \<in> {OWNER, ADMIN, MEMBER}]"

definition due_voting_candidates :: "time \<Rightarrow> time \<Rightarrow> db \<Rightarrow> reminder_candidate list" where
  "due_voting_candidates after before db =
     [\<lparr>rk_recipient_id = ev_user_id e, rk_workspace_id = d_workspace_id d, rk_kind = VOTING_CLOSE, rk_source_id = v_id v,
       rk_due_at = the (v_closes_at v), rk_title = ''Voting closes soon: '' @ d_title d,
       rk_body = ''Voting for '' @ [CHR 0x22] @ d_title d @ [CHR 0x22] @ '' closes soon.''\<rparr>.
      v \<leftarrow> sessions db,
      v_status v = V_OPEN \<and> v_closes_at v \<noteq> None \<and> after < the (v_closes_at v) \<and> the (v_closes_at v) \<le> before,
      d \<leftarrow> decisions db, d_id d = v_decision_id v,
      e \<leftarrow> eligible_voters db, ev_voting_session_id e = v_id v]"

section \<open>The repository\<close>

text \<open>
  \<open>INSERT \<dots> ON CONFLICT (idempotency_key) DO NOTHING RETURNING id\<close>. The columns are \<open>VARCHAR(200)\<close> and
  \<open>VARCHAR(255)\<close>; PostgreSQL refuses a longer value before it looks for a conflict.
\<close>

definition candidate_row :: "env \<Rightarrow> uuid \<Rightarrow> reminder_candidate \<Rightarrow> int \<Rightarrow> time \<Rightarrow> notification" where
  "candidate_row env i c max_attempts available_at =
     \<lparr>nt_id = i, nt_recipient_id = rk_recipient_id c, nt_workspace_id = rk_workspace_id c, nt_kind = rk_kind c,
      nt_source_id = rk_source_id c, nt_actor_id = None, nt_entity_type = None, nt_entity_id = None, nt_action_url = None,
      nt_idempotency_key = idempotency_key c, nt_title = rk_title c, nt_body = rk_body c, nt_status = N_PENDING,
      nt_attempt_count = 0, nt_max_attempts = max_attempts, nt_available_at = available_at, nt_delivery_started_at = None,
      nt_delivered_at = None, nt_failed_at = None, nt_last_error = None, nt_read_at = None,
      nt_created_at = db_now env, nt_updated_at = db_now env\<rparr>"

definition notifications_repo_create_candidate ::
  "env \<Rightarrow> uuid \<Rightarrow> reminder_candidate \<Rightarrow> int \<Rightarrow> time \<Rightarrow> db \<Rightarrow> error + uuid option \<times> db" where
  "notifications_repo_create_candidate env i c max_attempts available_at db =
     bindE (ensure (length (rk_title c) \<le> 200 \<and> length (idempotency_key c) \<le> 255) DataError) (\<lambda>_.
     if idempotency_key c \<in> nt_idempotency_key ` set (notifications db) then Inr (None, db)
     else bindE (flush_insert nt_id ck_notifications (candidate_row env i c max_attempts available_at) (notifications db))
            (\<lambda>ns. Inr (Some i, db\<lparr>notifications := ns\<rparr>)))"

definition mine :: "uuid \<Rightarrow> bool \<Rightarrow> notification \<Rightarrow> bool" where
  "mine recipient unread_only n \<longleftrightarrow> nt_recipient_id n = recipient \<and> (unread_only \<longrightarrow> nt_read_at n = None)"

definition notifications_repo_unread_count :: "uuid \<Rightarrow> db \<Rightarrow> nat" where
  "notifications_repo_unread_count recipient db = length (filter (mine recipient True) (notifications db))"

definition notifications_repo_list_for_recipient ::
  "uuid \<Rightarrow> bool \<Rightarrow> nat \<Rightarrow> nat \<Rightarrow> db \<Rightarrow> notification list \<times> nat \<times> nat" where
  "notifications_repo_list_for_recipient recipient unread_only limit offset db =
     (let rows = filter (mine recipient unread_only) (notifications db) in
      (take limit (drop offset (sort_key (\<lambda>n. - nt_created_at n) rows)), length rows,
       notifications_repo_unread_count recipient db))"

definition notification_for_recipient :: "uuid \<Rightarrow> uuid \<Rightarrow> notification list \<Rightarrow> notification option" where
  "notification_for_recipient recipient i ns = first_where (\<lambda>n. nt_id n = i \<and> nt_recipient_id n = recipient) ns"

definition notifications_repo_get_for_recipient :: "uuid \<Rightarrow> uuid \<Rightarrow> db \<Rightarrow> notification option" where
  "notifications_repo_get_for_recipient i recipient db = notification_for_recipient recipient i (notifications db)"

interpretation notification_table: scoped_table nt_id nt_recipient_id notification_for_recipient
  by unfold_locales (auto simp: notification_for_recipient_def first_where_None_iff dest!: first_where_SomeD)

definition write_notification :: "env \<Rightarrow> notification \<Rightarrow> notification \<Rightarrow> notification \<Rightarrow> notification" where
  "write_notification env old new cur =
     (if new = old then cur
      else cur\<lparr>nt_status := put_if_dirty (nt_status old) (nt_status new) (nt_status cur),
               nt_attempt_count := put_if_dirty (nt_attempt_count old) (nt_attempt_count new) (nt_attempt_count cur),
               nt_available_at := put_if_dirty (nt_available_at old) (nt_available_at new) (nt_available_at cur),
               nt_delivery_started_at :=
                 put_if_dirty (nt_delivery_started_at old) (nt_delivery_started_at new) (nt_delivery_started_at cur),
               nt_delivered_at := put_if_dirty (nt_delivered_at old) (nt_delivered_at new) (nt_delivered_at cur),
               nt_failed_at := put_if_dirty (nt_failed_at old) (nt_failed_at new) (nt_failed_at cur),
               nt_last_error := put_if_dirty (nt_last_error old) (nt_last_error new) (nt_last_error cur),
               nt_read_at := put_if_dirty (nt_read_at old) (nt_read_at new) (nt_read_at cur),
               nt_updated_at := db_now env\<rparr>)"

definition save_notification :: "env \<Rightarrow> notification \<Rightarrow> notification \<Rightarrow> db \<Rightarrow> error + notification \<times> db" where
  "save_notification env old new db =
     bindE (flush_update nt_id ck_notifications (nt_id old) (write_notification env old new) (notifications db))
       (\<lambda>(n, ns). Inr (n, db\<lparr>notifications := ns\<rparr>))"

definition notifications_repo_mark_read :: "env \<Rightarrow> notification \<Rightarrow> time \<Rightarrow> db \<Rightarrow> error + notification \<times> db" where
  "notifications_repo_mark_read env n at db =
     (if nt_read_at n = None then save_notification env n (n\<lparr>nt_read_at := Some at\<rparr>) db else Inr (n, db))"

definition notifications_repo_mark_all_read :: "env \<Rightarrow> uuid \<Rightarrow> time \<Rightarrow> db \<Rightarrow> nat \<times> db" where
  "notifications_repo_mark_all_read env recipient at db =
     (length (filter (mine recipient True) (notifications db)),
      db\<lparr>notifications := map (\<lambda>n. if mine recipient True n then n\<lparr>nt_read_at := Some at, nt_updated_at := db_now env\<rparr> else n)
           (notifications db)\<rparr>)"

definition claimable :: "time \<Rightarrow> notification \<Rightarrow> bool" where
  "claimable t n \<longleftrightarrow> nt_status n \<in> {N_PENDING, N_RETRY_SCHEDULED} \<and> nt_available_at n \<le> t \<and> nt_attempt_count n < nt_max_attempts n"

definition notifications_repo_claim_for_delivery ::
  "env \<Rightarrow> uuid \<Rightarrow> time \<Rightarrow> db \<Rightarrow> error + notification option \<times> db" where
  "notifications_repo_claim_for_delivery env i t db =
     (case first_where (\<lambda>n. nt_id n = i \<and> claimable t n) (notifications db) of
        None \<Rightarrow> Inr (None, db)
      | Some n \<Rightarrow>
          bindE (save_notification env n (n\<lparr>nt_status := N_DELIVERING, nt_attempt_count := nt_attempt_count n + 1,
                   nt_delivery_started_at := Some t, nt_last_error := None\<rparr>) db)
            (\<lambda>(n', db'). Inr (Some n', db')))"

definition notifications_repo_mark_delivered :: "env \<Rightarrow> notification \<Rightarrow> time \<Rightarrow> db \<Rightarrow> error + notification \<times> db" where
  "notifications_repo_mark_delivered env n t db =
     save_notification env n (n\<lparr>nt_status := N_DELIVERED, nt_delivered_at := Some t, nt_delivery_started_at := None,
                               nt_last_error := None\<rparr>) db"

definition notifications_repo_schedule_retry ::
  "env \<Rightarrow> notification \<Rightarrow> time \<Rightarrow> string \<Rightarrow> db \<Rightarrow> error + notification \<times> db" where
  "notifications_repo_schedule_retry env n available_at err db =
     save_notification env n (n\<lparr>nt_status := N_RETRY_SCHEDULED, nt_available_at := available_at,
                               nt_delivery_started_at := None, nt_last_error := Some (take 5000 err)\<rparr>) db"

definition notifications_repo_mark_failed ::
  "env \<Rightarrow> notification \<Rightarrow> time \<Rightarrow> string \<Rightarrow> db \<Rightarrow> error + notification \<times> db" where
  "notifications_repo_mark_failed env n t err db =
     save_notification env n (n\<lparr>nt_status := N_FAILED, nt_failed_at := Some t, nt_delivery_started_at := None,
                               nt_last_error := Some (take 5000 err)\<rparr>) db"

text \<open>One UPDATE; what it changes is not mentioned by the CHECK constraints of such a row.\<close>

definition stale_delivery :: "time \<Rightarrow> notification \<Rightarrow> bool" where
  "stale_delivery stale_before n \<longleftrightarrow>
     nt_status n = N_DELIVERING \<and> (\<exists>t. nt_delivery_started_at n = Some t \<and> t < stale_before) \<and>
     nt_attempt_count n < nt_max_attempts n"

definition freed :: "env \<Rightarrow> time \<Rightarrow> notification \<Rightarrow> notification" where
  "freed env available_at n =
     n\<lparr>nt_status := N_RETRY_SCHEDULED, nt_available_at := available_at, nt_delivery_started_at := None,
       nt_last_error := Some ''Delivery lease expired before completion'', nt_updated_at := db_now env\<rparr>"

definition notifications_repo_recover_stale_deliveries :: "env \<Rightarrow> time \<Rightarrow> time \<Rightarrow> db \<Rightarrow> uuid list \<times> db" where
  "notifications_repo_recover_stale_deliveries env stale_before available_at db =
     (map nt_id (filter (stale_delivery stale_before) (notifications db)),
      db\<lparr>notifications := map (\<lambda>n. if stale_delivery stale_before n then freed env available_at n else n) (notifications db)\<rparr>)"

definition notifications_repo_get_recipient :: "uuid \<Rightarrow> db \<Rightarrow> user option" where
  "notifications_repo_get_recipient i db = lookup u_id i (users db)"

section \<open>The service\<close>

definition notification_list :: "user \<Rightarrow> bool \<Rightarrow> nat \<Rightarrow> nat \<Rightarrow> db \<Rightarrow> notification list \<times> nat \<times> nat" where
  "notification_list me unread_only limit offset db =
     notifications_repo_list_for_recipient (u_id me) unread_only limit offset db"

definition notification_get :: "user \<Rightarrow> uuid \<Rightarrow> db \<Rightarrow> error + notification" where
  "notification_get me i db = require (notifications_repo_get_for_recipient i (u_id me) db) NotificationNotFoundError"

definition notification_mark_read :: "env \<Rightarrow> user \<Rightarrow> uuid \<Rightarrow> db \<Rightarrow> error + notification \<times> db" where
  "notification_mark_read env me i db =
     bindE (notification_get me i db) (\<lambda>n. notifications_repo_mark_read env n (now env) db)"

definition notification_mark_all_read :: "env \<Rightarrow> user \<Rightarrow> db \<Rightarrow> nat \<times> db" where
  "notification_mark_all_read env me db = notifications_repo_mark_all_read env (u_id me) (now env) db"

definition notification_unread_count :: "user \<Rightarrow> db \<Rightarrow> nat" where
  "notification_unread_count me db = notifications_repo_unread_count (u_id me) db"

section \<open>Reminder discovery\<close>

text \<open>
  Each candidate is a transaction of its own, followed by a message to the broker; \<open>accepts\<close> says
  which messages the broker takes, a refused one raises. What was committed before the exception stays.
\<close>

record discovery =
  dv_db :: db
  dv_enqueued :: "uuid list"
  dv_draws :: nat

fun discover_each ::
  "env \<Rightarrow> (uuid \<Rightarrow> bool) \<Rightarrow> int \<Rightarrow> reminder_candidate list \<Rightarrow> discovery \<Rightarrow> (error + unit) \<times> discovery" where
  "discover_each env accepts max_attempts [] s = (Inr (), s)"
| "discover_each env accepts max_attempts (c # cs) s =
     (case notifications_repo_create_candidate env (fresh env (dv_draws s)) c max_attempts (now env) (dv_db s) of
        Inl e \<Rightarrow> (Inl e, s)
      | Inr (None, db') \<Rightarrow> discover_each env accepts max_attempts cs (s\<lparr>dv_db := db', dv_draws := dv_draws s + 1\<rparr>)
      | Inr (Some i, db') \<Rightarrow>
          if accepts i
          then discover_each env accepts max_attempts cs
                 (s\<lparr>dv_db := db', dv_enqueued := dv_enqueued s @ [i], dv_draws := dv_draws s + 1\<rparr>)
          else (Inl BrokerError, s\<lparr>dv_db := db'\<rparr>))"

fun discover_loaders ::
  "env \<Rightarrow> (uuid \<Rightarrow> bool) \<Rightarrow> int \<Rightarrow> (db \<Rightarrow> reminder_candidate list) list \<Rightarrow> discovery \<Rightarrow> (error + unit) \<times> discovery" where
  "discover_loaders env accepts max_attempts [] s = (Inr (), s)"
| "discover_loaders env accepts max_attempts (load # ls) s =
     (case discover_each env accepts max_attempts (load (dv_db s)) s of
        (Inl e, s') \<Rightarrow> (Inl e, s')
      | (Inr _, s') \<Rightarrow> discover_loaders env accepts max_attempts ls s')"

definition minutes :: "int \<Rightarrow> time" where
  "minutes n = n * 60 * 1000000"

definition reminder_loaders :: "time \<Rightarrow> time \<Rightarrow> (db \<Rightarrow> reminder_candidate list) list" where
  "reminder_loaders after before =
     [due_action_candidates after before, due_review_candidates after before, due_decision_candidates after before,
      due_voting_candidates after before]"

definition reminder_discover ::
  "env \<Rightarrow> (uuid \<Rightarrow> bool) \<Rightarrow> int \<Rightarrow> int \<Rightarrow> db \<Rightarrow> (error + unit) \<times> discovery" where
  "reminder_discover env accepts window_minutes max_attempts db =
     discover_loaders env accepts max_attempts (reminder_loaders (now env) (now env + minutes window_minutes))
       \<lparr>dv_db = db, dv_enqueued = [], dv_draws = 0\<rparr>"

text \<open>The rows are committed before the first message is sent.\<close>

definition reminder_recover_stale :: "env \<Rightarrow> (uuid \<Rightarrow> bool) \<Rightarrow> db \<Rightarrow> (error + nat) \<times> uuid list \<times> db" where
  "reminder_recover_stale env accepts db =
     (let (ids, db') = notifications_repo_recover_stale_deliveries env (now env - minutes 10) (now env) db in
      (if list_all accepts ids then Inr (length ids) else Inl BrokerError, takeWhile accepts ids, db'))"

section \<open>The worker\<close>

definition retry_countdown :: "int \<Rightarrow> int \<Rightarrow> nat \<Rightarrow> int" where
  "retry_countdown base_seconds max_seconds retries = min (base_seconds * 2 ^ retries) max_seconds"

text \<open>\<open>if recipient is None or not recipient.is_active\<close>\<close>

fun active_recipient :: "user option \<Rightarrow> user option" where
  "active_recipient None = None"
| "active_recipient (Some u) = (if u_is_active u then Some u else None)"

definition worker_claim :: "env \<Rightarrow> uuid \<Rightarrow> db \<Rightarrow> (error + (notification \<times> string \<times> string) option) \<times> db" where
  "worker_claim env i db =
     (case notifications_repo_claim_for_delivery env i (now env) db of
        Inl e \<Rightarrow> (Inl e, db)
      | Inr (None, db1) \<Rightarrow> (Inr None, db1)
      | Inr (Some n, db1) \<Rightarrow>
          (case active_recipient (notifications_repo_get_recipient (nt_recipient_id n) db1) of
             Some u \<Rightarrow> (Inr (Some (n, u_email u, u_display_name u)), db1)
           | None \<Rightarrow>
               (case notifications_repo_mark_failed env n (now env) ''Notification recipient is unavailable'' db1 of
                  Inl e \<Rightarrow> (Inl e, db1)
                | Inr (_, db2) \<Rightarrow> (Inr None, db2))))"

text \<open>After the e-mail, in a new session.\<close>

definition worker_mark_delivered :: "env \<Rightarrow> notification \<Rightarrow> db \<Rightarrow> error + db" where
  "worker_mark_delivered env n db =
     (case notifications_repo_get_for_recipient (nt_id n) (nt_recipient_id n) db of
        None \<Rightarrow> Inr db
      | Some current \<Rightarrow> bindE (notifications_repo_mark_delivered env current (now env) db) (\<lambda>(_, db'). Inr db'))"

definition worker_record_retry :: "env \<Rightarrow> notification \<Rightarrow> string \<Rightarrow> int \<Rightarrow> db \<Rightarrow> error + bool \<times> db" where
  "worker_record_retry env n err countdown db =
     (case notifications_repo_get_for_recipient (nt_id n) (nt_recipient_id n) db of
        None \<Rightarrow> Inr (False, db)
      | Some current \<Rightarrow>
          if nt_max_attempts current \<le> nt_attempt_count current
          then bindE (notifications_repo_mark_failed env current (now env) err db) (\<lambda>(_, db'). Inr (False, db'))
          else bindE (notifications_repo_schedule_retry env current (now env + countdown * 1000000) err db)
                 (\<lambda>(_, db'). Inr (True, db')))"

datatype delivery_outcome = IGNORED | DELIVERED | RETRY int | RETRIES_EXHAUSTED | REJECTED

text \<open>
  One execution of the Celery task, undisturbed: \<open>env\<close> is the environment of the claim, \<open>env'\<close> that of
  what follows the e-mail; \<open>sent\<close> is the error of the mail server, if any; \<open>message\<close> is \<open>str(error)\<close> of
  an exception of the database.
\<close>

record delivery_settings =
  ds_base_seconds :: int
  ds_max_seconds :: int
  ds_max_attempts :: nat

definition deliver_notification ::
  "delivery_settings \<Rightarrow> env \<Rightarrow> env \<Rightarrow> (error \<Rightarrow> string) \<Rightarrow> string option \<Rightarrow> nat \<Rightarrow> uuid \<Rightarrow> db
     \<Rightarrow> (error + delivery_outcome) \<times> db" where
  "deliver_notification cfg env env' message sent retries i db =
     (case worker_claim env i db of
        (Inl e, db1) \<Rightarrow> (Inl e, db1)
      | (Inr None, db1) \<Rightarrow> (Inr IGNORED, db1)
      | (Inr (Some (n, recipient, display_name)), db1) \<Rightarrow>
          (case (case sent of
                   Some err \<Rightarrow> Inl err
                 | None \<Rightarrow> (case worker_mark_delivered env' n db1 of Inl e \<Rightarrow> Inl (message e) | Inr db2 \<Rightarrow> Inr db2)) of
             Inr db2 \<Rightarrow> (Inr DELIVERED, db2)
           | Inl err \<Rightarrow>
               let countdown = retry_countdown (ds_base_seconds cfg) (ds_max_seconds cfg) retries in
               (case worker_record_retry env' n err countdown db1 of
                  Inl e \<Rightarrow> (Inl e, db1)
                | Inr (True, db2) \<Rightarrow>
                    (Inr (if retries < ds_max_attempts cfg - 1 then RETRY countdown else RETRIES_EXHAUSTED), db2)
                | Inr (False, db2) \<Rightarrow> (Inr REJECTED, db2))))"

end
