(* ===== verification/Notification_Steps.thy ===== *)
theory Notification_Steps imports Notifications begin

text \<open>
  The life of a notification under any interleaving of the scheduled jobs, the delivery workers and
  the requests of the recipients, and how often a delivery is tried.
\<close>

section \<open>What may become of a row\<close>

definition delivery_final :: "notification_status \<Rightarrow> bool" where
  "delivery_final s \<longleftrightarrow> s \<in> {N_DELIVERED, N_FAILED}"

text \<open>How many further changes of status a row can see.\<close>

definition remaining :: "notification \<Rightarrow> nat" where
  "remaining n =
     (let k = nat (nt_max_attempts n - nt_attempt_count n) in
      case nt_status n of
        N_PENDING \<Rightarrow> 2 * k + 3
      | N_DELIVERING \<Rightarrow> 2 * k + 2
      | N_RETRY_SCHEDULED \<Rightarrow> 2 * k + 1
      | _ \<Rightarrow> 0)"

definition same_message :: "notification \<Rightarrow> notification \<Rightarrow> bool" where
  "same_message n n' \<longleftrightarrow> nt_id n' = nt_id n \<and> nt_recipient_id n' = nt_recipient_id n \<and> nt_workspace_id n' = nt_workspace_id n \<and>
     nt_kind n' = nt_kind n \<and> nt_source_id n' = nt_source_id n \<and> nt_idempotency_key n' = nt_idempotency_key n \<and>
     nt_title n' = nt_title n \<and> nt_body n' = nt_body n \<and> nt_max_attempts n' = nt_max_attempts n \<and>
     nt_created_at n' = nt_created_at n"

definition notification_evolves :: "notification \<Rightarrow> notification \<Rightarrow> bool" where
  "notification_evolves n n' \<longleftrightarrow> same_message n n' \<and> (nt_read_at n \<noteq> None \<longrightarrow> nt_read_at n' = nt_read_at n) \<and>
     (nt_status n' = nt_status n \<and> nt_attempt_count n' = nt_attempt_count n \<or>
      \<not> delivery_final (nt_status n) \<and> remaining n' < remaining n \<and>
      (nt_attempt_count n' = nt_attempt_count n \<or>
       nt_status n' = N_DELIVERING \<and> nt_attempt_count n' = nt_attempt_count n + 1))"

lemma notification_evolves_refl [simp]: "notification_evolves n n"
  by (simp add: notification_evolves_def same_message_def)

interpretation notification_history: row_history nt_id "\<lambda>_. False" notification_evolves
  by unfold_locales (auto simp: notification_evolves_def same_message_def)

definition notifications_inv :: "notification list \<Rightarrow> bool" where
  "notifications_inv ns \<longleftrightarrow> distinct (map nt_id ns) \<and> distinct (map nt_idempotency_key ns) \<and> (\<forall>n \<in> set ns. ck_notifications n)"

abbreviation notifications_follow :: "notification list \<Rightarrow> notification list \<Rightarrow> bool" where
  "notifications_follow \<equiv> follows nt_id (\<lambda>_. False) notification_evolves"

text \<open>The two kinds of statement: one row through the unit of work, or all rows at once.\<close>

lemma notifications_map:
  assumes inv: "notifications_inv ns"
    and f: "\<And>n. n \<in> set ns \<Longrightarrow> notification_evolves n (f n) \<and> ck_notifications (f n)"
  shows "notifications_inv (map f ns)" and "notifications_follow ns (map f ns)"
proof -
  have keys: "map nt_id (map f ns) = map nt_id ns" "map nt_idempotency_key (map f ns) = map nt_idempotency_key ns"
    using f by (auto simp: notification_evolves_def same_message_def)
  show i: "notifications_inv (map f ns)"
    using inv f keys by (simp add: notifications_inv_def del: map_map)
  have "lookup nt_id (nt_id n) (map f ns) = Some (f n)" if n: "n \<in> set ns" for n
    using i n f [OF n] by (simp add: notifications_inv_def lookup_distinct notification_evolves_def same_message_def)
  then show "notifications_follow ns (map f ns)" using f by (simp add: follows_def)
qed

lemma save_notification_follow:
  assumes inv: "notifications_inv (notifications db)" and run: "save_notification env old new db = Inr (r, db')"
    and ev: "\<And>cur. cur \<in> set (notifications db) \<Longrightarrow> nt_id cur = nt_id old \<Longrightarrow> ck_notifications cur \<Longrightarrow>
       ck_notifications (write_notification env old new cur) \<Longrightarrow> notification_evolves cur (write_notification env old new cur)"
  shows "\<exists>ns. db' = db\<lparr>notifications := ns\<rparr> \<and> notifications_inv ns \<and> notifications_follow (notifications db) ns"
proof -
  obtain cur where look: "lookup nt_id (nt_id old) (notifications db) = Some cur"
    and r: "r = write_notification env old new cur" "ck_notifications r" "db' = db\<lparr>notifications := store nt_id r (notifications db)\<rparr>"
    using run by (auto simp: save_notification_def)
  have cur: "cur \<in> set (notifications db)" "nt_id cur = nt_id old" using lookup_SomeD [OF look] by simp_all
  have ck: "ck_notifications cur" using inv cur(1) by (simp add: notifications_inv_def)
  have e: "notification_evolves cur r" using ev [OF cur ck] r(1,2) by simp
  then have key: "nt_id r = nt_id cur" "nt_idempotency_key r = nt_idempotency_key cur"
    by (simp_all add: notification_evolves_def same_message_def)
  have ids: "distinct (map nt_id (notifications db))" using inv by (simp add: notifications_inv_def)
  have "n = cur" if "n \<in> set (notifications db)" "nt_id n = nt_id r" for n
    using that key(1) distinct_key_eq [OF ids _ cur(1)] by simp
  then have "map nt_idempotency_key (store nt_id r (notifications db)) = map nt_idempotency_key (notifications db)"
    using key(2) by (intro map_store_same) auto
  then have "notifications_inv (store nt_id r (notifications db))"
    using inv r(2) by (auto simp: notifications_inv_def dest!: mem_storeD)
  then show ?thesis using r(3) notification_history.store [OF ids look e] by blast
qed

section \<open>Steps\<close>

text \<open>
  \<open>unavailable\<close> is the second transaction of \<open>_claim\<close>, with the row as the first one left it;
  \<open>delivered\<close> and \<open>retry\<close> take any row a worker may still hold, however long ago it claimed it.
\<close>

inductive notify_step :: "db \<Rightarrow> db \<Rightarrow> bool" where
  discover: "reminder_discover env accepts window max_attempts db = (res, s) \<Longrightarrow> notify_step db (dv_db s)"
| recover: "reminder_recover_stale env accepts db = (res, ids, db') \<Longrightarrow> notify_step db db'"
| claim: "notifications_repo_claim_for_delivery env i t db = Inr (r, db') \<Longrightarrow> notify_step db db'"
| unavailable: "nt_status n = N_DELIVERING \<Longrightarrow> notifications_repo_mark_failed env n t err db = Inr (r, db') \<Longrightarrow> notify_step db db'"
| delivered: "worker_mark_delivered env n db = Inr db' \<Longrightarrow> notify_step db db'"
| retry: "worker_record_retry env n err countdown db = Inr (b, db') \<Longrightarrow> notify_step db db'"
| read_one: "notification_mark_read env me i db = Inr (n, db') \<Longrightarrow> notify_step db db'"
| read_all: "notification_mark_all_read env me db = (k, db') \<Longrightarrow> notify_step db db'"

definition notify_effect :: "db \<Rightarrow> db \<Rightarrow> bool" where
  "notify_effect db db' \<longleftrightarrow>
     (\<exists>ns. db' = db\<lparr>notifications := ns\<rparr> \<and> notifications_inv ns \<and> notifications_follow (notifications db) ns)"

lemma notify_effect_refl: "notifications_inv (notifications db) \<Longrightarrow> notify_effect db db"
  unfolding notify_effect_def
  by (intro exI [of _ "notifications db"]) (simp add: notification_history.refl notifications_inv_def)

lemma create_candidate_effect:
  assumes "notifications_repo_create_candidate env i c max_attempts at db = Inr (r, db')" and inv: "notifications_inv (notifications db)"
  obtains "r = None" and "db' = db" and "idempotency_key c \<in> nt_idempotency_key ` set (notifications db)"
  | "r = Some i" and "db' = db\<lparr>notifications := notifications db @ [candidate_row env i c max_attempts at]\<rparr>"
    and "idempotency_key c \<notin> nt_idempotency_key ` set (notifications db)"
    and "notifications_inv (notifications db')"
proof (cases "idempotency_key c \<in> nt_idempotency_key ` set (notifications db)")
  case True
  then show thesis using assms(1) by (intro that(1)) (auto simp: notifications_repo_create_candidate_def)
next
  case False
  then have e: "db' = db\<lparr>notifications := notifications db @ [candidate_row env i c max_attempts at]\<rparr>" "r = Some i"
    "i \<notin> nt_id ` set (notifications db)" "ck_notifications (candidate_row env i c max_attempts at)"
    using assms(1) by (auto simp: notifications_repo_create_candidate_def candidate_row_def)
  have "notifications_inv (notifications db')"
    using inv e False by (auto simp: notifications_inv_def candidate_row_def)
  then show thesis by (intro that(2)) (use e False in auto)
qed

text \<open>Discovery only appends rows.\<close>

definition only_new :: "db \<Rightarrow> db \<Rightarrow> bool" where
  "only_new db db' \<longleftrightarrow> (\<exists>ns. db' = db\<lparr>notifications := notifications db @ ns\<rparr>) \<and> notifications_inv (notifications db')"

lemma only_new_trans: "only_new a b \<Longrightarrow> only_new b c \<Longrightarrow> only_new a c"
  unfolding only_new_def by auto

lemma only_new_refl: "notifications_inv (notifications db) \<Longrightarrow> only_new db db"
  unfolding only_new_def by (intro conjI exI [of _ "[]"]) simp_all

lemma discover_each_new:
  "notifications_inv (notifications (dv_db s)) \<Longrightarrow> only_new (dv_db s) (dv_db (snd (discover_each env accepts max_attempts cs s)))"
proof (induction env accepts max_attempts cs s rule: discover_each.induct)
  case (2 env accepts max_attempts c cs s)
  show ?case
  proof (cases "notifications_repo_create_candidate env (fresh env (dv_draws s)) c max_attempts (now env) (dv_db s)")
    case (Inl e)
    then show ?thesis using only_new_refl [OF 2(3)] by simp
  next
    case (Inr x)
    obtain r db' where x: "x = (r, db')" by force
    from Inr [unfolded x] 2(3) show ?thesis
    proof (cases rule: create_candidate_effect)
      case 1
      then show ?thesis using 2(1) [OF Inr x [symmetric] 1(1)] 2(3) Inr x by simp
    next
      case added: 2
      have n: "only_new (dv_db s) db'" using added(2,4) by (auto simp: only_new_def)
      then show ?thesis
        using 2(2) [OF Inr x [symmetric] added(1)] added(4) Inr x added(1) only_new_trans by (cases "accepts (fresh env (dv_draws s))") auto
    qed
  qed
qed (simp add: only_new_refl)

lemma discover_loaders_new:
  "notifications_inv (notifications (dv_db s)) \<Longrightarrow> only_new (dv_db s) (dv_db (snd (discover_loaders env accepts max_attempts ls s)))"
proof (induction env accepts max_attempts ls s rule: discover_loaders.induct)
  case (2 env accepts max_attempts load ls s)
  obtain x s' where e: "discover_each env accepts max_attempts (load (dv_db s)) s = (x, s')" by force
  have n: "only_new (dv_db s) (dv_db s')"
    using discover_each_new [OF 2(2), of env accepts max_attempts "load (dv_db s)"] by (simp add: e)
  show ?case
  proof (cases x)
    case (Inr u)
    then have "only_new (dv_db s') (dv_db (snd (discover_loaders env accepts max_attempts ls s')))"
      using n by (intro 2(1) [OF e [symmetric] Inr]) (simp_all add: only_new_def)
    then show ?thesis using only_new_trans [OF n] by (simp add: e Inr)
  qed (use n e in simp)
qed (simp add: only_new_refl)

lemma only_new_effect:
  assumes "only_new db db'" and "notifications_inv (notifications db)"
  shows "notify_effect db db'"
proof -
  obtain ns where ns: "db' = db\<lparr>notifications := notifications db @ ns\<rparr>" "notifications_inv (notifications db @ ns)"
    using assms(1) by (auto simp: only_new_def)
  have "notifications_follow (notifications db) (notifications db @ ns)"
    using assms(2) by (intro notification_history.append) (simp add: notifications_inv_def)
  then show ?thesis unfolding notify_effect_def using ns by blast
qed

lemma write_notification_key [simp]:
  "nt_id (write_notification env old new cur) = nt_id cur"
  "nt_idempotency_key (write_notification env old new cur) = nt_idempotency_key cur"
  "same_message cur (write_notification env old new cur)"
  by (simp_all add: write_notification_def same_message_def)

lemma write_notification_fields:
  "nt_status (write_notification env old new cur) = put_if_dirty (nt_status old) (nt_status new) (nt_status cur)"
  "nt_attempt_count (write_notification env old new cur) =
     put_if_dirty (nt_attempt_count old) (nt_attempt_count new) (nt_attempt_count cur)"
  "nt_delivered_at (write_notification env old new cur) =
     put_if_dirty (nt_delivered_at old) (nt_delivered_at new) (nt_delivered_at cur)"
  "nt_failed_at (write_notification env old new cur) = put_if_dirty (nt_failed_at old) (nt_failed_at new) (nt_failed_at cur)"
  "nt_read_at (write_notification env old new cur) = put_if_dirty (nt_read_at old) (nt_read_at new) (nt_read_at cur)"
  "nt_max_attempts (write_notification env old new cur) = nt_max_attempts cur"
  by (simp_all add: write_notification_def)

lemmas remaining_cases = remaining_def delivery_final_def ck_notifications_def

text \<open>
  A write that leaves the number of attempts alone and sets a status that is not \<open>pending\<close> or
  \<open>delivering\<close>. A finished row stays as it is: the CHECK constraint refuses the other time stamp.
\<close>

lemma outcome_evolves:
  assumes new: "nt_status new \<in> {N_RETRY_SCHEDULED, N_DELIVERED, N_FAILED}" "nt_attempt_count new = nt_attempt_count old"
      "nt_read_at new = nt_read_at old"
    and stamps: "nt_status new = N_DELIVERED \<Longrightarrow> nt_failed_at new = nt_failed_at old"
      "nt_status new = N_FAILED \<Longrightarrow> nt_delivered_at new = nt_delivered_at old"
      "nt_status new = N_RETRY_SCHEDULED \<Longrightarrow> nt_delivered_at new = nt_delivered_at old \<and> nt_failed_at new = nt_failed_at old"
    and ck: "ck_notifications cur" "ck_notifications (write_notification env old new cur)"
  shows "notification_evolves cur (write_notification env old new cur)"
proof -
  let ?w = "write_notification env old new cur"
  have same: "nt_attempt_count ?w = nt_attempt_count cur" "nt_read_at ?w = nt_read_at cur" "nt_max_attempts ?w = nt_max_attempts cur"
    using new(2,3) by (simp_all add: write_notification_fields)
  show ?thesis
  proof (cases "nt_status ?w = nt_status cur")
    case True
    then show ?thesis using same by (simp add: notification_evolves_def)
  next
    case False
    then have st: "nt_status ?w = nt_status new" by (simp add: write_notification_fields put_if_dirty_def split: if_splits)
    have alive: "\<not> delivery_final (nt_status cur)"
    proof
      assume fin: "delivery_final (nt_status cur)"
      have f: "nt_failed_at ?w = nt_failed_at cur" if "nt_status new \<noteq> N_FAILED"
        using that new(1) stamps by (auto simp: write_notification_fields)
      have d: "nt_delivered_at ?w = nt_delivered_at cur" if "nt_status new \<noteq> N_DELIVERED"
        using that new(1) stamps by (auto simp: write_notification_fields)
      show False
        using fin False st f d ck new(1) by (auto simp: delivery_final_def ck_notifications_def)
    qed
    have "remaining ?w < remaining cur"
      using alive False st new(1) same by (cases "nt_status cur") (auto simp: remaining_def delivery_final_def Let_def)
    then show ?thesis using alive same by (simp add: notification_evolves_def)
  qed
qed

lemma notify_step_effect:
  assumes step: "notify_step db db'" and inv: "notifications_inv (notifications db)"
  shows "notify_effect db db'"
  using step
proof cases
  case (discover env accepts window max_attempts res s)
  have "only_new db (dv_db (snd (reminder_discover env accepts window max_attempts db)))"
    unfolding reminder_discover_def
    using discover_loaders_new [of "\<lparr>dv_db = db, dv_enqueued = [], dv_draws = 0\<rparr>"] inv by simp
  then show ?thesis using only_new_effect inv discover by simp
next
  case (recover env accepts res ids)
  let ?f = "\<lambda>n. if stale_delivery (now env - minutes 10) n then freed env (now env) n else n"
  have "notification_evolves n (freed env (now env) n) \<and> ck_notifications (freed env (now env) n)"
    if "n \<in> set (notifications db)" "stale_delivery t n" for n t
    using that inv by (auto simp: notifications_inv_def notification_evolves_def same_message_def freed_def stale_delivery_def
        remaining_def delivery_final_def ck_notifications_def Let_def)
  then have f: "notification_evolves n (?f n) \<and> ck_notifications (?f n)" if "n \<in> set (notifications db)" for n
    using that inv by (simp add: notifications_inv_def)
  have "db' = db\<lparr>notifications := map ?f (notifications db)\<rparr>"
    using recover by (simp add: reminder_recover_stale_def notifications_repo_recover_stale_deliveries_def Let_def)
  then show ?thesis unfolding notify_effect_def using notifications_map [OF inv f] by blast
next
  case (claim env i t r)
  show ?thesis
  proof (cases "first_where (\<lambda>n. nt_id n = i \<and> claimable t n) (notifications db)")
    case None
    then show ?thesis using claim notify_effect_refl [OF inv] by (simp add: notifications_repo_claim_for_delivery_def)
  next
    case (Some n)
    note n = first_where_SomeD [OF Some]
    let ?new = "n\<lparr>nt_status := N_DELIVERING, nt_attempt_count := nt_attempt_count n + 1, nt_delivery_started_at := Some t,
      nt_last_error := None\<rparr>"
    obtain r' where "save_notification env n ?new db = Inr (r', db')"
      using claim Some by (auto simp: notifications_repo_claim_for_delivery_def)
    then show ?thesis
      unfolding notify_effect_def
    proof (rule save_notification_follow [OF inv])
      fix cur assume cur: "cur \<in> set (notifications db)" "nt_id cur = nt_id n"
      then have "cur = n" using n inv by (auto simp: notifications_inv_def intro: distinct_key_eq)
      moreover have "remaining (write_notification env n ?new n) < remaining n"
        using n by (cases "nt_status n") (auto simp: claimable_def remaining_def write_notification_fields put_if_dirty_def Let_def nat_diff_distrib')
      ultimately show "notification_evolves cur (write_notification env n ?new cur)"
        using n by (auto simp: notification_evolves_def write_notification_fields claimable_def delivery_final_def put_if_dirty_def)
    qed
  qed
next
  case (unavailable n env t err r)
  from unavailable(2) show ?thesis
    unfolding notify_effect_def notifications_repo_mark_failed_def
    by (rule save_notification_follow [OF inv]) (rule outcome_evolves; simp)
next
  case (delivered env n)
  show ?thesis
  proof (cases "notifications_repo_get_for_recipient (nt_id n) (nt_recipient_id n) db")
    case None
    then show ?thesis using delivered notify_effect_refl [OF inv] by (simp add: worker_mark_delivered_def)
  next
    case (Some current)
    then obtain r where "notifications_repo_mark_delivered env current (now env) db = Inr (r, db')"
      using delivered by (auto simp: worker_mark_delivered_def)
    then show ?thesis
      unfolding notify_effect_def notifications_repo_mark_delivered_def
      by (rule save_notification_follow [OF inv]) (rule outcome_evolves; simp)
  qed
next
  case (retry env n err countdown b)
  show ?thesis
  proof (cases "notifications_repo_get_for_recipient (nt_id n) (nt_recipient_id n) db")
    case None
    then show ?thesis using retry notify_effect_refl [OF inv] by (simp add: worker_record_retry_def)
  next
    case (Some current)
    show ?thesis
    proof (cases "nt_max_attempts current \<le> nt_attempt_count current")
      case True
      then obtain r where "notifications_repo_mark_failed env current (now env) err db = Inr (r, db')"
        using retry Some by (auto simp: worker_record_retry_def)
      then show ?thesis
        unfolding notify_effect_def notifications_repo_mark_failed_def
        by (rule save_notification_follow [OF inv]) (rule outcome_evolves; simp)
    next
      case False
      then obtain r where "notifications_repo_schedule_retry env current (now env + countdown * 1000000) err db = Inr (r, db')"
        using retry Some by (auto simp: worker_record_retry_def)
      then show ?thesis
        unfolding notify_effect_def notifications_repo_schedule_retry_def
        by (rule save_notification_follow [OF inv]) (rule outcome_evolves; simp)
    qed
  qed
next
  case (read_one env me i n)
  then obtain m where m: "notifications_repo_mark_read env m (now env) db = Inr (n, db')" "m \<in> set (notifications db)"
    by (auto simp: notification_mark_read_def notification_get_def notifications_repo_get_for_recipient_def
        dest!: notification_table.get_Some)
  have self: "cur = m" if "cur \<in> set (notifications db)" "nt_id cur = nt_id m" for cur
    using that m(2) inv by (auto simp: notifications_inv_def intro: distinct_key_eq)
  show ?thesis
  proof (cases "nt_read_at m = None")
    case True
    then have "save_notification env m (m\<lparr>nt_read_at := Some (now env)\<rparr>) db = Inr (n, db')"
      using m by (simp add: notifications_repo_mark_read_def)
    then show ?thesis
      unfolding notify_effect_def
    proof (rule save_notification_follow [OF inv])
      fix cur assume "cur \<in> set (notifications db)" "nt_id cur = nt_id m"
      then have "cur = m" by (rule self)
      then show "notification_evolves cur (write_notification env m (m\<lparr>nt_read_at := Some (now env)\<rparr>) cur)"
        using True by (simp add: notification_evolves_def write_notification_fields)
    qed
  next
    case False
    then have "db' = db" using m(1) by (auto simp: notifications_repo_mark_read_def)
    then show ?thesis using notify_effect_refl [OF inv] by simp
  qed
next
  case (read_all env me k)
  let ?f = "\<lambda>n. if mine (u_id me) True n then n\<lparr>nt_read_at := Some (now env), nt_updated_at := db_now env\<rparr> else n"
  have "notification_evolves n (n\<lparr>nt_read_at := Some t, nt_updated_at := u\<rparr>) \<and> ck_notifications (n\<lparr>nt_read_at := Some t, nt_updated_at := u\<rparr>)"
    if "n \<in> set (notifications db)" "mine i True n" for n t u i
    using that inv by (auto simp: notifications_inv_def notification_evolves_def same_message_def mine_def ck_notifications_def)
  then have f: "notification_evolves n (?f n) \<and> ck_notifications (?f n)" if "n \<in> set (notifications db)" for n
    using that inv by (simp add: notifications_inv_def)
  have "db' = db\<lparr>notifications := map ?f (notifications db)\<rparr>"
    using read_all by (simp add: notification_mark_all_read_def notifications_repo_mark_all_read_def)
  then show ?thesis unfolding notify_effect_def using notifications_map [OF inv f] by blast
qed

section \<open>Trying again until it is done\<close>

lemma save_notification_fresh:
  assumes "lookup nt_id (nt_id n) (notifications db) = Some n" and "ck_notifications (write_notification env n new n)"
  shows "save_notification env n new db =
    Inr (write_notification env n new n, db\<lparr>notifications := store nt_id (write_notification env n new n) (notifications db)\<rparr>)"
  using assms by (simp add: save_notification_def flush_update_def)

lemma first_where_key:
  "distinct (map key rs) \<Longrightarrow> lookup key i rs = Some r \<Longrightarrow> first_where (\<lambda>x. key x = i \<and> P x) rs = (if P r then Some r else None)"
proof -
  assume d: "distinct (map key rs)" and r: "lookup key i rs = Some r"
  note r = lookup_SomeD [OF r]
  have only: "x = r" if "x \<in> set rs" "key x = i" for x using that r distinct_key_eq [OF d] by blast
  show "first_where (\<lambda>x. key x = i \<and> P x) rs = (if P r then Some r else None)"
  proof (cases "P r")
    case True
    have "first_where (\<lambda>x. key x = i \<and> P x) rs = Some r" by (rule first_where_unique) (use True r only in blast)+
    then show ?thesis using True by simp
  next
    case False
    then show ?thesis using only by (auto simp: first_where_None_iff)
  qed
qed

text \<open>A claimed row, before the outcome is recorded.\<close>

definition claimed_row :: "env \<Rightarrow> notification \<Rightarrow> notification" where
  "claimed_row env n = write_notification env n (n\<lparr>nt_status := N_DELIVERING, nt_attempt_count := nt_attempt_count n + 1,
     nt_delivery_started_at := Some (now env), nt_last_error := None\<rparr>) n"

lemma claimed_row_fields [simp]:
  "nt_id (claimed_row env n) = nt_id n" "nt_recipient_id (claimed_row env n) = nt_recipient_id n"
  "nt_max_attempts (claimed_row env n) = nt_max_attempts n"
  "nt_attempt_count (claimed_row env n) = nt_attempt_count n + 1" "nt_status (claimed_row env n) = N_DELIVERING"
  "nt_delivered_at (claimed_row env n) = nt_delivered_at n" "nt_failed_at (claimed_row env n) = nt_failed_at n"
proof -
  have "n\<lparr>nt_status := N_DELIVERING, nt_attempt_count := nt_attempt_count n + 1, nt_delivery_started_at := Some (now env),
      nt_last_error := None\<rparr> \<noteq> n" by (rule notI, drule arg_cong [of _ _ nt_attempt_count]) simp
  then show "nt_attempt_count (claimed_row env n) = nt_attempt_count n + 1" "nt_status (claimed_row env n) = N_DELIVERING"
    by (simp_all add: claimed_row_def write_notification_fields put_if_dirty_def)
qed (simp_all add: claimed_row_def write_notification_fields write_notification_def)

lemma claim_due:
  assumes inv: "notifications_inv (notifications db)" and look: "lookup nt_id i (notifications db) = Some n"
    and due: "claimable (now env) n"
  shows "notifications_repo_claim_for_delivery env i (now env) db =
      Inr (Some (claimed_row env n), db\<lparr>notifications := store nt_id (claimed_row env n) (notifications db)\<rparr>)"
proof -
  have ids: "distinct (map nt_id (notifications db))" and ck: "ck_notifications n"
    using inv lookup_SomeD [OF look] by (simp_all add: notifications_inv_def)
  have i: "nt_id n = i" using lookup_SomeD [OF look] by simp
  have "ck_notifications (claimed_row env n)" using ck due by (auto simp: ck_notifications_def claimable_def)
  then show ?thesis
    using first_where_key [OF ids look, of "claimable (now env)"] due
      save_notification_fresh [of n db env, folded claimed_row_def] look i
    by (simp add: notifications_repo_claim_for_delivery_def claimed_row_def)
qed

lemma claim_not_due:
  assumes "notifications_inv (notifications db)" and "lookup nt_id i (notifications db) = Some n" and "\<not> claimable (now env) n"
  shows "notifications_repo_claim_for_delivery env i (now env) db = Inr (None, db)"
  using assms first_where_key [of nt_id "notifications db" i n "claimable (now env)"]
  by (simp add: notifications_repo_claim_for_delivery_def notifications_inv_def)

text \<open>The outcome of a run on a row that is due, whose recipient is active.\<close>

definition outcome_row :: "delivery_settings \<Rightarrow> env \<Rightarrow> string option \<Rightarrow> nat \<Rightarrow> notification \<Rightarrow> notification" where
  "outcome_row cfg env sent retries n =
     write_notification env n
       (case sent of
          None \<Rightarrow> n\<lparr>nt_status := N_DELIVERED, nt_delivered_at := Some (now env), nt_delivery_started_at := None, nt_last_error := None\<rparr>
        | Some err \<Rightarrow>
            if nt_max_attempts n \<le> nt_attempt_count n
            then n\<lparr>nt_status := N_FAILED, nt_failed_at := Some (now env), nt_delivery_started_at := None,
                   nt_last_error := Some (take 5000 err)\<rparr>
            else n\<lparr>nt_status := N_RETRY_SCHEDULED,
                   nt_available_at := now env + retry_countdown (ds_base_seconds cfg) (ds_max_seconds cfg) retries * 1000000,
                   nt_delivery_started_at := None, nt_last_error := Some (take 5000 err)\<rparr>) n"

lemma outcome_row_fields:
  "nt_id (outcome_row cfg env sent retries n) = nt_id n" "nt_recipient_id (outcome_row cfg env sent retries n) = nt_recipient_id n"
  "nt_max_attempts (outcome_row cfg env sent retries n) = nt_max_attempts n"
  "nt_attempt_count (outcome_row cfg env sent retries n) = nt_attempt_count n"
  "nt_status n = N_DELIVERING \<Longrightarrow> nt_status (outcome_row cfg env sent retries n) =
     (if sent = None then N_DELIVERED else if nt_max_attempts n \<le> nt_attempt_count n then N_FAILED else N_RETRY_SCHEDULED)"
  "nt_status n = N_DELIVERING \<Longrightarrow> sent \<noteq> None \<Longrightarrow> nt_attempt_count n < nt_max_attempts n \<Longrightarrow>
     nt_available_at (outcome_row cfg env sent retries n) =
       now env + retry_countdown (ds_base_seconds cfg) (ds_max_seconds cfg) retries * 1000000"
  by (auto simp: outcome_row_def write_notification_def put_if_dirty_def split: option.split)
    (drule arg_cong [of _ _ nt_status]; simp)+

lemma outcome_row_ck:
  assumes "ck_notifications n" and "nt_status n = N_DELIVERING"
  shows "ck_notifications (outcome_row cfg env sent retries n)"
proof -
  have "nt_delivered_at n = None" "nt_failed_at n = None" using assms by (auto simp: ck_notifications_def)
  then show ?thesis
    using assms by (auto simp: outcome_row_def write_notification_def put_if_dirty_def ck_notifications_def split: option.split)
qed

lemma deliver_due:
  assumes inv: "notifications_inv (notifications db)" and look: "lookup nt_id i (notifications db) = Some n"
    and due: "claimable (now env) n" and user: "active_recipient (lookup u_id (nt_recipient_id n) (users db)) \<noteq> None"
  shows "snd (deliver_notification cfg env env' message sent retries i db) =
    db\<lparr>notifications := store nt_id (outcome_row cfg env' sent retries (claimed_row env n)) (notifications db)\<rparr>"
proof -
  let ?c = "claimed_row env n" and ?db1 = "db\<lparr>notifications := store nt_id (claimed_row env n) (notifications db)\<rparr>"
  let ?o = "outcome_row cfg env' sent retries ?c"
  note i = lookup_SomeD [OF look]
  have ids: "distinct (map nt_id (notifications db))" and ck: "ck_notifications n"
    using inv i by (simp_all add: notifications_inv_def)
  obtain u where u: "active_recipient (lookup u_id (nt_recipient_id n) (users db)) = Some u" using user by blast
  have claim: "worker_claim env i db = (Inr (Some (?c, u_email u, u_display_name u)), ?db1)"
    using u by (simp add: worker_claim_def claim_due [OF inv look due] notifications_repo_get_recipient_def)
  have key: "nt_id n \<in> nt_id ` set (notifications db)" using i by blast
  have look1: "lookup nt_id (nt_id ?c) (notifications ?db1) = Some ?c" using key by (simp add: lookup_store)
  have get: "notifications_repo_get_for_recipient (nt_id ?c) (nt_recipient_id ?c) ?db1 = Some ?c"
    unfolding notifications_repo_get_for_recipient_def
    using notification_table.get_iff [of "notifications ?db1"] ids key by (simp add: set_store)
  have ckc: "ck_notifications ?c" using ck due by (auto simp: ck_notifications_def claimable_def)
  have cko: "ck_notifications ?o" by (rule outcome_row_ck [OF ckc]) simp
  have twice: "store nt_id ?o (store nt_id ?c (notifications db)) = store nt_id ?o (notifications db)"
    by (simp add: store_def outcome_row_fields)
  have saved: "save_notification env' ?c new ?db1 = Inr (?o, db\<lparr>notifications := store nt_id ?o (notifications db)\<rparr>)"
    if "?o = write_notification env' ?c new ?c" for new
    using save_notification_fresh [OF look1, of env' new] cko twice by (simp add: that [symmetric])
  show ?thesis
  proof (cases sent)
    case None
    then have "worker_mark_delivered env' ?c ?db1 = Inr (db\<lparr>notifications := store nt_id ?o (notifications db)\<rparr>)"
      unfolding worker_mark_delivered_def get
      using saved by (simp add: notifications_repo_mark_delivered_def outcome_row_def)
    then show ?thesis using None by (simp add: deliver_notification_def claim)
  next
    case (Some err)
    let ?cd = "retry_countdown (ds_base_seconds cfg) (ds_max_seconds cfg) retries"
    have "worker_record_retry env' ?c err ?cd ?db1 =
        Inr (\<not> nt_max_attempts ?c \<le> nt_attempt_count ?c, db\<lparr>notifications := store nt_id ?o (notifications db)\<rparr>)"
      unfolding worker_record_retry_def get
      using saved Some
      by (cases "nt_max_attempts ?c \<le> nt_attempt_count ?c")
        (simp_all add: notifications_repo_mark_failed_def notifications_repo_schedule_retry_def outcome_row_def
          del: claimed_row_fields)
    then show ?thesis using Some by (simp add: deliver_notification_def claim Let_def split: bool.split)
  qed
qed

text \<open>Any number of runs of the task for one notification, each started when its message is due again.\<close>

record delivery_run =
  dr_claim :: env
  dr_end :: env
  dr_sent :: "string option"
  dr_retries :: nat

fun deliver_runs :: "delivery_settings \<Rightarrow> (error \<Rightarrow> string) \<Rightarrow> uuid \<Rightarrow> delivery_run list \<Rightarrow> db \<Rightarrow> db" where
  "deliver_runs cfg message i [] db = db"
| "deliver_runs cfg message i (r # rs) db =
     deliver_runs cfg message i rs
       (snd (deliver_notification cfg (dr_claim r) (dr_end r) message (dr_sent r) (dr_retries r) i db))"

fun due_runs :: "delivery_settings \<Rightarrow> time \<Rightarrow> delivery_run list \<Rightarrow> bool" where
  "due_runs cfg t [] = True"
| "due_runs cfg t (r # rs) =
     (t \<le> now (dr_claim r) \<and>
      due_runs cfg (now (dr_end r) + retry_countdown (ds_base_seconds cfg) (ds_max_seconds cfg) (dr_retries r) * 1000000) rs)"

lemma deliver_not_claimable:
  assumes "notifications_inv (notifications db)" and "lookup nt_id i (notifications db) = Some n" and "\<not> claimable (now env) n"
  shows "snd (deliver_notification cfg env env' message sent retries i db) = db"
  by (simp add: deliver_notification_def worker_claim_def claim_not_due [OF assms])

lemma deliver_runs_final:
  assumes "notifications_inv (notifications db)" and "lookup nt_id i (notifications db) = Some n" and "delivery_final (nt_status n)"
  shows "deliver_runs cfg message i rs db = db"
proof (induction rs)
  case (Cons r rs)
  have "\<not> claimable t n" for t using assms(3) by (auto simp: claimable_def delivery_final_def)
  then show ?case using Cons deliver_not_claimable [OF assms(1,2)] by simp
qed simp

lemma outcome_row_inv:
  assumes inv: "notifications_inv (notifications db)" and look: "lookup nt_id i (notifications db) = Some n"
    and due: "claimable (now env) n"
  shows "notifications_inv (store nt_id (outcome_row cfg env' sent retries (claimed_row env n)) (notifications db))"
    and "lookup nt_id i (store nt_id (outcome_row cfg env' sent retries (claimed_row env n)) (notifications db)) =
      Some (outcome_row cfg env' sent retries (claimed_row env n))"
proof -
  let ?o = "outcome_row cfg env' sent retries (claimed_row env n)"
  note i = lookup_SomeD [OF look]
  have ids: "distinct (map nt_id (notifications db))" and ck: "ck_notifications n"
    using inv i by (simp_all add: notifications_inv_def)
  have key: "nt_id ?o = i" using i by (simp add: outcome_row_fields)
  have "ck_notifications (claimed_row env n)" using ck due by (auto simp: ck_notifications_def claimable_def)
  then have cko: "ck_notifications ?o" by (rule outcome_row_ck) simp
  have "nt_idempotency_key ?o = nt_idempotency_key n"
    by (simp add: outcome_row_def claimed_row_def split: option.split)
  moreover have "x = n" if "x \<in> set (notifications db)" "nt_id x = nt_id ?o" for x
    using that i key distinct_key_eq [OF ids] by metis
  ultimately have "map nt_idempotency_key (store nt_id ?o (notifications db)) = map nt_idempotency_key (notifications db)"
    by (intro map_store_same) auto
  then show "notifications_inv (store nt_id ?o (notifications db))"
    using inv cko by (auto simp: notifications_inv_def dest!: mem_storeD)
  have "i \<in> nt_id ` set (notifications db)" using i by blast
  then show "lookup nt_id i (store nt_id ?o (notifications db)) = Some ?o" by (simp add: lookup_store key)
qed

lemma deliver_runs_end:
  assumes "notifications_inv (notifications db)" and "lookup nt_id i (notifications db) = Some n"
    and "nt_status n \<in> {N_PENDING, N_RETRY_SCHEDULED}" and "nt_attempt_count n < nt_max_attempts n"
    and "active_recipient (lookup u_id (nt_recipient_id n) (users db)) \<noteq> None"
    and "due_runs cfg (nt_available_at n) rs" and "nat (nt_max_attempts n - nt_attempt_count n) \<le> length rs"
  shows "\<exists>n'. lookup nt_id i (notifications (deliver_runs cfg message i rs db)) = Some n' \<and>
    nt_status n' = (if \<exists>r \<in> set (take (nat (nt_max_attempts n - nt_attempt_count n)) rs). dr_sent r = None
                    then N_DELIVERED else N_FAILED)"
  using assms
proof (induction rs arbitrary: db n)
  case Nil
  then show ?case by simp
next
  case (Cons r rs)
  let ?k = "nat (nt_max_attempts n - nt_attempt_count n)"
  let ?o = "outcome_row cfg (dr_end r) (dr_sent r) (dr_retries r) (claimed_row (dr_claim r) n)"
  let ?db = "db\<lparr>notifications := store nt_id ?o (notifications db)\<rparr>"
  have due: "claimable (now (dr_claim r)) n" using Cons.prems(3,4,6) by (simp add: claimable_def)
  have run: "deliver_runs cfg message i (r # rs) db = deliver_runs cfg message i rs ?db"
    by (simp add: deliver_due [OF Cons.prems(1,2) due Cons.prems(5)])
  have inv: "notifications_inv (notifications ?db)" and look: "lookup nt_id i (notifications ?db) = Some ?o"
    using outcome_row_inv [OF Cons.prems(1,2) due] by simp_all
  have k: "?k = Suc (nat (nt_max_attempts n - (nt_attempt_count n + 1)))" using Cons.prems(4) by simp
  note F = outcome_row_fields [where cfg = cfg and env = "dr_end r" and sent = "dr_sent r" and retries = "dr_retries r"
      and n = "claimed_row (dr_claim r) n"]
  show ?case
  proof (cases "dr_sent r = None \<or> nt_max_attempts n \<le> nt_attempt_count n + 1")
    case True
    have st: "nt_status ?o = (if dr_sent r = None then N_DELIVERED else N_FAILED)" using True F(5) by auto
    then have "deliver_runs cfg message i rs ?db = ?db"
      by (intro deliver_runs_final [OF inv look]) (simp add: delivery_final_def)
    then show ?thesis using run look st True k by (intro exI [of _ ?o]) auto
  next
    case False
    have att: "nt_attempt_count ?o = nt_attempt_count n + 1" "nt_max_attempts ?o = nt_max_attempts n" "nt_recipient_id ?o = nt_recipient_id n"
      using F(2,3,4) by simp_all
    have st: "nt_status ?o = N_RETRY_SCHEDULED" using False F(5) by simp
    have at: "nt_available_at ?o =
        now (dr_end r) + retry_countdown (ds_base_seconds cfg) (ds_max_seconds cfg) (dr_retries r) * 1000000"
      using False F(6) by simp
    have ih: "\<exists>n'. lookup nt_id i (notifications (deliver_runs cfg message i rs ?db)) = Some n' \<and>
        nt_status n' = (if \<exists>r \<in> set (take (nat (nt_max_attempts ?o - nt_attempt_count ?o)) rs). dr_sent r = None
                        then N_DELIVERED else N_FAILED)"
    proof (rule Cons.IH [OF inv look])
      show "due_runs cfg (nt_available_at ?o) rs" using Cons.prems(6) at by simp
      show "nat (nt_max_attempts ?o - nt_attempt_count ?o) \<le> length rs" using Cons.prems(7) k att by simp
      show "active_recipient (lookup u_id (nt_recipient_id ?o) (users ?db)) \<noteq> None" using Cons.prems(5) att(3) by simp
    qed (use st att False in simp_all)
    have "(\<exists>x \<in> set (take ?k (r # rs)). dr_sent x = None) \<longleftrightarrow>
        (\<exists>x \<in> set (take (nat (nt_max_attempts ?o - nt_attempt_count ?o)) rs). dr_sent x = None)"
      unfolding k att using False by (simp del: not_None_eq)
    then show ?thesis using ih unfolding run by presburger
  qed
qed

section \<open>What the steps leave alone\<close>

lemma create_candidate_frame:
  "notifications_repo_create_candidate env i c m t db = Inr (r, db') \<Longrightarrow> \<exists>ns. db' = db\<lparr>notifications := ns\<rparr>"
proof -
  assume "notifications_repo_create_candidate env i c m t db = Inr (r, db')"
  then consider "db' = db" | ns where "db' = db\<lparr>notifications := ns\<rparr>"
    by (auto simp: notifications_repo_create_candidate_def split: if_splits)
  then show ?thesis
  proof cases
    case 1
    then have "db' = db\<lparr>notifications := notifications db\<rparr>" by simp
    then show ?thesis by (rule exI)
  qed blast
qed

definition notifications_only :: "db \<Rightarrow> db \<Rightarrow> bool" where
  "notifications_only db db' \<longleftrightarrow> db'\<lparr>notifications := []\<rparr> = db\<lparr>notifications := []\<rparr>"

lemma notifications_onlyD: "notifications_only db db' \<Longrightarrow> \<exists>ns. db' = db\<lparr>notifications := ns\<rparr>"
proof -
  assume "notifications_only db db'"
  then have "db' = db\<lparr>notifications := notifications db'\<rparr>" by (cases db; cases db') (simp add: notifications_only_def)
  then show ?thesis by blast
qed

lemma notifications_onlyI: "\<exists>ns. db' = db\<lparr>notifications := ns\<rparr> \<Longrightarrow> notifications_only db db'"
  by (auto simp: notifications_only_def)

lemma save_notification_only: "save_notification env old new db = Inr (r, db') \<Longrightarrow> notifications_only db db'"
  by (auto simp: save_notification_def notifications_only_def)

lemma discover_each_only: "notifications_only (dv_db s) (dv_db (snd (discover_each env accepts m cs s)))"
proof (induction env accepts m cs s rule: discover_each.induct)
  case (2 env accepts m c cs s)
  show ?case
  proof (cases "notifications_repo_create_candidate env (fresh env (dv_draws s)) c m (now env) (dv_db s)")
    case (Inr x)
    obtain r db' where x: "x = (r, db')" by force
    have n: "notifications_only (dv_db s) db'"
      using notifications_onlyI [OF create_candidate_frame] Inr x by blast
    show ?thesis
    proof (cases r)
      case None
      then show ?thesis using 2(1) [OF Inr x [symmetric] None] n Inr x by (simp add: notifications_only_def)
    next
      case (Some j)
      then show ?thesis using 2(2) [OF Inr x [symmetric] Some] n Inr x by (simp add: notifications_only_def)
    qed
  qed (simp add: notifications_only_def)
qed (simp add: notifications_only_def)

lemma discover_loaders_only: "notifications_only (dv_db s) (dv_db (snd (discover_loaders env accepts m ls s)))"
proof (induction env accepts m ls s rule: discover_loaders.induct)
  case (2 env accepts m load ls s)
  obtain x s' where e: "discover_each env accepts m (load (dv_db s)) s = (x, s')" by force
  have n: "notifications_only (dv_db s) (dv_db s')" using discover_each_only [of s env accepts m "load (dv_db s)"] by (simp add: e)
  show ?case
  proof (cases x)
    case (Inr u)
    then show ?thesis using 2 [OF e [symmetric] Inr] n by (simp add: e notifications_only_def)
  qed (use n e in simp)
qed (simp add: notifications_only_def)

lemma notify_step_only:
  assumes "notify_step db db'"
  shows "notifications_only db db'"
  using assms
proof cases
  case (discover env accepts window m res s)
  then show ?thesis
    using discover_loaders_only [of "\<lparr>dv_db = db, dv_enqueued = [], dv_draws = 0\<rparr>"]
    by (metis discovery.select_convs(1) reminder_discover_def snd_conv)
next
  case (recover env accepts res ids)
  then show ?thesis
    by (auto simp: reminder_recover_stale_def notifications_repo_recover_stale_deliveries_def Let_def notifications_only_def)
next
  case (claim env i t r)
  then show ?thesis
    by (auto simp: notifications_repo_claim_for_delivery_def notifications_only_def dest!: save_notification_only split: option.splits)
next
  case (unavailable n env t err r)
  then show ?thesis unfolding notifications_repo_mark_failed_def by (blast intro: save_notification_only)
next
  case (delivered env n)
  then show ?thesis
    by (auto simp: worker_mark_delivered_def notifications_repo_mark_delivered_def notifications_only_def
        dest!: save_notification_only split: option.splits)
next
  case (retry env n err countdown b)
  then show ?thesis
    by (auto simp: worker_record_retry_def notifications_repo_mark_failed_def notifications_repo_schedule_retry_def
        notifications_only_def dest!: save_notification_only split: option.splits if_splits)
next
  case (read_one env me i n)
  then show ?thesis
    by (auto simp: notification_mark_read_def notifications_repo_mark_read_def notifications_only_def
        dest!: save_notification_only split: if_splits)
next
  case (read_all env me k)
  then show ?thesis by (auto simp: notification_mark_all_read_def notifications_repo_mark_all_read_def notifications_only_def)
qed

end
