(* ===== verification/Py_Url.thy ===== *)
theory Py_Url imports Py_Text begin

text \<open>
  Text that leaves the application: URLs (\<open>urllib.parse\<close>), Base64, and the order \<open>str.casefold\<close> gives.
\<close>

text \<open>\<open>urllib.parse.quote\<close>: the bytes of the UTF-8 encoding, percent-encoded but for the safe ones.\<close>

definition utf8 :: "char \<Rightarrow> nat list" where
  "utf8 c = (let n = of_char c :: nat in if n < 128 then [n] else [192 + n div 64, 128 + n mod 64])"

definition hex_upper :: "nat \<Rightarrow> char" where
  "hex_upper n = ''0123456789ABCDEF'' ! (n mod 16)"

definition quote_byte :: "nat set \<Rightarrow> nat \<Rightarrow> string" where
  "quote_byte safe n =
     (if (48 \<le> n \<and> n \<le> 57) \<or> (65 \<le> n \<and> n \<le> 90) \<or> (97 \<le> n \<and> n \<le> 122) \<or> n \<in> {45, 46, 95, 126} \<union> safe
      then [char_of n] else CHR ''%'' # [hex_upper (n div 16), hex_upper n])"

definition url_quote :: "string \<Rightarrow> string" where
  "url_quote s = concat (map (quote_byte {47}) (concat (map utf8 s)))"

text \<open>\<open>urllib.parse.urlencode\<close>: \<open>quote_plus\<close> on both sides of each pair.\<close>

definition quote_plus :: "string \<Rightarrow> string" where
  "quote_plus s = concat (map (\<lambda>n. if n = 32 then ''+'' else quote_byte {} n) (concat (map utf8 s)))"

definition urlencode :: "(string \<times> string) list \<Rightarrow> string" where
  "urlencode kvs = foldr (\<lambda>s acc. if acc = [] then s else s @ ''&'' @ acc) (map (\<lambda>(k, v). quote_plus k @ ''='' @ quote_plus v) kvs) []"

text \<open>\<open>str.rstrip("/")\<close>\<close>

definition rstrip_slash :: "string \<Rightarrow> string" where
  "rstrip_slash s = rev (dropWhile (\<lambda>c. c = CHR ''/'') (rev s))"

text \<open>
  The code points of \<open>s.casefold()\<close>: two characters below 256 fold to something else than their
  lower case, the micro sign to a Greek letter and the sharp s to two letters.
\<close>

definition casefold_char :: "char \<Rightarrow> nat list" where
  "casefold_char c = (let n = of_char c :: nat in if n = 181 then [956] else if n = 223 then [115, 115] else [of_char (lower_char c)])"

definition casefold :: "string \<Rightarrow> nat list" where
  "casefold s = concat (map casefold_char s)"

text \<open>\<open>s.split(",")\<close>\<close>

fun split_comma :: "string \<Rightarrow> string \<Rightarrow> string list" where
  "split_comma w [] = [w]"
| "split_comma w (c # cs) = (if c = CHR '','' then w # split_comma [] cs else split_comma (w @ [c]) cs)"

text \<open>\<open>base64.urlsafe_b64encode(bytes).rstrip(b"=")\<close>, and the bytes of a hexadecimal digest.\<close>

definition b64_char :: "nat \<Rightarrow> char" where
  "b64_char n = ''ABCDEFGHIJKLMNOPQRSTUVWXYZabcdefghijklmnopqrstuvwxyz0123456789-_'' ! (n mod 64)"

fun b64_unpadded :: "nat list \<Rightarrow> string" where
  "b64_unpadded [] = []"
| "b64_unpadded [a] = [b64_char (a div 4), b64_char (16 * a)]"
| "b64_unpadded [a, b] = [b64_char (a div 4), b64_char (16 * a + b div 16), b64_char (4 * b)]"
| "b64_unpadded (a # b # c # xs) =
     b64_char (a div 4) # b64_char (16 * a + b div 16) # b64_char (4 * b + c div 64) # b64_char c # b64_unpadded xs"

definition hex_value :: "char \<Rightarrow> nat" where
  "hex_value c = (let n = of_char c :: nat in if n < 58 then n - 48 else n - 87)"

fun hex_bytes :: "string \<Rightarrow> nat list" where
  "hex_bytes (a # b # cs) = (16 * hex_value a + hex_value b) # hex_bytes cs"
| "hex_bytes _ = []"

lemma b64_example: "b64_unpadded [77, 97, 110, 251, 255] = ''TWFu-_8''"
  by code_simp

lemma url_quote_example: "url_quote (''a b/'' @ [CHR 0xE9]) = ''a%20b/%C3%A9''"
  by code_simp

end
