(* ===== verification/Attachments.thy ===== *)
theory Attachments imports Proposals Py_Url begin

text \<open>
  Attachments: \<open>app/schemas/attachment.py\<close>, \<open>app/repositories/attachment.py\<close>,
  \<open>app/services/attachment.py\<close>, \<open>app/integrations/object_storage.py\<close> and the processing task of
  \<open>app/workers/tasks.py\<close>. A file goes to the object storage with a presigned URL; the member then
  reports it, and a task compares what the storage holds with what was declared. The MinIO client
  is a parameter, \<open>object_client\<close>: each call returns a value, or the text of the exception it raises.
\<close>

section \<open>The request\<close>

record attachment_create_request =
  atc_filename :: string
  atc_media_type :: string
  atc_size_bytes :: int
  atc_decision_id :: "uuid option"
  atc_proposal_id :: "uuid option"

text \<open>\<open>value.strip().replace("\\", "/").rsplit("/", 1)[-1]\<close>\<close>

definition base_name :: "string \<Rightarrow> string" where
  "base_name value =
     rev (takeWhile (\<lambda>c. c \<noteq> CHR ''/'')
       (rev (map (\<lambda>c. if c = CHR 0x5C then CHR ''/'' else c) (py_strip value))))"

definition normalize_filename :: "string \<Rightarrow> error + string" where
  "normalize_filename value =
     (let normalized = base_name value in
      bindE (ensure (normalized \<notin> {[], ''.'', ''..''}) ValidationError) (\<lambda>_. Inr normalized))"

definition AttachmentCreateRequest :: "attachment_create_request \<Rightarrow> error + attachment_create_request" where
  "AttachmentCreateRequest b =
     bindE (field_length 1 255 (atc_filename b)) (\<lambda>_.
     bindE (normalize_filename (atc_filename b)) (\<lambda>filename.
     bindE (field_length 1 255 (atc_media_type b)) (\<lambda>_.
     bindE (ensure (0 < atc_size_bytes b) ValidationError) (\<lambda>_.
     Inr (b\<lparr>atc_filename := filename\<rparr>)))))"

section \<open>The object storage\<close>

text \<open>
  \<open>oc_make_bucket\<close> is \<open>Inl code\<close> when an \<open>S3Error\<close> with that code is raised. A presigned URL is computed
  from the key and the life time (and, for downloads, the \<open>response-content-disposition\<close>).
\<close>

record object_client =
  oc_bucket_exists :: "string + bool"
  oc_make_bucket :: "string + unit"
  oc_presigned_put_object :: "string \<Rightarrow> time \<Rightarrow> string + string"
  oc_presigned_get_object :: "string \<Rightarrow> time \<Rightarrow> string \<Rightarrow> string + string"
  oc_stat_object :: "string \<Rightarrow> string + int option \<times> string option"
  oc_get_object :: "string \<Rightarrow> string + string list"
  oc_put_object :: "string \<Rightarrow> string \<Rightarrow> string \<Rightarrow> string + unit"
  oc_remove_object :: "string \<Rightarrow> string + unit"

record stored_object_info =
  so_size :: int
  so_content_type :: "string option"

definition ensure_bucket :: "object_client \<Rightarrow> string + unit" where
  "ensure_bucket oc =
     bindE (oc_bucket_exists oc) (\<lambda>found.
     if found then Inr ()
     else (case oc_make_bucket oc of
             Inl code \<Rightarrow> if code \<in> {''BucketAlreadyOwnedByYou'', ''BucketAlreadyExists''} then Inr () else Inl code
           | Inr _ \<Rightarrow> Inr ()))"

definition storage_presigned_upload :: "object_client \<Rightarrow> string \<Rightarrow> time \<Rightarrow> string + string" where
  "storage_presigned_upload oc object_key expires =
     bindE (ensure_bucket oc) (\<lambda>_. oc_presigned_put_object oc object_key expires)"

definition storage_presigned_download :: "object_client \<Rightarrow> string \<Rightarrow> string \<Rightarrow> time \<Rightarrow> string + string" where
  "storage_presigned_download oc object_key filename expires =
     oc_presigned_get_object oc object_key expires (''attachment; filename*=UTF-8'' @ [CHR 0x27, CHR 0x27] @ url_quote filename)"

definition storage_stat :: "object_client \<Rightarrow> string \<Rightarrow> string + stored_object_info" where
  "storage_stat oc object_key =
     bindE (oc_stat_object oc object_key) (\<lambda>(size, content_type).
     Inr \<lparr>so_size = (case size of Some n \<Rightarrow> n | None \<Rightarrow> 0), so_content_type = content_type\<rparr>)"

definition storage_sha256 :: "env \<Rightarrow> object_client \<Rightarrow> string \<Rightarrow> string + string" where
  "storage_sha256 env oc object_key =
     bindE (oc_get_object oc object_key) (\<lambda>chunks. Inr (sha256_hex env (concat chunks)))"

definition storage_put_bytes :: "object_client \<Rightarrow> string \<Rightarrow> string \<Rightarrow> string \<Rightarrow> string + unit" where
  "storage_put_bytes oc object_key content content_type =
     bindE (ensure_bucket oc) (\<lambda>_. oc_put_object oc object_key content content_type)"

definition storage_remove :: "object_client \<Rightarrow> string \<Rightarrow> string + unit" where
  "storage_remove oc object_key = oc_remove_object oc object_key"

text \<open>An exception of the client passes through a request.\<close>

definition storage :: "string + 'a \<Rightarrow> error + 'a" where
  "storage r = (case r of Inl _ \<Rightarrow> Inl StorageError | Inr x \<Rightarrow> Inr x)"

lemma storage_Inr [simp]: "storage r = Inr x \<longleftrightarrow> r = Inr x"
  by (simp add: storage_def split: sum.split)

section \<open>The repository\<close>

definition attachments_repo_create :: "attachment \<Rightarrow> db \<Rightarrow> error + attachment \<times> db" where
  "attachments_repo_create a db =
     bindE (flush_insert at_id (\<lambda>a. ck_attachments a \<and> at_object_key a \<notin> at_object_key ` set (attachments db)) a (attachments db))
       (\<lambda>as. Inr (a, db\<lparr>attachments := as\<rparr>))"

definition attachments_repo_get :: "uuid \<Rightarrow> uuid \<Rightarrow> db \<Rightarrow> attachment option" where
  "attachments_repo_get w i db =
     first_where (\<lambda>a. at_id a = i \<and> at_workspace_id a = w \<and> at_status a \<noteq> AT_DELETED) (attachments db)"

definition attachments_repo_get_by_id :: "uuid \<Rightarrow> db \<Rightarrow> attachment option" where
  "attachments_repo_get_by_id i db = lookup at_id i (attachments db)"

definition attachments_repo_list_for_workspace :: "uuid \<Rightarrow> uuid option \<Rightarrow> uuid option \<Rightarrow> db \<Rightarrow> attachment list" where
  "attachments_repo_list_for_workspace w d p db =
     sort_key (\<lambda>a. - at_created_at a)
       (filter (\<lambda>a. at_workspace_id a = w \<and> at_status a \<noteq> AT_DELETED \<and>
                    (d \<noteq> None \<longrightarrow> at_decision_id a = d) \<and> (p \<noteq> None \<longrightarrow> at_proposal_id a = p)) (attachments db))"

definition write_attachment :: "env \<Rightarrow> attachment \<Rightarrow> attachment \<Rightarrow> attachment \<Rightarrow> attachment" where
  "write_attachment env old new cur =
     (if new = old then cur
      else cur\<lparr>at_status := put_if_dirty (at_status old) (at_status new) (at_status cur),
               at_sha256 := put_if_dirty (at_sha256 old) (at_sha256 new) (at_sha256 cur),
               at_processing_attempts :=
                 put_if_dirty (at_processing_attempts old) (at_processing_attempts new) (at_processing_attempts cur),
               at_processing_error := put_if_dirty (at_processing_error old) (at_processing_error new) (at_processing_error cur),
               at_processed_at := put_if_dirty (at_processed_at old) (at_processed_at new) (at_processed_at cur),
               at_deleted_at := put_if_dirty (at_deleted_at old) (at_deleted_at new) (at_deleted_at cur),
               at_updated_at := db_now env\<rparr>)"

text \<open>\<open>update\<close> sets the attributes named in \<open>values\<close>, here the function \<open>values\<close>.\<close>

definition attachments_repo_update ::
  "env \<Rightarrow> attachment \<Rightarrow> (attachment \<Rightarrow> attachment) \<Rightarrow> db \<Rightarrow> error + attachment \<times> db" where
  "attachments_repo_update env a values db =
     bindE (flush_update at_id ck_attachments (at_id a) (write_attachment env a (values a)) (attachments db))
       (\<lambda>(a', as). Inr (a', db\<lparr>attachments := as\<rparr>))"

definition attachments_repo_claim_processing :: "env \<Rightarrow> uuid \<Rightarrow> db \<Rightarrow> error + attachment option \<times> db" where
  "attachments_repo_claim_processing env i db =
     (case attachments_repo_get_by_id i db of
        None \<Rightarrow> Inr (None, db)
      | Some a \<Rightarrow>
          if at_status a \<noteq> AT_PROCESSING then Inr (None, db)
          else bindE (attachments_repo_update env a (\<lambda>a. a\<lparr>at_processing_attempts := at_processing_attempts a + 1\<rparr>) db)
                 (\<lambda>(a', db'). Inr (Some a', db')))"

definition attachments_repo_list_processing :: "nat \<Rightarrow> db \<Rightarrow> attachment list" where
  "attachments_repo_list_processing limit db =
     take limit (sort_key at_updated_at (filter (\<lambda>a. at_status a = AT_PROCESSING) (attachments db)))"

definition attachments_repo_mark_available ::
  "env \<Rightarrow> attachment \<Rightarrow> string \<Rightarrow> time \<Rightarrow> db \<Rightarrow> error + attachment \<times> db" where
  "attachments_repo_mark_available env a sha256 processed_at db =
     attachments_repo_update env a
       (\<lambda>a. a\<lparr>at_status := AT_AVAILABLE, at_sha256 := Some sha256, at_processed_at := Some processed_at,
              at_processing_error := None\<rparr>) db"

definition attachments_repo_mark_rejected ::
  "env \<Rightarrow> attachment \<Rightarrow> string \<Rightarrow> time \<Rightarrow> db \<Rightarrow> error + attachment \<times> db" where
  "attachments_repo_mark_rejected env a err processed_at db =
     attachments_repo_update env a
       (\<lambda>a. a\<lparr>at_status := AT_REJECTED, at_processing_error := Some (take 1000 err), at_processed_at := Some processed_at\<rparr>) db"

section \<open>The service\<close>

record attachment_settings =
  as_max_bytes :: int
  as_url_expire_minutes :: int
  as_processing_max_attempts :: int
  as_retry_base_seconds :: int
  as_retry_max_seconds :: int

definition url_expiry :: "attachment_settings \<Rightarrow> time" where
  "url_expiry cfg = as_url_expire_minutes cfg * 60 * 1000000"

definition attachment_membership :: "uuid \<Rightarrow> uuid \<Rightarrow> db \<Rightarrow> error + workspace_member" where
  "attachment_membership user w db =
     bindE (require (workspaces_repo_get_by_id w db) WorkspaceNotFoundError) (\<lambda>_.
     require (workspaces_repo_get_membership w user db) WorkspaceNotFoundError)"

definition attachment_validate_target :: "uuid \<Rightarrow> uuid option \<Rightarrow> uuid option \<Rightarrow> db \<Rightarrow> error + unit" where
  "attachment_validate_target w decision_id proposal_id db =
     bindE (ensure (\<not> (proposal_id \<noteq> None \<and> decision_id = None)) AttachmentInvalidTargetError) (\<lambda>_.
     case decision_id of
       None \<Rightarrow> Inr ()
     | Some d \<Rightarrow>
         bindE (require (decisions_repo_get_for_workspace w d db) AttachmentInvalidTargetError) (\<lambda>_.
         (case proposal_id of
            None \<Rightarrow> Inr ()
          | Some p \<Rightarrow> bindE (require (proposals_repo_get_for_decision d p db) AttachmentInvalidTargetError) (\<lambda>_. Inr ()))))"

definition require_attachment :: "uuid \<Rightarrow> uuid \<Rightarrow> db \<Rightarrow> error + attachment" where
  "require_attachment w i db = require (attachments_repo_get w i db) AttachmentNotFoundError"

definition object_key_for :: "uuid \<Rightarrow> uuid \<Rightarrow> string \<Rightarrow> string" where
  "object_key_for w i filename =
     ''workspaces/'' @ uuid_str w @ ''/attachments/'' @ uuid_str i @ ''/'' @ filename"

definition uploaded_row :: "env \<Rightarrow> user \<Rightarrow> uuid \<Rightarrow> attachment_create_request \<Rightarrow> attachment" where
  "uploaded_row env me w payload =
     \<lparr>at_id = fresh env 0, at_workspace_id = w, at_decision_id = atc_decision_id payload,
      at_proposal_id = atc_proposal_id payload, at_uploaded_by_id = u_id me,
      at_object_key = object_key_for w (fresh env 0) (atc_filename payload),
      at_filename = atc_filename payload, at_media_type = atc_media_type payload, at_size_bytes = atc_size_bytes payload,
      at_sha256 = None, at_status = AT_PENDING, at_processing_attempts = 0, at_processing_error = None,
      at_processed_at = None, at_deleted_at = None, at_created_at = db_now env, at_updated_at = db_now env\<rparr>"

definition attachment_create_upload ::
  "attachment_settings \<Rightarrow> object_client \<Rightarrow> env \<Rightarrow> user \<Rightarrow> uuid \<Rightarrow> attachment_create_request \<Rightarrow> db
     \<Rightarrow> error + (attachment \<times> string \<times> time) \<times> db" where
  "attachment_create_upload cfg oc env me w payload db =
     bindE (attachment_membership (u_id me) w db) (\<lambda>m.
     bindE (ensure (can_upload_attachment (m_role m)) AttachmentAccessDeniedError) (\<lambda>_.
     bindE (ensure (atc_size_bytes payload \<le> as_max_bytes cfg) AttachmentTooLargeError) (\<lambda>_.
     bindE (attachment_validate_target w (atc_decision_id payload) (atc_proposal_id payload) db) (\<lambda>_.
     bindE (storage (storage_presigned_upload oc (object_key_for w (fresh env 0) (atc_filename payload)) (url_expiry cfg))) (\<lambda>upload_url.
     bindE (attachments_repo_create (uploaded_row env me w payload) db) (\<lambda>(a, db').
     Inr ((a, upload_url, now env + url_expiry cfg), db')))))))"

text \<open>The row is committed before the message goes to the broker.\<close>

definition attachment_complete_upload ::
  "(uuid \<Rightarrow> bool) \<Rightarrow> env \<Rightarrow> user \<Rightarrow> uuid \<Rightarrow> uuid \<Rightarrow> db \<Rightarrow> (error + attachment) \<times> db" where
  "attachment_complete_upload accepts env me w i db =
     (case bindE (attachment_membership (u_id me) w db) (\<lambda>m.
           bindE (require_attachment w i db) (\<lambda>a.
           bindE (ensure (can_delete_attachment (m_role m) (at_uploaded_by_id a) (u_id me)) AttachmentAccessDeniedError) (\<lambda>_.
           bindE (ensure (at_status a = AT_PENDING) AttachmentInvalidStateError) (\<lambda>_.
           attachments_repo_update env a (\<lambda>a. a\<lparr>at_status := AT_PROCESSING, at_processing_error := None\<rparr>) db)))) of
        Inl e \<Rightarrow> (Inl e, db)
      | Inr (a', db') \<Rightarrow> (if accepts (at_id a') then Inr a' else Inl BrokerError, db'))"

definition attachment_list :: "user \<Rightarrow> uuid \<Rightarrow> uuid option \<Rightarrow> uuid option \<Rightarrow> db \<Rightarrow> error + attachment list" where
  "attachment_list me w decision_id proposal_id db =
     bindE (attachment_membership (u_id me) w db) (\<lambda>_.
     bindE (ensure (\<not> (proposal_id \<noteq> None \<and> decision_id = None)) AttachmentInvalidTargetError) (\<lambda>_.
     Inr (attachments_repo_list_for_workspace w decision_id proposal_id db)))"

definition attachment_get :: "user \<Rightarrow> uuid \<Rightarrow> uuid \<Rightarrow> db \<Rightarrow> error + attachment" where
  "attachment_get me w i db = bindE (attachment_membership (u_id me) w db) (\<lambda>_. require_attachment w i db)"

definition attachment_download ::
  "attachment_settings \<Rightarrow> object_client \<Rightarrow> env \<Rightarrow> user \<Rightarrow> uuid \<Rightarrow> uuid \<Rightarrow> db \<Rightarrow> error + string \<times> time" where
  "attachment_download cfg oc env me w i db =
     bindE (attachment_get me w i db) (\<lambda>a.
     bindE (ensure (at_status a = AT_AVAILABLE) AttachmentInvalidStateError) (\<lambda>_.
     bindE (storage (storage_presigned_download oc (at_object_key a) (at_filename a) (url_expiry cfg))) (\<lambda>url.
     Inr (url, now env + url_expiry cfg))))"

definition attachment_delete ::
  "object_client \<Rightarrow> env \<Rightarrow> user \<Rightarrow> uuid \<Rightarrow> uuid \<Rightarrow> db \<Rightarrow> error + attachment \<times> db" where
  "attachment_delete oc env me w i db =
     bindE (attachment_membership (u_id me) w db) (\<lambda>m.
     bindE (require_attachment w i db) (\<lambda>a.
     bindE (ensure (can_delete_attachment (m_role m) (at_uploaded_by_id a) (u_id me)) AttachmentAccessDeniedError) (\<lambda>_.
     bindE (storage (storage_remove oc (at_object_key a))) (\<lambda>_.
     attachments_repo_update env a (\<lambda>a. a\<lparr>at_status := AT_DELETED, at_deleted_at := Some (now env)\<rparr>) db))))"

section \<open>Processing\<close>

text \<open>
  \<open>process\<close> is two transactions with the storage calls between them: \<open>processing_claim\<close> commits the
  attempt, \<open>processing_finish\<close> checks the object and writes the outcome against the copy that the
  claim loaded. An exception is its class and its text.
\<close>

type_synonym raised = "error \<times> string"

definition of_storage :: "string + 'a \<Rightarrow> raised + 'a" where
  "of_storage r = (case r of Inl text \<Rightarrow> Inl (StorageError, text) | Inr x \<Rightarrow> Inr x)"

definition of_database :: "(error \<Rightarrow> string) \<Rightarrow> error + 'a \<Rightarrow> raised + 'a" where
  "of_database message r = (case r of Inl e \<Rightarrow> Inl (e, message e) | Inr x \<Rightarrow> Inr x)"

lemma of_storage_Inr [simp]: "of_storage r = Inr x \<longleftrightarrow> r = Inr x"
  by (simp add: of_storage_def split: sum.split)

lemma of_database_Inr [simp]: "of_database message r = Inr x \<longleftrightarrow> r = Inr x"
  by (simp add: of_database_def split: sum.split)

definition processing_finish ::
  "attachment_settings \<Rightarrow> object_client \<Rightarrow> (error \<Rightarrow> string) \<Rightarrow> env \<Rightarrow> attachment \<Rightarrow> db \<Rightarrow> raised + db" where
  "processing_finish cfg oc message env a db =
     bindE (of_storage (storage_stat oc (at_object_key a))) (\<lambda>info.
     bindE (ensure (so_size info = at_size_bytes a)
              (AttachmentValidationError, ''Uploaded object size does not match the declared size'')) (\<lambda>_.
     bindE (ensure (so_size info \<le> as_max_bytes cfg)
              (AttachmentValidationError, ''Uploaded object exceeds the configured size limit'')) (\<lambda>_.
     bindE (of_storage (storage_sha256 env oc (at_object_key a))) (\<lambda>sha256.
     bindE (of_database message (attachments_repo_mark_available env a sha256 (now env) db)) (\<lambda>(_, db').
     Inr db')))))"

definition attachment_process ::
  "attachment_settings \<Rightarrow> object_client \<Rightarrow> (error \<Rightarrow> string) \<Rightarrow> env \<Rightarrow> env \<Rightarrow> uuid \<Rightarrow> db \<Rightarrow> (raised + bool) \<times> db" where
  "attachment_process cfg oc message env env' i db =
     (case attachments_repo_claim_processing env i db of
        Inl e \<Rightarrow> (Inl (e, message e), db)
      | Inr (None, db1) \<Rightarrow> (Inr False, db1)
      | Inr (Some a, db1) \<Rightarrow>
          (case processing_finish cfg oc message env' a db1 of
             Inl err \<Rightarrow> (Inl err, db1)
           | Inr db2 \<Rightarrow> (Inr True, db2)))"

definition worker_reject_attachment :: "env \<Rightarrow> uuid \<Rightarrow> string \<Rightarrow> db \<Rightarrow> error + db" where
  "worker_reject_attachment env i text db =
     (case attachments_repo_get_by_id i db of
        None \<Rightarrow> Inr db
      | Some a \<Rightarrow>
          if at_status a = AT_PROCESSING
          then bindE (attachments_repo_mark_rejected env a text (now env) db) (\<lambda>(_, db'). Inr db')
          else Inr db)"

definition attachment_attempt_limit_reached :: "attachment_settings \<Rightarrow> uuid \<Rightarrow> db \<Rightarrow> bool" where
  "attachment_attempt_limit_reached cfg i db =
     (case attachments_repo_get_by_id i db of
        None \<Rightarrow> False
      | Some a \<Rightarrow> as_processing_max_attempts cfg \<le> at_processing_attempts a)"

datatype processing_outcome = PO_IGNORED | PO_AVAILABLE | PO_RETRY int | PO_RETRIES_EXHAUSTED | PO_REJECT

text \<open>One execution of the Celery task; \<open>retries\<close> is \<open>self.request.retries\<close>.\<close>

definition process_attachment ::
  "attachment_settings \<Rightarrow> object_client \<Rightarrow> (error \<Rightarrow> string) \<Rightarrow> env \<Rightarrow> env \<Rightarrow> nat \<Rightarrow> uuid \<Rightarrow> db
     \<Rightarrow> (error + processing_outcome) \<times> db" where
  "process_attachment cfg oc message env env' retries i db =
     (case attachment_process cfg oc message env env' i db of
        (Inr found, db1) \<Rightarrow> (Inr (if found then PO_AVAILABLE else PO_IGNORED), db1)
      | (Inl (e, text), db1) \<Rightarrow>
          if e = AttachmentValidationError \<or> attachment_attempt_limit_reached cfg i db1
          then (case worker_reject_attachment env' i text db1 of
                  Inl e' \<Rightarrow> (Inl e', db1)
                | Inr db2 \<Rightarrow> (Inr PO_REJECT, db2))
          else (Inr (if int retries < as_processing_max_attempts cfg - 1
                     then PO_RETRY (min (as_retry_base_seconds cfg * 2 ^ retries) (as_retry_max_seconds cfg))
                     else PO_RETRIES_EXHAUSTED), db1))"

definition recover_attachment_processing :: "(uuid \<Rightarrow> bool) \<Rightarrow> db \<Rightarrow> error + uuid list" where
  "recover_attachment_processing accepts db =
     (let ids = map at_id (attachments_repo_list_processing 100 db) in
      bindE (ensure (list_all accepts ids) BrokerError) (\<lambda>_. Inr ids))"

end
