(* ===== verification/Attachment_Steps.thy ===== *)
theory Attachment_Steps imports Attachments begin

text \<open>
  The life of an attachment under the requests of its members and the processing tasks, in any order. A
  task works on the copy its claim loaded and writes the outcome when the storage has answered; the row
  may have been deleted or rejected in the meantime.
\<close>

section \<open>What holds of a row, and what may become of it\<close>

definition attachment_row_ok :: "attachment \<Rightarrow> bool" where
  "attachment_row_ok a \<longleftrightarrow>
     ck_attachments a \<and> at_object_key a = object_key_for (at_workspace_id a) (at_id a) (at_filename a) \<and>
     (at_status a \<in> {AT_PENDING, AT_PROCESSING} \<longrightarrow> at_processed_at a = None \<and> at_processing_error a = None) \<and>
     (at_status a \<in> {AT_PENDING, AT_PROCESSING, AT_REJECTED} \<longrightarrow> at_sha256 a = None) \<and>
     (at_status a = AT_AVAILABLE \<longrightarrow> at_sha256 a \<noteq> None \<and> at_processed_at a \<noteq> None) \<and>
     (at_status a = AT_REJECTED \<longrightarrow> at_processing_error a \<noteq> None \<and> at_processed_at a \<noteq> None) \<and>
     (at_status a = AT_DELETED \<longrightarrow> at_deleted_at a \<noteq> None)"

definition same_file :: "attachment \<Rightarrow> attachment \<Rightarrow> bool" where
  "same_file a a' \<longleftrightarrow> at_id a' = at_id a \<and> at_workspace_id a' = at_workspace_id a \<and> at_decision_id a' = at_decision_id a \<and>
     at_proposal_id a' = at_proposal_id a \<and> at_uploaded_by_id a' = at_uploaded_by_id a \<and> at_object_key a' = at_object_key a \<and>
     at_filename a' = at_filename a \<and> at_media_type a' = at_media_type a \<and> at_size_bytes a' = at_size_bytes a \<and>
     at_created_at a' = at_created_at a"

text \<open>Which statuses a row may have had earlier.\<close>

fun came_from :: "attachment_status \<Rightarrow> attachment_status set" where
  "came_from AT_PENDING = {AT_PENDING}"
| "came_from AT_PROCESSING = {AT_PENDING, AT_PROCESSING}"
| "came_from AT_REJECTED = {AT_PENDING, AT_PROCESSING, AT_REJECTED}"
| "came_from AT_AVAILABLE = {AT_PENDING, AT_PROCESSING, AT_AVAILABLE, AT_REJECTED, AT_DELETED}"
| "came_from AT_DELETED = {AT_PENDING, AT_PROCESSING, AT_AVAILABLE, AT_REJECTED, AT_DELETED}"

definition attachment_evolves :: "attachment \<Rightarrow> attachment \<Rightarrow> bool" where
  "attachment_evolves a a' \<longleftrightarrow> same_file a a' \<and> at_status a \<in> came_from (at_status a') \<and>
     at_processing_attempts a \<le> at_processing_attempts a' \<and> (at_deleted_at a \<noteq> None \<longrightarrow> at_deleted_at a' \<noteq> None)"

lemma came_from_refl [simp]: "s \<in> came_from s"
  by (cases s) simp_all

lemma came_from_trans: "s \<in> came_from t \<Longrightarrow> t \<in> came_from u \<Longrightarrow> s \<in> came_from u"
  by (cases t; cases u) auto

lemma attachment_evolves_refl [simp]: "attachment_evolves a a"
  by (simp add: attachment_evolves_def same_file_def)

lemma attachment_evolves_trans:
  "attachment_evolves a b \<Longrightarrow> attachment_evolves b c \<Longrightarrow> attachment_evolves a c"
  unfolding attachment_evolves_def same_file_def by (auto intro: came_from_trans)

interpretation attachment_history: row_history at_id "\<lambda>_. False" attachment_evolves
  by unfold_locales (simp_all add: attachment_evolves_def same_file_def)

definition attachments_inv :: "attachment list \<Rightarrow> bool" where
  "attachments_inv as \<longleftrightarrow> distinct (map at_id as) \<and> distinct (map at_object_key as) \<and> (\<forall>a \<in> set as. attachment_row_ok a)"

abbreviation attachments_follow :: "attachment list \<Rightarrow> attachment list \<Rightarrow> bool" where
  "attachments_follow \<equiv> follows at_id (\<lambda>_. False) attachment_evolves"

definition attachment_effect :: "db \<Rightarrow> db \<Rightarrow> bool" where
  "attachment_effect db db' \<longleftrightarrow>
     (\<exists>as. db' = db\<lparr>attachments := as\<rparr> \<and> (attachments_inv (attachments db) \<longrightarrow>
        attachments_inv as \<and> attachments_follow (attachments db) as))"

lemma attachment_effect_refl: "attachment_effect db db"
  unfolding attachment_effect_def
  by (intro exI [of _ "attachments db"]) (simp add: attachment_history.refl attachments_inv_def)

section \<open>Writing one row\<close>

lemma write_attachment_same [simp]:
  "at_id (write_attachment env old new cur) = at_id cur"
  "at_workspace_id (write_attachment env old new cur) = at_workspace_id cur"
  "at_decision_id (write_attachment env old new cur) = at_decision_id cur"
  "at_proposal_id (write_attachment env old new cur) = at_proposal_id cur"
  "at_uploaded_by_id (write_attachment env old new cur) = at_uploaded_by_id cur"
  "at_object_key (write_attachment env old new cur) = at_object_key cur"
  "at_filename (write_attachment env old new cur) = at_filename cur"
  "at_media_type (write_attachment env old new cur) = at_media_type cur"
  "at_size_bytes (write_attachment env old new cur) = at_size_bytes cur"
  "at_created_at (write_attachment env old new cur) = at_created_at cur"
  by (simp_all add: write_attachment_def)

lemma write_attachment_fields:
  "at_status (write_attachment env old new cur) = put_if_dirty (at_status old) (at_status new) (at_status cur)"
  "at_sha256 (write_attachment env old new cur) = put_if_dirty (at_sha256 old) (at_sha256 new) (at_sha256 cur)"
  "at_processing_attempts (write_attachment env old new cur) =
     put_if_dirty (at_processing_attempts old) (at_processing_attempts new) (at_processing_attempts cur)"
  "at_processing_error (write_attachment env old new cur) =
     put_if_dirty (at_processing_error old) (at_processing_error new) (at_processing_error cur)"
  "at_processed_at (write_attachment env old new cur) = put_if_dirty (at_processed_at old) (at_processed_at new) (at_processed_at cur)"
  "at_deleted_at (write_attachment env old new cur) = put_if_dirty (at_deleted_at old) (at_deleted_at new) (at_deleted_at cur)"
  by (auto simp: write_attachment_def)

lemma same_file_write: "same_file cur (write_attachment env old new cur)"
  by (simp add: same_file_def)

lemma attachment_update_effect:
  assumes run: "attachments_repo_update env a f db = Inr (r, db')"
    and ev: "\<And>cur. lookup at_id (at_id a) (attachments db) = Some cur \<Longrightarrow> attachment_row_ok cur \<Longrightarrow>
       attachment_row_ok (write_attachment env a (f a) cur) \<and> attachment_evolves cur (write_attachment env a (f a) cur)"
  shows "attachment_effect db db'"
proof -
  obtain cur where look: "lookup at_id (at_id a) (attachments db) = Some cur"
    and r: "r = write_attachment env a (f a) cur" "db' = db\<lparr>attachments := store at_id r (attachments db)\<rparr>"
    using run by (auto simp: attachments_repo_update_def)
  have cur: "cur \<in> set (attachments db)" using lookup_SomeD [OF look] by simp
  have "attachments_inv (store at_id r (attachments db)) \<and> attachments_follow (attachments db) (store at_id r (attachments db))"
    if inv: "attachments_inv (attachments db)"
  proof
    have ids: "distinct (map at_id (attachments db))" using inv by (simp add: attachments_inv_def)
    have ok: "attachment_row_ok r" "attachment_evolves cur r"
      using ev [OF look] inv cur r(1) by (simp_all add: attachments_inv_def)
    have "x = cur" if "x \<in> set (attachments db)" "at_id x = at_id r" for x
      using that r(1) distinct_key_eq [OF ids _ cur] by simp
    then have "map at_object_key (store at_id r (attachments db)) = map at_object_key (attachments db)"
      using r(1) by (intro map_store_same) auto
    then show "attachments_inv (store at_id r (attachments db))"
      using inv ok(1) by (auto simp: attachments_inv_def dest!: mem_storeD)
    show "attachments_follow (attachments db) (store at_id r (attachments db))"
      by (rule attachment_history.store [OF ids look ok(2)])
  qed
  then show ?thesis using r(2) unfolding attachment_effect_def by blast
qed

text \<open>When the loaded copy is the row itself, the write is the new row, time stamp apart.\<close>

lemma attachment_update_loaded:
  assumes run: "attachments_repo_update env a f db = Inr (r, db')" and look: "lookup at_id (at_id a) (attachments db) = Some a"
    and f: "attachment_row_ok a \<Longrightarrow> attachment_row_ok (write_attachment env a (f a) a) \<and> attachment_evolves a (write_attachment env a (f a) a)"
  shows "attachment_effect db db'"
  by (rule attachment_update_effect [OF run]) (use look f in auto)

section \<open>Steps\<close>

inductive attachment_step :: "db \<Rightarrow> db \<Rightarrow> bool" where
  create: "attachment_create_upload cfg oc env me w payload db = Inr (r, db') \<Longrightarrow> attachment_step db db'"
| complete: "attachment_complete_upload accepts env me w i db = (res, db') \<Longrightarrow> attachment_step db db'"
| delete: "attachment_delete oc env me w i db = Inr (a, db') \<Longrightarrow> attachment_step db db'"
| claim: "attachments_repo_claim_processing env i db = Inr (r, db') \<Longrightarrow> attachment_step db db'"
| finish: "at_status a = AT_PROCESSING \<Longrightarrow> attachment_row_ok a \<Longrightarrow>
    lookup at_id (at_id a) (attachments db) = Some cur \<Longrightarrow> attachment_evolves a cur \<Longrightarrow>
    processing_finish cfg oc message env a db = Inr db' \<Longrightarrow> attachment_step db db'"
| reject: "worker_reject_attachment env i text db = Inr db' \<Longrightarrow> attachment_step db db'"

lemma create_upload_effect:
  assumes "attachment_create_upload cfg oc env me w payload db = Inr (r, db')"
  shows "attachment_effect db db'"
proof -
  obtain a where a: "attachment_row_ok a" "at_id a \<notin> at_id ` set (attachments db)"
      "at_object_key a \<notin> at_object_key ` set (attachments db)" "db' = db\<lparr>attachments := attachments db @ [a]\<rparr>"
  proof (rule that)
    show "attachment_row_ok (uploaded_row env me w payload)"
      using assms by (auto simp: attachment_create_upload_def attachments_repo_create_def attachment_row_ok_def) (simp_all add: uploaded_row_def)
  qed (use assms in \<open>auto simp: attachment_create_upload_def attachments_repo_create_def\<close>)
  then show ?thesis unfolding attachment_effect_def
    by (intro exI [of _ "attachments db @ [a]"]) (simp add: attachments_inv_def attachment_history.append)
qed

lemma attachments_repo_get_lookup:
  assumes "attachments_repo_get w i db = Some a" and "distinct (map at_id (attachments db))"
  shows "lookup at_id (at_id a) (attachments db) = Some a"
  using assms first_where_SomeD [of _ "attachments db" a] by (auto simp: attachments_repo_get_def lookup_distinct)

lemma attachment_effectI:
  "(attachments_inv (attachments db) \<Longrightarrow> attachment_effect db db') \<Longrightarrow> \<exists>as. db' = db\<lparr>attachments := as\<rparr> \<Longrightarrow> attachment_effect db db'"
  by (auto simp: attachment_effect_def)

lemma attachment_update_table: "attachments_repo_update env a f db = Inr (r, db') \<Longrightarrow> \<exists>as. db' = db\<lparr>attachments := as\<rparr>"
  by (auto simp: attachments_repo_update_def)

lemma complete_upload_effect:
  assumes "attachment_complete_upload accepts env me w i db = (res, db')"
  shows "attachment_effect db db'"
proof (cases "db' = db")
  case False
  then obtain a r where a: "attachments_repo_get w i db = Some a" "at_status a = AT_PENDING"
      and run: "attachments_repo_update env a (\<lambda>a. a\<lparr>at_status := AT_PROCESSING, at_processing_error := None\<rparr>) db = Inr (r, db')"
    using assms
    by (auto simp: attachment_complete_upload_def require_attachment_def split: sum.splits prod.splits if_splits)
  show ?thesis
  proof (rule attachment_effectI [OF _ attachment_update_table [OF run]])
    assume "attachments_inv (attachments db)"
    then have "lookup at_id (at_id a) (attachments db) = Some a"
      using attachments_repo_get_lookup [OF a(1)] by (simp add: attachments_inv_def)
    then show "attachment_effect db db'"
      by (rule attachment_update_loaded [OF run])
        (use a(2) in \<open>simp add: attachment_row_ok_def ck_attachments_def attachment_evolves_def same_file_write write_attachment_fields\<close>)
  qed
qed (simp add: attachment_effect_refl)

lemma delete_effect:
  assumes "attachment_delete oc env me w i db = Inr (r, db')"
  shows "attachment_effect db db'"
proof -
  obtain a where a: "attachments_repo_get w i db = Some a"
      and run: "attachments_repo_update env a (\<lambda>a. a\<lparr>at_status := AT_DELETED, at_deleted_at := Some (now env)\<rparr>) db = Inr (r, db')"
    using assms by (auto simp: attachment_delete_def require_attachment_def)
  show ?thesis
  proof (rule attachment_effectI [OF _ attachment_update_table [OF run]])
    assume "attachments_inv (attachments db)"
    then have "lookup at_id (at_id a) (attachments db) = Some a"
      using attachments_repo_get_lookup [OF a] by (simp add: attachments_inv_def)
    then show "attachment_effect db db'"
      by (rule attachment_update_loaded [OF run])
        (cases "at_status a"; simp add: attachment_row_ok_def ck_attachments_def attachment_evolves_def same_file_write
           write_attachment_fields)
  qed
qed

lemma claim_effect:
  assumes "attachments_repo_claim_processing env i db = Inr (r, db')"
  shows "attachment_effect db db'"
proof (cases "db' = db")
  case False
  then obtain a r' where a: "lookup at_id i (attachments db) = Some a" "at_status a = AT_PROCESSING"
      and run: "attachments_repo_update env a (\<lambda>a. a\<lparr>at_processing_attempts := at_processing_attempts a + 1\<rparr>) db = Inr (r', db')"
    using assms
    by (auto simp: attachments_repo_claim_processing_def attachments_repo_get_by_id_def split: option.splits if_splits)
  have "lookup at_id (at_id a) (attachments db) = Some a" using a(1) lookup_SomeD [OF a(1)] by simp
  then show ?thesis
    by (rule attachment_update_loaded [OF run])
      (use a(2) in \<open>simp add: attachment_row_ok_def ck_attachments_def attachment_evolves_def same_file_write write_attachment_fields\<close>)
qed (simp add: attachment_effect_refl)

lemma finish_effect:
  assumes a: "at_status a = AT_PROCESSING" "attachment_row_ok a"
    and cur: "lookup at_id (at_id a) (attachments db) = Some cur" "attachment_evolves a cur"
    and run: "processing_finish cfg oc message env a db = Inr db'"
  shows "attachment_effect db db'"
proof -
  obtain sha r where run': "attachments_repo_mark_available env a sha (now env) db = Inr (r, db')"
    using run by (auto simp: processing_finish_def)
  have none: "at_sha256 a = None" "at_processed_at a = None" "at_processing_error a = None" "at_status cur \<noteq> AT_PENDING"
    using a cur(2) by (auto simp: attachment_row_ok_def attachment_evolves_def)
  show ?thesis
    by (rule attachment_update_effect [OF run' [unfolded attachments_repo_mark_available_def]])
      (use a(1) none cur(1) in \<open>cases "at_status cur"; simp add: attachment_row_ok_def ck_attachments_def attachment_evolves_def
         same_file_write write_attachment_fields put_if_dirty_def\<close>)
qed

lemma reject_effect:
  assumes "worker_reject_attachment env i err db = Inr db'"
  shows "attachment_effect db db'"
proof (cases "db' = db")
  case False
  then obtain a r where a: "lookup at_id i (attachments db) = Some a" "at_status a = AT_PROCESSING"
      and run: "attachments_repo_mark_rejected env a err (now env) db = Inr (r, db')"
    using assms
    by (auto simp: worker_reject_attachment_def attachments_repo_get_by_id_def split: option.splits if_splits)
  have "lookup at_id (at_id a) (attachments db) = Some a" using a(1) lookup_SomeD [OF a(1)] by simp
  then show ?thesis
    by (rule attachment_update_loaded [OF run [unfolded attachments_repo_mark_rejected_def]])
      (use a(2) in \<open>simp add: attachment_row_ok_def ck_attachments_def attachment_evolves_def same_file_write write_attachment_fields\<close>)
qed (simp add: attachment_effect_refl)

lemma attachment_step_effect: "attachment_step db db' \<Longrightarrow> attachment_effect db db'"
  by (cases rule: attachment_step.cases)
    (blast intro: create_upload_effect complete_upload_effect delete_effect claim_effect finish_effect reject_effect)+

text \<open>The claim of the task is a copy as the step \<open>finish\<close> asks for, whatever other steps come between.\<close>

lemma claimed_copy:
  assumes run: "attachments_repo_claim_processing env i db = Inr (Some a, db')" and inv: "attachments_inv (attachments db)"
  shows "at_status a = AT_PROCESSING" and "attachment_row_ok a" and "lookup at_id (at_id a) (attachments db') = Some a"
proof -
  obtain old where old: "lookup at_id i (attachments db) = Some old" "at_status old = AT_PROCESSING"
      and upd: "attachments_repo_update env old (\<lambda>a. a\<lparr>at_processing_attempts := at_processing_attempts a + 1\<rparr>) db = Inr (a, db')"
    using run
    by (auto simp: attachments_repo_claim_processing_def attachments_repo_get_by_id_def split: option.splits if_splits)
  have a: "a = write_attachment env old (old\<lparr>at_processing_attempts := at_processing_attempts old + 1\<rparr>) old"
    and db': "attachments db' = store at_id a (attachments db)"
    using upd old(1) lookup_SomeD [OF old(1)] by (auto simp: attachments_repo_update_def)
  show "at_status a = AT_PROCESSING" using old(2) by (simp add: a write_attachment_fields)
  have "at_id a \<in> at_id ` set (attachments db)" using lookup_SomeD [OF old(1)] by (auto simp: a)
  then show look: "lookup at_id (at_id a) (attachments db') = Some a" by (simp add: db' lookup_store)
  have "attachments_inv (attachments db')"
    using claim_effect [OF run] inv by (auto simp: attachment_effect_def)
  then show "attachment_row_ok a" using lookup_SomeD [OF look] by (simp add: attachments_inv_def)
qed

section \<open>What a single step may do to the status, the digest and the mark of a deletion\<close>

definition file_moves :: "attachment \<Rightarrow> attachment \<Rightarrow> bool" where
  "file_moves a a' \<longleftrightarrow>
     (at_status a' = at_status a \<or> at_status a = AT_PENDING \<and> at_status a' = AT_PROCESSING \<or>
      at_status a = AT_PROCESSING \<and> at_status a' = AT_REJECTED \<or> at_status a \<noteq> AT_PENDING \<and> at_status a' = AT_AVAILABLE \<or>
      at_status a' = AT_DELETED) \<and>
     (at_sha256 a' = at_sha256 a \<or> at_status a' = AT_AVAILABLE) \<and>
     (at_deleted_at a' = at_deleted_at a \<or> at_status a' = AT_DELETED)"

lemma file_moves_refl [simp]: "file_moves a a"
  by (simp add: file_moves_def)

text \<open>Which row an update writes, and what it does to the others.\<close>

lemma attachment_update_moves:
  assumes run: "attachments_repo_update env a f db = Inr (r, db')" and x: "x \<in> set (attachments db)"
    and ids: "distinct (map at_id (attachments db))"
    and moves: "\<And>cur. lookup at_id (at_id a) (attachments db) = Some cur \<Longrightarrow> file_moves cur (write_attachment env a (f a) cur)"
  shows "\<exists>x' \<in> set (attachments db'). at_id x' = at_id x \<and> file_moves x x'"
proof -
  obtain cur where look: "lookup at_id (at_id a) (attachments db) = Some cur"
    and r: "r = write_attachment env a (f a) cur" "attachments db' = store at_id r (attachments db)"
    using run by (auto simp: attachments_repo_update_def)
  note cur = lookup_SomeD [OF look]
  show ?thesis
  proof (cases "at_id x = at_id a")
    case True
    then have "x = cur" using cur distinct_key_eq [OF ids x] by simp
    moreover have "r \<in> set (attachments db')" using cur imageI [of cur "set (attachments db)" at_id] by (simp add: r set_store)
    ultimately show ?thesis using moves [OF look] r(1) by (intro bexI [of _ r]) simp_all
  next
    case False
    then have "x \<in> set (attachments db')" using x cur by (auto simp: r set_store)
    then show ?thesis by (intro bexI [of _ x]) simp_all
  qed
qed

lemma attachment_step_moves:
  assumes step: "attachment_step db db'" and inv: "attachments_inv (attachments db)" and x: "x \<in> set (attachments db)"
  shows "\<exists>x' \<in> set (attachments db'). at_id x' = at_id x \<and> file_moves x x'"
proof -
  have ids: "distinct (map at_id (attachments db))" using inv by (simp add: attachments_inv_def)
  note update = attachment_update_moves [OF _ x ids]
  have same: ?thesis if "db' = db" using that x by (intro bexI [of _ x]) simp_all
  from step show ?thesis
  proof cases
    case (create cfg oc env me w payload r)
    then have "x \<in> set (attachments db')" using x by (auto simp: attachment_create_upload_def attachments_repo_create_def)
    then show ?thesis by (intro bexI [of _ x]) simp_all
  next
    case (complete accepts env me w i res)
    show ?thesis
    proof (cases "db' = db")
      case False
      with complete obtain a r where a: "attachments_repo_get w i db = Some a" "at_status a = AT_PENDING"
          and run: "attachments_repo_update env a (\<lambda>a. a\<lparr>at_status := AT_PROCESSING, at_processing_error := None\<rparr>) db = Inr (r, db')"
        by (auto simp: attachment_complete_upload_def require_attachment_def split: sum.splits prod.splits if_splits)
      show ?thesis
        by (rule update [OF run])
          (use attachments_repo_get_lookup [OF a(1) ids] a(2) in \<open>simp add: file_moves_def write_attachment_fields\<close>)
    qed (rule same)
  next
    case (delete oc env me w i r)
    then obtain a where a: "attachments_repo_get w i db = Some a"
        and run: "attachments_repo_update env a (\<lambda>a. a\<lparr>at_status := AT_DELETED, at_deleted_at := Some (now env)\<rparr>) db = Inr (r, db')"
      by (auto simp: attachment_delete_def require_attachment_def)
    show ?thesis
      by (rule update [OF run])
        (use attachments_repo_get_lookup [OF a ids] in \<open>simp add: file_moves_def write_attachment_fields put_if_dirty_def\<close>)
  next
    case (claim env i r)
    show ?thesis
    proof (cases "db' = db")
      case False
      with claim obtain a r' where "lookup at_id i (attachments db) = Some a" "at_status a = AT_PROCESSING"
          and run: "attachments_repo_update env a (\<lambda>a. a\<lparr>at_processing_attempts := at_processing_attempts a + 1\<rparr>) db = Inr (r', db')"
        by (auto simp: attachments_repo_claim_processing_def attachments_repo_get_by_id_def split: option.splits if_splits)
      show ?thesis by (rule update [OF run]) (simp add: file_moves_def write_attachment_fields)
    qed (rule same)
  next
    case (finish a cur cfg oc message env)
    then obtain sha r where run: "attachments_repo_update env a (\<lambda>a. a\<lparr>at_status := AT_AVAILABLE, at_sha256 := Some sha,
        at_processed_at := Some (now env), at_processing_error := None\<rparr>) db = Inr (r, db')"
      by (auto simp: processing_finish_def attachments_repo_mark_available_def)
    have "at_status cur \<noteq> AT_PENDING" using finish(1,4) by (auto simp: attachment_evolves_def)
    then show ?thesis
      by (intro update [OF run]) (use finish(1,3) in \<open>simp add: file_moves_def write_attachment_fields put_if_dirty_def\<close>)
  next
    case (reject env i err)
    show ?thesis
    proof (cases "db' = db")
      case False
      with reject obtain a r where a: "lookup at_id i (attachments db) = Some a" "at_status a = AT_PROCESSING"
          and run: "attachments_repo_mark_rejected env a err (now env) db = Inr (r, db')"
        by (auto simp: worker_reject_attachment_def attachments_repo_get_by_id_def split: option.splits if_splits)
      have "lookup at_id (at_id a) (attachments db) = Some a" using a(1) lookup_SomeD [OF a(1)] by simp
      then show ?thesis
        by (intro update [OF run [unfolded attachments_repo_mark_rejected_def]])
          (use a(2) in \<open>simp add: file_moves_def write_attachment_fields\<close>)
    qed (rule same)
  qed
qed

section \<open>A deletion that comes between\<close>

text \<open>
  The task does not look at the row again before it writes: an attachment that was deleted after the claim
  becomes available again, although its object is gone from the storage.
\<close>

lemma finish_undoes_deletion:
  assumes "attachment_row_ok a" and "at_status a = AT_PROCESSING"
    and "lookup at_id (at_id a) (attachments db) = Some cur" and "at_status cur = AT_DELETED" and "ck_attachments cur"
    and "processing_finish cfg oc message env a db = Inr db'"
  shows "\<exists>b. lookup at_id (at_id a) (attachments db') = Some b \<and> at_status b = AT_AVAILABLE \<and> at_deleted_at b = at_deleted_at cur"
proof -
  obtain sha r where "attachments_repo_mark_available env a sha (now env) db = Inr (r, db')"
    using assms(6) by (auto simp: processing_finish_def)
  then have "attachments db' = store at_id (write_attachment env a (a\<lparr>at_status := AT_AVAILABLE, at_sha256 := Some sha,
      at_processed_at := Some (now env), at_processing_error := None\<rparr>) cur) (attachments db)"
    using assms(3) by (auto simp: attachments_repo_mark_available_def attachments_repo_update_def)
  then show ?thesis
    using lookup_SomeD [OF assms(3)] assms(2) image_eqI [of "at_id a" at_id cur "set (attachments db)"]
    by (simp add: lookup_store write_attachment_fields put_if_dirty_def)
qed

end
