(* ===== verification/Providers.thy ===== *)
theory Providers imports Py_Url Data_Model begin

text \<open>
  The clients of external services of \<open>app/integrations\<close>: \<open>providers/base.py\<close> (the interface),
  \<open>providers/slack.py\<close> (its one implementation), \<open>provider_registry.py\<close> and \<open>token_encryption.py\<close>. The HTTP client
  and the Fernet library are parameters.
\<close>

section \<open>Exceptions with their class and text\<close>

text \<open>
  The background tasks store \<open>type(error).__name__\<close>, so here an exception is a class and a text;
  \<open>Foreign\<close> is a class of a library that the repository does not name. Three of the classes the model
  names by their role have another name in their library.
\<close>

primrec error_name :: "error \<Rightarrow> string" where
  "error_name EmailAlreadyRegisteredError = ''EmailAlreadyRegisteredError''"
| "error_name InvalidCredentialsError = ''InvalidCredentialsError''"
| "error_name InactiveAccountError = ''InactiveAccountError''"
| "error_name InvalidTokenError = ''InvalidTokenError''"
| "error_name EmailNotVerifiedError = ''EmailNotVerifiedError''"
| "error_name InvalidActionTokenError = ''InvalidActionTokenError''"
| "error_name GoogleOAuthNotConfiguredError = ''GoogleOAuthNotConfiguredError''"
| "error_name GoogleOAuthStateInvalidError = ''GoogleOAuthStateInvalidError''"
| "error_name GoogleOAuthProviderError = ''GoogleOAuthProviderError''"
| "error_name GoogleOAuthProfileInvalidError = ''GoogleOAuthProfileInvalidError''"
| "error_name GoogleOAuthAccountConflictError = ''GoogleOAuthAccountConflictError''"
| "error_name WorkspaceNotFoundError = ''WorkspaceNotFoundError''"
| "error_name WorkspaceAccessDeniedError = ''WorkspaceAccessDeniedError''"
| "error_name WorkspaceMemberNotFoundError = ''WorkspaceMemberNotFoundError''"
| "error_name WorkspaceMemberAlreadyExistsError = ''WorkspaceMemberAlreadyExistsError''"
| "error_name WorkspaceOwnerImmutableError = ''WorkspaceOwnerImmutableError''"
| "error_name DecisionNotFoundError = ''DecisionNotFoundError''"
| "error_name DecisionAccessDeniedError = ''DecisionAccessDeniedError''"
| "error_name DecisionInvalidTransitionError = ''DecisionInvalidTransitionError''"
| "error_name DecisionImmutableError = ''DecisionImmutableError''"
| "error_name ProposalNotFoundError = ''ProposalNotFoundError''"
| "error_name ProposalAccessDeniedError = ''ProposalAccessDeniedError''"
| "error_name ProposalImmutableError = ''ProposalImmutableError''"
| "error_name ProposalInvalidTransitionError = ''ProposalInvalidTransitionError''"
| "error_name CriterionNotFoundError = ''CriterionNotFoundError''"
| "error_name CriterionAccessDeniedError = ''CriterionAccessDeniedError''"
| "error_name CriterionConflictError = ''CriterionConflictError''"
| "error_name ObjectionNotFoundError = ''ObjectionNotFoundError''"
| "error_name ObjectionAccessDeniedError = ''ObjectionAccessDeniedError''"
| "error_name ObjectionImmutableError = ''ObjectionImmutableError''"
| "error_name ObjectionInvalidTransitionError = ''ObjectionInvalidTransitionError''"
| "error_name VotingSessionNotFoundError = ''VotingSessionNotFoundError''"
| "error_name VotingAccessDeniedError = ''VotingAccessDeniedError''"
| "error_name VotingConflictError = ''VotingConflictError''"
| "error_name VotingBlockedByObjectionsError = ''VotingBlockedByObjectionsError''"
| "error_name VotingInvalidTransitionError = ''VotingInvalidTransitionError''"
| "error_name VotingClosedError = ''VotingClosedError''"
| "error_name VoteAlreadyCastError = ''VoteAlreadyCastError''"
| "error_name VotingResultUnavailableError = ''VotingResultUnavailableError''"
| "error_name DecisionLockNotFoundError = ''DecisionLockNotFoundError''"
| "error_name DecisionLockAccessDeniedError = ''DecisionLockAccessDeniedError''"
| "error_name DecisionLockConflictError = ''DecisionLockConflictError''"
| "error_name DecisionLockInvalidResultError = ''DecisionLockInvalidResultError''"
| "error_name ActionNotFoundError = ''ActionNotFoundError''"
| "error_name ActionAccessDeniedError = ''ActionAccessDeniedError''"
| "error_name ActionInvalidTransitionError = ''ActionInvalidTransitionError''"
| "error_name ActionAssigneeInvalidError = ''ActionAssigneeInvalidError''"
| "error_name ReviewNotFoundError = ''ReviewNotFoundError''"
| "error_name ReviewAccessDeniedError = ''ReviewAccessDeniedError''"
| "error_name ReviewConflictError = ''ReviewConflictError''"
| "error_name ReviewInvalidScheduleError = ''ReviewInvalidScheduleError''"
| "error_name ReviewNotDueError = ''ReviewNotDueError''"
| "error_name ReviewOutcomeInvalidError = ''ReviewOutcomeInvalidError''"
| "error_name DecisionRevisionNotFoundError = ''DecisionRevisionNotFoundError''"
| "error_name CollaborationDocumentNotFoundError = ''CollaborationDocumentNotFoundError''"
| "error_name CollaborationAccessDeniedError = ''CollaborationAccessDeniedError''"
| "error_name NotificationNotFoundError = ''NotificationNotFoundError''"
| "error_name CommentNotFoundError = ''CommentNotFoundError''"
| "error_name CommentAccessDeniedError = ''CommentAccessDeniedError''"
| "error_name CommentContextInvalidError = ''CommentContextInvalidError''"
| "error_name MentionMemberInvalidError = ''MentionMemberInvalidError''"
| "error_name MentionNotFoundError = ''MentionNotFoundError''"
| "error_name MentionCursorInvalidError = ''MentionCursorInvalidError''"
| "error_name AttachmentNotFoundError = ''AttachmentNotFoundError''"
| "error_name AttachmentAccessDeniedError = ''AttachmentAccessDeniedError''"
| "error_name AttachmentInvalidTargetError = ''AttachmentInvalidTargetError''"
| "error_name AttachmentInvalidStateError = ''AttachmentInvalidStateError''"
| "error_name AttachmentTooLargeError = ''AttachmentTooLargeError''"
| "error_name AttachmentValidationError = ''AttachmentValidationError''"
| "error_name DecisionExportNotFoundError = ''DecisionExportNotFoundError''"
| "error_name DecisionExportAccessDeniedError = ''DecisionExportAccessDeniedError''"
| "error_name DecisionExportInvalidStateError = ''DecisionExportInvalidStateError''"
| "error_name SearchAccessDeniedError = ''SearchAccessDeniedError''"
| "error_name MeetingAccessDeniedError = ''MeetingAccessDeniedError''"
| "error_name MeetingRoomFullError = ''MeetingRoomFullError''"
| "error_name MeetingEventInvalidError = ''MeetingEventInvalidError''"
| "error_name IntegrationNotFoundError = ''IntegrationNotFoundError''"
| "error_name IntegrationAccessDeniedError = ''IntegrationAccessDeniedError''"
| "error_name IntegrationProviderUnavailableError = ''IntegrationProviderUnavailableError''"
| "error_name IntegrationOAuthStateError = ''IntegrationOAuthStateError''"
| "error_name IntegrationProviderError = ''IntegrationProviderError''"
| "error_name IntegrationConfigurationError = ''IntegrationConfigurationError''"
| "error_name IntegrityError = ''IntegrityError''"
| "error_name StaleDataError = ''StaleDataError''"
| "error_name DataError = ''DBAPIError''"
| "error_name BrokerError = ''OperationalError''"
| "error_name StorageError = ''S3Error''"
| "error_name ValidationError = ''ValidationError''"

datatype failure = Raised error string | Foreign string string

fun class_name :: "failure \<Rightarrow> string" where
  "class_name (Raised e text) = error_name e"
| "class_name (Foreign name text) = name"

text \<open>An \<open>error\<close> raised in the middle of such code; its text is not inspected again.\<close>

definition lift_error :: "error + 'a \<Rightarrow> failure + 'a" where
  "lift_error r = (case r of Inl e \<Rightarrow> Inl (Raised e []) | Inr x \<Rightarrow> Inr x)"

lemma lift_error_Inr [simp]: "lift_error r = Inr x \<longleftrightarrow> r = Inr x"
  by (simp add: lift_error_def split: sum.split)

section \<open>The interface\<close>

record provider_installation =
  pi_external_account_id :: string
  pi_external_account_name :: string
  pi_access_token :: string
  pi_refresh_token :: "string option"
  pi_expires_at :: "time option"
  pi_scopes :: "string list"
  pi_configuration :: json

record provider_destination =
  pd_id :: string
  pd_name :: string
  pd_type :: string

record provider_message =
  pm_text :: string
  pm_blocks :: "json list option"
  pm_idempotency_key :: "string option"

text \<open>An object of the protocol class \<open>IntegrationProviderClient\<close>; \<open>exchange_code\<close> reads the clock.\<close>

record provider_client =
  pc_provider :: integration_provider
  pc_name :: string
  pc_description :: string
  pc_capabilities :: "string list"
  pc_available :: bool
  pc_build_authorization_url :: "string \<Rightarrow> string \<Rightarrow> failure + string"
  pc_exchange_code :: "time \<Rightarrow> string \<Rightarrow> string \<Rightarrow> failure + provider_installation"
  pc_verify_connection :: "string \<Rightarrow> failure + unit"
  pc_list_destinations :: "string \<Rightarrow> failure + provider_destination list"
  pc_send_test_message :: "string \<Rightarrow> string \<Rightarrow> failure + unit"
  pc_send_message :: "string \<Rightarrow> string \<Rightarrow> provider_message \<Rightarrow> failure + unit"
  pc_revoke :: "string \<Rightarrow> failure + unit"

section \<open>JSON objects\<close>

fun json_fields :: "json \<Rightarrow> (string \<times> json) list option" where
  "json_fields (JObj kvs) = Some kvs"
| "json_fields _ = None"

fun json_string :: "json option \<Rightarrow> string option" where
  "json_string (Some (JStr s)) = Some s"
| "json_string _ = None"

fun json_list :: "json option \<Rightarrow> json list option" where
  "json_list (Some (JList js)) = Some js"
| "json_list _ = None"

text \<open>\<open>isinstance(value, int)\<close>: the truth values are integers in Python.\<close>

fun json_int :: "json option \<Rightarrow> int option" where
  "json_int (Some (JInt i)) = Some i"
| "json_int (Some (JBool b)) = Some (if b then 1 else 0)"
| "json_int _ = None"

section \<open>Slack\<close>

record http_request =
  hr_method :: string
  hr_url :: string
  hr_authorization :: "(string \<times> string) option"
  hr_headers :: "(string \<times> string) list"
  hr_data :: "(string \<times> string) list"
  hr_params :: "(string \<times> string) list"
  hr_json :: "json option"

text \<open>
  What \<open>httpx\<close> makes of a request: a response that \<open>raise_for_status\<close> refuses, with its code and the
  header \<open>Retry-After\<close>; another \<open>HTTPError\<close>; a body that is no JSON, with the text of the exception; or JSON.
\<close>

datatype http_result =
    HttpStatusError nat "string option"
  | HttpError
  | HttpNotJson string
  | HttpBody json

record slack_settings =
  sl_client_id :: "string option"
  sl_client_secret :: "string option"
  sl_redirect_uri :: "string option"
  sl_bot_scopes :: string

definition provider_failure :: "string \<Rightarrow> failure" where
  "provider_failure text = Raised IntegrationProviderError text"

definition nonempty :: "string option \<Rightarrow> bool" where
  "nonempty s \<longleftrightarrow> s \<noteq> None \<and> s \<noteq> Some []"

definition slack_available :: "slack_settings \<Rightarrow> bool" where
  "slack_available cfg \<longleftrightarrow> nonempty (sl_client_id cfg) \<and> nonempty (sl_client_secret cfg) \<and> nonempty (sl_redirect_uri cfg)"

definition slack_require_available :: "slack_settings \<Rightarrow> failure + unit" where
  "slack_require_available cfg = ensure (slack_available cfg) (Raised IntegrationProviderUnavailableError [])"

definition slack_request :: "(http_request \<Rightarrow> http_result) \<Rightarrow> http_request \<Rightarrow> failure + (string \<times> json) list" where
  "slack_request http request =
     (case http request of
        HttpStatusError code retry_after \<Rightarrow>
          Inl (provider_failure
            (if code = 429
             then ''Slack rate limit reached; retry after '' @
                  (case retry_after of Some s \<Rightarrow> s | None \<Rightarrow> ''unknown'') @ '' seconds''
             else ''Slack request failed with HTTP '' @ nat_str code))
      | HttpError \<Rightarrow> Inl (provider_failure ''Slack could not be reached'')
      | HttpNotJson text \<Rightarrow> Inl (Foreign ''JSONDecodeError'' text)
      | HttpBody body \<Rightarrow>
          (case json_fields body of
             None \<Rightarrow> Inl (provider_failure ''Slack returned an invalid response'')
           | Some payload \<Rightarrow>
               if map_of payload ''ok'' = Some (JBool True) then Inr payload
               else Inl (provider_failure (''Slack rejected the request: '' @
                      (case json_string (map_of payload ''error'') of Some s \<Rightarrow> s | None \<Rightarrow> ''unknown_error'')))))"

definition slack_api ::
  "(http_request \<Rightarrow> http_result) \<Rightarrow> string \<Rightarrow> string \<Rightarrow> string \<Rightarrow> (string \<times> string) list \<Rightarrow> json option
     \<Rightarrow> failure + (string \<times> json) list" where
  "slack_api http meth operation access_token params body =
     slack_request http
       \<lparr>hr_method = meth, hr_url = ''https://slack.com/api/'' @ operation, hr_authorization = None,
        hr_headers = [(''Authorization'', ''Bearer '' @ access_token)], hr_data = [], hr_params = params, hr_json = body\<rparr>"

definition slack_build_authorization_url :: "slack_settings \<Rightarrow> string \<Rightarrow> string \<Rightarrow> failure + string" where
  "slack_build_authorization_url cfg state code_challenge =
     bindE (slack_require_available cfg) (\<lambda>_.
     Inr (''https://slack.com/oauth/v2/authorize?'' @ urlencode
       [(''client_id'', the (sl_client_id cfg)), (''scope'', sl_bot_scopes cfg), (''redirect_uri'', the (sl_redirect_uri cfg)),
        (''state'', state), (''code_challenge'', code_challenge), (''code_challenge_method'', ''S256'')]))"

definition required_string :: "(string \<times> json) list \<Rightarrow> string \<Rightarrow> failure + string" where
  "required_string payload field =
     (case json_string (map_of payload field) of
        Some s \<Rightarrow> if s = [] then Inl (provider_failure (''Slack response is missing '' @ field)) else Inr s
      | None \<Rightarrow> Inl (provider_failure (''Slack response is missing '' @ field)))"

definition required_mapping :: "(string \<times> json) list \<Rightarrow> string \<Rightarrow> failure + (string \<times> json) list" where
  "required_mapping payload field =
     require (Option.bind (map_of payload field) json_fields) (provider_failure (''Slack response is missing '' @ field))"

definition optional_string :: "(string \<times> json) list \<Rightarrow> string \<Rightarrow> string option" where
  "optional_string payload field =
     (case json_string (map_of payload field) of Some s \<Rightarrow> if s = [] then None else Some s | None \<Rightarrow> None)"

definition string_or_empty :: "(string \<times> json) list \<Rightarrow> string \<Rightarrow> string" where
  "string_or_empty payload field = (case json_string (map_of payload field) of Some s \<Rightarrow> s | None \<Rightarrow> [])"

definition slack_exchange_code ::
  "slack_settings \<Rightarrow> (http_request \<Rightarrow> http_result) \<Rightarrow> time \<Rightarrow> string \<Rightarrow> string \<Rightarrow> failure + provider_installation" where
  "slack_exchange_code cfg http at code code_verifier =
     bindE (slack_require_available cfg) (\<lambda>_.
     bindE (slack_request http
       \<lparr>hr_method = ''POST'', hr_url = ''https://slack.com/api/oauth.v2.access'',
        hr_authorization = Some (the (sl_client_id cfg), the (sl_client_secret cfg)), hr_headers = [],
        hr_data = [(''code'', code), (''code_verifier'', code_verifier), (''redirect_uri'', the (sl_redirect_uri cfg))],
        hr_params = [], hr_json = None\<rparr>) (\<lambda>payload.
     bindE (required_string payload ''access_token'') (\<lambda>access_token.
     bindE (required_mapping payload ''team'') (\<lambda>team.
     let scopes = filter (\<lambda>s. s \<noteq> []) (split_comma [] (string_or_empty payload ''scope''));
         expires_at = (case json_int (map_of payload ''expires_in'') of
                         Some n \<Rightarrow> if 0 < n then Some (at + n * 1000000) else None
                       | None \<Rightarrow> None);
         configuration = JObj (concat (map (\<lambda>k. case json_string (map_of payload k) of Some s \<Rightarrow> [(k, JStr s)] | None \<Rightarrow> [])
                                        [''bot_user_id'', ''app_id''])) in
     bindE (required_string team ''id'') (\<lambda>account_id.
     bindE (required_string team ''name'') (\<lambda>account_name.
     Inr \<lparr>pi_external_account_id = account_id, pi_external_account_name = account_name, pi_access_token = access_token,
          pi_refresh_token = optional_string payload ''refresh_token'', pi_expires_at = expires_at, pi_scopes = scopes,
          pi_configuration = configuration\<rparr>))))))"

definition slack_verify_connection :: "(http_request \<Rightarrow> http_result) \<Rightarrow> string \<Rightarrow> failure + unit" where
  "slack_verify_connection http access_token =
     bindE (slack_api http ''POST'' ''auth.test'' access_token [] None) (\<lambda>_. Inr ())"

text \<open>\<open>for _ in range(10)\<close>: \<open>n\<close> pages are left.\<close>

definition channels_of :: "json list \<Rightarrow> provider_destination list" where
  "channels_of channels = concat (map (\<lambda>v.
     case json_fields v of
       None \<Rightarrow> []
     | Some channel \<Rightarrow>
         (case (json_string (map_of channel ''id''), json_string (map_of channel ''name'')) of
            (Some i, Some name) \<Rightarrow>
              [\<lparr>pd_id = i, pd_name = name,
                pd_type = (if map_of channel ''is_private'' = Some (JBool True) then ''private_channel'' else ''channel'')\<rparr>]
          | _ \<Rightarrow> [])) channels)"

definition next_cursor :: "(string \<times> json) list \<Rightarrow> string option" where
  "next_cursor payload =
     (case Option.bind (map_of payload ''response_metadata'') json_fields of
        None \<Rightarrow> None
      | Some metadata \<Rightarrow> optional_string metadata ''next_cursor'')"

fun slack_pages ::
  "(http_request \<Rightarrow> http_result) \<Rightarrow> string \<Rightarrow> nat \<Rightarrow> string \<Rightarrow> failure + provider_destination list" where
  "slack_pages http access_token 0 cursor = Inr []"
| "slack_pages http access_token (Suc n) cursor =
     bindE (slack_api http ''GET'' ''conversations.list'' access_token
              [(''types'', ''public_channel,private_channel''), (''exclude_archived'', ''true''), (''limit'', ''200''),
               (''cursor'', cursor)] None) (\<lambda>payload.
     bindE (require (json_list (map_of payload ''channels'')) (provider_failure ''Slack returned an invalid channel list'')) (\<lambda>channels.
     case next_cursor payload of
       None \<Rightarrow> Inr (channels_of channels)
     | Some c \<Rightarrow> bindE (slack_pages http access_token n c) (\<lambda>rest. Inr (channels_of channels @ rest))))"

definition slack_list_destinations ::
  "(http_request \<Rightarrow> http_result) \<Rightarrow> string \<Rightarrow> failure + provider_destination list" where
  "slack_list_destinations http access_token =
     bindE (slack_pages http access_token 10 []) (\<lambda>ds. Inr (sort_key (\<lambda>d. casefold (pd_name d)) ds))"

definition slack_send_test_message :: "(http_request \<Rightarrow> http_result) \<Rightarrow> string \<Rightarrow> string \<Rightarrow> failure + unit" where
  "slack_send_test_message http access_token destination_id =
     bindE (slack_api http ''POST'' ''chat.postMessage'' access_token []
              (Some (JObj [(''channel'', JStr destination_id),
                 (''text'', JStr ''ForkRoom is connected. Decision notifications will appear here.'')]))) (\<lambda>_. Inr ())"

definition slack_send_message ::
  "(http_request \<Rightarrow> http_result) \<Rightarrow> string \<Rightarrow> string \<Rightarrow> provider_message \<Rightarrow> failure + unit" where
  "slack_send_message http access_token destination_id m =
     bindE (slack_api http ''POST'' ''chat.postMessage'' access_token []
              (Some (JObj ([(''channel'', JStr destination_id), (''text'', JStr (pm_text m))] @
                 (case pm_blocks m of Some (b # bs) \<Rightarrow> [(''blocks'', JList (b # bs))] | _ \<Rightarrow> []) @
                 (case pm_idempotency_key m of Some (c # cs) \<Rightarrow> [(''client_msg_id'', JStr (c # cs))] | _ \<Rightarrow> []))))) (\<lambda>_. Inr ())"

definition slack_revoke :: "(http_request \<Rightarrow> http_result) \<Rightarrow> string \<Rightarrow> failure + unit" where
  "slack_revoke http access_token =
     bindE (slack_api http ''POST'' ''auth.revoke'' access_token [] None) (\<lambda>_. Inr ())"

definition slack_provider :: "slack_settings \<Rightarrow> (http_request \<Rightarrow> http_result) \<Rightarrow> provider_client" where
  "slack_provider cfg http =
     \<lparr>pc_provider = SLACK, pc_name = ''Slack'', pc_description = ''Send decision updates to Slack channels.'',
      pc_capabilities = [''outbound_notifications'', ''channel_selection''], pc_available = slack_available cfg,
      pc_build_authorization_url = slack_build_authorization_url cfg, pc_exchange_code = slack_exchange_code cfg http,
      pc_verify_connection = slack_verify_connection http, pc_list_destinations = slack_list_destinations http,
      pc_send_test_message = slack_send_test_message http, pc_send_message = slack_send_message http,
      pc_revoke = slack_revoke http\<rparr>"

section \<open>The registry and the cipher\<close>

text \<open>The registry is its list of clients; the code registers one per provider.\<close>

definition provider_registry :: "slack_settings \<Rightarrow> (http_request \<Rightarrow> http_result) \<Rightarrow> provider_client list" where
  "provider_registry cfg http = [slack_provider cfg http]"

definition registry_get :: "provider_client list \<Rightarrow> integration_provider \<Rightarrow> failure + provider_client" where
  "registry_get ps p =
     bindE (require (first_where (\<lambda>c. pc_provider c = p) ps) (Raised IntegrationProviderUnavailableError [])) (\<lambda>c.
     bindE (ensure (pc_available c) (Raised IntegrationProviderUnavailableError [])) (\<lambda>_. Inr c))"

text \<open>A key that Fernet accepts gives two functions; decryption fails on a text it did not produce.\<close>

record fernet =
  fe_encrypt :: "string \<Rightarrow> string"
  fe_decrypt :: "string \<Rightarrow> string option"

definition is_ascii :: "string \<Rightarrow> bool" where
  "is_ascii s \<longleftrightarrow> list_all (\<lambda>c. (of_char c :: nat) < 128) s"

definition configuration_failure :: "string \<Rightarrow> failure" where
  "configuration_failure text = Raised IntegrationConfigurationError text"

definition token_cipher :: "(string \<Rightarrow> fernet option) \<Rightarrow> string option \<Rightarrow> failure + fernet" where
  "token_cipher new_fernet key =
     bindE (ensure (key \<noteq> None \<and> py_strip (the key) \<noteq> []) (configuration_failure ''Integration token encryption is not configured'')) (\<lambda>_.
     bindE (ensure (is_ascii (the key)) (configuration_failure ''Integration token encryption key is invalid'')) (\<lambda>_.
     require (new_fernet (the key)) (configuration_failure ''Integration token encryption key is invalid'')))"

definition cipher_decrypt :: "fernet \<Rightarrow> string \<Rightarrow> failure + string" where
  "cipher_decrypt fe s =
     bindE (ensure (is_ascii s) (configuration_failure ''Stored integration credentials could not be decrypted'')) (\<lambda>_.
     require (fe_decrypt fe s) (configuration_failure ''Stored integration credentials could not be decrypted''))"

end
