(* ===== verification/Integration_Store.thy ===== *)
theory Integration_Store imports Integration_Outbox Providers begin

text \<open>
  \<open>app/repositories/integration.py\<close>: connections to an external workspace, the events each is
  subscribed to, the outbox after staging, and the deliveries. A row that a session has loaded stays in its
  identity map (\<open>expire_on_commit=False\<close>), so \<open>session.get\<close> in the same session returns the copy
  loaded first: the functions that do so take that copy.
\<close>

fun event_type_value :: "integration_event_type \<Rightarrow> string" where
  "event_type_value DECISION_ACTIVATED = ''decision_activated''"
| "event_type_value VOTING_OPENED = ''voting_opened''"
| "event_type_value VOTING_CLOSED = ''voting_closed''"
| "event_type_value DECISION_LOCKED = ''decision_locked''"
| "event_type_value ACTION_ASSIGNED = ''action_assigned''"
| "event_type_value REVIEW_DUE = ''review_due''"
| "event_type_value EXPORT_FAILED = ''export_failed''"

section \<open>Connections\<close>

definition list_connections :: "uuid \<Rightarrow> db \<Rightarrow> integration_connection list" where
  "list_connections w db = sort_key ic_created_at (filter (\<lambda>c. ic_workspace_id c = w) (connections db))"

definition connection_for_workspace :: "uuid \<Rightarrow> uuid \<Rightarrow> integration_connection list \<Rightarrow> integration_connection option" where
  "connection_for_workspace w i cs = first_where (\<lambda>c. ic_id c = i \<and> ic_workspace_id c = w) cs"

definition get_connection :: "uuid \<Rightarrow> uuid \<Rightarrow> db \<Rightarrow> integration_connection option" where
  "get_connection w i db = connection_for_workspace w i (connections db)"

interpretation connection_table: scoped_table ic_id ic_workspace_id connection_for_workspace
  by unfold_locales (auto simp: connection_for_workspace_def first_where_None_iff dest!: first_where_SomeD)

definition get_connection_by_id :: "uuid \<Rightarrow> db \<Rightarrow> integration_connection option" where
  "get_connection_by_id i db = lookup ic_id i (connections db)"

definition write_connection ::
  "env \<Rightarrow> integration_connection \<Rightarrow> integration_connection \<Rightarrow> integration_connection \<Rightarrow> integration_connection" where
  "write_connection env old new cur =
     (if new = old then cur
      else cur\<lparr>ic_status := put_if_dirty (ic_status old) (ic_status new) (ic_status cur),
               ic_external_account_name :=
                 put_if_dirty (ic_external_account_name old) (ic_external_account_name new) (ic_external_account_name cur),
               ic_access_token_encrypted :=
                 put_if_dirty (ic_access_token_encrypted old) (ic_access_token_encrypted new) (ic_access_token_encrypted cur),
               ic_refresh_token_encrypted :=
                 put_if_dirty (ic_refresh_token_encrypted old) (ic_refresh_token_encrypted new) (ic_refresh_token_encrypted cur),
               ic_token_expires_at := put_if_dirty (ic_token_expires_at old) (ic_token_expires_at new) (ic_token_expires_at cur),
               ic_scopes := put_if_dirty (ic_scopes old) (ic_scopes new) (ic_scopes cur),
               ic_configuration := put_if_dirty (ic_configuration old) (ic_configuration new) (ic_configuration cur),
               ic_connected_by_id := put_if_dirty (ic_connected_by_id old) (ic_connected_by_id new) (ic_connected_by_id cur),
               ic_last_synced_at := put_if_dirty (ic_last_synced_at old) (ic_last_synced_at new) (ic_last_synced_at cur),
               ic_last_error := put_if_dirty (ic_last_error old) (ic_last_error new) (ic_last_error cur),
               ic_updated_at := db_now env\<rparr>)"

definition save_connection ::
  "env \<Rightarrow> integration_connection \<Rightarrow> integration_connection \<Rightarrow> db \<Rightarrow> error + integration_connection \<times> db" where
  "save_connection env old new db =
     bindE (flush_update ic_id (\<lambda>_. True) (ic_id old) (write_connection env old new) (connections db))
       (\<lambda>(c, cs). Inr (c, db\<lparr>connections := cs\<rparr>))"

definition installed ::
  "uuid \<Rightarrow> provider_installation \<Rightarrow> string \<Rightarrow> string option \<Rightarrow> integration_connection \<Rightarrow> integration_connection" where
  "installed user installation access_token refresh_token c =
     c\<lparr>ic_status := IC_ACTIVE, ic_external_account_name := pi_external_account_name installation,
       ic_access_token_encrypted := Some access_token, ic_refresh_token_encrypted := refresh_token,
       ic_token_expires_at := pi_expires_at installation, ic_scopes := pi_scopes installation,
       ic_configuration := pi_configuration installation, ic_connected_by_id := user, ic_last_error := None\<rparr>"

text \<open>Both external columns are \<open>VARCHAR(255)\<close>.\<close>

definition upsert_connection ::
  "env \<Rightarrow> uuid \<Rightarrow> integration_provider \<Rightarrow> uuid \<Rightarrow> provider_installation \<Rightarrow> string \<Rightarrow> string option \<Rightarrow> db
     \<Rightarrow> error + integration_connection \<times> db" where
  "upsert_connection env w provider user installation access_token refresh_token db =
     bindE (ensure (length (pi_external_account_id installation) \<le> 255 \<and>
                    length (pi_external_account_name installation) \<le> 255) DataError) (\<lambda>_.
     case first_where (\<lambda>c. ic_workspace_id c = w \<and> ic_provider c = provider \<and>
                           ic_external_account_id c = pi_external_account_id installation) (connections db) of
       Some c \<Rightarrow> save_connection env c (installed user installation access_token refresh_token c) db
     | None \<Rightarrow>
         (let c = installed user installation access_token refresh_token
            \<lparr>ic_id = fresh env 0, ic_workspace_id = w, ic_provider = provider, ic_status = IC_ACTIVE,
             ic_external_account_id = pi_external_account_id installation,
             ic_external_account_name = pi_external_account_name installation, ic_access_token_encrypted = None,
             ic_refresh_token_encrypted = None, ic_token_expires_at = None, ic_scopes = [], ic_configuration = JObj [],
             ic_connected_by_id = user, ic_last_synced_at = None, ic_last_error = None, ic_created_at = db_now env,
             ic_updated_at = db_now env\<rparr> in
          bindE (flush_insert ic_id (\<lambda>c. uq_connections (connections db @ [c])) c (connections db))
            (\<lambda>cs. Inr (c, db\<lparr>connections := cs\<rparr>))))"

definition mark_verified :: "env \<Rightarrow> integration_connection \<Rightarrow> time \<Rightarrow> db \<Rightarrow> error + integration_connection \<times> db" where
  "mark_verified env c verified_at db =
     save_connection env c (c\<lparr>ic_status := IC_ACTIVE, ic_last_synced_at := Some verified_at, ic_last_error := None\<rparr>) db"

definition mark_revoked :: "env \<Rightarrow> integration_connection \<Rightarrow> db \<Rightarrow> error + integration_connection \<times> db" where
  "mark_revoked env c db =
     save_connection env c
       (c\<lparr>ic_status := IC_REVOKED, ic_access_token_encrypted := None, ic_refresh_token_encrypted := None,
          ic_token_expires_at := None\<rparr>) db"

section \<open>Subscriptions\<close>

definition list_subscriptions :: "uuid \<Rightarrow> db \<Rightarrow> integration_subscription list" where
  "list_subscriptions i db =
     sort_key (\<lambda>s. event_type_value (is_event_type s)) (filter (\<lambda>s. is_connection_id s = i) (subscriptions db))"

definition new_subscription :: "env \<Rightarrow> uuid \<Rightarrow> uuid \<Rightarrow> integration_event_type \<Rightarrow> integration_subscription" where
  "new_subscription env new_id i ty =
     \<lparr>is_id = new_id, is_connection_id = i, is_event_type = ty, is_enabled = False, is_destination_id = None,
      is_destination_name = None, is_configuration = JObj [], is_created_at = db_now env, is_updated_at = db_now env\<rparr>"

fun insert_subscriptions :: "integration_subscription list \<Rightarrow> db \<Rightarrow> error + db" where
  "insert_subscriptions [] db = Inr db"
| "insert_subscriptions (s # ss) db =
     bindE (flush_insert is_id (\<lambda>s. uq_subscriptions (subscriptions db @ [s])) s (subscriptions db))
       (\<lambda>table. insert_subscriptions ss (db\<lparr>subscriptions := table\<rparr>))"

text \<open>The rows are flushed in the order in which they were added; each draws its id then.\<close>

definition numbered :: "env \<Rightarrow> (uuid \<Rightarrow> 'a) list \<Rightarrow> 'a list" where
  "numbered env fs = map (\<lambda>(k, f). f (fresh env k)) (zip [0..<length fs] fs)"

definition ensure_subscriptions ::
  "env \<Rightarrow> uuid \<Rightarrow> integration_event_type list \<Rightarrow> db \<Rightarrow> error + integration_subscription list \<times> db" where
  "ensure_subscriptions env i event_types db =
     (let existing_types = map is_event_type (list_subscriptions i db);
          missing = filter (\<lambda>ty. ty \<notin> set existing_types) event_types in
      bindE (insert_subscriptions (numbered env (map (\<lambda>ty new_id. new_subscription env new_id i ty) missing)) db)
        (\<lambda>db'. Inr (list_subscriptions i db', db')))"

record subscription_configuration =
  sc_event_type :: integration_event_type
  sc_enabled :: bool
  sc_destination_id :: "string option"
  sc_destination_name :: "string option"
  sc_configuration :: json

definition configured :: "subscription_configuration \<Rightarrow> integration_subscription \<Rightarrow> integration_subscription" where
  "configured v s =
     s\<lparr>is_enabled := sc_enabled v, is_destination_id := sc_destination_id v,
       is_destination_name := sc_destination_name v, is_configuration := sc_configuration v\<rparr>"

definition write_subscription ::
  "env \<Rightarrow> integration_subscription \<Rightarrow> integration_subscription \<Rightarrow> integration_subscription \<Rightarrow> integration_subscription" where
  "write_subscription env old new cur =
     (if new = old then cur
      else cur\<lparr>is_enabled := put_if_dirty (is_enabled old) (is_enabled new) (is_enabled cur),
               is_destination_id := put_if_dirty (is_destination_id old) (is_destination_id new) (is_destination_id cur),
               is_destination_name := put_if_dirty (is_destination_name old) (is_destination_name new) (is_destination_name cur),
               is_configuration := put_if_dirty (is_configuration old) (is_configuration new) (is_configuration cur),
               is_updated_at := db_now env\<rparr>)"

fun update_each :: "env \<Rightarrow> (integration_subscription \<times> integration_subscription) list \<Rightarrow> db \<Rightarrow> error + db" where
  "update_each env [] db = Inr db"
| "update_each env ((old, new) # us) db =
     bindE (flush_update is_id (\<lambda>_. True) (is_id old) (write_subscription env old new) (subscriptions db))
       (\<lambda>(_, table). update_each env us (db\<lparr>subscriptions := table\<rparr>))"

text \<open>
  The unit of work sends the UPDATEs before the INSERTs. The request schema refuses two entries of one
  event type, so each loaded row is configured once.
\<close>

definition update_subscriptions ::
  "env \<Rightarrow> uuid \<Rightarrow> subscription_configuration list \<Rightarrow> db \<Rightarrow> error + integration_subscription list \<times> db" where
  "update_subscriptions env i vs db =
     (let existing = list_subscriptions i db;
          find = (\<lambda>v. first_where (\<lambda>s. is_event_type s = sc_event_type v) existing);
          changed = concat (map (\<lambda>v. case find v of Some s \<Rightarrow> [(s, configured v s)] | None \<Rightarrow> []) vs);
          added = map (\<lambda>v new_id. configured v (new_subscription env new_id i (sc_event_type v)))
                    (filter (\<lambda>v. find v = None) vs) in
      bindE (update_each env changed db) (\<lambda>db1.
      bindE (insert_subscriptions (numbered env added) db1) (\<lambda>db2.
      Inr (list_subscriptions i db2, db2))))"

section \<open>The outbox\<close>

definition write_outbox_event ::
  "env \<Rightarrow> integration_outbox_event \<Rightarrow> integration_outbox_event \<Rightarrow> integration_outbox_event \<Rightarrow> integration_outbox_event" where
  "write_outbox_event env old new cur =
     (if new = old then cur
      else cur\<lparr>x_status := put_if_dirty (x_status old) (x_status new) (x_status cur),
               x_attempt_count := put_if_dirty (x_attempt_count old) (x_attempt_count new) (x_attempt_count cur),
               x_available_at := put_if_dirty (x_available_at old) (x_available_at new) (x_available_at cur),
               x_processed_at := put_if_dirty (x_processed_at old) (x_processed_at new) (x_processed_at cur),
               x_last_error := put_if_dirty (x_last_error old) (x_last_error new) (x_last_error cur),
               x_updated_at := db_now env\<rparr>)"

definition save_outbox_event ::
  "env \<Rightarrow> integration_outbox_event \<Rightarrow> integration_outbox_event \<Rightarrow> db \<Rightarrow> error + integration_outbox_event \<times> db" where
  "save_outbox_event env old new db =
     bindE (flush_update x_id (\<lambda>_. True) (x_id old) (write_outbox_event env old new) (outbox db))
       (\<lambda>(x, xs). Inr (x, db\<lparr>outbox := xs\<rparr>))"

definition ready_event :: "time \<Rightarrow> int \<Rightarrow> integration_outbox_event \<Rightarrow> bool" where
  "ready_event t max_attempts x \<longleftrightarrow>
     x_status x \<in> {X_PENDING, X_FAILED} \<and> x_available_at x \<le> t \<and> x_attempt_count x < max_attempts"

definition claim_outbox_event ::
  "env \<Rightarrow> uuid \<Rightarrow> time \<Rightarrow> int \<Rightarrow> db \<Rightarrow> error + integration_outbox_event option \<times> db" where
  "claim_outbox_event env i t max_attempts db =
     (case first_where (\<lambda>x. x_id x = i \<and> ready_event t max_attempts x) (outbox db) of
        None \<Rightarrow> Inr (None, db)
      | Some x \<Rightarrow>
          bindE (save_outbox_event env x
                   (x\<lparr>x_status := X_PROCESSING, x_attempt_count := x_attempt_count x + 1, x_last_error := None\<rparr>) db)
            (\<lambda>(x', db'). Inr (Some x', db')))"

definition get_outbox_event :: "uuid \<Rightarrow> db \<Rightarrow> integration_outbox_event option" where
  "get_outbox_event i db = lookup x_id i (outbox db)"

definition list_ready_outbox_events :: "time \<Rightarrow> int \<Rightarrow> nat \<Rightarrow> db \<Rightarrow> integration_outbox_event list" where
  "list_ready_outbox_events t max_attempts limit db =
     take limit (sort_key x_available_at (filter (ready_event t max_attempts) (outbox db)))"

text \<open>\<open>x\<close> is what \<open>session.get\<close> returns.\<close>

definition mark_outbox_failed ::
  "env \<Rightarrow> integration_outbox_event option \<Rightarrow> time \<Rightarrow> string \<Rightarrow> db \<Rightarrow> error + db" where
  "mark_outbox_failed env x available_at err db =
     (case x of
        None \<Rightarrow> Inr db
      | Some x \<Rightarrow>
          if x_status x = X_PROCESSED then Inr db
          else bindE (save_outbox_event env x
                        (x\<lparr>x_status := X_FAILED, x_available_at := available_at, x_last_error := Some (take 2000 err)\<rparr>) db)
                 (\<lambda>(_, db'). Inr db'))"

section \<open>Deliveries\<close>

text \<open>The join of the active connections of a workspace with their enabled subscriptions to an event type.\<close>

definition addressed_to :: "integration_outbox_event \<Rightarrow> db \<Rightarrow> (integration_connection \<times> integration_subscription) list" where
  "addressed_to x db =
     [(c, s). c \<leftarrow> connections db, ic_workspace_id c = x_workspace_id x \<and> ic_status c = IC_ACTIVE,
              s \<leftarrow> subscriptions db, is_connection_id s = ic_id c \<and> is_event_type s = x_event_type x \<and>
                is_enabled s \<and> is_destination_id s \<noteq> None]"

definition new_delivery ::
  "env \<Rightarrow> integration_outbox_event \<Rightarrow> time \<Rightarrow> integration_connection \<Rightarrow> integration_subscription \<Rightarrow> uuid \<Rightarrow> integration_delivery" where
  "new_delivery env x t c s new_id =
     \<lparr>dl_id = new_id, dl_connection_id = ic_id c, dl_event_type = x_event_type x, dl_event_id = x_event_id x,
      dl_status = DL_PENDING, dl_attempt_count = 0,
      dl_request_summary = JObj
        [(''workspace_id'', JStr (uuid_str (x_workspace_id x))), (''destination_id'', jopt JStr (is_destination_id s)),
         (''destination_name'', jopt JStr (is_destination_name s)), (''payload'', x_payload x)],
      dl_response_status = None, dl_error_code = None, dl_next_retry_at = Some t, dl_delivered_at = None,
      dl_created_at = db_now env, dl_updated_at = db_now env\<rparr>"

fun insert_deliveries :: "integration_delivery list \<Rightarrow> db \<Rightarrow> error + db" where
  "insert_deliveries [] db = Inr db"
| "insert_deliveries (d # ds) db =
     bindE (flush_insert dl_id (\<lambda>d. uq_deliveries (deliveries db @ [d])) d (deliveries db))
       (\<lambda>table. insert_deliveries ds (db\<lparr>deliveries := table\<rparr>))"

definition create_deliveries ::
  "env \<Rightarrow> integration_outbox_event \<Rightarrow> time \<Rightarrow> db \<Rightarrow> error + integration_delivery list \<times> db" where
  "create_deliveries env x t db =
     (let existing = map dl_connection_id
            (filter (\<lambda>d. dl_event_type d = x_event_type x \<and> dl_event_id d = x_event_id x) (deliveries db));
          ds = numbered env (map (\<lambda>(c, s). new_delivery env x t c s)
                 (filter (\<lambda>(c, s). ic_id c \<notin> set existing) (addressed_to x db))) in
      bindE (insert_deliveries ds db) (\<lambda>db1.
      bindE (save_outbox_event env x (x\<lparr>x_status := X_PROCESSED, x_processed_at := Some t, x_last_error := None\<rparr>) db1) (\<lambda>(_, db2).
      Inr (ds, db2))))"

definition write_delivery ::
  "env \<Rightarrow> integration_delivery \<Rightarrow> integration_delivery \<Rightarrow> integration_delivery \<Rightarrow> integration_delivery" where
  "write_delivery env old new cur =
     (if new = old then cur
      else cur\<lparr>dl_status := put_if_dirty (dl_status old) (dl_status new) (dl_status cur),
               dl_attempt_count := put_if_dirty (dl_attempt_count old) (dl_attempt_count new) (dl_attempt_count cur),
               dl_error_code := put_if_dirty (dl_error_code old) (dl_error_code new) (dl_error_code cur),
               dl_next_retry_at := put_if_dirty (dl_next_retry_at old) (dl_next_retry_at new) (dl_next_retry_at cur),
               dl_delivered_at := put_if_dirty (dl_delivered_at old) (dl_delivered_at new) (dl_delivered_at cur),
               dl_updated_at := db_now env\<rparr>)"

definition save_delivery ::
  "env \<Rightarrow> integration_delivery \<Rightarrow> integration_delivery \<Rightarrow> db \<Rightarrow> error + integration_delivery \<times> db" where
  "save_delivery env old new db =
     bindE (flush_update dl_id (\<lambda>_. True) (dl_id old) (write_delivery env old new) (deliveries db))
       (\<lambda>(d, ds). Inr (d, db\<lparr>deliveries := ds\<rparr>))"

definition due_delivery :: "time \<Rightarrow> integration_delivery \<Rightarrow> bool" where
  "due_delivery t d \<longleftrightarrow>
     dl_status d \<in> {DL_PENDING, DL_RETRY_SCHEDULED} \<and> (\<forall>r \<in> set_option (dl_next_retry_at d). r \<le> t)"

definition claim_delivery :: "env \<Rightarrow> uuid \<Rightarrow> time \<Rightarrow> db \<Rightarrow> error + integration_delivery option \<times> db" where
  "claim_delivery env i t db =
     (case first_where (\<lambda>d. dl_id d = i \<and> due_delivery t d) (deliveries db) of
        None \<Rightarrow> Inr (None, db)
      | Some d \<Rightarrow>
          bindE (save_delivery env d
                   (d\<lparr>dl_status := DL_DELIVERING, dl_attempt_count := dl_attempt_count d + 1, dl_error_code := None,
                      dl_next_retry_at := None\<rparr>) db)
            (\<lambda>(d', db'). Inr (Some d', db')))"

definition get_delivery :: "uuid \<Rightarrow> db \<Rightarrow> integration_delivery option" where
  "get_delivery i db = lookup dl_id i (deliveries db)"

text \<open>Here too \<open>d\<close> is what \<open>session.get\<close> returns.\<close>

definition mark_delivery_delivered :: "env \<Rightarrow> integration_delivery option \<Rightarrow> time \<Rightarrow> db \<Rightarrow> error + db" where
  "mark_delivery_delivered env d t db =
     (case d of
        None \<Rightarrow> Inr db
      | Some d \<Rightarrow>
          bindE (save_delivery env d
                   (d\<lparr>dl_status := DL_DELIVERED, dl_delivered_at := Some t, dl_next_retry_at := None, dl_error_code := None\<rparr>) db)
            (\<lambda>(_, db'). Inr db'))"

definition schedule_delivery_retry ::
  "env \<Rightarrow> integration_delivery option \<Rightarrow> time \<Rightarrow> string \<Rightarrow> db \<Rightarrow> error + db" where
  "schedule_delivery_retry env d next_retry_at error_code db =
     (case d of
        None \<Rightarrow> Inr db
      | Some d \<Rightarrow>
          if dl_status d = DL_DELIVERED then Inr db
          else bindE (save_delivery env d
                        (d\<lparr>dl_status := DL_RETRY_SCHEDULED, dl_next_retry_at := Some next_retry_at,
                           dl_error_code := Some (take 100 error_code)\<rparr>) db)
                 (\<lambda>(_, db'). Inr db'))"

definition mark_delivery_failed :: "env \<Rightarrow> integration_delivery option \<Rightarrow> string \<Rightarrow> db \<Rightarrow> error + db" where
  "mark_delivery_failed env d error_code db =
     (case d of
        None \<Rightarrow> Inr db
      | Some d \<Rightarrow>
          if dl_status d = DL_DELIVERED then Inr db
          else bindE (save_delivery env d
                        (d\<lparr>dl_status := DL_FAILED, dl_next_retry_at := None, dl_error_code := Some (take 100 error_code)\<rparr>) db)
                 (\<lambda>(_, db'). Inr db'))"

definition list_ready_deliveries :: "time \<Rightarrow> int \<Rightarrow> nat \<Rightarrow> db \<Rightarrow> integration_delivery list" where
  "list_ready_deliveries t max_attempts limit db =
     take limit (sort_key dl_created_at (filter (\<lambda>d. due_delivery t d \<and> dl_attempt_count d < max_attempts) (deliveries db)))"

definition stale_event :: "time \<Rightarrow> integration_outbox_event \<Rightarrow> bool" where
  "stale_event stale_before x \<longleftrightarrow> x_status x = X_PROCESSING \<and> x_updated_at x \<le> stale_before"

definition stale_claim :: "time \<Rightarrow> integration_delivery \<Rightarrow> bool" where
  "stale_claim stale_before d \<longleftrightarrow> dl_status d = DL_DELIVERING \<and> dl_updated_at d \<le> stale_before"

definition recovered_event :: "env \<Rightarrow> time \<Rightarrow> integration_outbox_event \<Rightarrow> integration_outbox_event" where
  "recovered_event env available_at x =
     x\<lparr>x_status := X_FAILED, x_available_at := available_at, x_last_error := Some ''stale_claim_recovered'',
       x_updated_at := db_now env\<rparr>"

definition recovered_delivery :: "env \<Rightarrow> time \<Rightarrow> int \<Rightarrow> integration_delivery \<Rightarrow> integration_delivery" where
  "recovered_delivery env available_at max_attempts d =
     (if max_attempts \<le> dl_attempt_count d then d\<lparr>dl_status := DL_FAILED, dl_next_retry_at := None\<rparr>
      else d\<lparr>dl_status := DL_RETRY_SCHEDULED, dl_next_retry_at := Some available_at\<rparr>)
     \<lparr>dl_error_code := Some ''stale_claim_recovered'', dl_updated_at := db_now env\<rparr>"

definition recover_stale_claims :: "env \<Rightarrow> time \<Rightarrow> time \<Rightarrow> int \<Rightarrow> db \<Rightarrow> (nat \<times> nat) \<times> db" where
  "recover_stale_claims env stale_before available_at max_attempts db =
     ((length (filter (stale_event stale_before) (outbox db)), length (filter (stale_claim stale_before) (deliveries db))),
      db\<lparr>outbox := map (\<lambda>x. if stale_event stale_before x then recovered_event env available_at x else x) (outbox db),
         deliveries := map (\<lambda>d. if stale_claim stale_before d then recovered_delivery env available_at max_attempts d else d)
                         (deliveries db)\<rparr>)"

definition list_deliveries :: "uuid \<Rightarrow> nat \<Rightarrow> nat \<Rightarrow> db \<Rightarrow> integration_delivery list" where
  "list_deliveries i limit offset db =
     take limit (drop offset (sort_key (\<lambda>d. - dl_created_at d) (filter (\<lambda>d. dl_connection_id d = i) (deliveries db))))"

end
