(* ===== verification/Integration_Delivery.thy ===== *)
theory Integration_Delivery imports Integration_Store begin

text \<open>
  \<open>IntegrationDeliveryService\<close> of \<open>app/services/integration_delivery.py\<close> and its tasks in
  \<open>app/workers/tasks.py\<close>. Dispatching an outbox event turns it into one delivery per subscribed connection;
  delivering sends one message to the provider. Each claim is committed first, so an exception after it
  leaves the claim behind: a function returns the database with the exception.
\<close>

record integration_settings =
  ns_encryption_key :: "string option"
  ns_max_retries :: int
  ns_retry_base_seconds :: int
  ns_retry_max_seconds :: int
  ns_frontend_url :: string
  ns_oauth_state_ttl_seconds :: int

text \<open>
  \<open>CeleryIntegrationTaskPublisher\<close> of \<open>app/dependencies/integration_events.py\<close>: \<open>accepts\<close> says which messages the
  broker takes. The publisher logs the exception of a refused one and goes on, so it never raises; what it leaves
  behind are the messages in the queue.
\<close>

definition enqueue_all :: "(uuid \<Rightarrow> bool) \<Rightarrow> uuid list \<Rightarrow> uuid list" where
  "enqueue_all accepts ids = filter accepts ids"

section \<open>Dispatching the outbox\<close>

text \<open>The result is the number of deliveries, beside it stand the messages that reached the queue.\<close>

definition dispatch_outbox ::
  "integration_settings \<Rightarrow> (uuid \<Rightarrow> bool) \<Rightarrow> env \<Rightarrow> uuid \<Rightarrow> db \<Rightarrow> (failure + nat) \<times> uuid list \<times> db" where
  "dispatch_outbox cfg accepts env i db =
     (case claim_outbox_event env i (now env) (ns_max_retries cfg) db of
        Inl e \<Rightarrow> (Inl (Raised e []), [], db)
      | Inr (None, db1) \<Rightarrow> (Inr 0, [], db1)
      | Inr (Some x, db1) \<Rightarrow>
          (case create_deliveries env x (now env) db1 of
             Inl e \<Rightarrow> (Inl (Raised e []), [], db1)
           | Inr (ds, db2) \<Rightarrow> (Inr (length ds), enqueue_all accepts (map dl_id ds), db2)))"

definition integration_retry_countdown :: "integration_settings \<Rightarrow> int \<Rightarrow> int" where
  "integration_retry_countdown cfg attempt_count =
     min (ns_retry_base_seconds cfg * 2 ^ nat (max (attempt_count - 1) 0)) (ns_retry_max_seconds cfg)"

definition error_code :: "failure \<Rightarrow> string" where
  "error_code err = take 100 (class_name err)"

definition record_outbox_error :: "integration_settings \<Rightarrow> env \<Rightarrow> uuid \<Rightarrow> failure \<Rightarrow> db \<Rightarrow> error + int \<times> db" where
  "record_outbox_error cfg env i err db =
     (case get_outbox_event i db of
        None \<Rightarrow> Inr (ns_max_retries cfg, db)
      | Some x \<Rightarrow>
          bindE (mark_outbox_failed env (Some x)
                   (now env + integration_retry_countdown cfg (x_attempt_count x) * 1000000) (error_code err) db)
            (\<lambda>db'. Inr (x_attempt_count x, db')))"

section \<open>The message\<close>

definition payload_text :: "(string \<times> json) list \<Rightarrow> string \<Rightarrow> string \<Rightarrow> string" where
  "payload_text payload key otherwise =
     (case json_string (map_of payload key) of Some s \<Rightarrow> if s = [] then otherwise else s | None \<Rightarrow> otherwise)"

fun event_label :: "integration_event_type \<Rightarrow> string" where
  "event_label DECISION_ACTIVATED = ''Decision activated''"
| "event_label VOTING_OPENED = ''Voting opened''"
| "event_label VOTING_CLOSED = ''Voting closed''"
| "event_label DECISION_LOCKED = ''Decision locked''"
| "event_label _ = ''Decision updated''"

fun event_details :: "string \<Rightarrow> integration_event_type \<Rightarrow> string" where
  "event_details actor DECISION_ACTIVATED = actor @ '' activated this decision.''"
| "event_details actor VOTING_OPENED = actor @ '' opened a voting round.''"
| "event_details actor VOTING_CLOSED = actor @ '' closed the voting round.''"
| "event_details actor DECISION_LOCKED = actor @ '' locked the final decision record.''"
| "event_details actor _ = actor @ '' updated this decision.''"

definition delivery_message ::
  "integration_settings \<Rightarrow> integration_delivery \<Rightarrow> (string \<times> json) list \<Rightarrow> provider_message" where
  "delivery_message cfg d payload =
     (let title = payload_text payload ''decision_title'' ''Untitled decision'';
          workspace_id = payload_text payload ''workspace_id'' [];
          decision_id = payload_text payload ''decision_id'' [];
          actor = payload_text payload ''actor_name'' ''A workspace member'';
          label = event_label (dl_event_type d);
          details = event_details actor (dl_event_type d);
          link = (if workspace_id \<noteq> [] \<and> decision_id \<noteq> []
                  then rstrip_slash (ns_frontend_url cfg) @ ''/w/'' @ workspace_id @ ''/decisions/'' @ decision_id else []);
          blocks =
            [JObj [(''type'', JStr ''header''), (''text'', JObj [(''type'', JStr ''plain_text''), (''text'', JStr label)])],
             JObj [(''type'', JStr ''section''), (''text'', JObj [(''type'', JStr ''mrkdwn''),
               (''text'', JStr (''*'' @ title @ ''*'' @ [CHR 0x0A] @ details))])]] in
      \<lparr>pm_text = label @ '': '' @ title @ ''. '' @ details,
       pm_blocks = Some (blocks @
         (if link = [] then []
          else [JObj [(''type'', JStr ''actions''), (''elements'', JList [JObj
                 [(''type'', JStr ''button''), (''text'', JObj [(''type'', JStr ''plain_text''), (''text'', JStr ''Open in ForkRoom'')]),
                  (''url'', JStr link)]])]])),
       pm_idempotency_key = Some (uuid_str (dl_id d))\<rparr>)"

section \<open>Delivering\<close>

text \<open>What \<open>deliver\<close> does between the claim and the outcome: the message is sent at most once, at the end.\<close>

definition send_delivery ::
  "integration_settings \<Rightarrow> provider_client list \<Rightarrow> (string \<Rightarrow> fernet option) \<Rightarrow> integration_delivery \<Rightarrow> db \<Rightarrow> failure + unit" where
  "send_delivery cfg providers new_fernet d db =
     bindE (require (get_connection_by_id (dl_connection_id d) db) (configuration_failure ''Integration connection is not active'')) (\<lambda>c.
     bindE (ensure (ic_status c = IC_ACTIVE) (configuration_failure ''Integration connection is not active'')) (\<lambda>_.
     bindE (require (ic_access_token_encrypted c) (configuration_failure ''Integration credentials are unavailable'')) (\<lambda>encrypted.
     let summary = (case json_fields (dl_request_summary d) of Some kvs \<Rightarrow> kvs | None \<Rightarrow> []) in
     bindE (require (json_string (map_of summary ''destination_id'')) (configuration_failure ''Integration delivery payload is invalid'')) (\<lambda>destination_id.
     bindE (require (Option.bind (map_of summary ''payload'') json_fields) (configuration_failure ''Integration delivery payload is invalid'')) (\<lambda>payload.
     bindE (token_cipher new_fernet (ns_encryption_key cfg)) (\<lambda>fe.
     bindE (cipher_decrypt fe encrypted) (\<lambda>token.
     bindE (registry_get providers (ic_provider c)) (\<lambda>provider.
     pc_send_message provider token destination_id (delivery_message cfg d payload)))))))))"

text \<open>\<open>env'\<close> is the environment after the provider has answered.\<close>

definition integration_deliver ::
  "integration_settings \<Rightarrow> provider_client list \<Rightarrow> (string \<Rightarrow> fernet option) \<Rightarrow> env \<Rightarrow> env \<Rightarrow> uuid \<Rightarrow> db
     \<Rightarrow> (failure + string) \<times> db" where
  "integration_deliver cfg providers new_fernet env env' i db =
     (case claim_delivery env i (now env) db of
        Inl e \<Rightarrow> (Inl (Raised e []), db)
      | Inr (None, db1) \<Rightarrow> (Inr ''ignored'', db1)
      | Inr (Some d, db1) \<Rightarrow>
          (case send_delivery cfg providers new_fernet d db1 of
             Inl err \<Rightarrow> (Inl err, db1)
           | Inr _ \<Rightarrow>
               (case mark_delivery_delivered env' (Some d) (now env') db1 of
                  Inl e \<Rightarrow> (Inl (Raised e []), db1)
                | Inr db2 \<Rightarrow> (Inr ''delivered'', db2))))"

definition record_delivery_error :: "integration_settings \<Rightarrow> env \<Rightarrow> uuid \<Rightarrow> failure \<Rightarrow> db \<Rightarrow> error + int \<times> db" where
  "record_delivery_error cfg env i err db =
     (case get_delivery i db of
        None \<Rightarrow> Inr (ns_max_retries cfg, db)
      | Some d \<Rightarrow>
          if ns_max_retries cfg \<le> dl_attempt_count d
          then bindE (mark_delivery_failed env (Some d) (error_code err) db) (\<lambda>db'. Inr (dl_attempt_count d, db'))
          else bindE (schedule_delivery_retry env (Some d)
                        (now env + integration_retry_countdown cfg (dl_attempt_count d) * 1000000) (error_code err) db)
                 (\<lambda>db'. Inr (dl_attempt_count d, db')))"

text \<open>\<open>recover\<close>: the two counts, and the messages that reached the queues of events and deliveries.\<close>

definition integration_recover ::
  "integration_settings \<Rightarrow> (uuid \<Rightarrow> bool) \<Rightarrow> env \<Rightarrow> db \<Rightarrow> ((nat \<times> nat) \<times> uuid list \<times> uuid list) \<times> db" where
  "integration_recover cfg accepts env db =
     (let (_, db1) = recover_stale_claims env (now env - 5 * 60 * 1000000) (now env) (ns_max_retries cfg) db;
          events = map x_id (list_ready_outbox_events (now env) (ns_max_retries cfg) 100 db1);
          ready = map dl_id (list_ready_deliveries (now env) (ns_max_retries cfg) 100 db1) in
      (((length events, length ready), enqueue_all accepts events, enqueue_all accepts ready), db1))"

section \<open>The tasks\<close>

text \<open>
  What Celery does with an exception: the task is dropped, or runs again after a countdown unless it
  already ran \<open>max_retries\<close> times more, or the exception of the error handler is itself raised.
\<close>

datatype task_outcome = TO_RETURNED | TO_REJECTED | TO_RETRY int | TO_RETRIES_EXHAUSTED | TO_RAISED error

definition after_error :: "integration_settings \<Rightarrow> nat \<Rightarrow> error + int \<times> db \<Rightarrow> db \<Rightarrow> task_outcome \<times> db" where
  "after_error cfg retries recorded db =
     (case recorded of
        Inl e \<Rightarrow> (TO_RAISED e, db)
      | Inr (attempts, db') \<Rightarrow>
          (if ns_max_retries cfg \<le> attempts then TO_REJECTED
           else if int retries < ns_max_retries cfg - 1 then TO_RETRY (integration_retry_countdown cfg attempts)
           else TO_RETRIES_EXHAUSTED, db'))"

definition dispatch_integration_event ::
  "integration_settings \<Rightarrow> (uuid \<Rightarrow> bool) \<Rightarrow> env \<Rightarrow> env \<Rightarrow> nat \<Rightarrow> uuid \<Rightarrow> db \<Rightarrow> uuid list \<times> task_outcome \<times> db" where
  "dispatch_integration_event cfg accepts env env' retries i db =
     (case dispatch_outbox cfg accepts env i db of
        (Inr _, queued, db1) \<Rightarrow> (queued, TO_RETURNED, db1)
      | (Inl err, queued, db1) \<Rightarrow> (queued, after_error cfg retries (record_outbox_error cfg env' i err db1) db1))"

definition deliver_integration_event ::
  "integration_settings \<Rightarrow> provider_client list \<Rightarrow> (string \<Rightarrow> fernet option) \<Rightarrow> env \<Rightarrow> env \<Rightarrow> nat \<Rightarrow> uuid \<Rightarrow> db
     \<Rightarrow> task_outcome \<times> db" where
  "deliver_integration_event cfg providers new_fernet env env' retries i db =
     (case integration_deliver cfg providers new_fernet env env' i db of
        (Inr _, db1) \<Rightarrow> (TO_RETURNED, db1)
      | (Inl err, db1) \<Rightarrow> after_error cfg retries (record_delivery_error cfg env' i err db1) db1)"

end
