(* ===== verification/Redis.thy ===== *)
theory Redis imports Providers begin

text \<open>
  What the repositories use of Redis: values with an expiry, counters, scripts that run atomically. A key
  whose time has come is not there any more. Also the parsing of \<open>UUID(text)\<close> and \<open>int(text)\<close>, by which ids
  come back from texts.
\<close>

section \<open>The store\<close>

text \<open>A \<open>Document\<close> is a text written by \<open>json.dumps\<close> and read by \<open>json.loads\<close>.\<close>

datatype redis_value = Text string | Counter int | Document json

type_synonym redis = "string \<rightharpoonup> redis_value \<times> time"

definition redis_get :: "time \<Rightarrow> string \<Rightarrow> redis \<Rightarrow> redis_value option" where
  "redis_get t key r = (case r key of None \<Rightarrow> None | Some (v, expiry) \<Rightarrow> if t < expiry then Some v else None)"

definition redis_set :: "time \<Rightarrow> string \<Rightarrow> redis_value \<Rightarrow> int \<Rightarrow> redis \<Rightarrow> redis" where
  "redis_set t key v ttl r = r(key \<mapsto> (v, t + ttl * 1000000))"

definition redis_delete :: "string \<Rightarrow> redis \<Rightarrow> redis" where
  "redis_delete key r = r(key := None)"

text \<open>\<open>SET key value EX ttl NX\<close>\<close>

definition redis_set_nx :: "time \<Rightarrow> string \<Rightarrow> redis_value \<Rightarrow> int \<Rightarrow> redis \<Rightarrow> bool \<times> redis" where
  "redis_set_nx t key v ttl r =
     (if redis_get t key r = None then (True, redis_set t key v ttl r) else (False, r))"

lemma redis_get_set: "redis_get t key (redis_set u k v ttl r) =
    (if key = k then if t < u + ttl * 1000000 then Some v else None else redis_get t key r)"
  by (simp add: redis_get_def redis_set_def)

lemma redis_get_delete: "redis_get t key (redis_delete k r) = (if key = k then None else redis_get t key r)"
  by (simp add: redis_get_def redis_delete_def)

lemmas redis_gets = redis_get_set redis_get_delete

lemma redis_get_expires: "redis_get t key r = None \<Longrightarrow> t \<le> t' \<Longrightarrow> redis_get t' key r = None"
  by (auto simp: redis_get_def split: option.splits if_splits)

section \<open>\<open>int(text, base)\<close>\<close>

definition digit_value :: "char \<Rightarrow> nat option" where
  "digit_value c =
     (let n = of_char c :: nat in
      if 48 \<le> n \<and> n \<le> 57 then Some (n - 48)
      else if 97 \<le> n \<and> n \<le> 122 then Some (n - 87)
      else if 65 \<le> n \<and> n \<le> 90 then Some (n - 55)
      else None)"

text \<open>Digits, with single underscores between them; \<open>after\<close> says that a digit has just been read.\<close>

fun digits_value :: "nat \<Rightarrow> bool \<Rightarrow> nat \<Rightarrow> string \<Rightarrow> nat option" where
  "digits_value base after acc [] = (if after then Some acc else None)"
| "digits_value base after acc (c # cs) =
     (if c = CHR ''_'' then if after then digits_value base False acc cs else None
      else case digit_value c of
             None \<Rightarrow> None
           | Some d \<Rightarrow> if d < base then digits_value base True (base * acc + d) cs else None)"

definition drop_base_prefix :: "nat \<Rightarrow> string \<Rightarrow> string" where
  "drop_base_prefix base s =
     (if base = 16 \<and> take 2 s \<in> {''0x'', ''0X''}
      then if take 1 (drop 2 s) = ''_'' then drop 3 s else drop 2 s
      else s)"

definition py_int :: "nat \<Rightarrow> string \<Rightarrow> int option" where
  "py_int base text =
     (let s = py_strip text;
          magnitude = (\<lambda>u. map_option int (digits_value base False 0 (drop_base_prefix base u))) in
      if take 1 s = ''-'' then map_option uminus (magnitude (drop 1 s))
      else if take 1 s = ''+'' then magnitude (drop 1 s)
      else magnitude s)"

section \<open>\<open>UUID(text)\<close>\<close>

text \<open>\<open>text.replace(pattern, "")\<close> for a pattern that is not empty\<close>

function py_remove :: "string \<Rightarrow> string \<Rightarrow> string" where
  "py_remove pat [] = []"
| "py_remove pat (c # cs) =
     (if take (length pat) (c # cs) = pat then py_remove pat (drop (length pat - 1) cs) else c # py_remove pat cs)"
  by pat_completeness auto
termination by (relation "measure (length \<circ> snd)") auto

definition strip_braces :: "string \<Rightarrow> string" where
  "strip_braces s = (let brace = (\<lambda>c. c \<in> set ''{}'') in rev (dropWhile brace (rev (dropWhile brace s))))"

definition parse_uuid :: "string \<Rightarrow> uuid option" where
  "parse_uuid text =
     (let h = filter (\<lambda>c. c \<noteq> CHR ''-'') (strip_braces (py_remove ''uuid:'' (py_remove ''urn:'' text))) in
      if length h \<noteq> 32 then None
      else case py_int 16 h of
             None \<Rightarrow> None
           | Some i \<Rightarrow> if 0 \<le> i \<and> i < 2 ^ 128 then Some (nat i) else None)"

section \<open>An id survives the way through a text\<close>

definition hex_chars :: "char set" where
  "hex_chars = set ''0123456789abcdef''"

lemma hex_digit_value:
  "digit_value (hex_digit n) = Some (n mod 16)" "hex_digit n \<noteq> CHR ''_''" "hex_digit n \<in> hex_chars"
proof -
  let ?d = "\<lambda>i. ''0123456789abcdef'' ! i"
  have "list_all (\<lambda>i. digit_value (?d i) = Some i \<and> ?d i \<noteq> CHR ''_'' \<and> ?d i \<in> hex_chars) [0..<16]"
    unfolding hex_chars_def by code_simp
  then have "digit_value (?d i) = Some i \<and> ?d i \<noteq> CHR ''_'' \<and> ?d i \<in> hex_chars" if "i < 16" for i
    using that by (simp add: list_all_iff)
  from this [of "n mod 16"] show "digit_value (hex_digit n) = Some (n mod 16)" "hex_digit n \<noteq> CHR ''_''"
    "hex_digit n \<in> hex_chars"
    by (simp_all add: hex_digit_def)
qed

lemma length_hex_digits [simp]: "length (hex_digits k n) = k"
  by (induction k arbitrary: n) auto

lemma hex_digits_chars: "set (hex_digits k n) \<subseteq> hex_chars"
  by (induction k arbitrary: n) (auto simp: hex_digit_value)

lemma digits_value_append:
  "digits_value 16 True a (hex_digits k n @ cs) = digits_value 16 True (16 ^ k * a + n mod 16 ^ k) cs"
proof (induction k arbitrary: n a cs)
  case 0
  then show ?case by simp
next
  case (Suc k)
  have "digits_value 16 True a (hex_digits (Suc k) n @ cs) =
      digits_value 16 True (16 ^ k * a + n div 16 mod 16 ^ k) (hex_digit n # cs)"
    using Suc [of a "n div 16" "hex_digit n # cs"] by simp
  also have "\<dots> = digits_value 16 True (16 * (16 ^ k * a + n div 16 mod 16 ^ k) + n mod 16) cs"
    by (simp add: hex_digit_value)
  also have "16 * (16 ^ k * a + n div 16 mod 16 ^ k) + n mod 16 = 16 ^ Suc k * a + n mod 16 ^ Suc k"
    by (simp add: mod_mult2_eq algebra_simps)
  finally show ?case .
qed

lemma digits_value_hex: "k \<noteq> 0 \<Longrightarrow> digits_value 16 False 0 (hex_digits k n) = Some (n mod 16 ^ k)"
proof -
  assume "k \<noteq> 0"
  then have "hex_digits k n \<noteq> []" by (metis length_hex_digits length_0_conv)
  then have "digits_value 16 False 0 (hex_digits k n) = digits_value 16 True 0 (hex_digits k n)"
    using hex_digits_chars [of k n] by (cases "hex_digits k n") (auto simp: hex_chars_def)
  then show ?thesis using digits_value_append [of 0 k n "[]"] by simp
qed

lemma py_remove_absent: "pat = p # ps \<Longrightarrow> p \<notin> set s \<Longrightarrow> py_remove pat s = s"
  by (induction pat s rule: py_remove.induct) auto

lemma no_space_hex: "c \<in> hex_chars \<Longrightarrow> \<not> is_space c"
proof -
  have "list_all (\<lambda>c. \<not> is_space c) ''0123456789abcdef''" by code_simp
  then show "c \<in> hex_chars \<Longrightarrow> \<not> is_space c" by (simp only: list_all_iff hex_chars_def) blast
qed

lemma strip_hex:
  assumes "set s \<subseteq> hex_chars"
  shows "py_strip s = s"
proof -
  have "dropWhile is_space t = t" if "set t = set s" for t
    using no_space_hex [OF subsetD [OF assms]] that hd_in_set [of t] unfolding dropWhile_eq_self_iff by metis
  from this [of s] this [of "rev s"] show ?thesis by (simp add: py_strip_def)
qed

lemma take_not_hex: "c \<in> set t \<Longrightarrow> c \<notin> hex_chars \<Longrightarrow> set s \<subseteq> hex_chars \<Longrightarrow> take m s \<noteq> t"
  by (metis in_mono set_take_subset)

lemma py_int_hex:
  assumes "k \<noteq> 0"
  shows "py_int 16 (hex_digits k n) = Some (int (n mod 16 ^ k))"
proof -
  note chars = hex_digits_chars [of k n]
  have "take 1 (hex_digits k n) \<noteq> ''-''" "take 1 (hex_digits k n) \<noteq> ''+''"
      "take 2 (hex_digits k n) \<noteq> ''0x''" "take 2 (hex_digits k n) \<noteq> ''0X''"
    by (rule take_not_hex [OF _ _ chars, of "CHR ''-''"] take_not_hex [OF _ _ chars, of "CHR ''+''"]
        take_not_hex [OF _ _ chars, of "CHR ''x''"] take_not_hex [OF _ _ chars, of "CHR ''X''"]; simp add: hex_chars_def)+
  then show ?thesis using assms
    by (simp add: py_int_def strip_hex [OF chars] drop_base_prefix_def digits_value_hex Let_def)
qed

lemma take_drop_join: "take n (drop m h) @ drop (n + m) h = drop m h"
  by (metis append_take_drop_id drop_drop)

lemma uuid_str_chars: "set (uuid_str u) \<subseteq> insert (CHR ''-'') hex_chars"
  using hex_digits_chars [of 32 u] by (auto simp: uuid_str_def Let_def dest!: in_set_takeD in_set_dropD)

lemma uuid_str_digits: "filter (\<lambda>c. c \<noteq> CHR ''-'') (uuid_str u) = hex_digits 32 u"
proof -
  let ?h = "hex_digits 32 u" and ?f = "filter (\<lambda>c. c \<noteq> CHR ''-'')"
  have "CHR ''-'' \<notin> hex_chars" by (simp add: hex_chars_def)
  then have keep: "?f s = s" if "set s \<subseteq> set ?h" for s
    using that hex_digits_chars [of 32 u] by (intro filter_True) blast
  have parts: "?f (take m (drop k ?h)) = take m (drop k ?h)" "?f (drop k ?h) = drop k ?h" "?f (take m ?h) = take m ?h" for m k
    by (rule keep; auto dest: in_set_takeD in_set_dropD)+
  have "?f (uuid_str u) = take 8 ?h @ take 4 (drop 8 ?h) @ take 4 (drop 12 ?h) @ take 4 (drop 16 ?h) @ drop 20 ?h"
    by (simp only: uuid_str_def Let_def filter_append parts) simp
  also have "\<dots> = ?h"
    using take_drop_join [of 4 16 ?h] take_drop_join [of 4 12 ?h] take_drop_join [of 4 8 ?h] by simp
  finally show ?thesis .
qed

lemma uuid_roundtrip:
  assumes "u < 2 ^ 128"
  shows "parse_uuid (uuid_str u) = Some u"
proof -
  note chars = uuid_str_chars [of u]
  have out: "c \<notin> set (uuid_str u)" if "c \<in> set ''u{}''" for c
    using that chars by (auto simp: hex_chars_def)
  have "py_remove ''urn:'' (uuid_str u) = uuid_str u" "py_remove ''uuid:'' (uuid_str u) = uuid_str u"
    by (rule py_remove_absent [OF refl]; simp add: out)+
  moreover have "strip_braces (uuid_str u) = uuid_str u"
  proof -
    have "dropWhile (\<lambda>c. c \<in> set ''{}'') s = s" if "set s = set (uuid_str u)" for s
      using out that hd_in_set [of s] unfolding dropWhile_eq_self_iff by auto
    then show ?thesis by (simp add: strip_braces_def Let_def)
  qed
  moreover have "(16 :: nat) ^ 32 = 2 ^ 128" by (simp add: power_mult [symmetric, of 2 4, simplified])
  ultimately show ?thesis
    using assms py_int_hex [of 32 u] by (simp add: parse_uuid_def uuid_str_digits Let_def)
qed

text \<open>Different ids have different texts.\<close>

lemma uuid_str_inj: "u < 2 ^ 128 \<Longrightarrow> v < 2 ^ 128 \<Longrightarrow> uuid_str u = uuid_str v \<longleftrightarrow> u = v"
  by (metis option.inject uuid_roundtrip)

end
