(* ===== verification/OAuth_States.thy ===== *)
theory OAuth_States imports Redis begin

text \<open>
  The states of the two OAuth flows, documents in Redis that are read once:
  \<open>app/repositories/integration_oauth.py\<close> and \<open>app/repositories/auth_oauth.py\<close>. The name of a state is the
  random text of \<open>secrets.token_urlsafe(32)\<close>.
\<close>

section \<open>Connecting an integration\<close>

record oauth_state =
  os_workspace_id :: uuid
  os_user_id :: uuid
  os_provider :: integration_provider
  os_code_verifier :: string
  os_return_path :: string

fun provider_value :: "integration_provider \<Rightarrow> string" where
  "provider_value SLACK = ''slack''"

definition provider_of :: "string \<Rightarrow> integration_provider option" where
  "provider_of s = (if s = ''slack'' then Some SLACK else None)"

definition integration_state_key :: "string \<Rightarrow> string" where
  "integration_state_key state = ''integration:oauth-state:'' @ state"

definition issue_oauth_state :: "time \<Rightarrow> string \<Rightarrow> oauth_state \<Rightarrow> int \<Rightarrow> redis \<Rightarrow> redis" where
  "issue_oauth_state at state v ttl_seconds r =
     redis_set at (integration_state_key state)
       (Document (JObj [(''workspace_id'', JStr (uuid_str (os_workspace_id v))), (''user_id'', JStr (uuid_str (os_user_id v))),
          (''provider'', JStr (provider_value (os_provider v))), (''code_verifier'', JStr (os_code_verifier v)),
          (''return_path'', JStr (os_return_path v))])) ttl_seconds r"

text \<open>The document is read field by field; whatever is missing or malformed makes the state invalid.\<close>

definition consume_oauth_state :: "time \<Rightarrow> string \<Rightarrow> redis \<Rightarrow> oauth_state option \<times> redis" where
  "consume_oauth_state at state r =
     (let key = integration_state_key state in
      case redis_get at key r of
        None \<Rightarrow> (None, r)
      | Some v \<Rightarrow>
          (case v of
             Document (JObj kvs) \<Rightarrow>
               (case (Option.bind (json_string (map_of kvs ''workspace_id'')) parse_uuid,
                      Option.bind (json_string (map_of kvs ''user_id'')) parse_uuid,
                      Option.bind (json_string (map_of kvs ''provider'')) provider_of,
                      json_string (map_of kvs ''code_verifier''), json_string (map_of kvs ''return_path'')) of
                  (Some w, Some u, Some p, Some c, Some path) \<Rightarrow>
                    Some \<lparr>os_workspace_id = w, os_user_id = u, os_provider = p, os_code_verifier = c, os_return_path = path\<rparr>
                | _ \<Rightarrow> None)
           | _ \<Rightarrow> None, redis_delete key r))"

section \<open>Signing in with Google\<close>

record auth_oauth_state =
  ao_code_verifier :: string
  ao_return_path :: string

definition google_state_key :: "string \<Rightarrow> string" where
  "google_state_key state = ''auth:google:oauth-state:'' @ state"

definition issue_google_state :: "time \<Rightarrow> string \<Rightarrow> auth_oauth_state \<Rightarrow> int \<Rightarrow> redis \<Rightarrow> redis" where
  "issue_google_state at state v ttl_seconds r =
     redis_set at (google_state_key state)
       (Document (JObj [(''code_verifier'', JStr (ao_code_verifier v)), (''return_path'', JStr (ao_return_path v))])) ttl_seconds r"

definition consume_google_state :: "time \<Rightarrow> string \<Rightarrow> redis \<Rightarrow> auth_oauth_state option \<times> redis" where
  "consume_google_state at state r =
     (let key = google_state_key state in
      case redis_get at key r of
        None \<Rightarrow> (None, r)
      | Some v \<Rightarrow>
          (case v of
             Document (JObj kvs) \<Rightarrow>
               (case (json_string (map_of kvs ''code_verifier''), json_string (map_of kvs ''return_path'')) of
                  (Some c, Some path) \<Rightarrow> Some \<lparr>ao_code_verifier = c, ao_return_path = path\<rparr>
                | _ \<Rightarrow> None)
           | _ \<Rightarrow> None, redis_delete key r))"

section \<open>A state is found once\<close>

lemma provider_of_value [simp]: "provider_of (provider_value p) = Some p"
  by (cases p) (simp add: provider_of_def)

lemma oauth_state_roundtrip:
  assumes "os_workspace_id v < 2 ^ 128" and "os_user_id v < 2 ^ 128" and "at' < at + ttl * 1000000"
  shows "\<exists>r'. consume_oauth_state at' state (issue_oauth_state at state v ttl r) = (Some v, r') \<and>
    consume_oauth_state at'' state r' = (None, r')"
  using assms
  by (simp add: consume_oauth_state_def issue_oauth_state_def redis_gets uuid_roundtrip Let_def)

lemma google_state_roundtrip:
  assumes "at' < at + ttl * 1000000"
  shows "\<exists>r'. consume_google_state at' state (issue_google_state at state v ttl r) = (Some v, r') \<and>
    consume_google_state at'' state r' = (None, r')"
  using assms by (simp add: consume_google_state_def issue_google_state_def redis_gets Let_def)

end
