(* ===== verification/Integrations.thy ===== *)
theory Integrations imports Integration_Delivery Workspaces OAuth_States begin

text \<open>
  \<open>app/schemas/integration.py\<close> and \<open>IntegrationService\<close> of \<open>app/services/integration.py\<close>. The states of the
  OAuth flow live in Redis (\<open>OAuth_States\<close>): here \<open>issue\<close> gives the name of the state stored, \<open>consume\<close> what is found
  under a name.
\<close>

section \<open>The requests\<close>

text \<open>\<open>IntegrationAuthorizeRequest.return_path\<close>: a path of the application, nothing that leads elsewhere.\<close>

definition return_path_ok :: "string \<Rightarrow> bool" where
  "return_path_ok s \<longleftrightarrow>
     length s \<le> 500 \<and> take 1 s = ''/'' \<and> take 2 s \<noteq> ''//'' \<and>
     CHR 0x5C \<notin> set s \<and> CHR ''?'' \<notin> set s \<and> CHR 0x23 \<notin> set s"

fun IntegrationAuthorizeRequest :: "string option \<Rightarrow> error + string option" where
  "IntegrationAuthorizeRequest None = Inr None"
| "IntegrationAuthorizeRequest (Some s) = bindE (ensure (return_path_ok s) ValidationError) (\<lambda>_. Inr (Some s))"

definition IntegrationSubscriptionUpdate :: "subscription_configuration \<Rightarrow> error + subscription_configuration" where
  "IntegrationSubscriptionUpdate v =
     bindE (ensure (\<forall>s \<in> set_option (sc_destination_id v). length s \<le> 255) ValidationError) (\<lambda>_.
     bindE (ensure (\<forall>s \<in> set_option (sc_destination_name v). length s \<le> 255) ValidationError) (\<lambda>_.
     bindE (ensure (sc_enabled v \<longrightarrow> nonempty (sc_destination_id v) \<and> nonempty (sc_destination_name v)) ValidationError) (\<lambda>_.
     Inr v)))"

fun validate_all :: "('a \<Rightarrow> error + 'b) \<Rightarrow> 'a list \<Rightarrow> error + 'b list" where
  "validate_all f [] = Inr []"
| "validate_all f (x # xs) = bindE (f x) (\<lambda>y. bindE (validate_all f xs) (\<lambda>ys. Inr (y # ys)))"

definition IntegrationSubscriptionsUpdateRequest ::
  "subscription_configuration list \<Rightarrow> error + subscription_configuration list" where
  "IntegrationSubscriptionsUpdateRequest items =
     bindE (ensure (1 \<le> length items \<and> length items \<le> 20) ValidationError) (\<lambda>_.
     bindE (validate_all IntegrationSubscriptionUpdate items) (\<lambda>vs.
     bindE (ensure (distinct (map sc_event_type vs)) ValidationError) (\<lambda>_. Inr vs)))"

section \<open>Who may do what\<close>

definition supported_events :: "integration_event_type list" where
  "supported_events = [DECISION_ACTIVATED, VOTING_OPENED, VOTING_CLOSED, DECISION_LOCKED]"

definition integration_require_membership :: "uuid \<Rightarrow> uuid \<Rightarrow> db \<Rightarrow> error + unit" where
  "integration_require_membership user w db =
     bindE (require (workspaces_repo_get_by_id w db) WorkspaceNotFoundError) (\<lambda>_.
     bindE (require (workspaces_repo_get_membership w user db) WorkspaceNotFoundError) (\<lambda>_. Inr ()))"

definition integration_require_manager :: "uuid \<Rightarrow> uuid \<Rightarrow> db \<Rightarrow> error + unit" where
  "integration_require_manager user w db =
     bindE (require (workspaces_repo_get_by_id w db) WorkspaceNotFoundError) (\<lambda>_.
     bindE (require (workspaces_repo_get_membership w user db) WorkspaceNotFoundError) (\<lambda>m.
     ensure (can_manage_workspace (m_role m)) IntegrationAccessDeniedError))"

definition require_connection :: "uuid \<Rightarrow> uuid \<Rightarrow> db \<Rightarrow> error + integration_connection" where
  "require_connection w i db = require (get_connection w i db) IntegrationNotFoundError"

definition manager_connection :: "user \<Rightarrow> uuid \<Rightarrow> uuid \<Rightarrow> db \<Rightarrow> error + integration_connection" where
  "manager_connection me w i db =
     bindE (integration_require_manager (u_id me) w db) (\<lambda>_. require_connection w i db)"

definition access_token ::
  "integration_settings \<Rightarrow> (string \<Rightarrow> fernet option) \<Rightarrow> env \<Rightarrow> integration_connection \<Rightarrow> failure + string" where
  "access_token cfg new_fernet env c =
     bindE (ensure (ic_status c = IC_ACTIVE) (configuration_failure ''Integration connection is not active'')) (\<lambda>_.
     bindE (ensure (\<forall>t \<in> set_option (ic_token_expires_at c). now env < t) (configuration_failure ''Integration credentials have expired'')) (\<lambda>_.
     bindE (require (ic_access_token_encrypted c) (configuration_failure ''Integration credentials are unavailable'')) (\<lambda>encrypted.
     bindE (token_cipher new_fernet (ns_encryption_key cfg)) (\<lambda>fe. cipher_decrypt fe encrypted))))"

section \<open>Providers\<close>

definition encryption_configured :: "integration_settings \<Rightarrow> bool" where
  "encryption_configured cfg \<longleftrightarrow> nonempty (ns_encryption_key cfg)"

definition integration_list_providers :: "integration_settings \<Rightarrow> provider_client list \<Rightarrow> provider_client list" where
  "integration_list_providers cfg providers = filter (\<lambda>p. pc_available p \<and> encryption_configured cfg) providers"

definition integration_provider_catalog :: "integration_settings \<Rightarrow> provider_client list \<Rightarrow> (provider_client \<times> bool) list" where
  "integration_provider_catalog cfg providers = map (\<lambda>p. (p, pc_available p \<and> encryption_configured cfg)) providers"

section \<open>Connecting\<close>

text \<open>
  \<open>verifier\<close> is the random text of \<open>secrets.token_urlsafe(64)\<close>, ASCII by construction. The result is the
  state given to \<open>issue\<close>, the URL for the state text \<open>issue\<close> returned, and the time it expires.
\<close>

definition code_challenge_of :: "env \<Rightarrow> string \<Rightarrow> string" where
  "code_challenge_of env verifier = b64_unpadded (hex_bytes (sha256_hex env verifier))"

definition integration_authorize ::
  "integration_settings \<Rightarrow> provider_client list \<Rightarrow> (string \<Rightarrow> fernet option) \<Rightarrow> env \<Rightarrow> string \<Rightarrow> (oauth_state \<Rightarrow> int \<Rightarrow> string)
     \<Rightarrow> user \<Rightarrow> uuid \<Rightarrow> integration_provider \<Rightarrow> string option \<Rightarrow> db \<Rightarrow> failure + oauth_state \<times> string \<times> time" where
  "integration_authorize cfg providers new_fernet env verifier issue me w provider_name return_path db =
     bindE (lift_error (integration_require_manager (u_id me) w db)) (\<lambda>_.
     bindE (token_cipher new_fernet (ns_encryption_key cfg)) (\<lambda>_.
     bindE (registry_get providers provider_name) (\<lambda>provider.
     let safe_return_path = (if nonempty return_path then the return_path else ''/w/'' @ uuid_str w @ ''/integrations'');
         st = \<lparr>os_workspace_id = w, os_user_id = u_id me, os_provider = provider_name, os_code_verifier = verifier,
               os_return_path = safe_return_path\<rparr> in
     bindE (pc_build_authorization_url provider (issue st (ns_oauth_state_ttl_seconds cfg)) (code_challenge_of env verifier)) (\<lambda>url.
     Inr (st, url, now env + ns_oauth_state_ttl_seconds cfg * 1000000)))))"

definition callback_redirect :: "integration_settings \<Rightarrow> string \<Rightarrow> (string \<times> string) list \<Rightarrow> string" where
  "callback_redirect cfg return_path query =
     rstrip_slash (ns_frontend_url cfg) @ return_path @ ''?'' @ urlencode query"

text \<open>
  The body of the \<open>try\<close> block: the connection is committed before the subscriptions are, and
  an exception between them leaves it.
\<close>

definition connect_account ::
  "integration_settings \<Rightarrow> provider_client list \<Rightarrow> (string \<Rightarrow> fernet option) \<Rightarrow> env \<Rightarrow> env \<Rightarrow> oauth_state \<Rightarrow> string \<Rightarrow> db
     \<Rightarrow> (failure + unit) \<times> db" where
  "connect_account cfg providers new_fernet env env' st code db =
     (case bindE (lift_error (integration_require_manager (os_user_id st) (os_workspace_id st) db)) (\<lambda>_.
           bindE (registry_get providers (os_provider st)) (\<lambda>provider.
           bindE (pc_exchange_code provider (now env) code (os_code_verifier st)) (\<lambda>installation.
           bindE (pc_verify_connection provider (pi_access_token installation)) (\<lambda>_.
           bindE (token_cipher new_fernet (ns_encryption_key cfg)) (\<lambda>fe.
           lift_error (upsert_connection env (os_workspace_id st) (os_provider st) (os_user_id st) installation
             (fe_encrypt fe (pi_access_token installation)) (map_option (fe_encrypt fe) (pi_refresh_token installation)) db)))))) of
        Inl err \<Rightarrow> (Inl err, db)
      | Inr (c, db1) \<Rightarrow>
          (case ensure_subscriptions env' (ic_id c) supported_events db1 of
             Inl e \<Rightarrow> (Inl (Raised e []), db1)
           | Inr (_, db2) \<Rightarrow> (Inr (), db2)))"

fun redirect_reason :: "failure \<Rightarrow> string option" where
  "redirect_reason (Raised e text) =
     (if e \<in> {IntegrationProviderError, IntegrationProviderUnavailableError} then Some ''provider_failed''
      else if e \<in> {IntegrationAccessDeniedError, WorkspaceNotFoundError} then Some ''permission_denied''
      else if e = IntegrationConfigurationError then Some ''configuration_error''
      else None)"
| "redirect_reason (Foreign name text) = None"

definition integration_complete_authorization ::
  "integration_settings \<Rightarrow> provider_client list \<Rightarrow> (string \<Rightarrow> fernet option) \<Rightarrow> env \<Rightarrow> env \<Rightarrow> (string \<Rightarrow> oauth_state option)
     \<Rightarrow> integration_provider \<Rightarrow> string option \<Rightarrow> string option \<Rightarrow> string option \<Rightarrow> db \<Rightarrow> (failure + string) \<times> db" where
  "integration_complete_authorization cfg providers new_fernet env env' consume provider_name state code provider_error db =
     (case (if nonempty state then consume (the state) else None) of
        None \<Rightarrow> (Inl (Raised IntegrationOAuthStateError []), db)
      | Some st \<Rightarrow>
          if os_provider st \<noteq> provider_name then (Inl (Raised IntegrationOAuthStateError []), db)
          else if nonempty provider_error \<or> \<not> nonempty code
          then (Inr (callback_redirect cfg (os_return_path st)
                  [(''error'', if provider_error = Some ''access_denied'' then ''access_denied'' else ''oauth_failed'')]), db)
          else
            (case connect_account cfg providers new_fernet env env' st (the code) db of
               (Inr _, db1) \<Rightarrow> (Inr (callback_redirect cfg (os_return_path st) [(''connected'', provider_value provider_name)]), db1)
             | (Inl err, db1) \<Rightarrow>
                 (case redirect_reason err of
                    Some reason \<Rightarrow> (Inr (callback_redirect cfg (os_return_path st) [(''error'', reason)]), db1)
                  | None \<Rightarrow> (Inl err, db1))))"

section \<open>Managing a connection\<close>

definition integration_list_connections :: "user \<Rightarrow> uuid \<Rightarrow> db \<Rightarrow> error + integration_connection list" where
  "integration_list_connections me w db =
     bindE (integration_require_membership (u_id me) w db) (\<lambda>_. Inr (list_connections w db))"

definition integration_get_connection :: "user \<Rightarrow> uuid \<Rightarrow> uuid \<Rightarrow> db \<Rightarrow> error + integration_connection" where
  "integration_get_connection me w i db =
     bindE (integration_require_membership (u_id me) w db) (\<lambda>_. require_connection w i db)"

definition integration_list_destinations ::
  "integration_settings \<Rightarrow> provider_client list \<Rightarrow> (string \<Rightarrow> fernet option) \<Rightarrow> env \<Rightarrow> user \<Rightarrow> uuid \<Rightarrow> uuid \<Rightarrow> db
     \<Rightarrow> failure + provider_destination list" where
  "integration_list_destinations cfg providers new_fernet env me w i db =
     bindE (lift_error (manager_connection me w i db)) (\<lambda>c.
     bindE (registry_get providers (ic_provider c)) (\<lambda>provider.
     bindE (access_token cfg new_fernet env c) (\<lambda>token. pc_list_destinations provider token)))"

definition integration_list_subscriptions ::
  "env \<Rightarrow> user \<Rightarrow> uuid \<Rightarrow> uuid \<Rightarrow> db \<Rightarrow> error + integration_subscription list \<times> db" where
  "integration_list_subscriptions env me w i db =
     bindE (integration_require_membership (u_id me) w db) (\<lambda>_.
     bindE (require_connection w i db) (\<lambda>c. ensure_subscriptions env (ic_id c) supported_events db))"

definition integration_update_subscriptions ::
  "env \<Rightarrow> user \<Rightarrow> uuid \<Rightarrow> uuid \<Rightarrow> subscription_configuration list \<Rightarrow> db \<Rightarrow> error + integration_subscription list \<times> db" where
  "integration_update_subscriptions env me w i updates db =
     bindE (manager_connection me w i db) (\<lambda>c.
     bindE (ensure (list_all (\<lambda>v. sc_event_type v \<in> set supported_events) updates) IntegrationConfigurationError) (\<lambda>_.
     update_subscriptions env (ic_id c) updates db))"

definition test_destination :: "uuid \<Rightarrow> string option \<Rightarrow> db \<Rightarrow> string option" where
  "test_destination i destination_id db =
     (if destination_id \<noteq> None then destination_id
      else Option.bind (first_where (\<lambda>s. is_enabled s \<and> nonempty (is_destination_id s)) (list_subscriptions i db)) is_destination_id)"

definition integration_send_test ::
  "integration_settings \<Rightarrow> provider_client list \<Rightarrow> (string \<Rightarrow> fernet option) \<Rightarrow> env \<Rightarrow> user \<Rightarrow> uuid \<Rightarrow> uuid \<Rightarrow> string option \<Rightarrow> db
     \<Rightarrow> failure + integration_connection \<times> db" where
  "integration_send_test cfg providers new_fernet env me w i destination_id db =
     bindE (lift_error (manager_connection me w i db)) (\<lambda>c.
     bindE (require (test_destination (ic_id c) destination_id db)
              (configuration_failure ''Select a destination before sending a test'')) (\<lambda>destination.
     bindE (registry_get providers (ic_provider c)) (\<lambda>provider.
     bindE (access_token cfg new_fernet env c) (\<lambda>token.
     bindE (pc_verify_connection provider token) (\<lambda>_.
     bindE (pc_send_test_message provider token destination) (\<lambda>_.
     lift_error (mark_verified env c (now env) db)))))))"

definition integration_list_deliveries ::
  "user \<Rightarrow> uuid \<Rightarrow> uuid \<Rightarrow> nat \<Rightarrow> nat \<Rightarrow> db \<Rightarrow> error + integration_delivery list" where
  "integration_list_deliveries me w i limit offset db =
     bindE (integration_require_membership (u_id me) w db) (\<lambda>_.
     bindE (require_connection w i db) (\<lambda>c. Inr (list_deliveries (ic_id c) limit offset db)))"

definition integration_disconnect ::
  "integration_settings \<Rightarrow> provider_client list \<Rightarrow> (string \<Rightarrow> fernet option) \<Rightarrow> env \<Rightarrow> user \<Rightarrow> uuid \<Rightarrow> uuid \<Rightarrow> db
     \<Rightarrow> failure + integration_connection \<times> db" where
  "integration_disconnect cfg providers new_fernet env me w i db =
     bindE (lift_error (manager_connection me w i db)) (\<lambda>c.
     bindE (registry_get providers (ic_provider c)) (\<lambda>provider.
     bindE (access_token cfg new_fernet env c) (\<lambda>token.
     bindE (pc_revoke provider token) (\<lambda>_.
     lift_error (mark_revoked env c db)))))"

end
