(* ===== verification/Integration_Steps.thy ===== *)
theory Integration_Steps imports Integrations begin

text \<open>
  The integration tables under the requests of managers, the dispatch and delivery tasks and the recovery
  job, in any order. Workers may hold a copy that is older than the row.
\<close>

section \<open>What holds, and what may become of a row\<close>

definition integration_inv :: "db \<Rightarrow> bool" where
  "integration_inv db \<longleftrightarrow>
     distinct (map ic_id (connections db)) \<and> uq_connections (connections db) \<and>
     distinct (map is_id (subscriptions db)) \<and> uq_subscriptions (subscriptions db) \<and>
     distinct (map dl_id (deliveries db)) \<and> uq_deliveries (deliveries db)"

definition event_evolves :: "integration_outbox_event \<Rightarrow> integration_outbox_event \<Rightarrow> bool" where
  "event_evolves x x' \<longleftrightarrow> x_id x' = x_id x \<and> x_workspace_id x' = x_workspace_id x \<and> x_event_type x' = x_event_type x \<and>
     x_event_id x' = x_event_id x \<and> x_payload x' = x_payload x \<and> x_attempt_count x \<le> x_attempt_count x' \<and>
     (x_status x = X_PROCESSED \<longrightarrow> x_status x' = X_PROCESSED)"

definition delivery_evolves :: "integration_delivery \<Rightarrow> integration_delivery \<Rightarrow> bool" where
  "delivery_evolves d d' \<longleftrightarrow> dl_id d' = dl_id d \<and> dl_connection_id d' = dl_connection_id d \<and> dl_event_type d' = dl_event_type d \<and>
     dl_event_id d' = dl_event_id d \<and> dl_request_summary d' = dl_request_summary d \<and>
     dl_created_at d' = dl_created_at d \<and> dl_response_status d' = dl_response_status d \<and> dl_attempt_count d \<le> dl_attempt_count d' \<and>
     (dl_status d = DL_DELIVERED \<longrightarrow> dl_status d' = DL_DELIVERED \<and> dl_attempt_count d' = dl_attempt_count d \<and>
        dl_error_code d' = dl_error_code d \<and> dl_next_retry_at d' = dl_next_retry_at d)"

interpretation event_history: row_history x_id "\<lambda>_. False" event_evolves
  by unfold_locales (simp_all add: event_evolves_def)

interpretation delivery_history: row_history dl_id "\<lambda>_. False" delivery_evolves
  by unfold_locales (simp_all add: delivery_evolves_def)

abbreviation events_follow :: "integration_outbox_event list \<Rightarrow> integration_outbox_event list \<Rightarrow> bool" where
  "events_follow \<equiv> follows x_id (\<lambda>_. False) event_evolves"

abbreviation deliveries_follow :: "integration_delivery list \<Rightarrow> integration_delivery list \<Rightarrow> bool" where
  "deliveries_follow \<equiv> follows dl_id (\<lambda>_. False) delivery_evolves"

definition event_sources :: "integration_outbox_event list \<Rightarrow> (integration_event_type \<times> uuid \<times> uuid) list" where
  "event_sources xs = map (\<lambda>x. (x_event_type x, x_event_id x, x_workspace_id x)) xs"

definition integration_effect :: "db \<Rightarrow> db \<Rightarrow> bool" where
  "integration_effect db db' \<longleftrightarrow>
     (\<exists>xs cs ss ds. db' = db\<lparr>outbox := xs, connections := cs, subscriptions := ss, deliveries := ds\<rparr>) \<and>
     (outbox_inv (outbox db) \<longrightarrow> outbox_inv (outbox db') \<and> events_follow (outbox db) (outbox db') \<and>
        event_sources (outbox db') = event_sources (outbox db)) \<and>
     (integration_inv db \<longrightarrow> integration_inv db' \<and> deliveries_follow (deliveries db) (deliveries db'))"

lemma integration_effect_refl: "integration_effect db db"
  unfolding integration_effect_def
  by (simp add: event_history.refl delivery_history.refl integration_inv_def outbox_inv_def)
    (intro exI [of _ "outbox db"] exI [of _ "connections db"] exI [of _ "subscriptions db"] exI [of _ "deliveries db"], simp)

text \<open>Each operation writes to one or two of the tables.\<close>

lemma events_effect:
  assumes "db' = db\<lparr>outbox := xs\<rparr>" and "outbox_inv (outbox db) \<Longrightarrow>
      outbox_inv xs \<and> events_follow (outbox db) xs \<and> event_sources xs = event_sources (outbox db)"
  shows "integration_effect db db'"
  unfolding integration_effect_def
  using assms
  by (simp add: integration_inv_def delivery_history.refl)
    (intro exI [of _ xs] exI [of _ "connections db"] exI [of _ "subscriptions db"] exI [of _ "deliveries db"], simp)

lemma deliveries_effect:
  assumes "db' = db\<lparr>deliveries := ds\<rparr>"
    and "distinct (map dl_id (deliveries db)) \<Longrightarrow> uq_deliveries (deliveries db) \<Longrightarrow>
      distinct (map dl_id ds) \<and> uq_deliveries ds \<and> deliveries_follow (deliveries db) ds"
  shows "integration_effect db db'"
  unfolding integration_effect_def
  using assms
  by (simp add: integration_inv_def outbox_inv_def event_history.refl)
    (intro exI [of _ "outbox db"] exI [of _ "connections db"] exI [of _ "subscriptions db"] exI [of _ ds], simp)

lemma connections_effect:
  assumes "db' = db\<lparr>connections := cs\<rparr>"
    and "distinct (map ic_id (connections db)) \<Longrightarrow> uq_connections (connections db) \<Longrightarrow> distinct (map ic_id cs) \<and> uq_connections cs"
  shows "integration_effect db db'"
  unfolding integration_effect_def
  using assms
  by (simp add: integration_inv_def outbox_inv_def event_history.refl delivery_history.refl)
    (intro exI [of _ "outbox db"] exI [of _ cs] exI [of _ "subscriptions db"] exI [of _ "deliveries db"], simp)

lemma subscriptions_effect:
  assumes "db' = db\<lparr>subscriptions := ss\<rparr>"
    and "distinct (map is_id (subscriptions db)) \<Longrightarrow> uq_subscriptions (subscriptions db) \<Longrightarrow> distinct (map is_id ss) \<and> uq_subscriptions ss"
  shows "integration_effect db db'"
  unfolding integration_effect_def
  using assms
  by (simp add: integration_inv_def outbox_inv_def event_history.refl delivery_history.refl)
    (intro exI [of _ "outbox db"] exI [of _ "connections db"] exI [of _ ss] exI [of _ "deliveries db"], simp)

lemma follows_trans:
  assumes "follows key (\<lambda>_. False) ev rs rs'" and "follows key (\<lambda>_. False) ev rs' rs''"
    and "\<And>a b c. ev a b \<Longrightarrow> ev b c \<Longrightarrow> ev a c" and "\<And>a b. ev a b \<Longrightarrow> key b = key a"
  shows "follows key (\<lambda>_. False) ev rs rs''"
  unfolding follows_def
proof
  fix r assume "r \<in> set rs"
  then obtain r' where r': "lookup key (key r) rs' = Some r'" "ev r r'"
    using assms(1) by (auto simp: follows_def split: option.splits)
  have "case lookup key (key r') rs'' of None \<Rightarrow> False | Some x \<Rightarrow> ev r' x"
    using assms(2) lookup_SomeD [OF r'(1)] unfolding follows_def by blast
  then obtain r'' where "lookup key (key r) rs'' = Some r''" "ev r' r''"
    using assms(4) [OF r'(2)] by (cases "lookup key (key r) rs''") simp_all
  then show "case lookup key (key r) rs'' of None \<Rightarrow> False | Some x \<Rightarrow> ev r x" using assms(3) r'(2) by simp
qed

lemma event_evolves_trans: "event_evolves a b \<Longrightarrow> event_evolves b c \<Longrightarrow> event_evolves a c"
  by (auto simp: event_evolves_def)

lemma delivery_evolves_trans: "delivery_evolves a b \<Longrightarrow> delivery_evolves b c \<Longrightarrow> delivery_evolves a c"
  by (auto simp: delivery_evolves_def)

lemma events_follow_trans: "events_follow xs ys \<Longrightarrow> events_follow ys zs \<Longrightarrow> events_follow xs zs"
  by (rule follows_trans [where ev = event_evolves]) (auto intro: event_evolves_trans event_history.evolves_key)

lemma deliveries_follow_trans: "deliveries_follow xs ys \<Longrightarrow> deliveries_follow ys zs \<Longrightarrow> deliveries_follow xs zs"
  by (rule follows_trans [where ev = delivery_evolves]) (auto intro: delivery_evolves_trans delivery_history.evolves_key)

lemma integration_effect_trans:
  assumes "integration_effect a b" and "integration_effect b c"
  shows "integration_effect a c"
proof -
  obtain xs cs ss ds where b: "b = a\<lparr>outbox := xs, connections := cs, subscriptions := ss, deliveries := ds\<rparr>"
    using assms(1) unfolding integration_effect_def by blast
  obtain xs' cs' ss' ds' where c: "c = b\<lparr>outbox := xs', connections := cs', subscriptions := ss', deliveries := ds'\<rparr>"
    using assms(2) unfolding integration_effect_def by blast
  have "c = a\<lparr>outbox := xs', connections := cs', subscriptions := ss', deliveries := ds'\<rparr>" by (simp add: b c)
  moreover have "outbox_inv (outbox a) \<longrightarrow> outbox_inv (outbox c) \<and> events_follow (outbox a) (outbox c)"
    using assms events_follow_trans unfolding integration_effect_def by blast
  moreover have "outbox_inv (outbox a) \<longrightarrow> event_sources (outbox c) = event_sources (outbox a)"
    using assms unfolding integration_effect_def by simp
  moreover have "integration_inv a \<longrightarrow> integration_inv c \<and> deliveries_follow (deliveries a) (deliveries c)"
    using assms deliveries_follow_trans unfolding integration_effect_def by blast
  ultimately show ?thesis unfolding integration_effect_def by blast
qed

section \<open>Writing one row\<close>

lemma map_store_row:
  assumes "distinct (map key rs)" and "lookup key i rs = Some cur" and "key r = key cur" and "g r = g cur"
  shows "map g (store key r rs) = map g rs"
proof (rule map_store_same)
  fix x assume "x \<in> set rs" "key x = key r"
  then have "x = cur" using distinct_key_eq [OF assms(1)] lookup_SomeD [OF assms(2)] assms(3) by simp
  then show "g x = g r" using assms(4) by simp
qed

lemma save_event_effect:
  assumes run: "save_outbox_event env old new db = Inr (r, db')"
    and ev: "\<And>cur. outbox_inv (outbox db) \<Longrightarrow> lookup x_id (x_id old) (outbox db) = Some cur \<Longrightarrow> event_evolves cur (write_outbox_event env old new cur)"
  shows "integration_effect db db'"
proof -
  obtain cur where look: "lookup x_id (x_id old) (outbox db) = Some cur"
    and r: "r = write_outbox_event env old new cur" "db' = db\<lparr>outbox := store x_id r (outbox db)\<rparr>"
    using run by (auto simp: save_outbox_event_def)
  have "outbox_inv (store x_id r (outbox db)) \<and> events_follow (outbox db) (store x_id r (outbox db)) \<and>
      event_sources (store x_id r (outbox db)) = event_sources (outbox db)"
    if inv: "outbox_inv (outbox db)"
  proof (intro conjI)
    have e: "event_evolves cur r" using ev [OF inv look] r(1) by simp
    have ids: "distinct (map x_id (outbox db))" using inv by (simp add: outbox_inv_def)
    have "map (\<lambda>x. (x_event_type x, x_event_id x)) (store x_id r (outbox db)) = map (\<lambda>x. (x_event_type x, x_event_id x)) (outbox db)"
      by (rule map_store_row [OF ids look]) (use e in \<open>simp_all add: event_evolves_def\<close>)
    then show "outbox_inv (store x_id r (outbox db))" using inv unfolding outbox_inv_def by simp
    show "events_follow (outbox db) (store x_id r (outbox db))" by (rule event_history.store [OF ids look e])
    show "event_sources (store x_id r (outbox db)) = event_sources (outbox db)"
      unfolding event_sources_def
      by (rule map_store_row [OF ids look]) (use e in \<open>simp_all add: event_evolves_def\<close>)
  qed
  then show ?thesis by (rule events_effect [OF r(2)])
qed

lemma save_delivery_effect:
  assumes run: "save_delivery env old new db = Inr (r, db')"
    and ev: "\<And>cur. distinct (map dl_id (deliveries db)) \<Longrightarrow> lookup dl_id (dl_id old) (deliveries db) = Some cur \<Longrightarrow> delivery_evolves cur (write_delivery env old new cur)"
  shows "integration_effect db db'"
proof -
  obtain cur where look: "lookup dl_id (dl_id old) (deliveries db) = Some cur"
    and r: "r = write_delivery env old new cur" "db' = db\<lparr>deliveries := store dl_id r (deliveries db)\<rparr>"
    using run by (auto simp: save_delivery_def)
  show ?thesis
  proof (rule deliveries_effect [OF r(2)])
    assume ids: "distinct (map dl_id (deliveries db))" and uq: "uq_deliveries (deliveries db)"
    have e: "delivery_evolves cur r" using ev [OF ids look] r(1) by simp
    have "map (\<lambda>d. (dl_connection_id d, dl_event_type d, dl_event_id d)) (store dl_id r (deliveries db)) =
        map (\<lambda>d. (dl_connection_id d, dl_event_type d, dl_event_id d)) (deliveries db)"
      by (rule map_store_row [OF ids look]) (use e in \<open>simp_all add: delivery_evolves_def\<close>)
    then have "uq_deliveries (store dl_id r (deliveries db))" using uq unfolding uq_deliveries_def by simp
    then show "distinct (map dl_id (store dl_id r (deliveries db))) \<and> uq_deliveries (store dl_id r (deliveries db)) \<and>
        deliveries_follow (deliveries db) (store dl_id r (deliveries db))"
      using ids delivery_history.store [OF ids look e] by simp
  qed
qed

lemma save_connection_effect:
  assumes "save_connection env old new db = Inr (r, db')"
  shows "integration_effect db db'"
proof -
  obtain cur where look: "lookup ic_id (ic_id old) (connections db) = Some cur"
    and r: "r = write_connection env old new cur" "db' = db\<lparr>connections := store ic_id r (connections db)\<rparr>"
    using assms by (auto simp: save_connection_def)
  show ?thesis
  proof (rule connections_effect [OF r(2)])
    assume ids: "distinct (map ic_id (connections db))" and uq: "uq_connections (connections db)"
    have "map (\<lambda>c. (ic_workspace_id c, ic_provider c, ic_external_account_id c)) (store ic_id r (connections db)) =
        map (\<lambda>c. (ic_workspace_id c, ic_provider c, ic_external_account_id c)) (connections db)"
      by (rule map_store_row [OF ids look]) (simp_all add: r(1) write_connection_def)
    then show "distinct (map ic_id (store ic_id r (connections db))) \<and> uq_connections (store ic_id r (connections db))"
      using ids uq unfolding uq_connections_def by simp
  qed
qed

section \<open>Connections and subscriptions\<close>

lemma upsert_connection_effect:
  assumes "upsert_connection env w p user inst tok rtok db = Inr (c, db')"
  shows "integration_effect db db'"
proof (cases "first_where (\<lambda>c. ic_workspace_id c = w \<and> ic_provider c = p \<and>
    ic_external_account_id c = pi_external_account_id inst) (connections db)")
  case None
  then obtain x where x: "ic_id x \<notin> ic_id ` set (connections db)" "uq_connections (connections db @ [x])"
      "db' = db\<lparr>connections := connections db @ [x]\<rparr>"
    using assms by (auto simp: upsert_connection_def Let_def)
  show ?thesis by (rule connections_effect [OF x(3)]) (use x(1,2) in auto)
next
  case (Some x)
  then show ?thesis using assms by (auto simp: upsert_connection_def intro: save_connection_effect)
qed

lemma insert_subscriptions_effect: "insert_subscriptions ss db = Inr db' \<Longrightarrow> integration_effect db db'"
proof (induction ss arbitrary: db)
  case (Cons s ss)
  then obtain db1 where s: "is_id s \<notin> is_id ` set (subscriptions db)" "uq_subscriptions (subscriptions db @ [s])"
      and db1: "db1 = db\<lparr>subscriptions := subscriptions db @ [s]\<rparr>" and rest: "insert_subscriptions ss db1 = Inr db'"
    by auto
  have "integration_effect db db1" by (rule subscriptions_effect [OF db1]) (use s in auto)
  then show ?case using Cons.IH [OF rest] by (rule integration_effect_trans)
qed (simp add: integration_effect_refl)

lemma update_each_effect: "update_each env us db = Inr db' \<Longrightarrow> integration_effect db db'"
proof (induction us arbitrary: db)
  case (Cons u us)
  obtain old new where u: "u = (old, new)" by (cases u)
  obtain cur db1 where look: "lookup is_id (is_id old) (subscriptions db) = Some cur"
      and db1: "db1 = db\<lparr>subscriptions := store is_id (write_subscription env old new cur) (subscriptions db)\<rparr>"
      and rest: "update_each env us db1 = Inr db'"
    using Cons.prems by (auto simp: u)
  have "integration_effect db db1"
  proof (rule subscriptions_effect [OF db1])
    assume ids: "distinct (map is_id (subscriptions db))" and uq: "uq_subscriptions (subscriptions db)"
    let ?t = "store is_id (write_subscription env old new cur) (subscriptions db)"
    have "map (\<lambda>s. (is_connection_id s, is_event_type s)) ?t = map (\<lambda>s. (is_connection_id s, is_event_type s)) (subscriptions db)"
      by (rule map_store_row [OF ids look]) (simp_all add: write_subscription_def)
    then show "distinct (map is_id ?t) \<and> uq_subscriptions ?t" using ids uq unfolding uq_subscriptions_def by simp
  qed
  then show ?case using Cons.IH [OF rest] by (rule integration_effect_trans)
qed (simp add: integration_effect_refl)

lemma ensure_subscriptions_effect: "ensure_subscriptions env i tys db = Inr (r, db') \<Longrightarrow> integration_effect db db'"
  by (auto simp: ensure_subscriptions_def Let_def intro: insert_subscriptions_effect)

lemma update_subscriptions_effect: "update_subscriptions env i vs db = Inr (r, db') \<Longrightarrow> integration_effect db db'"
  by (auto simp: update_subscriptions_def Let_def
      intro: integration_effect_trans [OF update_each_effect insert_subscriptions_effect])

section \<open>The outbox and the deliveries\<close>

lemma write_event_fields:
  "x_id (write_outbox_event env old new cur) = x_id cur" "x_workspace_id (write_outbox_event env old new cur) = x_workspace_id cur"
  "x_event_type (write_outbox_event env old new cur) = x_event_type cur" "x_event_id (write_outbox_event env old new cur) = x_event_id cur"
  "x_payload (write_outbox_event env old new cur) = x_payload cur"
  "x_status (write_outbox_event env old new cur) = put_if_dirty (x_status old) (x_status new) (x_status cur)"
  "x_attempt_count (write_outbox_event env old new cur) = put_if_dirty (x_attempt_count old) (x_attempt_count new) (x_attempt_count cur)"
  by (auto simp: write_outbox_event_def)

lemma write_delivery_fields:
  "dl_id (write_delivery env old new cur) = dl_id cur" "dl_connection_id (write_delivery env old new cur) = dl_connection_id cur"
  "dl_event_type (write_delivery env old new cur) = dl_event_type cur" "dl_event_id (write_delivery env old new cur) = dl_event_id cur"
  "dl_request_summary (write_delivery env old new cur) = dl_request_summary cur"
  "dl_created_at (write_delivery env old new cur) = dl_created_at cur"
  "dl_response_status (write_delivery env old new cur) = dl_response_status cur"
  "dl_error_code (write_delivery env old new cur) = put_if_dirty (dl_error_code old) (dl_error_code new) (dl_error_code cur)"
  "dl_next_retry_at (write_delivery env old new cur) = put_if_dirty (dl_next_retry_at old) (dl_next_retry_at new) (dl_next_retry_at cur)"
  "dl_status (write_delivery env old new cur) = put_if_dirty (dl_status old) (dl_status new) (dl_status cur)"
  "dl_attempt_count (write_delivery env old new cur) = put_if_dirty (dl_attempt_count old) (dl_attempt_count new) (dl_attempt_count cur)"
  by (auto simp: write_delivery_def)

lemma claim_event_cases:
  assumes "claim_outbox_event env i t m db = Inr (r, db')"
  obtains "r = None" and "db' = db"
  | x x' where "x \<in> set (outbox db)" and "x_id x = i" and "ready_event t m x" and "r = Some x'" and
      "save_outbox_event env x (x\<lparr>x_status := X_PROCESSING, x_attempt_count := x_attempt_count x + 1, x_last_error := None\<rparr>) db
         = Inr (x', db')"
proof (cases "first_where (\<lambda>x. x_id x = i \<and> ready_event t m x) (outbox db)")
  case None
  then show thesis using assms that(1) by (simp add: claim_outbox_event_def)
next
  case (Some x)
  show thesis using assms Some first_where_SomeD [OF Some] that(2) by (auto simp: claim_outbox_event_def)
qed

lemma claim_event_effect:
  assumes run: "claim_outbox_event env i t m db = Inr (r, db')"
  shows "integration_effect db db'"
  using run
proof (cases rule: claim_event_cases)
  case (2 x x')
  show ?thesis
  proof (rule save_event_effect [OF 2(5)])
    fix cur assume "outbox_inv (outbox db)" and look: "lookup x_id (x_id x) (outbox db) = Some cur"
    then have "cur = x" using 2(1) lookup_SomeD [OF look] distinct_key_eq [of x_id "outbox db" cur x] by (simp add: outbox_inv_def)
    then show "event_evolves cur (write_outbox_event env x
        (x\<lparr>x_status := X_PROCESSING, x_attempt_count := x_attempt_count x + 1, x_last_error := None\<rparr>) cur)"
      using 2(3) by (auto simp: event_evolves_def write_event_fields ready_event_def)
  qed
qed (simp add: integration_effect_refl)

text \<open>A copy \<open>x\<close> of an event that a worker claimed earlier.\<close>

lemma insert_deliveries_effect: "insert_deliveries ds db = Inr db' \<Longrightarrow> integration_effect db db'"
proof (induction ds arbitrary: db)
  case (Cons d ds)
  then obtain db1 where d: "dl_id d \<notin> dl_id ` set (deliveries db)" "uq_deliveries (deliveries db @ [d])"
      and db1: "db1 = db\<lparr>deliveries := deliveries db @ [d]\<rparr>" and rest: "insert_deliveries ds db1 = Inr db'"
    by auto
  have "integration_effect db db1"
    by (rule deliveries_effect [OF db1]) (use d in \<open>auto intro: delivery_history.append\<close>)
  then show ?case using Cons.IH [OF rest] by (rule integration_effect_trans)
qed (simp add: integration_effect_refl)

lemma create_deliveries_effect:
  assumes run: "create_deliveries env x t db = Inr (ds, db')" and x: "x_status x = X_PROCESSING"
  shows "integration_effect db db'"
proof -
  obtain ds' db1 r where ins: "insert_deliveries ds' db = Inr db1" and
      save: "save_outbox_event env x (x\<lparr>x_status := X_PROCESSED, x_processed_at := Some t, x_last_error := None\<rparr>) db1 = Inr (r, db')"
    using run by (auto simp: create_deliveries_def Let_def)
  have "integration_effect db1 db'"
    by (rule save_event_effect [OF save]) (simp add: event_evolves_def write_event_fields x put_if_dirty_def)
  then show ?thesis using insert_deliveries_effect [OF ins] integration_effect_trans by blast
qed

lemma lookup_loaded: "lookup key i rs = Some x \<Longrightarrow> lookup key (key x) rs = Some y \<Longrightarrow> y = x"
  using lookup_SomeD [of key i rs x] by simp

lemma outbox_error_effect: "record_outbox_error cfg env i err db = Inr (k, db') \<Longrightarrow> integration_effect db db'"
proof (cases "lookup x_id i (outbox db)")
  case (Some x)
  assume run: "record_outbox_error cfg env i err db = Inr (k, db')"
  show ?thesis
  proof (cases "x_status x = X_PROCESSED")
    case False
    then obtain r at e where "save_outbox_event env x (x\<lparr>x_status := X_FAILED, x_available_at := at, x_last_error := e\<rparr>) db = Inr (r, db')"
      using run Some by (auto simp: record_outbox_error_def get_outbox_event_def mark_outbox_failed_def)
    then show ?thesis
      by (rule save_event_effect) (use False lookup_loaded [OF Some] in \<open>auto simp: event_evolves_def write_event_fields\<close>)
  qed (use run Some in \<open>auto simp: record_outbox_error_def get_outbox_event_def mark_outbox_failed_def integration_effect_refl\<close>)
qed (auto simp: record_outbox_error_def get_outbox_event_def integration_effect_refl)

lemma claim_delivery_cases:
  assumes "claim_delivery env i t db = Inr (r, db')"
  obtains "r = None" and "db' = db"
  | d d' where "d \<in> set (deliveries db)" and "dl_id d = i" and "due_delivery t d" and "r = Some d'" and
      "save_delivery env d (d\<lparr>dl_status := DL_DELIVERING, dl_attempt_count := dl_attempt_count d + 1, dl_error_code := None,
         dl_next_retry_at := None\<rparr>) db = Inr (d', db')"
proof (cases "first_where (\<lambda>d. dl_id d = i \<and> due_delivery t d) (deliveries db)")
  case None
  then show thesis using assms that(1) by (simp add: claim_delivery_def)
next
  case (Some d)
  show thesis using assms Some first_where_SomeD [OF Some] that(2) by (auto simp: claim_delivery_def)
qed

lemma claim_delivery_effect:
  assumes run: "claim_delivery env i t db = Inr (r, db')"
  shows "integration_effect db db'"
  using run
proof (cases rule: claim_delivery_cases)
  case (2 d d')
  show ?thesis
  proof (rule save_delivery_effect [OF 2(5)])
    fix cur assume "distinct (map dl_id (deliveries db))" and look: "lookup dl_id (dl_id d) (deliveries db) = Some cur"
    then have "cur = d" using 2(1) lookup_SomeD [OF look] distinct_key_eq [of dl_id "deliveries db" cur d] by simp
    then show "delivery_evolves cur (write_delivery env d (d\<lparr>dl_status := DL_DELIVERING, dl_attempt_count := dl_attempt_count d + 1,
        dl_error_code := None, dl_next_retry_at := None\<rparr>) cur)"
      using 2(3) by (auto simp: delivery_evolves_def write_delivery_fields due_delivery_def)
  qed
qed (simp add: integration_effect_refl)

lemma delivered_effect:
  assumes "mark_delivery_delivered env (Some d) t db = Inr db'" and "dl_status d = DL_DELIVERING"
    and "dl_error_code d = None" and "dl_next_retry_at d = None"
  shows "integration_effect db db'"
proof -
  obtain r where "save_delivery env d
      (d\<lparr>dl_status := DL_DELIVERED, dl_delivered_at := Some t, dl_next_retry_at := None, dl_error_code := None\<rparr>) db = Inr (r, db')"
    using assms(1) by (auto simp: mark_delivery_delivered_def)
  then show ?thesis
    by (rule save_delivery_effect) (simp add: delivery_evolves_def write_delivery_fields assms(2-4) put_if_dirty_def)
qed

lemma delivery_error_effect: "record_delivery_error cfg env i err db = Inr (k, db') \<Longrightarrow> integration_effect db db'"
proof (cases "lookup dl_id i (deliveries db)")
  case (Some d)
  assume run: "record_delivery_error cfg env i err db = Inr (k, db')"
  show ?thesis
  proof (cases "dl_status d = DL_DELIVERED")
    case False
    then obtain r s n e where "s \<noteq> DL_DELIVERED" "save_delivery env d (d\<lparr>dl_status := s, dl_next_retry_at := n, dl_error_code := e\<rparr>) db = Inr (r, db')"
      using run Some
      by (auto simp: record_delivery_error_def get_delivery_def mark_delivery_failed_def schedule_delivery_retry_def split: if_splits)
    then show ?thesis
      by (intro save_delivery_effect) (use False lookup_loaded [OF Some] in \<open>auto simp: delivery_evolves_def write_delivery_fields\<close>)
  qed (use run Some in \<open>auto simp: record_delivery_error_def get_delivery_def mark_delivery_failed_def schedule_delivery_retry_def
       integration_effect_refl split: if_splits\<close>)
qed (auto simp: record_delivery_error_def get_delivery_def integration_effect_refl)

lemma follows_map:
  assumes "distinct (map key rs)" and "\<And>r. ev r (f r)" and "\<And>r. key (f r) = key r"
  shows "follows key (\<lambda>_. False) ev rs (map f rs)"
proof -
  have "lookup key (key r) (map f rs) = Some (f r)" if "r \<in> set rs" for r
    using assms(1,3) that by (subst lookup_distinct) (auto simp: comp_def)
  then show ?thesis using assms(2) by (simp add: follows_def)
qed

lemma recover_effect: "integration_effect db (snd (recover_stale_claims env b t m db))"
proof -
  let ?f = "\<lambda>x. if stale_event b x then recovered_event env t x else x"
  let ?g = "\<lambda>d. if stale_claim b d then recovered_delivery env t m d else d"
  have f: "x_id (?f x) = x_id x" "(x_event_type (?f x), x_event_id (?f x)) = (x_event_type x, x_event_id x)" "event_evolves x (?f x)"
    "x_event_type (?f x) = x_event_type x" "x_event_id (?f x) = x_event_id x" "x_workspace_id (?f x) = x_workspace_id x" for x
    by (simp_all add: recovered_event_def event_evolves_def stale_event_def)
  have g: "dl_id (?g d) = dl_id d"
    "(dl_connection_id (?g d), dl_event_type (?g d), dl_event_id (?g d)) = (dl_connection_id d, dl_event_type d, dl_event_id d)"
    "delivery_evolves d (?g d)" for d
    by (simp_all add: recovered_delivery_def delivery_evolves_def stale_claim_def)
  have 1: "integration_effect db (db\<lparr>outbox := map ?f (outbox db)\<rparr>)"
  proof (rule events_effect [OF refl])
    assume inv: "outbox_inv (outbox db)"
    have "event_sources (map ?f (outbox db)) = event_sources (outbox db)" using f by (simp add: event_sources_def comp_def)
    with inv show "outbox_inv (map ?f (outbox db)) \<and> events_follow (outbox db) (map ?f (outbox db)) \<and>
        event_sources (map ?f (outbox db)) = event_sources (outbox db)"
      using follows_map [of x_id "outbox db" event_evolves ?f] f unfolding outbox_inv_def by (simp add: comp_def)
  qed
  have 2: "integration_effect (db\<lparr>outbox := map ?f (outbox db)\<rparr>) (db\<lparr>outbox := map ?f (outbox db), deliveries := map ?g (deliveries db)\<rparr>)"
  proof (rule deliveries_effect [where ds = "map ?g (deliveries db)"])
    assume "distinct (map dl_id (deliveries (db\<lparr>outbox := map ?f (outbox db)\<rparr>)))" "uq_deliveries (deliveries (db\<lparr>outbox := map ?f (outbox db)\<rparr>))"
    then show "distinct (map dl_id (map ?g (deliveries db))) \<and> uq_deliveries (map ?g (deliveries db)) \<and>
        deliveries_follow (deliveries (db\<lparr>outbox := map ?f (outbox db)\<rparr>)) (map ?g (deliveries db))"
      using follows_map [of dl_id "deliveries db" delivery_evolves ?g] g unfolding uq_deliveries_def by (simp add: comp_def)
  qed simp
  show ?thesis using integration_effect_trans [OF 1 2] by (simp add: recover_stale_claims_def)
qed

section \<open>Steps\<close>

text \<open>
  \<open>create\<close> and \<open>delivered\<close> take any row a worker may still hold: they write what they found when they
  claimed it, and a claimed delivery has neither an error code nor a time of the next try.
\<close>

inductive integration_step :: "db \<Rightarrow> db \<Rightarrow> bool" where
  connect: "integration_complete_authorization cfg ps fe env env' consume p st code e db = (res, db') \<Longrightarrow> integration_step db db'"
| list_subs: "integration_list_subscriptions env me w i db = Inr (r, db') \<Longrightarrow> integration_step db db'"
| configure: "integration_update_subscriptions env me w i us db = Inr (r, db') \<Longrightarrow> integration_step db db'"
| test: "integration_send_test cfg ps fe env me w i dest db = Inr (r, db') \<Longrightarrow> integration_step db db'"
| disconnect: "integration_disconnect cfg ps fe env me w i db = Inr (r, db') \<Longrightarrow> integration_step db db'"
| claim_event: "claim_outbox_event env i t m db = Inr (r, db') \<Longrightarrow> integration_step db db'"
| create: "x_status x = X_PROCESSING \<Longrightarrow> create_deliveries env x t db = Inr (ds, db') \<Longrightarrow> integration_step db db'"
| event_failed: "record_outbox_error cfg env i err db = Inr (k, db') \<Longrightarrow> integration_step db db'"
| claim: "claim_delivery env i t db = Inr (r, db') \<Longrightarrow> integration_step db db'"
| delivered: "dl_status d = DL_DELIVERING \<Longrightarrow> dl_error_code d = None \<Longrightarrow> dl_next_retry_at d = None \<Longrightarrow>
    mark_delivery_delivered env (Some d) t db = Inr db' \<Longrightarrow> integration_step db db'"
| delivery_failed: "record_delivery_error cfg env i err db = Inr (k, db') \<Longrightarrow> integration_step db db'"
| recover: "integration_recover cfg accepts env db = (res, db') \<Longrightarrow> integration_step db db'"

lemma connect_account_effect: "connect_account cfg ps fe env env' st code db = (res, db') \<Longrightarrow> integration_effect db db'"
  by (auto simp: connect_account_def integration_effect_refl split: sum.splits prod.splits
      intro: upsert_connection_effect integration_effect_trans [OF upsert_connection_effect ensure_subscriptions_effect])

lemma complete_authorization_effect:
  "integration_complete_authorization cfg ps fe env env' consume p st code e db = (res, db') \<Longrightarrow> integration_effect db db'"
  by (auto simp: integration_complete_authorization_def integration_effect_refl split: option.splits if_splits sum.splits prod.splits
      intro: connect_account_effect)

lemma integration_step_effect:
  assumes "integration_step db db'"
  shows "integration_effect db db'"
  using assms
proof cases
  case connect
  then show ?thesis by (rule complete_authorization_effect)
next
  case list_subs
  then show ?thesis by (auto simp: integration_list_subscriptions_def intro: ensure_subscriptions_effect)
next
  case configure
  then show ?thesis by (auto simp: integration_update_subscriptions_def intro: update_subscriptions_effect)
next
  case test
  then show ?thesis by (auto simp: integration_send_test_def mark_verified_def intro: save_connection_effect)
next
  case disconnect
  then show ?thesis by (auto simp: integration_disconnect_def mark_revoked_def intro: save_connection_effect)
next
  case (recover cfg accepts env res)
  then have "db' = snd (recover_stale_claims env (now env - 5 * 60 * 1000000) (now env) (ns_max_retries cfg) db)"
    by (simp add: integration_recover_def Let_def split: prod.splits)
  then show ?thesis by (simp add: recover_effect)
qed (blast intro: claim_event_effect create_deliveries_effect outbox_error_effect claim_delivery_effect delivered_effect
      delivery_error_effect)+

end
