(* ===== verification/Background.thy ===== *)
theory Background imports Notification_Steps Attachment_Steps Integration_Steps begin

text \<open>
  The jobs and requests that keep to the tables beside the decisions, as one step relation for the
  theory of the whole application.
\<close>

inductive side_step :: "db \<Rightarrow> db \<Rightarrow> bool" where
  notify: "notify_step db db' \<Longrightarrow> side_step db db'"
| attach: "attachment_step db db' \<Longrightarrow> side_step db db'"
| integrate: "integration_step db db' \<Longrightarrow> side_step db db'"

lemma attachment_step_table: "attachment_step db db' \<Longrightarrow> \<exists>as. db' = db\<lparr>attachments := as\<rparr>"
  using attachment_step_effect unfolding attachment_effect_def by blast

lemma integration_step_tables:
  assumes "integration_step db db'"
  shows "\<exists>xs cs ss ds. db' = db\<lparr>outbox := xs, connections := cs, subscriptions := ss, deliveries := ds\<rparr>"
    and "outbox_inv (outbox db) \<Longrightarrow> outbox_inv (outbox db')"
    and "outbox_inv (outbox db) \<Longrightarrow> events_follow (outbox db) (outbox db')"
    and "integration_inv db \<Longrightarrow> integration_inv db'"
    and "integration_inv db \<Longrightarrow> deliveries_follow (deliveries db) (deliveries db')"
    and "outbox_inv (outbox db) \<Longrightarrow> event_sources (outbox db') = event_sources (outbox db)"
  using integration_step_effect [OF assms] unfolding integration_effect_def by blast+

lemma side_step_frame:
  assumes "side_step db db'"
  obtains ns as xs cs ss ds ys where "db' = db\<lparr>notifications := ns, attachments := as, outbox := xs, connections := cs,
      subscriptions := ss, deliveries := ds, published := ys\<rparr>"
    and "outbox_inv (outbox db) \<Longrightarrow> outbox_inv xs"
  using assms
proof cases
  case notify
  then obtain ns where "db' = db\<lparr>notifications := ns\<rparr>" using notifications_onlyD [OF notify_step_only] by blast
  then show thesis
    by (intro that [where ns = ns and as = "attachments db" and xs = "outbox db" and cs = "connections db" and ss = "subscriptions db"
          and ds = "deliveries db" and ys = "published db"]) simp_all
next
  case attach
  then obtain as where "db' = db\<lparr>attachments := as\<rparr>" using attachment_step_table by blast
  then show thesis
    by (intro that [where ns = "notifications db" and as = as and xs = "outbox db" and cs = "connections db" and ss = "subscriptions db"
          and ds = "deliveries db" and ys = "published db"]) simp_all
next
  case integrate
  then obtain xs cs ss ds where "db' = db\<lparr>outbox := xs, connections := cs, subscriptions := ss, deliveries := ds\<rparr>"
    using integration_step_tables(1) by blast
  then show thesis using integration_step_tables(2) [OF integrate]
    by (intro that [where ns = "notifications db" and as = "attachments db" and xs = xs and cs = cs and ss = ss
          and ds = ds and ys = "published db"]) simp_all
qed

end
