(* ===== verification/App.thy ===== *)
theory App imports Lock_Records Record_Steps Background begin

text \<open>
  The components together: the invariant of the whole database, the steps of the application, and
  the states they can reach. A step is one committed request; a request that raises leaves the
  database as it was. \<open>H\<close> is the digest function, the same in every request.
\<close>

section \<open>The invariant\<close>

text \<open>A proposal on a ballot sheet exists and belongs to the decision of the session.\<close>

definition choices_inv :: "proposal list \<Rightarrow> voting_session list \<Rightarrow> voting_session_proposal list \<Rightarrow> bool" where
  "choices_inv ps vs sps \<longleftrightarrow>
     (\<forall>sp \<in> set sps. \<exists>q \<in> set ps. \<exists>v \<in> set vs.
        p_id q = sp_proposal_id sp \<and> v_id v = sp_voting_session_id sp \<and> p_decision_id q = v_decision_id v)"

definition db_inv :: "(string \<Rightarrow> string) \<Rightarrow> db \<Rightarrow> bool" where
  "db_inv H db \<longleftrightarrow>
     membership_inv (workspaces db) (members db) \<and> decision_inv (decisions db) \<and>
     proposal_inv (proposals db) \<and> criteria_inv (criteria db) \<and> scores_inv (scores db) \<and>
     objection_inv (objections db) (objection_events db) \<and> voting_inv db \<and> lock_inv H db \<and>
     outbox_inv (outbox db) \<and> choices_inv (proposals db) (sessions db) (session_proposals db)"

lemma db_invD:
  assumes "db_inv H db"
  shows "membership_inv (workspaces db) (members db)" and "decision_inv (decisions db)"
    and "proposal_inv (proposals db)" and "criteria_inv (criteria db)" and "scores_inv (scores db)"
    and "objection_inv (objections db) (objection_events db)" and "voting_inv db" and "lock_inv H db"
    and "outbox_inv (outbox db)" and "choices_inv (proposals db) (sessions db) (session_proposals db)"
  using assms by (simp_all add: db_inv_def)

lemma db_invI:
  assumes "membership_inv (workspaces db) (members db)" and "decision_inv (decisions db)"
    and "proposal_inv (proposals db)" and "criteria_inv (criteria db)" and "scores_inv (scores db)"
    and "objection_inv (objections db) (objection_events db)" and "voting_inv db" and "lock_inv H db"
    and "outbox_inv (outbox db)" and "choices_inv (proposals db) (sessions db) (session_proposals db)"
  shows "db_inv H db"
  using assms by (simp add: db_inv_def)

text \<open>The keys that identify rows.\<close>

lemma db_inv_keys:
  assumes "db_inv H db"
  shows "distinct (map d_id (decisions db))" and "distinct (map p_id (proposals db))"
    and "distinct (map o_id (objections db))" and "distinct (map v_id (sessions db))"
    and "uq_session_proposals (session_proposals db)"
  using db_invD [OF assms] voting_invD [OF db_invD(7) [OF assms]]
  by (auto simp: decision_inv_distinct proposal_inv_distinct objection_invD(1) session_invD(1) register_invD(4))

section \<open>Deletions\<close>

lemma session_inv_filter: "session_inv vs \<Longrightarrow> session_inv (filter P vs)"
proof -
  assume inv: "session_inv vs"
  have "filter unfinished (filter P vs) = filter P (filter unfinished vs)" by (simp add: conj_commute)
  then have "uq_one_unfinished (filter P vs)"
    using session_invD(3) [OF inv] unfolding uq_one_unfinished_def by (simp only: distinct_map_filter)
  then show ?thesis using inv by (auto simp: session_inv_def intro: distinct_map_filter)
qed

lemma filter_kept: "(\<And>x. x \<in> set xs \<Longrightarrow> f x = i \<Longrightarrow> P x) \<Longrightarrow> filter (\<lambda>x. f x = i) (filter P xs) = filter (\<lambda>x. f x = i) xs"
  by (auto intro: filter_cong)

lemma voting_inv_cascade:
  assumes inv: "voting_inv db"
  shows "voting_inv (cascade_decisions g db)"
proof -
  note I = voting_invD [OF inv]
  let ?gone = "session_gone g (sessions db)"
  let ?vs = "filter (\<lambda>v. \<not> g (v_decision_id v)) (sessions db)"
  let ?es = "filter (\<lambda>e. \<not> ?gone (ev_voting_session_id e)) (eligible_voters db)"
  let ?ps = "filter (\<lambda>p. \<not> ?gone (sp_voting_session_id p)) (session_proposals db)"
  let ?bs = "filter (\<lambda>b. \<not> ?gone (b_voting_session_id b)) (votes db)"
  have es: "eligible_of i ?es = eligible_of i (eligible_voters db)" if "\<not> ?gone i" for i
    using that by (intro arg_cong [of _ _ "map ev_user_id"] filter_kept) auto
  have ps: "choices_of i ?ps = choices_of i (session_proposals db)" if "\<not> ?gone i" for i
    using that by (intro arg_cong [of _ _ "map sp_proposal_id"] filter_kept) auto
  have kept: "k \<in> v_id ` set ?vs" if k: "k \<in> v_id ` set (sessions db)" "\<not> ?gone k" for k
    using k by (auto simp: session_gone_def)
  have alive: "\<not> ?gone (v_id v)" if "v \<in> set ?vs" for v
    using that session_gone_iff [OF session_invD(1) [OF I(1)], of v] by simp
  have reg: "register_inv ?vs ?es ?ps"
  proof (rule register_invI)
    show "distinct (map ev_id ?es)" "distinct (map sp_id ?ps)"
      using register_invD(1,3) [OF I(2)] by (simp_all add: distinct_map_filter)
    show "uq_eligible_voters ?es" "uq_session_proposals ?ps"
      using register_invD(2,4) [OF I(2)]
      by (simp_all add: uq_eligible_voters_def uq_session_proposals_def distinct_map_filter)
    show "ev_voting_session_id e \<in> v_id ` set ?vs" if "e \<in> set ?es" for e
      using that register_invD(5) [OF I(2)] by (intro kept) auto
    show "sp_voting_session_id p \<in> v_id ` set ?vs" if "p \<in> set ?ps" for p
      using that register_invD(6) [OF I(2)] by (intro kept) auto
    show "session_registered ?es ?ps v" if "v \<in> set ?vs" for v
      using that register_invD(7) [OF I(2), of v] unfolding session_registered_def es [OF alive [OF that]] ps [OF alive [OF that]]
      by simp
  qed
  have "ballot_inv ?es ?ps ?bs"
  proof -
    have b: "b_voter_id b \<in> set (eligible_of (b_voting_session_id b) (eligible_voters db))"
        "b_proposal_id b \<in> set (choices_of (b_voting_session_id b) (session_proposals db))" if "b \<in> set (votes db)" for b
      using I(3) that by (simp_all add: ballot_inv_def)
    have "b_voter_id b \<in> set (eligible_of (b_voting_session_id b) ?es) \<and>
        b_proposal_id b \<in> set (choices_of (b_voting_session_id b) ?ps)" if "b \<in> set ?bs" for b
      using that b [of b] es [of "b_voting_session_id b"] ps [of "b_voting_session_id b"] by auto
    moreover have "distinct (map b_id ?bs)" "uq_votes ?bs"
      using I(3) by (simp_all add: ballot_inv_def uq_votes_def distinct_map_filter)
    ultimately show ?thesis by (simp add: ballot_inv_def)
  qed
  with reg show ?thesis
    using session_inv_filter [OF I(1)] by (simp add: voting_inv_def cascade_decisions_tables)
qed

lemma objection_inv_cascade_decisions:
  assumes "objection_inv (objections db) (objection_events db)"
  shows "objection_inv (objections (cascade_decisions g db)) (objection_events (cascade_decisions g db))"
  using objection_inv_cascade [OF assms, of "in_decision g (proposals db)"]
  by (simp add: cascade_decisions_def cascade_proposals_def Let_def)

lemma scores_inv_cascade: "scores_inv (scores db) \<Longrightarrow> scores_inv (scores (cascade_decisions g db))"
  by (simp add: cascade_decisions_def cascade_proposals_def Let_def scores_inv_filter)

lemma choices_inv_cascade:
  assumes inv: "choices_inv (proposals db) (sessions db) (session_proposals db)"
    and ids: "distinct (map p_id (proposals db))" "distinct (map v_id (sessions db))"
  shows "choices_inv (proposals (cascade_decisions g db)) (sessions (cascade_decisions g db))
           (session_proposals (cascade_decisions g db))"
  unfolding choices_inv_def
proof
  fix sp assume "sp \<in> set (session_proposals (cascade_decisions g db))"
  then have sp: "sp \<in> set (session_proposals db)" "\<not> session_gone g (sessions db) (sp_voting_session_id sp)"
    by (simp_all add: cascade_decisions_tables)
  then obtain q v where qv: "q \<in> set (proposals db)" "v \<in> set (sessions db)" "p_id q = sp_proposal_id sp"
    "v_id v = sp_voting_session_id sp" "p_decision_id q = v_decision_id v"
    using inv by (auto simp: choices_inv_def)
  then have "\<not> g (v_decision_id v)" using sp(2) session_gone_iff [OF ids(2) qv(2)] by simp
  then have "q \<in> set (proposals (cascade_decisions g db))" "v \<in> set (sessions (cascade_decisions g db))"
    using qv in_decision_iff [OF ids(1) qv(1), of g] by (simp_all add: cascade_decisions_tables)
  then show "\<exists>q \<in> set (proposals (cascade_decisions g db)). \<exists>v \<in> set (sessions (cascade_decisions g db)).
      p_id q = sp_proposal_id sp \<and> v_id v = sp_voting_session_id sp \<and> p_decision_id q = v_decision_id v"
    using qv by blast
qed

text \<open>Proposals and sessions keep their ids and decisions; a proposal on a sheet cannot be deleted.\<close>

lemma choices_inv_rows:
  assumes inv: "choices_inv ps vs sps"
    and ps: "\<And>q. q \<in> set ps \<Longrightarrow> p_id q \<in> sp_proposal_id ` set sps \<Longrightarrow>
               \<exists>q' \<in> set ps'. p_id q' = p_id q \<and> p_decision_id q' = p_decision_id q"
    and vs: "\<And>v. v \<in> set vs \<Longrightarrow> \<exists>v' \<in> set vs'. v_id v' = v_id v \<and> v_decision_id v' = v_decision_id v"
  shows "choices_inv ps' vs' sps"
  unfolding choices_inv_def
proof
  fix sp assume sp: "sp \<in> set sps"
  then obtain q v where qv: "q \<in> set ps" "v \<in> set vs" "p_id q = sp_proposal_id sp"
    "v_id v = sp_voting_session_id sp" "p_decision_id q = v_decision_id v"
    using inv by (auto simp: choices_inv_def)
  then show "\<exists>q \<in> set ps'. \<exists>v \<in> set vs'.
      p_id q = sp_proposal_id sp \<and> v_id v = sp_voting_session_id sp \<and> p_decision_id q = v_decision_id v"
    using ps [OF qv(1)] vs [OF qv(2)] sp by (metis imageI)
qed

lemma follows_keeps:
  assumes "follows key gone ev rs rs'" and "r \<in> set rs" and "\<not> gone r"
  shows "\<exists>r' \<in> set rs'. key r' = key r \<and> ev r r'"
  using assms unfolding follows_def by (fastforce split: option.splits dest: lookup_SomeD)

lemma lock_session:
  assumes "lock_faithful H l db"
  obtains v where "v \<in> set (sessions db)" and "v_id v = l_voting_session_id l" and "v_decision_id v = l_decision_id l"
    and "v_status v = V_CLOSED"
  using assms by (auto simp: lock_faithful_def)

text \<open>Deleting decisions without locks keeps everything.\<close>

lemma db_inv_cascade:
  assumes inv: "db_inv H db" and free: "\<And>l. l \<in> set (locks db) \<Longrightarrow> \<not> g (l_decision_id l)"
  shows "db_inv H (cascade_decisions g db)"
proof -
  note I = db_invD [OF inv] and K = db_inv_keys [OF inv]
  have v: "voting_inv (cascade_decisions g db)" by (rule voting_inv_cascade [OF I(7)])
  have "lock_inv H (cascade_decisions g db)"
  proof (rule lock_inv_other [OF I(8)])
    fix l assume l: "l \<in> set (locks db)"
    show "docket (l_decision_id l) (cascade_decisions g db) = docket (l_decision_id l) db"
      by (rule docket_cascade_decisions [where g = g, OF free [OF l] K(2,3)])
    obtain v where "v \<in> set (sessions db)" "v_id v = l_voting_session_id l" "v_decision_id v = l_decision_id l"
      using lock_session [OF lock_invD(4) [OF I(8) l]] .
    then show "session_file (l_voting_session_id l) (cascade_decisions g db) = session_file (l_voting_session_id l) db"
      using free [OF l] by (intro session_file_cascade_decisions [OF K(4)]) auto
  qed (use K(5) register_invD(4) [OF voting_invD(2) [OF v]] in \<open>auto simp: cascade_decisions_tables\<close>)
  then show ?thesis
    using I v objection_inv_cascade_decisions [OF I(6)] scores_inv_cascade [OF I(5)] choices_inv_cascade [OF I(10) K(2,4)]
    by (intro db_invI) (simp_all add: cascade_decisions_tables decision_inv_filter proposal_inv_filter criteria_inv_filter)
qed

section \<open>Every step keeps the invariant\<close>

lemma lock_decision:
  assumes "lock_inv H db" and "l \<in> set (locks db)"
  obtains d where "d \<in> set (decisions db)" and "d_id d = l_decision_id l" and "d_status d = D_LOCKED"
  using lock_invD(4) [OF assms] by (auto simp: lock_faithful_def)

lemma uq_choices: "voting_inv db \<Longrightarrow> uq_session_proposals (session_proposals db)"
  by (blast dest: voting_invD(2) register_invD(4))

text \<open>A step that leaves the voting tables and the lock table alone.\<close>

lemma lock_inv_quiet:
  assumes inv: "db_inv H db" and same: "locks db' = locks db" "sessions db' = sessions db"
      "eligible_voters db' = eligible_voters db" "session_proposals db' = session_proposals db" "votes db' = votes db"
    and docket: "\<And>i. sealed i db \<Longrightarrow> docket i db' = docket i db"
    and new: "\<And>d. d \<in> set (decisions db') \<Longrightarrow> d_status d = D_LOCKED \<Longrightarrow> d \<in> set (decisions db)"
  shows "lock_inv H db'"
proof (rule lock_inv_other [OF db_invD(8) [OF inv] same(1)])
  show "docket (l_decision_id l) db' = docket (l_decision_id l) db" if "l \<in> set (locks db)" for l
    by (rule docket [OF lock_faithful_sealed [OF lock_invD(4) [OF db_invD(8) [OF inv] that]]])
  show "session_file (l_voting_session_id l) db' = session_file (l_voting_session_id l) db" for l
    by (simp add: session_file_def same)
qed (use db_inv_keys(5) [OF inv] same new in auto)

text \<open>Workspaces\<close>

lemma workspace_step_db_inv:
  assumes step: "workspace_step db db'" and inv: "db_inv H db"
  shows "db_inv H db'"
proof -
  note I = db_invD [OF inv]
  have m: "membership_inv (workspaces db') (members db')" by (rule workspace_step_membership [OF step I(1)])
  from workspace_step_cases [OF step] show ?thesis
  proof (elim disjE exE)
    fix ws ms assume db': "db' = db\<lparr>workspaces := ws, members := ms\<rparr>"
    have "lock_inv H db'" by (rule lock_inv_quiet [OF inv]) (simp_all add: db')
    then show ?thesis using I m by (intro db_invI) (simp_all add: db' voting_inv_def)
  next
    fix w assume del: "delete_workspace_row w db = Inr db'"
    let ?c = "cascade_decisions (in_workspace w (decisions db)) db"
    obtain a b c d e f g where db': "db' = ?c\<lparr>workspaces := a, members := b, notifications := c, attachments := d,
        outbox := filter (\<lambda>x. x_workspace_id x \<noteq> w) (outbox db), connections := e, subscriptions := f, deliveries := g\<rparr>"
      using del by (auto simp: delete_workspace_row_def Let_def)
    have c: "db_inv H ?c"
      using delete_workspace_row_unreferenced [OF del] by (intro db_inv_cascade [OF inv]) auto
    note C = db_invD [OF c]
    have "lock_inv H db'" by (rule lock_inv_quiet [OF c]) (simp_all add: db')
    moreover have "outbox_inv (outbox db')" using I(9) by (simp add: db' outbox_inv_filter)
    ultimately show ?thesis using C m by (intro db_invI) (simp_all add: db' voting_inv_def)
  qed
qed

text \<open>Decisions\<close>

lemma decision_step_cases:
  assumes "decision_step db db'" and inv: "decision_inv (decisions db)"
  shows "(\<exists>ds xs ys. db' = db\<lparr>decisions := ds, outbox := xs, published := ys\<rparr> \<and>
            (outbox_inv (outbox db) \<longrightarrow> outbox_inv xs) \<and>
            (\<forall>d \<in> set ds. d_status d = D_LOCKED \<longrightarrow> d \<in> set (decisions db)) \<and>
            d_id ` set (decisions db) \<subseteq> d_id ` set ds) \<or>
         (\<exists>d \<in> set (decisions db). d_status d = D_DRAFT \<and> decisions_unreferenced (\<lambda>j. j = d_id d) db \<and>
            db' = cascade_decisions (\<lambda>j. j = d_id d) db)"
    (is "?upd \<or> ?del")
proof -
  note ids = decision_inv_distinct [OF inv]
  have upd: ?upd if "db' = db\<lparr>decisions := ds, outbox := xs, published := ys\<rparr>" "outbox_inv (outbox db) \<longrightarrow> outbox_inv xs"
      "\<forall>d \<in> set ds. d_status d = D_LOCKED \<longrightarrow> d \<in> set (decisions db)"
      "d_id ` set (decisions db) \<subseteq> d_id ` set ds" for ds xs ys
    using that by blast
  show ?thesis
    using assms(1)
  proof cases
    case (create b p env me w r)
    then have "db' = db\<lparr>decisions := decisions db @ [r], outbox := outbox db, published := published db\<rparr>" "d_status r = D_DRAFT"
      by (auto simp: decision_create_Inr)
    then show ?thesis by (intro disjI1 upd [where ds = "decisions db @ [r]" and xs = "outbox db" and ys = "published db"]) auto
  next
    case (update b' p' env me w k r)
    from update(2) ids obtain d where d: "r = decision_patched env p' d" "d_status d \<in> decision_EDITABLE_STATUSES"
      "db' = db\<lparr>decisions := store d_id r (decisions db)\<rparr>"
      by (rule decision_update_InrD)
    have "db' = db\<lparr>decisions := store d_id r (decisions db), outbox := outbox db, published := published db\<rparr>"
      by (simp add: d(3))
    then show ?thesis
      using d(1,2) by (intro disjI1 upd [where ds = "store d_id r (decisions db)" and xs = "outbox db" and ys = "published db"])
        (auto simp: decision_EDITABLE_STATUSES_def dest!: mem_storeD)
  next
    case (transition env me w k target r)
    from transition ids obtain d xs ys m where d: "target \<in> decision_ALLOWED_TRANSITIONS (d_status d)"
      "r = decision_moved env target d"
      "db' = db\<lparr>decisions := store d_id r (decisions db), outbox := xs, published := ys\<rparr>"
      and e: "emitted (emitter env \<and> d_status d = D_DRAFT \<and> target = D_ACTIVE) w DECISION_ACTIVATED (d_id d)
           (decision_activated_payload env me w d) db db'"
      by (rule decision_transition_InrD)
    have "target \<noteq> D_LOCKED" using d(1) by (cases "d_status d") auto
    then have "d_status r \<noteq> D_LOCKED" by (simp add: d(2) decision_moved_def)
    then show ?thesis
      using d(3) emitted_inv [OF e] by (intro disjI1 upd) (auto dest!: mem_storeD)
  next
    case (delete me w k u)
    then have ?del by (auto simp: decision_delete_Inr delete_decision_row_def dest: decision_getD)
    then show ?thesis by blast
  qed
qed

lemma decision_step_db_inv:
  assumes step: "decision_step db db'" and inv: "db_inv H db"
  shows "db_inv H db'"
proof -
  note I = db_invD [OF inv] and K = db_inv_keys [OF inv]
  from decision_step_cases [OF step I(2)] show ?thesis
  proof (elim disjE exE conjE bexE)
    fix ds xs ys assume db': "db' = db\<lparr>decisions := ds, outbox := xs, published := ys\<rparr>"
      and xs: "outbox_inv (outbox db) \<longrightarrow> outbox_inv xs"
      and ds: "\<forall>d \<in> set ds. d_status d = D_LOCKED \<longrightarrow> d \<in> set (decisions db)"
    have "lock_inv H db'"
      by (rule lock_inv_quiet [OF inv]) (use decision_step_docket [OF step K(1-3)] ds in \<open>auto simp: db'\<close>)
    then show ?thesis
      using I xs decision_step_inv [OF step I(2)] by (intro db_invI) (simp_all add: db' voting_inv_def)
  next
    fix d assume d: "d \<in> set (decisions db)" "d_status d = D_DRAFT" "db' = cascade_decisions (\<lambda>j. j = d_id d) db"
    show ?thesis
      unfolding d(3)
    proof (rule db_inv_cascade [OF inv])
      fix l assume "l \<in> set (locks db)"
      then obtain x where "x \<in> set (decisions db)" "d_id x = l_decision_id l" "d_status x = D_LOCKED"
        by (rule lock_decision [OF I(8)])
      then show "l_decision_id l \<noteq> d_id d" using d(1,2) distinct_key_eq [OF K(1)] by fastforce
    qed
  qed
qed

text \<open>Proposals, criteria and objections\<close>

lemma works_on_sealed:
  assumes "\<exists>d. works_on d db \<and> (\<forall>i. i \<noteq> d \<longrightarrow> docket i db' = docket i db)" and "distinct (map d_id (decisions db))"
    and "sealed i db"
  shows "docket i db' = docket i db"
  using assms works_on_not_sealed by blast

lemma proposal_step_db_inv:
  assumes step: "proposal_step db db'" and inv: "db_inv H db"
  shows "db_inv H db'"
proof -
  note I = db_invD [OF inv] and K = db_inv_keys [OF inv]
  have dock: "docket i db' = docket i db" if "sealed i db" for i
    by (rule works_on_sealed [OF proposal_step_docket [OF step K(2,3)] K(1) that])
  have tables: "workspaces db' = workspaces db \<and> members db' = members db \<and> decisions db' = decisions db \<and>
      locks db' = locks db \<and> criteria db' = criteria db \<and> sessions db' = sessions db \<and>
      eligible_voters db' = eligible_voters db \<and> session_proposals db' = session_proposals db \<and>
      votes db' = votes db \<and> outbox db' = outbox db"
    using proposal_step_effect [OF step I(3)] by auto
  have "lock_inv H db'" by (rule lock_inv_quiet [OF inv]) (use dock tables in auto)
  moreover have "scores_inv (scores db') \<and> objection_inv (objections db') (objection_events db')"
    using proposal_step_effect [OF step I(3)] I(5,6) objection_inv_cascade
    by (auto simp: cascade_proposals_def scores_inv_filter)
  moreover have "choices_inv (proposals db') (sessions db') (session_proposals db')"
  proof -
    have "\<exists>q' \<in> set (proposals db'). p_id q' = p_id q \<and> p_decision_id q' = p_decision_id q"
      if q: "q \<in> set (proposals db)" "p_id q \<in> sp_proposal_id ` set (session_proposals db)" for q
      using proposal_step_effect [OF step I(3)]
    proof (elim disjE exE conjE)
      fix p p' assume p: "lookup p_id (p_id p) (proposals db) = Some p" "proposal_evolves p p'"
        "db' = db\<lparr>proposals := store p_id p' (proposals db)\<rparr>"
      have "p_id p' = p_id p" "p_decision_id p' = p_decision_id p" using p(2) by (auto simp: proposal_evolves_def)
      then show ?thesis unfolding p(3) using store_keeps [OF K(2) p(1) _ _ q(1)] by simp
    next
      fix p assume "proposals_unreferenced (\<lambda>j. j = p_id p) db" "db' = cascade_proposals (\<lambda>j. j = p_id p) db"
      then show ?thesis
        using q by (intro bexI [of _ q]) (auto simp: cascade_proposals_def proposals_unreferenced_def)
    qed (use q in auto)
    then have "choices_inv (proposals db') (sessions db) (session_proposals db)"
      by (intro choices_inv_rows [OF I(10)]) auto
    then show ?thesis using tables by simp
  qed
  ultimately show ?thesis
    using I tables proposal_step_inv [OF step I(3)] by (intro db_invI) (simp_all add: voting_inv_def)
qed

lemma criterion_step_db_inv:
  assumes step: "criterion_step db db'" and inv: "db_inv H db"
  shows "db_inv H db'"
proof -
  note I = db_invD [OF inv] and K = db_inv_keys [OF inv]
  obtain cs ss where db': "db' = db\<lparr>criteria := cs, scores := ss\<rparr>" using criterion_step_frame [OF step] by blast
  have "lock_inv H db'"
    by (rule lock_inv_quiet [OF inv])
      (use works_on_sealed [OF criterion_step_docket [OF step I(4)] K(1)] in \<open>auto simp: db'\<close>)
  then show ?thesis
    using I criterion_step_inv [OF step I(4)] criterion_step_scores [OF step I(5)]
    by (intro db_invI) (simp_all add: db' voting_inv_def)
qed

lemma objection_step_db_inv:
  assumes step: "objection_step db db'" and inv: "db_inv H db"
  shows "db_inv H db'"
proof -
  note I = db_invD [OF inv] and K = db_inv_keys [OF inv]
  have dock: "docket i db' = docket i db" if "sealed i db" for i
    by (rule works_on_sealed [OF objection_step_docket [OF step K(2) I(6)] K(1) that])
  obtain xs es where db': "db' = db\<lparr>objections := xs, objection_events := es\<rparr>"
    using objection_step_effect [OF step I(6)]
  proof (elim disjE exE conjE)
    fix x assume x: "db' = db\<lparr>objections := objections db @ [x]\<rparr>"
    show thesis by (rule that [where xs = "objections db @ [x]" and es = "objection_events db"]) (simp add: x)
  qed (rule that)
  have "lock_inv H db'"
    by (rule lock_inv_quiet [OF inv]) (use dock in \<open>auto simp: db'\<close>)
  then show ?thesis
    using I objection_step_inv [OF step I(6)] by (intro db_invI) (simp_all add: db' voting_inv_def)
qed

text \<open>Voting and locks\<close>

lemma voting_step_outbox:
  assumes "voting_step db db'" and ids: "distinct (map v_id (sessions db))" and inv: "outbox_inv (outbox db)"
  shows "outbox_inv (outbox db')"
  using assms(1)
proof cases
  case (create env q c payload me w d r)
  then show ?thesis using inv by (auto simp: voting_create_Inr)
next
  case (openS env me w d i r)
  then show ?thesis by (rule voting_open_InrD) (rule emitted_inv [OF _ inv])
next
  case (cast env me w d i choice b)
  then show ?thesis using inv by (auto simp: voting_cast_Inr)
next
  case (close env me w d i r)
  then show ?thesis using ids by (rule voting_close_InrD) (rule emitted_inv [OF _ inv])
next
  case (cancel env me w d i r)
  then show ?thesis using ids by (rule voting_cancel_InrD) (simp add: inv)
qed

lemma voting_effect_frame:
  "voting_effect db db' \<Longrightarrow>
     workspaces db' = workspaces db \<and> members db' = members db \<and> decisions db' = decisions db \<and>
     proposals db' = proposals db \<and> criteria db' = criteria db \<and> scores db' = scores db \<and>
     objections db' = objections db \<and> objection_events db' = objection_events db \<and> locks db' = locks db"
  by (cases rule: voting_effect.cases) auto

lemma voting_effect_choices:
  assumes eff: "voting_effect db db'" and sess: "session_inv (sessions db)"
    and inv: "choices_inv (proposals db) (sessions db) (session_proposals db)"
  shows "choices_inv (proposals db') (sessions db') (session_proposals db')"
proof -
  have vs: "\<exists>v' \<in> set (sessions db'). v_id v' = v_id v \<and> v_decision_id v' = v_decision_id v" if "v \<in> set (sessions db)" for v
    using follows_keeps [OF voting_effect_follow [OF eff sess] that] by (auto simp: session_evolves_def)
  have old: "choices_inv (proposals db') (sessions db') (session_proposals db)"
    by (rule choices_inv_rows [OF inv]) (use voting_effect_frame [OF eff] vs in auto)
  show ?thesis
    using eff
  proof cases
    case (opened v r env es ps xs ys)
    have "\<exists>q \<in> set (proposals db'). \<exists>x \<in> set (sessions db').
        p_id q = sp_proposal_id sp \<and> v_id x = sp_voting_session_id sp \<and> p_decision_id q = v_decision_id x"
      if "sp \<in> set ps" for sp
    proof -
      have "v \<in> set (sessions db)" using opened(1) by (auto dest: lookup_SomeD)
      then obtain x where "x \<in> set (sessions db')" "v_id x = v_id v" "v_decision_id x = v_decision_id v" using vs by blast
      moreover have "sp_proposal_id sp \<in> p_id ` {q \<in> set (proposals db). p_decision_id q = v_decision_id v}"
        by (rule subsetD [OF opened(9) imageI [OF that]])
      then obtain q where "q \<in> set (proposals db)" "p_id q = sp_proposal_id sp" "p_decision_id q = v_decision_id v"
        by (elim imageE CollectE conjE) (rule that, simp_all)
      ultimately show ?thesis using opened(7) [OF that] voting_effect_frame [OF eff] by metis
    qed
    then show ?thesis using old by (auto simp: choices_inv_def opened(14))
  qed (use old in auto)
qed

lemma voting_step_db_inv:
  assumes step: "voting_step db db'" and inv: "db_inv H db"
  shows "db_inv H db'"
proof -
  note I = db_invD [OF inv] and K = db_inv_keys [OF inv] and V = voting_invD [OF db_invD(7) [OF inv]]
  have eff: "voting_effect db db'"
    by (rule voting_step_effect [OF step V(1) register_invD(1) [OF V(2)] register_invD(3) [OF V(2)]])
  have v: "voting_inv db'" by (rule voting_step_inv [OF step I(7)])
  note F = voting_effect_frame [OF eff]
  have "lock_inv H db'"
  proof (rule lock_inv_other [OF I(8)])
    fix l assume l: "l \<in> set (locks db)"
    show "docket (l_decision_id l) db' = docket (l_decision_id l) db" by (rule voting_effect_docket [OF eff])
    obtain v where "v \<in> set (sessions db)" "v_id v = l_voting_session_id l" "v_status v = V_CLOSED"
      using lock_session [OF lock_invD(4) [OF I(8) l]] .
    then show "session_file (l_voting_session_id l) db' = session_file (l_voting_session_id l) db"
      using voting_effect_file [OF eff K(4), of v] by simp
  qed (use F K(5) uq_choices [OF v] in auto)
  moreover have "choices_inv (proposals db') (sessions db') (session_proposals db')"
    by (rule voting_effect_choices [OF eff V(1) I(10)])
  ultimately show ?thesis
    using I F v voting_step_outbox [OF step K(4) I(9)] by (intro db_invI) simp_all
qed

lemma lock_step_tables:
  assumes "lock_step H db db'" and ids: "distinct (map d_id (decisions db))"
  obtains ds ls xs ys where "db' = db\<lparr>decisions := ds, locks := ls, outbox := xs, published := ys\<rparr>"
    and "outbox_inv (outbox db) \<Longrightarrow> outbox_inv xs"
  using assms(1)
proof cases
  case (create env me w d i l)
  from create(2) ids show thesis
  proof (rule lock_create_InrD)
    fix m dec v win snapshot xs ys
    assume db': "db' = db\<lparr>decisions := store d_id (decision_locked env dec) (decisions db), locks := locks db @ [l],
                  outbox := xs, published := ys\<rparr>"
      and e: "emitted (emitter env) w DECISION_LOCKED (l_id l) (decision_locked_payload env me w dec (l_id l) win) db db'"
    show thesis by (rule that [OF db']) (use emitted_inv [OF e] db' in simp)
  qed
qed

lemma lock_step_db_inv:
  assumes step: "lock_step H db db'" and inv: "db_inv H db"
  shows "db_inv H db'"
proof -
  note I = db_invD [OF inv] and K = db_inv_keys [OF inv]
  from step K(1) show ?thesis
  proof (rule lock_step_tables)
    fix ds ls xs ys assume db': "db' = db\<lparr>decisions := ds, locks := ls, outbox := xs, published := ys\<rparr>"
      and xs: "outbox_inv (outbox db) \<Longrightarrow> outbox_inv xs"
    show ?thesis
      using I xs lock_step_inv [OF step K(1) I(8) K(5)] lock_step_decisions(1) [OF step I(2)]
      by (intro db_invI) (simp_all add: db' voting_inv_def)
  qed
qed

text \<open>Actions, reviews and revisions\<close>

lemma record_step_tables:
  assumes "record_step db db'"
  obtains (kept) as rs ns where "db' = db\<lparr>actions := as, reviews := rs, revisions := ns\<rparr>"
  | (draft) as rs ns s where "d_id s \<notin> d_id ` set (decisions db)" and "d_status s = D_DRAFT" and "decision_row_ok s"
      and "db' = db\<lparr>actions := as, reviews := rs, revisions := ns, decisions := decisions db @ [s]\<rparr>"
  using record_step_frame [OF assms] by (elim exE disjE conjE) (rule kept | rule draft, assumption+)+

lemma record_step_docket:
  assumes "record_step db db'" and "i \<in> d_id ` set (decisions db)"
  shows "docket i db' = docket i db"
  using assms(1)
proof (cases rule: record_step_tables)
  case (draft as rs ns s)
  then have "d_id s \<noteq> i" using assms(2) by auto
  then have "docket i (db\<lparr>decisions := decisions db @ [s]\<rparr>) = docket i db" by (rule docket_append_decision)
  then show ?thesis by (simp add: draft(4) docket_def)
qed (simp add: docket_def)

lemma record_step_db_inv:
  assumes step: "record_step db db'" and inv: "db_inv H db"
  shows "db_inv H db'"
proof -
  note I = db_invD [OF inv]
  have dock: "docket i db' = docket i db" if "sealed i db" for i
    using that record_step_docket [OF step] by (auto simp: sealed_def)
  from step show ?thesis
  proof (cases rule: record_step_tables)
    case (kept as rs ns)
    have "lock_inv H db'" by (rule lock_inv_quiet [OF inv]) (use dock in \<open>auto simp: kept\<close>)
    then show ?thesis using I by (intro db_invI) (simp_all add: kept voting_inv_def)
  next
    case (draft as rs ns s)
    have "lock_inv H db'" by (rule lock_inv_quiet [OF inv]) (use dock draft(2) in \<open>auto simp: draft(4)\<close>)
    then show ?thesis
      using I decision_inv_append [OF I(2) draft(1,3)] by (intro db_invI) (simp_all add: draft(4) voting_inv_def)
  qed
qed

text \<open>The jobs beside the decisions\<close>

lemma side_step_same:
  assumes "side_step db db'"
  shows "docket i db' = docket i db" and "session_file j db' = session_file j db" and "locks db' = locks db"
    and "decisions db' = decisions db" and "proposals db' = proposals db" and "actions db' = actions db"
    and "reviews db' = reviews db" and "revisions db' = revisions db" and "sessions db' = sessions db"
    and "session_proposals db' = session_proposals db" and "workspaces db' = workspaces db"
  using assms by (rule side_step_frame; simp)+

lemma side_step_db_inv:
  assumes step: "side_step db db'" and inv: "db_inv H db"
  shows "db_inv H db'"
  using step
proof (rule side_step_frame)
  fix ns as xs cs ss ds ys
  assume db': "db' = db\<lparr>notifications := ns, attachments := as, outbox := xs, connections := cs, subscriptions := ss,
      deliveries := ds, published := ys\<rparr>"
    and xs: "outbox_inv (outbox db) \<Longrightarrow> outbox_inv xs"
  have "lock_inv H db'" by (rule lock_inv_quiet [OF inv]) (use side_step_same [OF step] in \<open>simp_all add: db'\<close>)
  then show ?thesis using db_invD [OF inv] xs by (intro db_invI) (simp_all add: db' voting_inv_def)
qed

section \<open>The application\<close>

inductive app_step :: "(string \<Rightarrow> string) \<Rightarrow> db \<Rightarrow> db \<Rightarrow> bool" for H where
  workspace: "workspace_step db db' \<Longrightarrow> app_step H db db'"
| decision: "decision_step db db' \<Longrightarrow> app_step H db db'"
| proposal: "proposal_step db db' \<Longrightarrow> app_step H db db'"
| criterion: "criterion_step db db' \<Longrightarrow> app_step H db db'"
| objection: "objection_step db db' \<Longrightarrow> app_step H db db'"
| voting: "voting_step db db' \<Longrightarrow> app_step H db db'"
| lock: "lock_step H db db' \<Longrightarrow> app_step H db db'"
| follow_up: "record_step db db' \<Longrightarrow> app_step H db db'"
| side: "side_step db db' \<Longrightarrow> app_step H db db'"

text \<open>A database with any accounts in it, and nothing else, is where the application starts.\<close>

inductive reachable :: "(string \<Rightarrow> string) \<Rightarrow> db \<Rightarrow> bool" for H where
  start: "reachable H (empty_db\<lparr>users := us\<rparr>)"
| step: "reachable H db \<Longrightarrow> app_step H db db' \<Longrightarrow> reachable H db'"

lemma db_inv_start: "db_inv H (empty_db\<lparr>users := us\<rparr>)"
  by (simp add: db_inv_def empty_db_def membership_inv_def decision_inv_def proposal_inv_def criteria_inv_def
      uq_criteria_position_def scores_inv_def objection_inv_def voting_inv_def session_inv_def uq_one_unfinished_def
      register_inv_def uq_eligible_voters_def uq_session_proposals_def ballot_inv_def uq_votes_def lock_inv_def
      outbox_inv_def choices_inv_def)

lemma app_step_db_inv: "app_step H db db' \<Longrightarrow> db_inv H db \<Longrightarrow> db_inv H db'"
  by (induction rule: app_step.induct)
    (blast intro: workspace_step_db_inv decision_step_db_inv proposal_step_db_inv criterion_step_db_inv
      objection_step_db_inv voting_step_db_inv lock_step_db_inv record_step_db_inv side_step_db_inv)+

lemma reachable_db_inv: "reachable H db \<Longrightarrow> db_inv H db"
  by (induction rule: reachable.induct) (simp_all add: db_inv_start app_step_db_inv)

text \<open>Any number of further steps.\<close>

lemma steps_reachable: "(app_step H)\<^sup>*\<^sup>* db db' \<Longrightarrow> reachable H db \<Longrightarrow> reachable H db'"
  by (induction rule: rtranclp_induct) (auto intro: reachable.step)

section \<open>A lock stands for good\<close>

lemma app_step_locks:
  assumes step: "app_step H db db'" and inv: "db_inv H db" and l: "l \<in> set (locks db)"
  shows "l \<in> set (locks db')" and "docket (l_decision_id l) db' = docket (l_decision_id l) db"
proof -
  note I = db_invD [OF inv] and K = db_inv_keys [OF inv] and V = voting_invD [OF db_invD(7) [OF inv]]
  have seal: "sealed (l_decision_id l) db" by (rule lock_faithful_sealed [OF lock_invD(4) [OF I(8) l]])
  have "l \<in> set (locks db') \<and> docket (l_decision_id l) db' = docket (l_decision_id l) db"
    using step
  proof cases
    case workspace
    have "locks db' = locks db"
      using workspace_step_cases [OF workspace] by (auto simp: delete_workspace_row_def Let_def)
    then show ?thesis using l workspace_step_docket [OF workspace l K(2,3)] by simp
  next
    case decision
    have "locks db' = locks db" using decision_step_cases [OF decision I(2)] by auto
    then show ?thesis using l decision_step_docket [OF decision K(1-3) seal] by simp
  next
    case proposal
    have "locks db' = locks db" using proposal_step_effect [OF proposal I(3)] by auto
    then show ?thesis using l works_on_sealed [OF proposal_step_docket [OF proposal K(2,3)] K(1) seal] by simp
  next
    case criterion
    have "locks db' = locks db" by (subst criterion_step_frame [OF criterion]) simp
    then show ?thesis using l works_on_sealed [OF criterion_step_docket [OF criterion I(4)] K(1) seal] by simp
  next
    case objection
    have "locks db' = locks db" using objection_step_effect [OF objection I(6)] by auto
    then show ?thesis using l works_on_sealed [OF objection_step_docket [OF objection K(2) I(6)] K(1) seal] by simp
  next
    case voting
    have eff: "voting_effect db db'"
      by (rule voting_step_effect [OF voting V(1) register_invD(1) [OF V(2)] register_invD(3) [OF V(2)]])
    then show ?thesis using l voting_effect_frame voting_effect_docket by metis
  next
    case lock
    then show ?thesis
    proof cases
      case (create env me w d i k)
      from create(2) K(1) show ?thesis
      proof (rule lock_create_InrD)
        fix m dec v win snapshot xs ys
        assume able: "lockable i v win snapshot dec db"
          and db': "db' = db\<lparr>decisions := store d_id (decision_locked env dec) (decisions db), locks := locks db @ [k],
                  outbox := xs, published := ys\<rparr>"
        have "d_id (decision_locked env dec) \<noteq> l_decision_id l" using able l by (auto simp: lockable_def)
        then show ?thesis using l by (simp add: db' docket_store_decision)
      qed
    qed
  next
    case follow_up
    obtain d where "d \<in> set (decisions db)" "d_id d = l_decision_id l" using lock_decision [OF I(8) l] .
    then have "docket (l_decision_id l) db' = docket (l_decision_id l) db"
      by (intro record_step_docket [OF follow_up] image_eqI [of _ _ d]) simp_all
    moreover have "locks db' = locks db" using follow_up by (cases rule: record_step_tables) simp_all
    ultimately show ?thesis using l by simp
  next
    case side
    then show ?thesis using l by (simp add: side_step_same)
  qed
  then show "l \<in> set (locks db')" "docket (l_decision_id l) db' = docket (l_decision_id l) db" by simp_all
qed

lemma steps_locks:
  assumes "(app_step H)\<^sup>*\<^sup>* db db'" and "db_inv H db" and "l \<in> set (locks db)"
  shows "l \<in> set (locks db') \<and> docket (l_decision_id l) db' = docket (l_decision_id l) db \<and> db_inv H db'"
  using assms by (induction rule: rtranclp_induct) (auto simp: app_step_locks app_step_db_inv)

section \<open>A closed session stands for good\<close>

text \<open>Its ballot sheet names proposals of the decision, so the decision cannot be deleted.\<close>

lemma closed_session_pins_decision:
  assumes inv: "db_inv H db" and v: "v \<in> set (sessions db)" "v_status v \<in> {V_OPEN, V_CLOSED}"
    and free: "decisions_unreferenced g db"
  shows "\<not> g (v_decision_id v)"
proof
  assume g: "g (v_decision_id v)"
  note I = db_invD [OF inv] and K = db_inv_keys [OF inv]
  have "2 \<le> length (choices_of (v_id v) (session_proposals db))"
    using register_invD(7) [OF voting_invD(2) [OF I(7)] v(1)] v(2) by (auto simp: session_registered_def)
  then have "choices_of (v_id v) (session_proposals db) \<noteq> []" by auto
  then obtain sp where sp: "sp \<in> set (session_proposals db)" "sp_voting_session_id sp = v_id v"
    by (auto simp: filter_empty_conv)
  then obtain q x where q: "q \<in> set (proposals db)" "x \<in> set (sessions db)" "p_id q = sp_proposal_id sp" "v_id x = v_id v"
    "p_decision_id q = v_decision_id x"
    using I(10) by (fastforce simp: choices_inv_def)
  then have "x = v" using distinct_key_eq [OF K(4) q(2) v(1)] by simp
  then have "in_decision g (proposals db) (sp_proposal_id sp)" using q g by (auto simp: in_decision_def)
  then show False using free sp(1) by (auto simp: decisions_unreferenced_def proposals_unreferenced_def)
qed

lemma workspace_step_file:
  assumes step: "workspace_step db db'" and inv: "db_inv H db"
    and v: "v \<in> set (sessions db)" "v_status v \<in> {V_OPEN, V_CLOSED}"
  shows "session_file (v_id v) db' = session_file (v_id v) db"
  using workspace_step_cases [OF step]
proof (elim disjE exE)
  fix w assume del: "delete_workspace_row w db = Inr db'"
  let ?g = "in_workspace w (decisions db)"
  obtain a b c d e f h k where db': "db' = (cascade_decisions ?g db)\<lparr>workspaces := a, members := b, notifications := c,
      attachments := d, outbox := e, connections := f, subscriptions := h, deliveries := k\<rparr>"
    and free: "decisions_unreferenced ?g db"
    using del by (auto simp: delete_workspace_row_def Let_def)
  then show ?thesis
    using session_file_cascade_decisions [where g = ?g, OF db_inv_keys(4) [OF inv] v(1) refl
        closed_session_pins_decision [OF inv v free]] by simp
qed auto

lemma decision_step_file:
  assumes step: "decision_step db db'" and inv: "db_inv H db"
    and v: "v \<in> set (sessions db)" "v_status v \<in> {V_OPEN, V_CLOSED}"
  shows "session_file (v_id v) db' = session_file (v_id v) db"
  using decision_step_cases [OF step db_invD(2) [OF inv]]
proof (elim disjE bexE conjE)
  fix d assume d: "decisions_unreferenced (\<lambda>j. j = d_id d) db" "db' = cascade_decisions (\<lambda>j. j = d_id d) db"
  show ?thesis
    unfolding d(2)
    by (rule session_file_cascade_decisions [where g = "\<lambda>j. j = d_id d", OF db_inv_keys(4) [OF inv] v(1) refl
          closed_session_pins_decision [OF inv v d(1)]])
qed auto

lemma app_step_closed_session:
  assumes step: "app_step H db db'" and inv: "db_inv H db" and v: "v \<in> set (sessions db)" "v_status v = V_CLOSED"
  shows "session_file (v_id v) db' = session_file (v_id v) db"
proof -
  note I = db_invD [OF inv] and K = db_inv_keys [OF inv] and V = voting_invD [OF db_invD(7) [OF inv]]
  show ?thesis
    using step
  proof cases
    case workspace
    then show ?thesis using workspace_step_file [OF _ inv v(1)] v(2) by simp
  next
    case decision
    then show ?thesis using decision_step_file [OF _ inv v(1)] v(2) by simp
  next
    case proposal
    show ?thesis using proposal_step_effect [OF proposal I(3)] by auto
  next
    case criterion
    show ?thesis by (subst criterion_step_frame [OF criterion]) (simp add: session_file_def)
  next
    case objection
    show ?thesis using objection_step_effect [OF objection I(6)] by auto
  next
    case voting
    have "voting_effect db db'"
      by (rule voting_step_effect [OF voting V(1) register_invD(1) [OF V(2)] register_invD(3) [OF V(2)]])
    then show ?thesis using voting_effect_file [OF _ K(4) v(1)] v(2) by simp
  next
    case lock
    from lock K(1) show ?thesis by (rule lock_step_tables) simp
  next
    case follow_up
    then show ?thesis by (cases rule: record_step_tables) (simp_all add: session_file_def)
  next
    case side
    then show ?thesis by (rule side_step_same)
  qed
qed

lemma steps_closed_session:
  assumes "(app_step H)\<^sup>*\<^sup>* db db'" and "db_inv H db" and "v \<in> set (sessions db)" and "v_status v = V_CLOSED"
  shows "v \<in> set (sessions db') \<and> session_file (v_id v) db' = session_file (v_id v) db \<and> db_inv H db'"
  using assms
proof (induction rule: rtranclp_induct)
  case (step x y)
  then have x: "v \<in> set (sessions x)" "session_file (v_id v) x = session_file (v_id v) db" "db_inv H x" by auto
  have f: "session_file (v_id v) y = session_file (v_id v) x"
    by (rule app_step_closed_session [OF step(2) x(3,1) step(6)])
  have "v \<in> set (f_session (session_file (v_id v) x))" using x(1) by (simp add: session_file_def)
  then have "v \<in> set (sessions y)" unfolding f [symmetric] by (simp add: session_file_def)
  then show ?case using f x(2) app_step_db_inv [OF step(2) x(3)] by simp
qed auto

section \<open>When a decision can be locked\<close>

lemma alternatives_total:
  "(\<And>t. t \<in> set ts \<Longrightarrow> proposals_repo_get_for_decision d (t_proposal_id t) db \<noteq> None) \<Longrightarrow>
     \<exists>js. alternatives d win ts db = Inr js"
  by (induction ts) (fastforce simp: require_def split: option.splits)+

text \<open>Every proposal of a result is still there when the snapshot is built.\<close>

lemma build_snapshot_total:
  assumes inv: "db_inv H db" and v: "v \<in> set (sessions db)" "v_decision_id v = d_id dec"
  shows "\<exists>j. build_snapshot dec win (voting_result_of v db) db = Inr j"
proof -
  note I = db_invD [OF inv] and K = db_inv_keys [OF inv]
  have "proposals_repo_get_for_decision (d_id dec) (t_proposal_id t) db \<noteq> None"
    if t: "t \<in> set (vr_tallies (voting_result_of v db))" for t
  proof -
    have "t_proposal_id t \<in> set (choices_of (v_id v) (session_proposals db))"
      using t result_tallies(1) [OF K(5), where v = v] by (metis list.set_map image_eqI set_sort)
    then obtain sp where sp: "sp \<in> set (session_proposals db)" "sp_voting_session_id sp = v_id v"
      "sp_proposal_id sp = t_proposal_id t" by auto
    then obtain q x where q: "q \<in> set (proposals db)" "x \<in> set (sessions db)" "p_id q = t_proposal_id t" "v_id x = v_id v"
      "p_decision_id q = v_decision_id x"
      using I(10) by (fastforce simp: choices_inv_def)
    then have "x = v" using distinct_key_eq [OF K(4) q(2) v(1)] by simp
    then have "proposal_for_decision (d_id dec) (t_proposal_id t) (proposals db) = Some q"
      using q v(2) proposal_table.get_iff [OF K(2)] by simp
    then show ?thesis by (simp add: proposals_repo_get_for_decision_def)
  qed
  then obtain js where "alternatives (d_id dec) (p_id win) (vr_tallies (voting_result_of v db)) db = Inr js"
    using alternatives_total by meson
  then show ?thesis by (simp add: build_snapshot_def)
qed

lemma result_valid_quorum [simp]: "vr_result_valid (voting_result_of v db) = vr_quorum_met (voting_result_of v db)"
  by (simp add: voting_result_of_def Let_def)

lemma winner_no_tie:
  "vr_winner_proposal_id (voting_result_of v db) = Some p \<Longrightarrow> \<not> vr_is_tie (voting_result_of v db)"
  by (simp add: voting_result_of_def Let_def split: if_splits)

text \<open>The verdict of a session, in terms of the ballots alone.\<close>

definition wins :: "uuid \<Rightarrow> proposal \<Rightarrow> voting_session \<Rightarrow> db \<Rightarrow> bool" where
  "wins d p v db \<longleftrightarrow>
     v \<in> set (sessions db) \<and> v_decision_id v = d \<and> v_status v = V_CLOSED \<and>
     p \<in> set (proposals db) \<and> p_decision_id p = d \<and> p_status p = P_SUBMITTED \<and>
     v_eligible_voter_count v * v_quorum_percentage v \<le> 100 * int (count_votes (v_id v) db) \<and>
     plurality_winner (v_id v) db (p_id p)"

lemma quorum_met_iff:
  assumes "ck_voting_sessions v" and "v_eligible_voter_count v < 2 ^ 31"
  shows "vr_quorum_met (voting_result_of v db) \<longleftrightarrow>
     v_eligible_voter_count v * v_quorum_percentage v \<le> 100 * int (count_votes (v_id v) db)"
proof -
  have q: "0 \<le> v_eligible_voter_count v" "1 \<le> v_quorum_percentage v" "v_quorum_percentage v \<le> 100"
    using assms(1) by (simp_all add: ck_voting_sessions_def)
  note C = required_votes_ceiling [OF q(1) assms(2) q(2,3)]
  have "vr_quorum_met (voting_result_of v db) \<longleftrightarrow>
      required_votes (v_eligible_voter_count v) (v_quorum_percentage v) \<le> int (count_votes (v_id v) db)"
    by (simp add: voting_result_of_def Let_def)
  also have "\<dots> \<longleftrightarrow> v_eligible_voter_count v * v_quorum_percentage v \<le> 100 * int (count_votes (v_id v) db)"
    using C(1,2) by linarith
  finally show ?thesis .
qed

lemma lockable_iff:
  assumes inv: "db_inv H db" and dec: "dec \<in> set (decisions db)"
    and width: "\<And>v. v \<in> set (sessions db) \<Longrightarrow> v_eligible_voter_count v < 2 ^ 31"
  shows "(\<exists>snapshot. lockable i v win snapshot dec db) \<longleftrightarrow>
     d_status dec = D_ACTIVE \<and> \<not> has_open_blocking_for_decision (d_id dec) db \<and> v_id v = i \<and> wins (d_id dec) win v db"
    (is "?L \<longleftrightarrow> ?R")
proof -
  note I = db_invD [OF inv] and K = db_inv_keys [OF inv]
  have get_v: "voting_repo_get_for_decision (d_id dec) i db = Some v \<longleftrightarrow>
      v \<in> set (sessions db) \<and> v_id v = i \<and> v_decision_id v = d_id dec"
    using session_table.get_iff [OF K(4)] by (simp add: voting_repo_get_for_decision_def)
  have get_p: "proposals_repo_get_for_decision (d_id dec) (p_id win) db = Some win \<longleftrightarrow>
      win \<in> set (proposals db) \<and> p_decision_id win = d_id dec"
    using proposal_table.get_iff [OF K(2)] by (simp add: proposals_repo_get_for_decision_def)
  have no_lock: "d_id dec \<notin> l_decision_id ` set (locks db)" if "d_status dec = D_ACTIVE"
  proof
    assume "d_id dec \<in> l_decision_id ` set (locks db)"
    then obtain l where l: "l \<in> set (locks db)" "l_decision_id l = d_id dec" by auto
    obtain x where "x \<in> set (decisions db)" "d_id x = l_decision_id l" "d_status x = D_LOCKED"
      by (rule lock_decision [OF I(8) l(1)])
    then show False using l(2) that distinct_key_eq [OF K(1) _ dec, of x] by auto
  qed
  have quorum: "vr_quorum_met (voting_result_of v db) \<longleftrightarrow>
      v_eligible_voter_count v * v_quorum_percentage v \<le> 100 * int (count_votes (v_id v) db)"
      if "v \<in> set (sessions db)"
    using session_invD(2) [OF voting_invD(1) [OF I(7)] that] width [OF that] by (rule quorum_met_iff)
  show ?thesis
  proof
    assume ?L
    then show ?R using quorum winner_iff [OF I(7)] by (auto simp: lockable_def wins_def get_v get_p)
  next
    assume r: ?R
    then obtain j where "build_snapshot dec win (voting_result_of v db) db = Inr j"
      using build_snapshot_total [OF inv] unfolding wins_def by metis
    then show ?L
      using r quorum winner_iff [OF I(7)] winner_no_tie no_lock by (auto simp: lockable_def wins_def get_v get_p)
  qed
qed

text \<open>The ids drawn by the request are unused, and the digest has 64 characters.\<close>

definition lock_ids_fresh :: "env \<Rightarrow> db \<Rightarrow> bool" where
  "lock_ids_fresh env db \<longleftrightarrow> fresh env 0 \<notin> l_id ` set (locks db) \<and> fresh env 1 \<notin> x_id ` set (outbox db) \<and>
     \<not> staged DECISION_LOCKED (fresh env 0) (outbox db) \<and> (\<forall>s. length (sha256_hex env s) = 64)"

lemma lock_create_succeeds_iff:
  assumes inv: "db_inv H db" and ctx: "decision_context (u_id me) w d db = Inr (m, dec)"
    and width: "\<And>v. v \<in> set (sessions db) \<Longrightarrow> v_eligible_voter_count v < 2 ^ 31"
    and ids: "lock_ids_fresh env db"
  shows "(\<exists>l db'. lock_create env me w d i db = Inr (l, db')) \<longleftrightarrow>
     m_role m \<in> {OWNER, ADMIN} \<and> d_status dec = D_ACTIVE \<and> \<not> has_open_blocking_for_decision d db \<and>
     (\<exists>v win. v_id v = i \<and> wins d win v db)"
    (is "?L \<longleftrightarrow> ?R")
proof -
  note I = db_invD [OF inv] and K = db_inv_keys [OF inv]
  have dec: "dec \<in> set (decisions db)" "d_id dec = d" using ctx by (auto dest: decision_getD)
  note iff = lockable_iff [OF inv dec(1) width]
  show ?thesis
  proof
    assume ?L
    then obtain l db' where "lock_create env me w d i db = Inr (l, db')" by blast
    from this K(1) show ?R
    proof (rule lock_create_InrD)
      fix m' dec' v win snapshot xs ys
      assume c: "decision_context (u_id me) w d db = Inr (m', dec')" "can_lock_decisions (m_role m')"
        and able: "lockable i v win snapshot dec' db"
      have "dec' = dec" "m' = m" using ctx c(1) by simp_all
      moreover have "\<exists>snapshot. lockable i v win snapshot dec db" using able \<open>dec' = dec\<close> by blast
      ultimately show ?R using iff [of i v win] c(2) by (auto simp: can_lock_decisions_def dec(2))
    qed
  next
    assume r: ?R
    then obtain v win where w: "v_id v = i" "wins d win v db" by blast
    then obtain snapshot where able: "lockable i v win snapshot dec db"
      using r iff [of i v win] dec(2) by blast
    have "i \<notin> l_voting_session_id ` set (locks db)"
    proof
      assume "i \<in> l_voting_session_id ` set (locks db)"
      then obtain l where l: "l \<in> set (locks db)" "l_voting_session_id l = i" by auto
      obtain x where x: "x \<in> set (sessions db)" "v_id x = i" "v_decision_id x = l_decision_id l"
        using lock_session [OF lock_invD(4) [OF I(8) l(1)]] l(2) by metis
      have "v \<in> set (sessions db)" using w(2) by (simp add: wins_def)
      then have "x = v" using distinct_key_eq [OF K(4) x(1)] x(2) w(1) by simp
      then have "l_decision_id l = d" using x(3) w(2) by (simp add: wins_def)
      then show False using able l(1) dec(2) by (auto simp: lockable_def)
    qed
    then have "\<exists>db'. lock_create env me w d i db = Inr (lock_row env me dec i win snapshot, db')"
      using ids r by (intro lock_create_ok [OF ctx K(1) _ able]) (simp_all add: lock_ids_fresh_def can_lock_decisions_def)
    then show ?L by blast
  qed
qed

end
