(* ===== verification/Histories.thy ===== *)
theory Histories imports App begin

text \<open>
  What one step of the application may do to a single row: the life of a decision and of a
  proposal, whichever component takes the step.
\<close>

lemma follows_cases:
  assumes "follows key gone ev rs rs'" and "r \<in> set rs"
  obtains r' where "r' \<in> set rs'" and "key r' = key r" and "ev r r'"
  | "key r \<notin> key ` set rs'" and "gone r"
proof (cases "lookup key (key r) rs'")
  case None
  then show thesis
    using bspec [OF assms(1) [unfolded follows_def] assms(2)] that(2) by (simp add: lookup_None_iff [symmetric])
next
  case (Some r')
  then show thesis
    using bspec [OF assms(1) [unfolded follows_def] assms(2)] lookup_SomeD [OF Some] by (intro that(1) [of r']) auto
qed

section \<open>Decisions\<close>

text \<open>The step that empties a workspace: no decision of it is locked.\<close>

lemma workspace_gone_decision:
  assumes "delete_workspace_row w db = Inr db'" and inv: "db_inv H db" and dec: "dec \<in> set (decisions db)"
  shows "dec \<in> set (decisions db') \<or>
    d_id dec \<notin> d_id ` set (decisions db') \<and> d_status dec \<noteq> D_LOCKED \<and> d_workspace_id dec \<notin> w_id ` set (workspaces db')"
proof -
  note I = db_invD [OF inv] and K = db_inv_keys [OF inv]
  have db': "decisions db' = filter (\<lambda>d. \<not> in_workspace w (decisions db) (d_id d)) (decisions db)"
    "workspaces db' = filter (\<lambda>x. w_id x \<noteq> w) (workspaces db)"
    using assms(1) by (auto simp: delete_workspace_row_def Let_def cascade_decisions_def cascade_proposals_def)
  have "in_workspace w (decisions db) (d_id dec) \<longleftrightarrow> d_workspace_id dec = w"
    using dec distinct_key_eq [OF K(1) _ dec] by (auto simp: in_workspace_def)
  moreover have "\<not> in_workspace w (decisions db) (d_id dec)" if "d_status dec = D_LOCKED"
    using lock_invD(5) [OF I(8) dec that] delete_workspace_row_unreferenced [OF assms(1)] by force
  ultimately show ?thesis using dec by (auto simp: db')
qed

lemma app_step_decision_life:
  assumes step: "app_step H db db'" and inv: "db_inv H db" and dec: "dec \<in> set (decisions db)"
  shows "(\<exists>dec' \<in> set (decisions db'). d_id dec' = d_id dec \<and> decision_evolves dec dec') \<or>
    d_id dec \<notin> d_id ` set (decisions db') \<and> d_status dec \<noteq> D_LOCKED \<and>
    (d_status dec = D_DRAFT \<or> d_workspace_id dec \<notin> w_id ` set (workspaces db'))"
proof -
  note I = db_invD [OF inv] and K = db_inv_keys [OF inv]
  have same: ?thesis if "decisions db' = decisions db" using that dec by auto
  have follow: ?thesis if "decisions_follow (decisions db) (decisions db')"
    using that dec by (rule follows_cases) auto
  from step show ?thesis
  proof cases
    case workspace
    from workspace_step_cases [OF this] show ?thesis
    proof (elim disjE exE)
      fix w assume "delete_workspace_row w db = Inr db'"
      from workspace_gone_decision [OF this inv dec] show ?thesis
      proof
        assume "dec \<in> set (decisions db')"
        then show ?thesis by (intro disjI1 bexI [of _ dec]) simp_all
      qed auto
    qed (rule same, simp)
  next
    case decision
    then show ?thesis by (rule follow [OF decision_step_follow [OF _ I(2)]])
  next
    case proposal
    from proposal_step_effect [OF this I(3)] show ?thesis by (intro same) (auto simp: cascade_proposals_def)
  next
    case criterion
    from criterion_step_frame [OF this] obtain cs ss where "db' = db\<lparr>criteria := cs, scores := ss\<rparr>" by blast
    then show ?thesis by (intro same) simp
  next
    case objection
    from objection_step_effect [OF this I(6)] show ?thesis by (intro same) auto
  next
    case voting
    then show ?thesis
      using voting_effect_frame [OF voting_step_effect [OF voting voting_invD(1) [OF I(7)]
        register_invD(1) [OF voting_invD(2) [OF I(7)]] register_invD(3) [OF voting_invD(2) [OF I(7)]]]]
      by (intro same) simp
  next
    case lock
    then show ?thesis by (rule follow [OF lock_step_decisions(2) [OF _ I(2)]])
  next
    case follow_up
    then have "dec \<in> set (decisions db')" using dec by (cases rule: record_step_tables) simp_all
    then show ?thesis by (intro disjI1 bexI [of _ dec]) simp_all
  next
    case side
    then show ?thesis by (rule same [OF side_step_same(4)])
  qed
qed

section \<open>Proposals\<close>

lemma cascade_keeps_chosen:
  assumes "decisions_unreferenced g db" and "p \<in> set (proposals db)"
    and "p_id p \<in> sp_proposal_id ` set (session_proposals db)"
  shows "p \<in> set (proposals (cascade_decisions g db))"
  using assms by (auto simp: cascade_decisions_tables decisions_unreferenced_def proposals_unreferenced_def)

lemma app_step_proposal_rows:
  assumes step: "app_step H db db'" and inv: "db_inv H db"
  shows "set (proposals db') \<subseteq> set (proposals db) \<and>
      (\<forall>p \<in> set (proposals db). p_id p \<in> sp_proposal_id ` set (session_proposals db) \<longrightarrow> p \<in> set (proposals db')) \<or>
    (\<exists>p. p_id p \<notin> p_id ` set (proposals db) \<and> proposals db' = proposals db @ [p]) \<or>
    (\<exists>p p'. lookup p_id (p_id p) (proposals db) = Some p \<and> proposal_evolves p p' \<and>
       proposals db' = store p_id p' (proposals db))"
    (is "?sub \<or> ?ins \<or> ?upd")
proof -
  note I = db_invD [OF inv]
  have same: ?thesis if "proposals db' = proposals db" using that by simp
  from step show ?thesis
  proof cases
    case workspace
    from workspace_step_cases [OF this] show ?thesis
    proof (elim disjE exE)
      fix w assume del: "delete_workspace_row w db = Inr db'"
      let ?g = "in_workspace w (decisions db)"
      have "decisions_unreferenced ?g db" "proposals db' = proposals (cascade_decisions ?g db)"
        using del by (auto simp: delete_workspace_row_def Let_def)
      then show ?thesis using cascade_keeps_chosen [of ?g db] by (auto simp: cascade_decisions_tables)
    qed (auto intro: same)
  next
    case decision
    from decision_step_cases [OF this I(2)] show ?thesis
    proof (elim disjE exE conjE bexE)
      fix d assume "decisions_unreferenced (\<lambda>j. j = d_id d) db" "db' = cascade_decisions (\<lambda>j. j = d_id d) db"
      then show ?thesis using cascade_keeps_chosen [of "\<lambda>j. j = d_id d" db] by (auto simp: cascade_decisions_tables)
    qed (auto intro: same)
  next
    case proposal
    from proposal_step_effect [OF this I(3)] show ?thesis
    proof (elim disjE exE conjE)
      fix p assume "proposals_unreferenced (\<lambda>j. j = p_id p) db" "db' = cascade_proposals (\<lambda>j. j = p_id p) db"
      then show ?thesis by (intro disjI1) (auto simp: cascade_proposals_def proposals_unreferenced_def)
    qed auto
  next
    case criterion
    from criterion_step_frame [OF this] obtain cs ss where "db' = db\<lparr>criteria := cs, scores := ss\<rparr>" by blast
    then show ?thesis by (intro same) simp
  next
    case objection
    from objection_step_effect [OF this I(6)] show ?thesis by (intro same) auto
  next
    case voting
    then show ?thesis
      using voting_effect_frame [OF voting_step_effect [OF voting voting_invD(1) [OF I(7)]
        register_invD(1) [OF voting_invD(2) [OF I(7)]] register_invD(3) [OF voting_invD(2) [OF I(7)]]]]
      by (intro same) simp
  next
    case lock
    from this db_inv_keys(1) [OF inv] show ?thesis by (rule lock_step_tables) (auto intro: same)
  next
    case follow_up
    then show ?thesis by (intro same, cases rule: record_step_tables) simp_all
  next
    case side
    then show ?thesis by (rule same [OF side_step_same(5)])
  qed
qed

lemma app_step_proposal_life:
  assumes step: "app_step H db db'" and inv: "db_inv H db" and p: "p \<in> set (proposals db)"
  shows "(\<forall>p' \<in> set (proposals db'). p_id p' = p_id p \<longrightarrow> proposal_evolves p p') \<and>
    (p_id p \<in> sp_proposal_id ` set (session_proposals db) \<longrightarrow> p_id p \<in> p_id ` set (proposals db'))"
  using app_step_proposal_rows [OF step inv]
proof (elim disjE exE conjE)
  note ids = db_inv_keys(2) [OF inv]
  have self: "p' = p" if "p' \<in> set (proposals db)" "p_id p' = p_id p" for p'
    using that p distinct_key_eq [OF ids] by blast
  have refl: "proposal_evolves p p" by (simp add: proposal_evolves_def)
  {
    assume "set (proposals db') \<subseteq> set (proposals db)"
      "\<forall>p \<in> set (proposals db). p_id p \<in> sp_proposal_id ` set (session_proposals db) \<longrightarrow> p \<in> set (proposals db')"
    then show ?thesis using self p refl by auto
  next
    fix q assume "p_id q \<notin> p_id ` set (proposals db)" "proposals db' = proposals db @ [q]"
    then show ?thesis using self p refl by auto
  next
    fix q q' assume q: "lookup p_id (p_id q) (proposals db) = Some q" "proposal_evolves q q'"
      "proposals db' = store p_id q' (proposals db)"
    have keep: "p_id ` set (proposals db') = p_id ` set (proposals db)"
      by (simp add: q(3))
    have "q = p" if "p_id q = p_id p" using self lookup_SomeD [OF q(1)] that by simp
    moreover have "p_id q' = p_id q" using q(2) by (auto simp: proposal_evolves_def)
    ultimately have "proposal_evolves p p'" if "p' \<in> set (proposals db')" "p_id p' = p_id p" for p'
      using that q(2) refl self unfolding q(3) by (auto dest!: mem_storeD)
    then show ?thesis using keep p by auto
  }
qed

section \<open>Criteria and the comparison\<close>

lemma criterion_reorder_numbers:
  assumes inv: "criteria_inv (criteria db)" and ctx: "decision_context (u_id me) w d db = Inr (m, dec)"
    and able: "m_role m \<in> {OWNER, ADMIN}" "d_status dec \<in> {D_DRAFT, D_ACTIVE}"
    and ids: "distinct ids" "set ids = set (map c_id (proposals_repo_list_criteria d db))"
  shows "\<exists>cs db'. criterion_reorder env me w d ids db = Inr (cs, db') \<and>
    cs = proposals_repo_list_criteria d db' \<and> map c_id cs = ids \<and> map c_position cs = map int [0..<length ids] \<and>
    (\<forall>c \<in> set cs. \<exists>c' \<in> set (criteria db). c_id c' = c_id c \<and> c_weight c' = c_weight c \<and> c_name c' = c_name c)"
proof -
  let ?ord = "map (\<lambda>i. the (lookup c_id i (rev (proposals_repo_list_criteria d db)))) ids"
  note R = reorder_rows [OF inv ids(2) refl]
  obtain cs' where run: "proposals_repo_reorder_criteria env ?ord db =
       Inr (map (\<lambda>k. repositioned env (int k) (?ord ! k)) [0..<length ids], db\<lparr>criteria := cs'\<rparr>)"
    and listed: "proposals_repo_list_criteria d (db\<lparr>criteria := cs'\<rparr>) =
           map (\<lambda>k. repositioned env (int k) (?ord ! k)) [0..<length ids]"
    by (rule reorder_criteria_ok [OF inv ids refl, where env = env]) (rule that)
  let ?cs = "map (\<lambda>k. repositioned env (int k) (?ord ! k)) [0..<length ids]"
  have go: "criterion_reorder env me w d ids db = Inr (?cs, db\<lparr>criteria := cs'\<rparr>)"
  proof -
    have "can_manage_criteria (m_role m)" using able(1) by (simp add: can_manage_criteria_def)
    moreover have mut: "require_mutable_decision dec = Inr ()" using able(2) by simp
    ultimately have "criterion_reorder env me w d ids db = proposals_repo_reorder_criteria env ?ord db"
      unfolding criterion_reorder_def ctx Let_def ids(2) by (simp add: mut del: require_mutable_Inr)
    then show ?thesis using run by (rule trans)
  qed
  have keys: "map c_id ?cs = ids"
  proof (rule nth_equalityI)
    fix k assume "k < length (map c_id ?cs)"
    then have "map c_id ?cs ! k = map c_id ?ord ! k" by simp
    then show "map c_id ?cs ! k = ids ! k" unfolding R(1) .
  qed simp
  have pos: "map c_position ?cs = map int [0..<length ids]" by simp
  have "\<exists>c' \<in> set (criteria db). c_id c' = c_id c \<and> c_weight c' = c_weight c \<and> c_name c' = c_name c"
    if c: "c \<in> set ?cs" for c
  proof -
    obtain k where k: "k < length ids" "c = repositioned env (int k) (?ord ! k)" using c by auto
    then have "?ord ! k \<in> set ?ord" by (intro nth_mem) simp
    then have "?ord ! k \<in> set (criteria db)" unfolding R(2) by simp
    then show ?thesis unfolding k(2) by (intro bexI [of _ "?ord ! k"]) simp_all
  qed
  then show ?thesis using go listed keys pos by (intro exI [of _ ?cs] exI [of _ "db\<lparr>criteria := cs'\<rparr>"]) simp
qed

lemma proposal_compare_bounds:
  assumes inv: "criteria_inv (criteria db)" "scores_inv (scores db)"
    and run: "proposal_compare me w d db = Inr rs" and r: "r \<in> set rs"
  shows "(pcr_weighted_score r \<noteq> None \<longleftrightarrow>
      proposals_repo_list_criteria d db \<noteq> [] \<and>
      (\<forall>c \<in> set (proposals_repo_list_criteria d db). \<exists>s \<in> set (proposals_repo_list_scores_for_decision d db).
         s_proposal_id s = p_id (pcr_proposal r) \<and> s_criterion_id s = c_id c)) \<and>
    (case pcr_weighted_score r of None \<Rightarrow> True | Some x \<Rightarrow> 100 \<le> x \<and> x \<le> 500)"
proof -
  let ?cs = "proposals_repo_list_criteria d db" and ?ss = "proposals_repo_list_scores_for_decision d db"
  obtain p where p: "r = compare_proposal ?cs ?ss p" using run r by (auto simp: proposal_compare_def)
  have pr: "pcr_proposal r = p" by (simp add: p compare_proposal_def Let_def)
  have cs: "ck_decision_criteria c" if "c \<in> set ?cs" for c
    using that criteria_invD(2) [OF inv(1)] by (simp add: proposals_repo_list_criteria_def)
  have ss: "set ?ss \<subseteq> set (scores db)" by (auto simp: proposals_repo_list_scores_for_decision_def)
  have some: "score_by_pair ?ss i j \<noteq> None \<longleftrightarrow> (\<exists>s \<in> set ?ss. s_proposal_id s = i \<and> s_criterion_id s = j)" for i j
    by (auto simp: score_by_pair_def first_where_None_iff)
  have range: "int 1 \<le> s_score s \<and> s_score s \<le> int 5" if "score_by_pair ?ss i j = Some s" for i j s
    using that ss inv(2) by (auto simp: score_by_pair_def scores_inv_def ck_proposal_scores_def dest!: first_where_SomeD)
  have "case pcr_weighted_score r of None \<Rightarrow> True | Some x \<Rightarrow> 100 \<le> x \<and> x \<le> 500"
    using compare_weighted_score_between [where cs = ?cs and lo = 1 and hi = 5 and ss = ?ss and p = p] cs range
    by (auto simp: p split: option.split)
  then show ?thesis using compare_weighted_score [where cs = ?cs and ss = ?ss and p = p] cs some by (simp add: p pr [unfolded p])
qed

text \<open>The upsert of a score leaves one row for its pair.\<close>

lemma filter_store_one:
  assumes d: "distinct (map key rs)" and r: "lookup key i rs = Some r" and k: "key r' = key r"
    and P: "P r" "P r'" and only: "\<And>x. x \<in> set rs \<Longrightarrow> P x \<Longrightarrow> x = r"
  shows "filter P (store key r' rs) = [r']" and "filter (\<lambda>x. \<not> P x) (store key r' rs) = filter (\<lambda>x. \<not> P x) rs"
proof -
  have same: "x = r" if "x \<in> set rs" "key x = key r'" for x
    using that k lookup_SomeD [OF r] distinct_key_eq [OF d] by metis
  show "filter (\<lambda>x. \<not> P x) (store key r' rs) = filter (\<lambda>x. \<not> P x) rs"
    using P same by (intro filter_store_other) auto
  have "filter P rs = [r]"
    using d only lookup_SomeD [OF r] P(1)
  proof (induction rs)
    case (Cons x xs)
    show ?case
    proof (cases "P x")
      case True
      then have "x = r" using Cons.prems(2) by simp
      then have "filter P xs = []" using Cons.prems by (fastforce simp: filter_empty_conv)
      then show ?thesis using True \<open>x = r\<close> by simp
    qed (use Cons in auto)
  qed simp
  moreover have "filter P (store key r' rs) = store key r' (filter P rs)"
    using P same by (induction rs) (auto simp: store_def)
  ultimately show "filter P (store key r' rs) = [r']" using k by (simp add: store_def)
qed

lemma write_score_fresh:
  "s_score (write_score env s new s) = s_score new" "s_rationale (write_score env s new s) = s_rationale new"
  "s_scored_by_id (write_score env s new s) = s_scored_by_id new"
  by (cases "new = s"; simp add: write_score_def)+

lemma score_upsert_one_row:
  assumes run: "score_upsert env me w d p c q db = Inr (r, db')" and inv: "scores_inv (scores db)"
  shows "filter (\<lambda>s. s_proposal_id s = p \<and> s_criterion_id s = c) (scores db') = [r] \<and>
    s_score r = su_score q \<and> s_rationale r = su_rationale q \<and> s_scored_by_id r = u_id me \<and>
    filter (\<lambda>s. \<not> (s_proposal_id s = p \<and> s_criterion_id s = c)) (scores db') =
      filter (\<lambda>s. \<not> (s_proposal_id s = p \<and> s_criterion_id s = c)) (scores db)"
proof (cases "proposals_repo_get_score p c db")
  case None
  then have none: "\<forall>s \<in> set (scores db). \<not> (s_proposal_id s = p \<and> s_criterion_id s = c)"
    by (simp add: proposals_repo_get_score_def first_where_None_iff)
  then show ?thesis
    using run None by (auto simp: score_upsert_def proposals_repo_upsert_score_def Let_def filter_empty_conv)
next
  case (Some s)
  then have s: "s \<in> set (scores db)" "s_proposal_id s = p" "s_criterion_id s = c"
    unfolding proposals_repo_get_score_def by (auto dest: first_where_SomeD)
  have D: "distinct (map s_id (scores db))" "distinct (map (\<lambda>s. (s_proposal_id s, s_criterion_id s)) (scores db))"
    using inv by (simp_all add: scores_inv_def)
  have look: "lookup s_id (s_id s) (scores db) = Some s" using D(1) s(1) by (simp add: lookup_distinct)
  let ?new = "write_score env s (s\<lparr>s_score := su_score q, s_rationale := su_rationale q, s_scored_by_id := u_id me\<rparr>) s"
  have r: "r = ?new" "scores db' = store s_id ?new (scores db)"
    using run Some look by (auto simp: score_upsert_def proposals_repo_upsert_score_def Let_def)
  have only: "x = s" if "x \<in> set (scores db)" "s_proposal_id x = p \<and> s_criterion_id x = c" for x
    using that s distinct_key_eq [OF D(2)] by simp
  have key: "s_id ?new = s_id s" "s_proposal_id ?new = p \<and> s_criterion_id ?new = c" "s_proposal_id s = p \<and> s_criterion_id s = c"
    using s by simp_all
  note F = filter_store_one [where P = "\<lambda>s. s_proposal_id s = p \<and> s_criterion_id s = c", OF D(1) look key(1,3,2) only]
  have "s_score r = su_score q \<and> s_rationale r = su_rationale q \<and> s_scored_by_id r = u_id me"
    unfolding r(1) write_score_fresh by simp
  moreover have "filter (\<lambda>s. s_proposal_id s = p \<and> s_criterion_id s = c) (scores db') = [r]"
    unfolding r(2) r(1) by (rule F(1))
  moreover have "filter (\<lambda>s. \<not> (s_proposal_id s = p \<and> s_criterion_id s = c)) (scores db') =
      filter (\<lambda>s. \<not> (s_proposal_id s = p \<and> s_criterion_id s = c)) (scores db)"
    unfolding r(2) by (rule F(2))
  ultimately show ?thesis by blast
qed

end
