(* ===== verification/Activations.thy ===== *)
theory Activations imports Histories begin

text \<open>
  The events of the outbox and the decisions they are about: in every state the application reaches, an event that a
  decision was activated belongs to a decision that is no longer a draft. So no draft was announced before, and
  activating it can always stage its event.
\<close>

definition activation_inv :: "db \<Rightarrow> bool" where
  "activation_inv db \<longleftrightarrow> (\<forall>x \<in> set (outbox db). x_event_type x = DECISION_ACTIVATED \<longrightarrow>
     (\<exists>d \<in> set (decisions db). d_id d = x_event_id x \<and> d_workspace_id d = x_workspace_id x \<and> d_status d \<noteq> D_DRAFT))"

definition activated_kept :: "decision list \<Rightarrow> decision list \<Rightarrow> bool" where
  "activated_kept ds ds' \<longleftrightarrow> (\<forall>d \<in> set ds. d_status d \<noteq> D_DRAFT \<longrightarrow>
     (\<exists>d' \<in> set ds'. d_id d' = d_id d \<and> d_workspace_id d' = d_workspace_id d \<and> d_status d' \<noteq> D_DRAFT))"

definition no_new_activation :: "integration_outbox_event list \<Rightarrow> integration_outbox_event list \<Rightarrow> bool" where
  "no_new_activation xs xs' \<longleftrightarrow> (\<forall>x' \<in> set xs'. x_event_type x' = DECISION_ACTIVATED \<longrightarrow>
     (\<exists>x \<in> set xs. x_event_type x = DECISION_ACTIVATED \<and> x_event_id x = x_event_id x' \<and> x_workspace_id x = x_workspace_id x'))"

lemma activated_kept_refl [simp]: "activated_kept ds ds"
  by (auto simp: activated_kept_def)

lemma no_new_activation_refl [simp]: "no_new_activation xs xs"
  by (auto simp: no_new_activation_def)

lemma activation_inv_mono:
  assumes "activation_inv db" and "activated_kept (decisions db) (decisions db')" and "no_new_activation (outbox db) (outbox db')"
  shows "activation_inv db'"
  unfolding activation_inv_def
proof (intro ballI impI)
  fix x' assume "x' \<in> set (outbox db')" "x_event_type x' = DECISION_ACTIVATED"
  then obtain x where "x \<in> set (outbox db)" "x_event_type x = DECISION_ACTIVATED" "x_event_id x = x_event_id x'"
      "x_workspace_id x = x_workspace_id x'"
    using assms(3) unfolding no_new_activation_def by blast
  moreover from this obtain d where "d \<in> set (decisions db)" "d_id d = x_event_id x" "d_workspace_id d = x_workspace_id x"
      "d_status d \<noteq> D_DRAFT"
    using assms(1) unfolding activation_inv_def by blast
  moreover from this obtain d' where "d' \<in> set (decisions db')" "d_id d' = d_id d" "d_workspace_id d' = d_workspace_id d"
      "d_status d' \<noteq> D_DRAFT"
    using assms(2) unfolding activated_kept_def by blast
  ultimately show "\<exists>d \<in> set (decisions db'). d_id d = x_event_id x' \<and> d_workspace_id d = x_workspace_id x' \<and> d_status d \<noteq> D_DRAFT"
    by (intro bexI [of _ d']) simp_all
qed

lemma follow_activated_kept:
  assumes "decisions_follow ds ds'"
  shows "activated_kept ds ds'"
  unfolding activated_kept_def
proof (intro ballI impI)
  fix d assume d: "d \<in> set ds" "d_status d \<noteq> D_DRAFT"
  from assms d(1) show "\<exists>d' \<in> set ds'. d_id d' = d_id d \<and> d_workspace_id d' = d_workspace_id d \<and> d_status d' \<noteq> D_DRAFT"
  proof (rule follows_cases)
    fix d' assume d': "d' \<in> set ds'" "d_id d' = d_id d" "decision_evolves d d'"
    have "d_status d' \<noteq> D_DRAFT \<and> d_workspace_id d' = d_workspace_id d"
      using d'(3) d(2) by (cases "d_status d") (auto simp: decision_evolves_def)
    with d' show ?thesis by blast
  qed (use d(2) in simp)
qed

lemma emitted_rows:
  "emitted b w ty source payload db db' \<Longrightarrow> x \<in> set (outbox db') \<Longrightarrow>
     x \<in> set (outbox db) \<or> b \<and> x_event_type x = ty \<and> x_event_id x = source \<and> x_workspace_id x = w"
  by (auto simp: emitted_def split: if_splits)

lemma emitted_no_activation:
  "emitted b w ty source payload db db' \<Longrightarrow> ty \<noteq> DECISION_ACTIVATED \<Longrightarrow> no_new_activation (outbox db) (outbox db')"
  unfolding no_new_activation_def using emitted_rows by metis

lemma voting_step_activations:
  assumes "voting_step db db'" and ids: "distinct (map v_id (sessions db))"
  shows "no_new_activation (outbox db) (outbox db')"
  using assms(1)
proof cases
  case (create env q c payload me w d r)
  then show ?thesis by (auto simp: voting_create_Inr)
next
  case (openS env me w d i r)
  then show ?thesis by (rule voting_open_InrD) (rule emitted_no_activation, assumption, simp)
next
  case (cast env me w d i choice b)
  then show ?thesis by (auto simp: voting_cast_Inr)
next
  case (close env me w d i r)
  then show ?thesis using ids by (rule voting_close_InrD) (rule emitted_no_activation, assumption, simp)
next
  case (cancel env me w d i r)
  then show ?thesis using ids by (rule voting_cancel_InrD) simp
qed

lemma lock_step_activations:
  assumes "lock_step H db db'" and ids: "distinct (map d_id (decisions db))"
  shows "no_new_activation (outbox db) (outbox db')"
  using assms(1)
proof cases
  case (create env me w d i l)
  from create(2) ids show ?thesis by (rule lock_create_InrD) (rule emitted_no_activation, assumption, simp)
qed

lemma side_step_activations:
  assumes "side_step db db'" and "outbox_inv (outbox db)"
  shows "no_new_activation (outbox db) (outbox db')"
  using assms(1)
proof cases
  case notify
  then show ?thesis using notifications_onlyD [OF notify_step_only] by fastforce
next
  case attach
  then show ?thesis using attachment_step_table by fastforce
next
  case integrate
  note sources = integration_step_tables(6) [OF this assms(2)]
  show ?thesis
    unfolding no_new_activation_def
  proof (intro ballI impI)
    fix x' assume x': "x' \<in> set (outbox db')" "x_event_type x' = DECISION_ACTIVATED"
    have "(x_event_type x', x_event_id x', x_workspace_id x') \<in> set (event_sources (outbox db))"
      unfolding sources [symmetric] using x'(1) by (simp add: event_sources_def image_eqI)
    then obtain x where "x \<in> set (outbox db)"
        "(x_event_type x', x_event_id x', x_workspace_id x') = (x_event_type x, x_event_id x, x_workspace_id x)"
      by (auto simp: event_sources_def)
    then show "\<exists>x \<in> set (outbox db). x_event_type x = DECISION_ACTIVATED \<and> x_event_id x = x_event_id x' \<and>
        x_workspace_id x = x_workspace_id x'"
      using x'(2) by (intro bexI [of _ x]) simp_all
  qed
qed

lemma decision_step_activation:
  assumes step: "decision_step db db'" and inv: "decision_inv (decisions db)" and act: "activation_inv db"
  shows "activation_inv db'"
proof -
  note kept = follow_activated_kept [OF decision_step_follow [OF step inv]]
  note ids = decision_inv_distinct [OF inv]
  from step show ?thesis
  proof cases
    case (create b p env me w r)
    then have "outbox db' = outbox db" by (auto simp: decision_create_Inr)
    then show ?thesis by (intro activation_inv_mono [OF act kept]) simp
  next
    case (update b' p' env me w i r)
    from update(2) ids have "outbox db' = outbox db" by (rule decision_update_InrD) simp
    then show ?thesis by (intro activation_inv_mono [OF act kept]) simp
  next
    case (transition env me w i target r)
    from transition ids obtain d xs ys m where d: "decisions_repo_get_for_workspace w i db = Some d"
      and r: "r = decision_moved env target d"
      and db': "db' = db\<lparr>decisions := store d_id r (decisions db), outbox := xs, published := ys\<rparr>"
      and e: "emitted (emitter env \<and> d_status d = D_DRAFT \<and> target = D_ACTIVE) w DECISION_ACTIVATED (d_id d)
           (decision_activated_payload env me w d) db db'"
      by (rule decision_transition_InrD)
    have dec: "d \<in> set (decisions db)" "d_workspace_id d = w" using decision_getD [OF d] by simp_all
    show ?thesis
    proof (cases "emitter env \<and> d_status d = D_DRAFT \<and> target = D_ACTIVE")
      case True
      then have row: "d_id r = d_id d" "d_workspace_id r = w" "d_status r \<noteq> D_DRAFT"
        using dec(2) by (auto simp: r decision_moved_def)
      have stored: "r \<in> set (decisions db')" using dec(1) row(1) by (auto simp: db' set_store)
      have old: "activation_inv (db'\<lparr>outbox := outbox db\<rparr>)" by (rule activation_inv_mono [OF act]) (use kept in simp_all)
      show ?thesis
        unfolding activation_inv_def
      proof (intro ballI impI)
        fix x assume x: "x \<in> set (outbox db')" "x_event_type x = DECISION_ACTIVATED"
        from emitted_rows [OF e x(1)]
        show "\<exists>d \<in> set (decisions db'). d_id d = x_event_id x \<and> d_workspace_id d = x_workspace_id x \<and> d_status d \<noteq> D_DRAFT"
          using old x(2) stored row unfolding activation_inv_def by auto
      qed
    next
      case False
      then have "outbox db' = outbox db" using e by (simp only: emitted_def if_False)
      then show ?thesis by (intro activation_inv_mono [OF act kept]) simp
    qed
  next
    case (delete me w i u)
    then have "outbox db' = outbox db"
      by (auto simp: decision_delete_Inr delete_decision_row_def cascade_decisions_def cascade_proposals_def Let_def)
    then show ?thesis by (intro activation_inv_mono [OF act kept]) simp
  qed
qed

lemma workspace_step_activation:
  assumes step: "workspace_step db db'" and ids: "distinct (map d_id (decisions db))" and act: "activation_inv db"
  shows "activation_inv db'"
  using workspace_step_cases [OF step]
proof (elim disjE exE)
  fix w assume "delete_workspace_row w db = Inr db'"
  then have db': "decisions db' = filter (\<lambda>d. \<not> in_workspace w (decisions db) (d_id d)) (decisions db)"
    "outbox db' = filter (\<lambda>x. x_workspace_id x \<noteq> w) (outbox db)"
    by (auto simp: delete_workspace_row_def Let_def cascade_decisions_def cascade_proposals_def)
  have "\<not> in_workspace w (decisions db) (d_id d)" if "d \<in> set (decisions db)" "d_workspace_id d \<noteq> w" for d
    using that distinct_key_eq [OF ids _ that(1)] by (auto simp: in_workspace_def)
  then show ?thesis using act unfolding activation_inv_def db' by fastforce
qed (use act in \<open>auto simp: activation_inv_def\<close>)

lemma app_step_activation:
  assumes step: "app_step H db db'" and inv: "db_inv H db" and act: "activation_inv db"
  shows "activation_inv db'"
proof -
  note I = db_invD [OF inv] and K = db_inv_keys [OF inv]
  have same: ?thesis if "decisions db' = decisions db" "outbox db' = outbox db"
    by (rule activation_inv_mono [OF act]) (simp_all add: that)
  from step show ?thesis
  proof cases
    case workspace
    then show ?thesis using K(1) act by (rule workspace_step_activation)
  next
    case decision
    then show ?thesis using I(2) act by (rule decision_step_activation)
  next
    case proposal
    from proposal_step_effect [OF this I(3)] show ?thesis by (intro same) (auto simp: cascade_proposals_def)
  next
    case criterion
    from criterion_step_frame [OF this] obtain cs ss where "db' = db\<lparr>criteria := cs, scores := ss\<rparr>" by blast
    then show ?thesis by (intro same) simp_all
  next
    case objection
    from objection_step_effect [OF this I(6)] show ?thesis by (intro same) auto
  next
    case voting
    then have "decisions db' = decisions db"
      using voting_effect_frame [OF voting_step_effect [OF voting voting_invD(1) [OF I(7)]
        register_invD(1) [OF voting_invD(2) [OF I(7)]] register_invD(3) [OF voting_invD(2) [OF I(7)]]]] by simp
    then show ?thesis by (intro activation_inv_mono [OF act _ voting_step_activations [OF voting K(4)]]) simp
  next
    case lock
    show ?thesis
      by (rule activation_inv_mono [OF act follow_activated_kept [OF lock_step_decisions(2) [OF lock I(2)]] lock_step_activations [OF lock K(1)]])
  next
    case follow_up
    then have "activated_kept (decisions db) (decisions db') \<and> outbox db' = outbox db"
      by (cases rule: record_step_tables) (auto simp: activated_kept_def)
    then show ?thesis by (intro activation_inv_mono [OF act]) simp_all
  next
    case side
    show ?thesis
      by (rule activation_inv_mono [OF act _ side_step_activations [OF side I(9)]]) (simp add: side_step_same(4) [OF side])
  qed
qed

lemma reachable_activation_inv: "reachable H db \<Longrightarrow> activation_inv db"
proof (induction rule: reachable.induct)
  case (start us)
  show ?case by (simp add: activation_inv_def empty_db_def)
next
  case (step db db')
  from app_step_activation [OF step.hyps(2) reachable_db_inv [OF step.hyps(1)] step.IH] show ?case .
qed

text \<open>A draft was never announced.\<close>

lemma draft_not_announced:
  assumes "reachable H db" and "d \<in> set (decisions db)" and "d_status d = D_DRAFT"
  shows "\<not> staged DECISION_ACTIVATED (d_id d) (outbox db)"
proof
  assume "staged DECISION_ACTIVATED (d_id d) (outbox db)"
  then obtain d' where "d' \<in> set (decisions db)" "d_id d' = d_id d" "d_status d' \<noteq> D_DRAFT"
    using reachable_activation_inv [OF assms(1)] unfolding staged_def activation_inv_def by metis
  then show False using distinct_key_eq [OF db_inv_keys(1) [OF reachable_db_inv [OF assms(1)]] _ assms(2)] assms(3) by force
qed

section \<open>The two writes of a decision that race with a lock\<close>

lemma decision_transition_commits:
  assumes inv: "db_inv H db" and dec: "decisions_repo_get_for_workspace w i db = Some dec"
    and mem: "decision_require_membership (u_id me) w db = Inr m"
    and t: "can_write_decisions (m_role m)" "d_status dec \<noteq> D_LOCKED" "target \<in> decision_ALLOWED_TRANSITIONS (d_status dec)"
    and ev: "emitter env \<and> d_status dec = D_DRAFT \<and> target = D_ACTIVE \<longrightarrow>
      fresh env 0 \<notin> x_id ` set (outbox db) \<and> \<not> staged DECISION_ACTIVATED (d_id dec) (outbox db)"
  shows "\<exists>r db'. decision_transition env me w i target db = Inr (r, db') \<and>
      r = dec\<lparr>d_status := target, d_closed_at := (if target = D_CLOSED then Some (now env) else None),
               d_archived_at := (if target = D_ARCHIVED then Some (now env) else None),
               d_updated_at := db_now env\<rparr> \<and>
      db' = db\<lparr>decisions := store d_id r (decisions db), outbox := outbox db', published := published db'\<rparr> \<and>
      emitted (emitter env \<and> d_status dec = D_DRAFT \<and> target = D_ACTIVE) w DECISION_ACTIVATED (d_id dec)
        (decision_activated_payload env me w dec) db db'"
proof -
  let ?c = "if target = D_CLOSED then Some (now env) else None" and ?a = "if target = D_ARCHIVED then Some (now env) else None"
  have row: "decision_row_ok dec" by (rule decision_get_row [OF db_invD(2) [OF inv] dec])
  have look: "lookup d_id (d_id dec) (decisions db) = Some dec"
    by (rule decision_get_lookup [OF db_inv_keys(1) [OF inv] dec])
  have "ck_decisions_locked_state (decision_moved env target dec)"
    using decision_moved_ok(1) [OF row t(3)] by (simp add: decision_row_ok_def)
  then have commit: "\<exists>db2. decisions_repo_transition env dec target ?c ?a (db\<lparr>outbox := xs\<rparr>) = Inr (decision_moved env target dec, db2)"
    for xs using look by (auto simp: decisions_repo_transition_def save_decision_Inr decision_moved_def)
  have "\<exists>db'. with_event (emitter env \<and> d_status dec = D_DRAFT \<and> target = D_ACTIVE)
      (emitter_stage env (fresh env 0) w DECISION_ACTIVATED (d_id dec) (decision_activated_payload env me w dec))
      (decisions_repo_transition env dec target ?c ?a) db = Inr (decision_moved env target dec, db')"
  proof (cases "emitter env \<and> d_status dec = D_DRAFT \<and> target = D_ACTIVE")
    case True
    then obtain x where "emitter_stage env (fresh env 0) w DECISION_ACTIVATED (d_id dec)
        (decision_activated_payload env me w dec) db = Inr (x, db\<lparr>outbox := outbox db @ [x]\<rparr>)"
      using ev unfolding emitter_stage_Inr by blast
    then show ?thesis using True commit [of "outbox db @ [x]"] by (auto simp: with_event_def)
  next
    case False
    then show ?thesis using commit [of "outbox db"] by (auto simp: with_event_def)
  qed
  then obtain db' where run: "decision_transition env me w i target db = Inr (decision_moved env target dec, db')"
    using dec t by (auto simp: decision_transition_def mem require_decision_def Let_def simp del: decision_require_membership_Inr)
  have moved: "decision_moved env target dec = dec\<lparr>d_status := target, d_closed_at := ?c, d_archived_at := ?a, d_updated_at := db_now env\<rparr>"
    using t(3) decision_cycle.step_changes [of target "d_status dec"] by (intro decision_moved_fields) blast
  from run db_inv_keys(1) [OF inv] obtain d xs ys where "decisions_repo_get_for_workspace w i db = Some d"
    and "db' = db\<lparr>decisions := store d_id (decision_moved env target dec) (decisions db), outbox := xs, published := ys\<rparr>"
    and "emitted (emitter env \<and> d_status d = D_DRAFT \<and> target = D_ACTIVE) w DECISION_ACTIVATED (d_id d)
           (decision_activated_payload env me w d) db db'"
    by (rule decision_transition_InrD)
  with run moved dec show ?thesis by (intro exI [of _ "decision_moved env target dec"] exI [of _ db']) simp
qed

text \<open>An edit from a copy that was loaded before the lock writes to the locked row: no CHECK compares the text.\<close>

lemma stale_title_accepted:
  assumes look: "lookup d_id (d_id stale) (decisions db) = Some dec" and ck: "ck_decisions_locked_state dec"
    and new: "d_title stale \<noteq> text"
  shows "\<exists>r db'. decisions_repo_update env stale (\<lambda>d. d\<lparr>d_title := text\<rparr>) db = Inr (r, db') \<and>
    r = dec\<lparr>d_title := text, d_updated_at := db_now env\<rparr> \<and> r \<in> set (decisions db')"
proof -
  let ?r = "dec\<lparr>d_title := text, d_updated_at := db_now env\<rparr>"
  have "d_title (stale\<lparr>d_title := text\<rparr>) \<noteq> d_title stale" using new by simp
  then have "stale\<lparr>d_title := text\<rparr> \<noteq> stale" by metis
  then have "write_decision env stale (stale\<lparr>d_title := text\<rparr>) dec = ?r"
    using new by (simp add: write_decision_def put_if_dirty_def)
  then have "decisions_repo_update env stale (\<lambda>d. d\<lparr>d_title := text\<rparr>) db = Inr (?r, db\<lparr>decisions := store d_id ?r (decisions db)\<rparr>)"
    using look ck by (simp add: decisions_repo_update_def save_decision_def flush_update_def ck_decisions_locked_state_def)
  moreover have "?r \<in> set (store d_id ?r (decisions db))"
    using lookup_SomeD [OF look] imageI [of dec "set (decisions db)" d_id] by (simp add: set_store)
  ultimately show ?thesis by simp
qed

end
