(* ===== verification/Validation.thy ===== *)
theory Validation imports Action_Reviews Attachments begin

text \<open>
  What the request schemas do with data they have accepted before: a normalised request, sent back as it was stored, is
  accepted and comes out unchanged.
\<close>

section \<open>Fields\<close>

named_theorems stable \<open>validators that leave what they accepted alone\<close>

lemmas [stable] = stable_fields

lemma int_field_stable [stable]: "int_field lo hi v = Inr w \<Longrightarrow> int_field lo hi w = Inr w"
  by (auto simp: int_field_def)

lemma patch_field_stable: "patch_field f p = Inr q \<Longrightarrow> (\<And>s v. f s = Inr v \<Longrightarrow> f v = Inr v) \<Longrightarrow> patch_field f q = Inr q"
  by (induction f p rule: patch_field.induct) auto

lemma patch_optional_stable:
  "patch_optional f p = Inr q \<Longrightarrow> (\<And>s v. f s = Inr v \<Longrightarrow> f v = Inr v) \<Longrightarrow> patch_optional f q = Inr q"
  by (induction f p rule: patch_optional.induct) auto

lemma patch_timezone [simp]: "patch_optional require_timezone (map_patch Aware p) = Inr p"
  by (cases p) simp_all

lemmas [stable] =
  patch_field_stable [where f = "normalized_field lo hi" for lo hi, OF _ stable_fields(1)]
  patch_field_stable [where f = "int_field lo hi" for lo hi, OF _ int_field_stable]
  patch_optional_stable [where f = "optional_field py_strip hi" for hi, OF _ stable_fields(2)]
  patch_optional_stable [where f = "optional_field normalize_text hi" for hi, OF _ stable_fields(3)]

lemma bindE_Inr_intro: "x = Inr a \<Longrightarrow> f a = Inr b \<Longrightarrow> bindE x f = Inr b"
  by simp

section \<open>Schemas\<close>

lemma workspace_requests_stable:
  "WorkspaceCreateRequest wb = Inr w \<Longrightarrow> WorkspaceCreateRequest w = Inr w"
  "WorkspaceUpdateRequest vb = Inr v \<Longrightarrow> WorkspaceUpdateRequest v = Inr v"
  by (auto simp: WorkspaceCreateRequest_def WorkspaceUpdateRequest_def intro!: bindE_Inr_intro intro: stable)

lemma decision_requests_stable:
  "DecisionCreateRequest b = Inr p \<Longrightarrow>
     DecisionCreateRequest \<lparr>dcb_title = dc_title p, dcb_summary = dc_summary p, dcb_category = dc_category p,
       dcb_due_at = map_option Aware (dc_due_at p), dcb_review_at = map_option Aware (dc_review_at p)\<rparr> = Inr p"
  "DecisionUpdateRequest c = Inr q \<Longrightarrow>
     DecisionUpdateRequest \<lparr>dub_title = du_title q, dub_summary = du_summary q, dub_category = du_category q,
       dub_due_at = map_patch Aware (du_due_at q), dub_review_at = map_patch Aware (du_review_at q)\<rparr> = Inr q"
  by (auto simp: DecisionCreateRequest_def DecisionUpdateRequest_def intro!: bindE_Inr_intro intro: stable)

lemma proposal_requests_stable:
  "ProposalCreateRequest b = Inr p \<Longrightarrow> ProposalCreateRequest p = Inr p"
  "ProposalUpdateRequest c = Inr q \<Longrightarrow> ProposalUpdateRequest q = Inr q"
  "CriterionCreateRequest d = Inr r \<Longrightarrow> CriterionCreateRequest r = Inr r"
  "CriterionUpdateRequest e = Inr s \<Longrightarrow> CriterionUpdateRequest s = Inr s"
  "CriterionReorderRequest ids = Inr js \<Longrightarrow> CriterionReorderRequest js = Inr js"
  "ProposalScoreUpsertRequest f = Inr t \<Longrightarrow> ProposalScoreUpsertRequest t = Inr t"
  by (auto simp: ProposalCreateRequest_def ProposalUpdateRequest_def CriterionCreateRequest_def CriterionUpdateRequest_def
      CriterionReorderRequest_def ProposalScoreUpsertRequest_def intro!: bindE_Inr_intro intro: stable)

lemma objection_requests_stable:
  "ObjectionCreateRequest b = Inr p \<Longrightarrow> ObjectionCreateRequest p = Inr p"
  "ObjectionUpdateRequest c = Inr q \<Longrightarrow> ObjectionUpdateRequest q = Inr q"
  "ObjectionTransitionRequest status msg = Inr (status', msg') \<Longrightarrow> ObjectionTransitionRequest status' msg' = Inr (status', msg')"
  using length_py_strip [of msg]
  by (auto simp: ObjectionCreateRequest_def ObjectionUpdateRequest_def ObjectionTransitionRequest_def field_length_def Let_def
      intro!: bindE_Inr_intro intro: stable)

lemma action_requests_stable:
  "ActionCreateRequest b = Inr p \<Longrightarrow>
     ActionCreateRequest \<lparr>acb_title = ac_title p, acb_description = ac_description p, acb_assignee_id = ac_assignee_id p,
       acb_due_at = map_option Aware (ac_due_at p)\<rparr> = Inr p"
  "ActionUpdateRequest c = Inr q \<Longrightarrow>
     ActionUpdateRequest \<lparr>aub_title = au_title q, aub_description = au_description q, aub_assignee_id = au_assignee_id q,
       aub_due_at = map_patch Aware (au_due_at q)\<rparr> = Inr q"
  by (auto simp: ActionCreateRequest_def ActionUpdateRequest_def intro!: bindE_Inr_intro intro: stable)

lemma review_requests_stable:
  "ReviewCreateRequest b = Inr p \<Longrightarrow>
     ReviewCreateRequest \<lparr>rcb_scheduled_for = Aware (rc_scheduled_for p), rcb_notes = rc_notes p\<rparr> = Inr p"
  "ReviewUpdateRequest c = Inr q \<Longrightarrow>
     ReviewUpdateRequest \<lparr>rub_scheduled_for = map_patch Aware (ru_scheduled_for q), rub_notes = ru_notes q\<rparr> = Inr q"
  "ReviewOutcomeRequest d = Inr r \<Longrightarrow> ReviewOutcomeRequest r = Inr r"
  by (auto simp: ReviewCreateRequest_def ReviewUpdateRequest_def intro!: bindE_Inr_intro intro: stable ReviewOutcomeRequest_stable)

text \<open>The name of an attachment is stripped before its directories are cut off, so a blank can come to stand first.\<close>

lemma filename_not_stable:
  "normalize_filename ''x/ a'' = Inr '' a''" "normalize_filename '' a'' = Inr ''a''"
  by code_simp+

end
