(* ===== verification/Outsiders.thy ===== *)
theory Outsiders imports Action_Reviews Attachments Integrations begin

text \<open>
  Every request that is about one workspace, as the exception it ends in. Each starts with the membership of
  the caller, so somebody without one always gets the same exception.
\<close>

text \<open>The exception of a result, and \<open>None\<close> when the request succeeds.\<close>

definition refusal :: "failure + 'a \<Rightarrow> failure option" where
  "refusal r = (case r of Inl e \<Rightarrow> Some e | Inr x \<Rightarrow> None)"

text \<open>\<open>workspace_request me w db e\<close>: some request of \<open>me\<close> about the workspace \<open>w\<close> ends in \<open>e\<close> in the state \<open>db\<close>.\<close>

inductive workspace_request :: "user \<Rightarrow> uuid \<Rightarrow> db \<Rightarrow> failure option \<Rightarrow> bool" for me :: user and w :: uuid and db :: db where
  workspace_get: "workspace_request me w db (refusal (lift_error (workspace_get me w db)))"
| workspace_update: "workspace_request me w db (refusal (lift_error (workspace_update env me w payload db)))"
| workspace_delete: "workspace_request me w db (refusal (lift_error (workspace_delete me w db)))"
| workspace_list_members: "workspace_request me w db (refusal (lift_error (workspace_list_members me w db)))"
| workspace_add_member: "workspace_request me w db (refusal (lift_error (workspace_add_member env me w email role db)))"
| workspace_update_member_role: "workspace_request me w db (refusal (lift_error (workspace_update_member_role me w member role db)))"
| workspace_remove_member: "workspace_request me w db (refusal (lift_error (workspace_remove_member me w member db)))"
| decision_create: "workspace_request me w db (refusal (lift_error (decision_create env me w payload db)))"
| decision_list: "workspace_request me w db (refusal (lift_error (decision_list me w status category limit offset db)))"
| decision_get: "workspace_request me w db (refusal (lift_error (decision_get me w i db)))"
| decision_update: "workspace_request me w db (refusal (lift_error (decision_update env me w i payload db)))"
| decision_transition: "workspace_request me w db (refusal (lift_error (decision_transition env me w i target db)))"
| decision_delete: "workspace_request me w db (refusal (lift_error (decision_delete me w i db)))"
| proposal_create: "workspace_request me w db (refusal (lift_error (proposal_create env me w d payload db)))"
| proposal_list: "workspace_request me w db (refusal (lift_error (proposal_list me w d status db)))"
| proposal_get: "workspace_request me w db (refusal (lift_error (proposal_get me w d i db)))"
| proposal_update: "workspace_request me w db (refusal (lift_error (proposal_update env me w d i payload db)))"
| proposal_transition: "workspace_request me w db (refusal (lift_error (proposal_transition env me w d i target db)))"
| proposal_delete: "workspace_request me w db (refusal (lift_error (proposal_delete me w d i db)))"
| criterion_create: "workspace_request me w db (refusal (lift_error (criterion_create env me w d payload db)))"
| criterion_list: "workspace_request me w db (refusal (lift_error (criterion_list me w d db)))"
| criterion_update: "workspace_request me w db (refusal (lift_error (criterion_update env me w d i payload db)))"
| criterion_reorder: "workspace_request me w db (refusal (lift_error (criterion_reorder env me w d ids db)))"
| criterion_delete: "workspace_request me w db (refusal (lift_error (criterion_delete me w d i db)))"
| score_upsert: "workspace_request me w db (refusal (lift_error (score_upsert env me w d pid cid payload db)))"
| proposal_compare: "workspace_request me w db (refusal (lift_error (proposal_compare me w d db)))"
| objection_create: "workspace_request me w db (refusal (lift_error (objection_create env me w d p payload db)))"
| objection_list: "workspace_request me w db (refusal (lift_error (objection_list me w d p severity status db)))"
| objection_get: "workspace_request me w db (refusal (lift_error (objection_get me w d p i db)))"
| objection_update: "workspace_request me w db (refusal (lift_error (objection_update env me w d p i payload db)))"
| objection_transition: "workspace_request me w db (refusal (lift_error (objection_transition env me w d p i target note db)))"
| objection_list_history: "workspace_request me w db (refusal (lift_error (objection_list_history me w d p i db)))"
| voting_create_session: "workspace_request me w db (refusal (lift_error (voting_create_session env me w d payload db)))"
| voting_list_sessions: "workspace_request me w db (refusal (lift_error (voting_list_sessions me w d db)))"
| voting_get_session: "workspace_request me w db (refusal (lift_error (voting_get_session me w d i db)))"
| voting_open_session: "workspace_request me w db (refusal (lift_error (voting_open_session env me w d i db)))"
| voting_cast_vote: "workspace_request me w db (refusal (lift_error (voting_cast_vote env me w d i prop db)))"
| voting_close_session: "workspace_request me w db (refusal (lift_error (voting_close_session env me w d i db)))"
| voting_cancel_session: "workspace_request me w db (refusal (lift_error (voting_cancel_session env me w d i db)))"
| voting_get_result: "workspace_request me w db (refusal (lift_error (voting_get_result me w d i db)))"
| lock_create: "workspace_request me w db (refusal (lift_error (lock_create env me w d session_id db)))"
| lock_get: "workspace_request me w db (refusal (lift_error (lock_get me w d db)))"
| lock_verify: "workspace_request me w db (refusal (lift_error (lock_verify env me w d db)))"
| action_create: "workspace_request me w db (refusal (lift_error (action_create env me w d payload db)))"
| action_list: "workspace_request me w db (refusal (lift_error (action_list me w d status assignee db)))"
| action_get: "workspace_request me w db (refusal (lift_error (action_get me w d i db)))"
| action_update: "workspace_request me w db (refusal (lift_error (action_update env me w d i payload db)))"
| action_transition: "workspace_request me w db (refusal (lift_error (action_transition env me w d i target db)))"
| review_create: "workspace_request me w db (refusal (lift_error (review_create env me w d payload db)))"
| review_list: "workspace_request me w db (refusal (lift_error (review_list me w d db)))"
| review_get: "workspace_request me w db (refusal (lift_error (review_get me w d i db)))"
| review_update: "workspace_request me w db (refusal (lift_error (review_update env me w d i payload db)))"
| review_cancel: "workspace_request me w db (refusal (lift_error (review_cancel env me w d i db)))"
| review_complete: "workspace_request me w db (refusal (lift_error (review_complete env me w d i payload db)))"
| revision_list: "workspace_request me w db (refusal (lift_error (revision_list me w d db)))"
| revision_get: "workspace_request me w db (refusal (lift_error (revision_get me w d i db)))"
| attachment_create_upload: "workspace_request me w db (refusal (lift_error (attachment_create_upload cfg oc env me w payload db)))"
| attachment_complete_upload: "workspace_request me w db (refusal (lift_error (fst (attachment_complete_upload accepts env me w i db))))"
| attachment_list: "workspace_request me w db (refusal (lift_error (attachment_list me w decision_id proposal_id db)))"
| attachment_get: "workspace_request me w db (refusal (lift_error (attachment_get me w i db)))"
| attachment_download: "workspace_request me w db (refusal (lift_error (attachment_download cfg oc env me w i db)))"
| attachment_delete: "workspace_request me w db (refusal (lift_error (attachment_delete oc env me w i db)))"
| integration_authorize: "workspace_request me w db (refusal (integration_authorize cfg providers new_fernet env verifier issue me w provider_name return_path db))"
| integration_list_connections: "workspace_request me w db (refusal (lift_error (integration_list_connections me w db)))"
| integration_get_connection: "workspace_request me w db (refusal (lift_error (integration_get_connection me w i db)))"
| integration_list_destinations: "workspace_request me w db (refusal (integration_list_destinations cfg providers new_fernet env me w i db))"
| integration_list_subscriptions: "workspace_request me w db (refusal (lift_error (integration_list_subscriptions env me w i db)))"
| integration_update_subscriptions: "workspace_request me w db (refusal (lift_error (integration_update_subscriptions env me w i updates db)))"
| integration_send_test: "workspace_request me w db (refusal (integration_send_test cfg providers new_fernet env me w i destination_id db))"
| integration_list_deliveries: "workspace_request me w db (refusal (lift_error (integration_list_deliveries me w i limit offset db)))"
| integration_disconnect: "workspace_request me w db (refusal (integration_disconnect cfg providers new_fernet env me w i db))"

section \<open>The membership check comes first\<close>

lemma refusal_simps [simp]: "refusal (Inl e) = Some e" "refusal (Inr x) = None"
  by (simp_all add: refusal_def)

lemma lift_error_Inl [simp]: "lift_error (Inl e) = Inl (Raised e [])"
  by (simp add: lift_error_def)

lemma attachment_membership_outsider:
  assumes "workspaces_repo_get_membership w user db = None"
  shows "attachment_membership user w db = Inl WorkspaceNotFoundError"
  using assms by (cases "workspaces_repo_get_by_id w db") (simp_all add: attachment_membership_def)

lemma integration_outsider:
  assumes "workspaces_repo_get_membership w user db = None"
  shows "integration_require_membership user w db = Inl WorkspaceNotFoundError"
    and "integration_require_manager user w db = Inl WorkspaceNotFoundError"
  using assms by (cases "workspaces_repo_get_by_id w db"; simp add: integration_require_membership_def integration_require_manager_def)+

text \<open>The operations, component by component.\<close>

lemma outsider_workspaces:
  assumes "workspaces_repo_get_membership w (u_id me) db = None"
  shows "workspace_get me w db = Inl WorkspaceNotFoundError"
    and "workspace_update env me w payload1 db = Inl WorkspaceNotFoundError"
    and "workspace_delete me w db = Inl WorkspaceNotFoundError"
    and "workspace_list_members me w db = Inl WorkspaceNotFoundError"
    and "workspace_add_member env me w email4 role4 db = Inl WorkspaceNotFoundError"
    and "workspace_update_member_role me w member5 role5 db = Inl WorkspaceNotFoundError"
    and "workspace_remove_member me w member6 db = Inl WorkspaceNotFoundError"
  using require_membership_outsider [OF assms]
  by (simp_all add: workspace_ops del: require_membership_Inr)

lemma outsider_decisions:
  assumes "workspaces_repo_get_membership w (u_id me) db = None"
  shows "decision_create env me w payload0 db = Inl WorkspaceNotFoundError"
    and "decision_list me w status1 category1 limit1 offset1 db = Inl WorkspaceNotFoundError"
    and "decision_get me w i db = Inl WorkspaceNotFoundError"
    and "decision_update env me w i payload3 db = Inl WorkspaceNotFoundError"
    and "decision_transition env me w i target4 db = Inl WorkspaceNotFoundError"
    and "decision_delete me w i db = Inl WorkspaceNotFoundError"
  using decision_require_membership_outsider [OF assms]
  by (simp_all add: decision_ops del: decision_require_membership_Inr)

lemma outsider_proposals:
  assumes "workspaces_repo_get_membership w (u_id me) db = None"
  shows "proposal_create env me w d payload0 db = Inl WorkspaceNotFoundError"
    and "proposal_list me w d status1 db = Inl WorkspaceNotFoundError"
    and "proposal_get me w d i db = Inl WorkspaceNotFoundError"
    and "proposal_update env me w d i payload3 db = Inl WorkspaceNotFoundError"
    and "proposal_transition env me w d i target4 db = Inl WorkspaceNotFoundError"
    and "proposal_delete me w d i db = Inl WorkspaceNotFoundError"
    and "criterion_create env me w d payload6 db = Inl WorkspaceNotFoundError"
    and "criterion_list me w d db = Inl WorkspaceNotFoundError"
    and "criterion_update env me w d i payload8 db = Inl WorkspaceNotFoundError"
    and "criterion_reorder env me w d ids9 db = Inl WorkspaceNotFoundError"
    and "criterion_delete me w d i db = Inl WorkspaceNotFoundError"
    and "score_upsert env me w d pid11 cid11 payload11 db = Inl WorkspaceNotFoundError"
    and "proposal_compare me w d db = Inl WorkspaceNotFoundError"
  using decision_context_outsider [OF assms]
  by (simp_all add: proposal_ops del: decision_context_Inr)

lemma outsider_objections:
  assumes "workspaces_repo_get_membership w (u_id me) db = None"
  shows "objection_create env me w d p0 payload0 db = Inl WorkspaceNotFoundError"
    and "objection_list me w d p1 severity1 status1 db = Inl WorkspaceNotFoundError"
    and "objection_get me w d p2 i db = Inl WorkspaceNotFoundError"
    and "objection_update env me w d p3 i payload3 db = Inl WorkspaceNotFoundError"
    and "objection_transition env me w d p4 i target4 note4 db = Inl WorkspaceNotFoundError"
    and "objection_list_history me w d p5 i db = Inl WorkspaceNotFoundError"
  using objection_context_outsider [OF assms]
  by (simp_all add: objection_ops del: objection_context_Inr)

lemma outsider_votings:
  assumes "workspaces_repo_get_membership w (u_id me) db = None"
  shows "voting_create_session env me w d payload0 db = Inl WorkspaceNotFoundError"
    and "voting_list_sessions me w d db = Inl WorkspaceNotFoundError"
    and "voting_get_session me w d i db = Inl WorkspaceNotFoundError"
    and "voting_open_session env me w d i db = Inl WorkspaceNotFoundError"
    and "voting_cast_vote env me w d i prop4 db = Inl WorkspaceNotFoundError"
    and "voting_close_session env me w d i db = Inl WorkspaceNotFoundError"
    and "voting_cancel_session env me w d i db = Inl WorkspaceNotFoundError"
    and "voting_get_result me w d i db = Inl WorkspaceNotFoundError"
  using decision_context_outsider [OF assms]
  by (simp_all add: voting_ops del: decision_context_Inr)

lemma outsider_locks:
  assumes "workspaces_repo_get_membership w (u_id me) db = None"
  shows "lock_create env me w d session_id0 db = Inl WorkspaceNotFoundError"
    and "lock_get me w d db = Inl WorkspaceNotFoundError"
    and "lock_verify env me w d db = Inl WorkspaceNotFoundError"
  using decision_context_outsider [OF assms]
  by (simp_all add: lock_ops del: decision_context_Inr)

lemma outsider_records:
  assumes "workspaces_repo_get_membership w (u_id me) db = None"
  shows "action_create env me w d payload0 db = Inl WorkspaceNotFoundError"
    and "action_list me w d status1 assignee1 db = Inl WorkspaceNotFoundError"
    and "action_get me w d i db = Inl WorkspaceNotFoundError"
    and "action_update env me w d i payload3 db = Inl WorkspaceNotFoundError"
    and "action_transition env me w d i target4 db = Inl WorkspaceNotFoundError"
    and "review_create env me w d payload5 db = Inl WorkspaceNotFoundError"
    and "review_list me w d db = Inl WorkspaceNotFoundError"
    and "review_get me w d i db = Inl WorkspaceNotFoundError"
    and "review_update env me w d i payload8 db = Inl WorkspaceNotFoundError"
    and "review_cancel env me w d i db = Inl WorkspaceNotFoundError"
    and "review_complete env me w d i payload10 db = Inl WorkspaceNotFoundError"
    and "revision_list me w d db = Inl WorkspaceNotFoundError"
    and "revision_get me w d i db = Inl WorkspaceNotFoundError"
  using decision_context_outsider [OF assms]
  by (simp_all add: record_ops del: decision_context_Inr)

lemma outsider_attachments:
  assumes "workspaces_repo_get_membership w (u_id me) db = None"
  shows "attachment_create_upload cfg oc0 env me w payload0 db = Inl WorkspaceNotFoundError"
    and "fst (attachment_complete_upload accepts1 env me w i db) = Inl WorkspaceNotFoundError"
    and "attachment_list me w decision_id2 proposal_id2 db = Inl WorkspaceNotFoundError"
    and "attachment_get me w i db = Inl WorkspaceNotFoundError"
    and "attachment_download cfg oc4 env me w i db = Inl WorkspaceNotFoundError"
    and "attachment_delete oc5 env me w i db = Inl WorkspaceNotFoundError"
  by (simp_all add: attachment_create_upload_def attachment_complete_upload_def attachment_list_def attachment_get_def attachment_download_def attachment_delete_def attachment_membership_outsider [OF assms])

lemma outsider_integrations:
  assumes "workspaces_repo_get_membership w (u_id me) db = None"
  shows "integration_authorize cfg providers0 new_fernet0 env verifier0 issue0 me w provider_name0 return_path0 db = Inl (Raised WorkspaceNotFoundError [])"
    and "integration_list_connections me w db = Inl WorkspaceNotFoundError"
    and "integration_get_connection me w i db = Inl WorkspaceNotFoundError"
    and "integration_list_destinations cfg providers3 new_fernet3 env me w i db = Inl (Raised WorkspaceNotFoundError [])"
    and "integration_list_subscriptions env me w i db = Inl WorkspaceNotFoundError"
    and "integration_update_subscriptions env me w i updates5 db = Inl WorkspaceNotFoundError"
    and "integration_send_test cfg providers6 new_fernet6 env me w i destination_id6 db = Inl (Raised WorkspaceNotFoundError [])"
    and "integration_list_deliveries me w i limit7 offset7 db = Inl WorkspaceNotFoundError"
    and "integration_disconnect cfg providers8 new_fernet8 env me w i db = Inl (Raised WorkspaceNotFoundError [])"
  by (simp_all add: integration_authorize_def integration_list_connections_def integration_get_connection_def integration_list_destinations_def integration_list_subscriptions_def integration_update_subscriptions_def integration_send_test_def integration_list_deliveries_def integration_disconnect_def manager_connection_def integration_outsider [OF assms])

lemma workspace_request_outsider:
  assumes "workspace_request me w db e" and none: "workspaces_repo_get_membership w (u_id me) db = None"
  shows "e = Some (Raised WorkspaceNotFoundError [])"
  using assms(1)
  by cases (simp_all add: outsider_workspaces [OF none] outsider_decisions [OF none] outsider_proposals [OF none] outsider_objections [OF none] outsider_votings [OF none] outsider_locks [OF none] outsider_records [OF none] outsider_attachments [OF none] outsider_integrations [OF none])

end
