(* ===== verification/Demo.thy ===== *)
theory Demo imports App begin

text \<open>
  One run of the application, written out state by state: Ada founds a workspace and adds Bob, they
  put a decision with two proposals and an objection to the vote, close it and lock the decision.
  The states are the concrete inputs at which properties are applied.
\<close>

definition demo_digest :: "string \<Rightarrow> string" where
  "demo_digest s = replicate 64 (if s = [] then CHR ''0'' else CHR ''1'')"

definition demo_env :: "nat \<Rightarrow> env" where
  "demo_env k = \<lparr>now = int k, db_now = int k, fresh = (\<lambda>n. 100 * k + n), emitter = False,
                 sha256_hex = demo_digest, revision_first = False\<rparr>"

definition ada :: user where
  "ada = \<lparr>u_id = 1, u_email = ''ada'', u_password_hash = ''h1'', u_display_name = ''Ada'', u_avatar_url = None,
          u_is_active = True, u_is_email_verified = True, u_auth_version = 1, u_created_at = 0, u_updated_at = 0\<rparr>"

definition bob :: user where
  "bob = \<lparr>u_id = 2, u_email = ''bob'', u_password_hash = ''h2'', u_display_name = ''Bob'', u_avatar_url = None,
          u_is_active = True, u_is_email_verified = True, u_auth_version = 1, u_created_at = 0, u_updated_at = 0\<rparr>"

definition demo_workspace :: workspace where
  "demo_workspace = \<lparr>w_id = 100, w_name = ''Acme'', w_description = None, w_owner_id = 1, w_created_at = 1,
                     w_updated_at = 1\<rparr>"

definition ada_member :: workspace_member where
  "ada_member = \<lparr>m_id = 101, m_workspace_id = 100, m_user_id = 1, m_role = OWNER, m_joined_at = 1\<rparr>"

definition bob_member :: workspace_member where
  "bob_member = \<lparr>m_id = 200, m_workspace_id = 100, m_user_id = 2, m_role = MEMBER, m_joined_at = 2\<rparr>"

definition demo_decision :: decision where
  "demo_decision = \<lparr>d_id = 300, d_workspace_id = 100, d_created_by_id = 1, d_title = ''Queue'', d_summary = None,
     d_category = TECHNOLOGY, d_status = D_DRAFT, d_due_at = None, d_review_at = None, d_closed_at = None,
     d_archived_at = None, d_locked_at = None, d_created_at = 3, d_updated_at = 3\<rparr>"

definition demo_active :: decision where
  "demo_active = demo_decision\<lparr>d_status := D_ACTIVE, d_updated_at := 4\<rparr>"

definition demo_proposal :: "uuid \<Rightarrow> uuid \<Rightarrow> string \<Rightarrow> time \<Rightarrow> proposal" where
  "demo_proposal i author title t = \<lparr>p_id = i, p_decision_id = 300, p_created_by_id = author, p_title = title,
     p_summary = None, p_content = None, p_status = P_DRAFT, p_submitted_at = None, p_withdrawn_at = None,
     p_created_at = t, p_updated_at = t\<rparr>"

definition submitted :: "time \<Rightarrow> proposal \<Rightarrow> proposal" where
  "submitted t p = p\<lparr>p_status := P_SUBMITTED, p_submitted_at := Some t, p_updated_at := t\<rparr>"

definition kafka :: proposal where "kafka = demo_proposal 500 1 ''Kafka'' 5"
definition rabbit :: proposal where "rabbit = demo_proposal 600 2 ''Rabbit'' 6"

definition demo_objection :: objection where
  "demo_objection = \<lparr>o_id = 900, o_proposal_id = 500, o_created_by_id = 2, o_severity = MAJOR, o_status = O_OPEN,
     o_title = ''Cost'', o_description = ''Brokers'', o_resolution_note = None, o_resolved_by_id = None,
     o_resolved_at = None, o_created_at = 9, o_updated_at = 9\<rparr>"

definition demo_session :: voting_session where
  "demo_session = \<lparr>v_id = 1000, v_decision_id = 300, v_created_by_id = 1, v_status = V_DRAFT,
     v_quorum_percentage = 51, v_eligible_voter_count = 0, v_opened_at = None, v_closes_at = None,
     v_closed_at = None, v_cancelled_at = None, v_created_at = 10, v_updated_at = 10\<rparr>"

definition demo_open :: voting_session where
  "demo_open = demo_session\<lparr>v_status := V_OPEN, v_eligible_voter_count := 2, v_opened_at := Some 11, v_updated_at := 11\<rparr>"

definition demo_closed :: voting_session where
  "demo_closed = demo_open\<lparr>v_status := V_CLOSED, v_closed_at := Some 14, v_updated_at := 14\<rparr>"

definition demo_ballot :: "uuid \<Rightarrow> uuid \<Rightarrow> uuid \<Rightarrow> time \<Rightarrow> vote" where
  "demo_ballot i voter choice t =
     \<lparr>b_id = i, b_voting_session_id = 1000, b_voter_id = voter, b_proposal_id = choice, b_created_at = t\<rparr>"

section \<open>The states\<close>

definition demo0 :: db where "demo0 = empty_db\<lparr>users := [ada, bob]\<rparr>"
definition demo1 :: db where "demo1 = demo0\<lparr>workspaces := [demo_workspace], members := [ada_member]\<rparr>"
definition demo2 :: db where "demo2 = demo1\<lparr>members := [ada_member, bob_member]\<rparr>"
definition demo3 :: db where "demo3 = demo2\<lparr>decisions := [demo_decision]\<rparr>"
definition demo4 :: db where "demo4 = demo2\<lparr>decisions := [demo_active]\<rparr>"
definition demo5 :: db where "demo5 = demo4\<lparr>proposals := [kafka]\<rparr>"
definition demo6 :: db where "demo6 = demo4\<lparr>proposals := [kafka, rabbit]\<rparr>"
definition demo7 :: db where "demo7 = demo4\<lparr>proposals := [submitted 7 kafka, rabbit]\<rparr>"
definition demo8 :: db where "demo8 = demo4\<lparr>proposals := [submitted 7 kafka, submitted 8 rabbit]\<rparr>"
definition demo9 :: db where "demo9 = demo8\<lparr>objections := [demo_objection]\<rparr>"
definition demo10 :: db where "demo10 = demo9\<lparr>sessions := [demo_session]\<rparr>"
definition demo11 :: db where
  "demo11 = demo9\<lparr>sessions := [demo_open],
     eligible_voters := [\<lparr>ev_id = 1101, ev_voting_session_id = 1000, ev_user_id = 1, ev_created_at = 11\<rparr>,
                         \<lparr>ev_id = 1102, ev_voting_session_id = 1000, ev_user_id = 2, ev_created_at = 11\<rparr>],
     session_proposals := [\<lparr>sp_id = 1103, sp_voting_session_id = 1000, sp_proposal_id = 600, sp_created_at = 11\<rparr>,
                           \<lparr>sp_id = 1104, sp_voting_session_id = 1000, sp_proposal_id = 500, sp_created_at = 11\<rparr>]\<rparr>"
definition demo12 :: db where "demo12 = demo11\<lparr>votes := [demo_ballot 1200 1 500 12]\<rparr>"
definition demo13 :: db where "demo13 = demo11\<lparr>votes := [demo_ballot 1200 1 500 12, demo_ballot 1300 2 500 13]\<rparr>"
definition demo14 :: db where "demo14 = demo13\<lparr>sessions := [demo_closed]\<rparr>"

lemmas demo_row_defs = ada_def bob_def demo_workspace_def ada_member_def bob_member_def demo_decision_def
  demo_active_def demo_proposal_def submitted_def kafka_def rabbit_def demo_objection_def demo_session_def
  demo_open_def demo_closed_def demo_ballot_def

lemmas demo_db_defs = demo0_def demo1_def demo2_def demo3_def demo4_def demo5_def demo6_def demo7_def demo8_def
  demo9_def demo10_def demo11_def demo12_def demo13_def demo14_def empty_db_def

section \<open>The steps\<close>

lemma demo_env_fields [simp]:
  "now (demo_env k) = int k" "db_now (demo_env k) = int k" "fresh (demo_env k) n = 100 * k + n"
  "\<not> emitter (demo_env k)" "sha256_hex (demo_env k) = demo_digest" "\<not> revision_first (demo_env k)"
  by (simp_all add: demo_env_def)

lemma demo_workspace_found [simp]:
  "workspaces db = [demo_workspace] \<Longrightarrow> workspaces_repo_get_by_id 100 db = Some demo_workspace"
  "members db = [ada_member, bob_member] \<Longrightarrow> workspaces_repo_get_membership 100 (u_id ada) db = Some ada_member"
  "members db = [ada_member, bob_member] \<Longrightarrow> workspaces_repo_get_membership 100 (u_id bob) db = Some bob_member"
  by (simp_all add: workspaces_repo_get_by_id_def workspaces_repo_get_membership_def demo_row_defs)

lemma run1: "workspace_create (demo_env 1) ada \<lparr>wc_name = ''Acme'', wc_description = None\<rparr> demo0 = Inr (demo_workspace, demo1)"
  by (simp add: workspace_create_def workspaces_repo_create_def flush_insert_def uq_workspace_members_def demo_db_defs demo_row_defs)

lemma run2: "\<exists>r. workspace_add_member (demo_env 2) ada 100 ''bob'' AR_MEMBER demo1 = Inr (r, demo2)"
  by (simp add: workspace_add_member_def workspace_require_membership_def workspaces_repo_get_by_id_def
      workspaces_repo_get_membership_def workspaces_repo_add_member_def users_repo_get_by_email_def
      can_manage_workspace_def flush_insert_def uq_workspace_members_def lower_def lower_char_def
      demo_db_defs demo_row_defs Let_def)

lemma demo_body: "DecisionCreateRequest \<lparr>dcb_title = ''Queue'', dcb_summary = None, dcb_category = TECHNOLOGY,
    dcb_due_at = None, dcb_review_at = None\<rparr> =
  Inr \<lparr>dc_title = ''Queue'', dc_summary = None, dc_category = TECHNOLOGY, dc_due_at = None, dc_review_at = None\<rparr>"
  by code_simp

lemma run3: "decision_create (demo_env 3) ada 100 \<lparr>dc_title = ''Queue'', dc_summary = None, dc_category = TECHNOLOGY,
    dc_due_at = None, dc_review_at = None\<rparr> demo2 = Inr (demo_decision, demo3)"
  unfolding decision_create_Inr
  by (intro exI [of _ ada_member]) (simp add: demo_db_defs workspaces_repo_get_by_id_def workspaces_repo_get_membership_def
      can_write_decisions_def demo_row_defs)

lemma demo_members [simp]: "members demo2 = [ada_member, bob_member]" "workspaces demo2 = [demo_workspace]"
  by (simp_all add: demo_db_defs)

text \<open>Everything from \<open>demo4\<close> on holds the active decision; the context of a request on it.\<close>

definition demo_base :: "db \<Rightarrow> bool" where
  "demo_base db \<longleftrightarrow> workspaces db = [demo_workspace] \<and> members db = [ada_member, bob_member] \<and>
     decisions db = [demo_active]"

lemma demo_context:
  assumes "demo_base db"
  shows "decision_context (u_id ada) 100 300 db = Inr (ada_member, demo_active)"
    and "decision_context (u_id bob) 100 300 db = Inr (bob_member, demo_active)"
proof -
  have "decisions_repo_get_for_workspace 100 300 db = Some demo_active"
    using assms by (simp add: demo_base_def decisions_repo_get_for_workspace_def decision_for_workspace_def demo_row_defs)
  then show "decision_context (u_id ada) 100 300 db = Inr (ada_member, demo_active)"
    "decision_context (u_id bob) 100 300 db = Inr (bob_member, demo_active)"
    using assms by (simp_all add: demo_base_def)
qed

lemma demo_bases [simp]: "demo_base demo4" "demo_base demo5" "demo_base demo6" "demo_base demo7" "demo_base demo8"
  "demo_base demo9" "demo_base demo10" "demo_base demo11" "demo_base demo12" "demo_base demo13" "demo_base demo14"
  by (simp_all add: demo_base_def demo_db_defs)

lemma demo_permits [simp]:
  "require_mutable_decision demo_active = Inr ()" "objection_require_mutable_decision demo_active = Inr ()"
  "can_create_proposals (m_role ada_member)" "can_create_proposals (m_role bob_member)"
  "can_manage_voting (m_role ada_member)" "can_lock_decisions (m_role ada_member)"
  "can_create_objections (m_role bob_member)" "require_active_decision demo_active = Inr ()"
  by (simp_all add: require_mutable_decision_def proposal_MUTABLE_DECISION_STATUSES_def permission_defs demo_row_defs
      objection_require_mutable_decision_def objection_MUTABLE_DECISION_STATUSES_def require_active_decision_def)

lemma run4: "decision_transition (demo_env 4) ada 100 300 D_ACTIVE demo3 = Inr (demo_active, demo4)"
  by (simp add: decision_transition_def decision_require_membership_def workspaces_repo_get_by_id_def
      workspaces_repo_get_membership_def can_write_decisions_def require_decision_def decisions_repo_get_for_workspace_def
      decision_for_workspace_def decisions_repo_transition_def save_decision_def flush_update_def write_decision_def
      put_if_dirty_def ck_decisions_locked_state_def store_def demo_db_defs demo_row_defs)

lemma run5: "proposal_create (demo_env 5) ada 100 300 \<lparr>pc_title = ''Kafka'', pc_summary = None, pc_content = None\<rparr> demo4
    = Inr (kafka, demo5)"
  unfolding proposal_create_def demo_context(1) [OF demo_bases(1)]
  by (simp add: proposals_repo_create_def flush_insert_def demo_db_defs) (simp add: demo_row_defs)

lemma run6: "proposal_create (demo_env 6) bob 100 300 \<lparr>pc_title = ''Rabbit'', pc_summary = None, pc_content = None\<rparr> demo5
    = Inr (rabbit, demo6)"
  unfolding proposal_create_def demo_context(2) [OF demo_bases(2)]
  by (simp add: proposals_repo_create_def flush_insert_def demo_db_defs) (simp add: demo_row_defs)

lemma run7: "proposal_transition (demo_env 7) ada 100 300 500 P_SUBMITTED demo6 = Inr (submitted 7 kafka, demo7)"
  unfolding proposal_transition_def demo_context(1) [OF demo_bases(3)]
  by (simp add: require_proposal_def proposals_repo_get_for_decision_def proposal_for_decision_def
      proposals_repo_update_def flush_update_def write_proposal_def put_if_dirty_def store_def can_manage_proposal_def
      demo_db_defs demo_row_defs)

lemma run8: "proposal_transition (demo_env 8) bob 100 300 600 P_SUBMITTED demo7 = Inr (submitted 8 rabbit, demo8)"
  unfolding proposal_transition_def demo_context(2) [OF demo_bases(4)]
  by (simp add: require_proposal_def proposals_repo_get_for_decision_def proposal_for_decision_def
      proposals_repo_update_def flush_update_def write_proposal_def put_if_dirty_def store_def can_manage_proposal_def
      demo_db_defs demo_row_defs)

lemma run9: "objection_create (demo_env 9) bob 100 300 500
    \<lparr>oc_severity = MAJOR, oc_title = ''Cost'', oc_description = ''Brokers''\<rparr> demo8 = Inr (demo_objection, demo9)"
proof -
  have "proposals_repo_get_for_decision 300 500 demo8 = Some (submitted 7 kafka)"
    by (simp add: proposals_repo_get_for_decision_def proposal_for_decision_def permission_defs demo_db_defs demo_row_defs)
  then have "objection_context (u_id bob) 100 300 500 demo8 = Inr (bob_member, demo_active, submitted 7 kafka)"
    using demo_context(2) [OF demo_bases(5)] unfolding objection_context_Inr_iff by auto
  then show ?thesis
    by (simp add: objection_create_def objections_repo_create_def flush_insert_def ck_objections_resolution_state_def
        permission_defs demo_db_defs demo_row_defs)
qed

lemma run10: "voting_create_session (demo_env 10) ada 100 300 \<lparr>vc_quorum_percentage = 51, vc_closes_at = None\<rparr> demo9
    = Inr (demo_session, demo10)"
  unfolding voting_create_session_def demo_context(1) [OF demo_bases(6)]
  by (simp add: has_unfinished_for_decision_def voting_repo_create_def flush_insert_def ck_voting_sessions_def
      uq_one_unfinished_def unfinished_def on_integrity_error_def permission_defs demo_db_defs demo_row_defs)

lemma run11: "voting_open_session (demo_env 11) ada 100 300 1000 demo10 = Inr (demo_open, demo11)"
  unfolding voting_open_session_def demo_context(1) [OF demo_bases(7)]
  by (simp add: require_session_def voting_repo_get_for_decision_def session_for_decision_def
      has_open_blocking_for_decision_def proposals_repo_list_for_decision_def
      workspaces_repo_list_voting_eligible_user_ids_def on_integrity_error_def voting_repo_open_def save_session_def
      flush_update_def write_session_def put_if_dirty_def ck_voting_sessions_def uq_one_unfinished_def unfinished_def
      insert_all_def eligible_rows_def session_proposal_rows_def uq_eligible_voters_def uq_session_proposals_def
      store_def permission_defs demo_db_defs demo_row_defs)

lemma run12: "voting_cast_vote (demo_env 12) ada 100 300 1000 500 demo11 = Inr (demo_ballot 1200 1 500 12, demo12)"
  unfolding voting_cast_vote_def demo_context(1) [OF demo_bases(8)]
  by (simp add: require_session_def voting_repo_get_for_decision_def session_for_decision_def is_eligible_voter_def
      is_session_proposal_def voting_repo_create_vote_def flush_insert_def uq_votes_def on_integrity_error_def
      permission_defs demo_db_defs demo_row_defs)

lemma run13: "voting_cast_vote (demo_env 13) bob 100 300 1000 500 demo12 = Inr (demo_ballot 1300 2 500 13, demo13)"
  unfolding voting_cast_vote_def demo_context(2) [OF demo_bases(9)]
  by (simp add: require_session_def voting_repo_get_for_decision_def session_for_decision_def is_eligible_voter_def
      is_session_proposal_def voting_repo_create_vote_def flush_insert_def uq_votes_def on_integrity_error_def
      permission_defs demo_db_defs demo_row_defs)

lemma run14: "voting_close_session (demo_env 14) ada 100 300 1000 demo13 = Inr (demo_closed, demo14)"
  unfolding voting_close_session_def demo_context(1) [OF demo_bases(10)]
  by (simp add: require_session_def voting_repo_get_for_decision_def session_for_decision_def voting_repo_close_def
      save_session_def flush_update_def write_session_def put_if_dirty_def ck_voting_sessions_def uq_one_unfinished_def
      unfinished_def store_def permission_defs demo_db_defs demo_row_defs)

section \<open>The lock\<close>

lemma demo_tallies: "list_tallies 1000 demo14 = [(500, 2), (600, 0)]" "count_votes 1000 demo14 = 2"
  by (simp_all add: list_tallies_def count_votes_def demo_db_defs demo_row_defs)

lemma demo_required: "required_votes 2 51 = 2"
  by (simp add: required_votes_exact)

lemma demo_closed_fields [simp]: "v_id demo_closed = 1000" "v_status demo_closed = V_CLOSED"
  "v_eligible_voter_count demo_closed = 2" "v_quorum_percentage demo_closed = 51" "v_decision_id demo_closed = 300"
  by (simp_all add: demo_row_defs)

lemma demo_result:
  "vr_result_valid (voting_result_of demo_closed demo14)" "vr_quorum_met (voting_result_of demo_closed demo14)"
  "\<not> vr_is_tie (voting_result_of demo_closed demo14)"
  "vr_winner_proposal_id (voting_result_of demo_closed demo14) = Some 500"
  "map t_proposal_id (vr_tallies (voting_result_of demo_closed demo14)) = [500, 600]"
  by (simp_all add: voting_result_of_def demo_tallies demo_required Let_def leaders_def highest_votes_def)

abbreviation kafka_submitted :: proposal where "kafka_submitted \<equiv> submitted 7 kafka"

lemma demo_proposals:
  "proposals_repo_get_for_decision 300 500 demo14 = Some kafka_submitted"
  "proposals_repo_get_for_decision 300 600 demo14 = Some (submitted 8 rabbit)"
  by (simp_all add: proposals_repo_get_for_decision_def proposal_for_decision_def demo_db_defs demo_row_defs)

lemma demo_snapshot_built:
  "\<exists>j. build_snapshot demo_active kafka_submitted (voting_result_of demo_closed demo14) demo14 = Inr j"
proof -
  obtain t u where "vr_tallies (voting_result_of demo_closed demo14) = [t, u]" "t_proposal_id t = 500" "t_proposal_id u = 600"
    using demo_result(5) by auto
  moreover have "p_id kafka_submitted = 500" "d_id demo_active = 300" by (simp_all add: demo_row_defs)
  ultimately show ?thesis by (simp add: build_snapshot_def demo_proposals)
qed

definition demo_snapshot :: json where
  "demo_snapshot = projr (build_snapshot demo_active kafka_submitted (voting_result_of demo_closed demo14) demo14)"

lemma demo_snapshot: "build_snapshot demo_active kafka_submitted (voting_result_of demo_closed demo14) demo14 = Inr demo_snapshot"
  using demo_snapshot_built by (auto simp: demo_snapshot_def)

definition demo_lock :: decision_lock where
  "demo_lock = lock_row (demo_env 15) ada demo_active 1000 kafka_submitted demo_snapshot"

definition demo15 :: db where
  "demo15 = demo14\<lparr>decisions := [decision_locked (demo_env 15) demo_active], locks := [demo_lock]\<rparr>"

lemma demo_lockable: "lockable 1000 demo_closed kafka_submitted demo_snapshot demo_active demo14"
proof -
  have "voting_repo_get_for_decision 300 1000 demo14 = Some demo_closed" "\<not> has_open_blocking_for_decision 300 demo14"
    "locks demo14 = []"
    by (simp_all add: voting_repo_get_for_decision_def session_for_decision_def has_open_blocking_for_decision_def
        demo_db_defs demo_row_defs)
  moreover have "d_id demo_active = 300" "p_id kafka_submitted = 500" "d_status demo_active = D_ACTIVE"
    "p_status kafka_submitted = P_SUBMITTED"
    by (simp_all add: demo_row_defs)
  ultimately show ?thesis by (simp add: lockable_def demo_result demo_proposals demo_snapshot)
qed

lemma demo_digest_length [simp]: "length (demo_digest s) = 64"
  by (simp add: demo_digest_def)

lemma run15: "lock_create (demo_env 15) ada 100 300 1000 demo14 = Inr (demo_lock, demo15)"
proof -
  note ctx = demo_context(1) [OF demo_bases(11)] and able = demo_lockable
  have ids: "d_id demo_active = 300" by (simp add: demo_row_defs)
  have created: "locks_repo_create (demo_env 15) demo_lock demo_active 15 demo14 = Inr (demo_lock, demo15)"
  proof -
    have "decisions demo14 = [demo_active]" "locks demo14 = []" by (simp_all add: demo_db_defs)
    moreover have "ck_decision_locks [] demo_lock" by (simp add: ck_decision_locks_def demo_lock_def lock_row_def hash_snapshot_def)
    moreover have "ck_decisions_locked_state (decision_locked (demo_env 15) demo_active)"
      by (simp add: ck_decisions_locked_state_def)
    ultimately show ?thesis
      by (simp add: locks_repo_create_def save_decision_def flush_update_def store_def flush_insert_def demo15_def
          decision_locked_def on_integrity_error_def)
  qed
  show ?thesis
    using able ctx created
    by (simp add: lock_create_def lockable_def ids locks_repo_get_None_iff [symmetric] voting_get_result_def
        require_session_def on_integrity_error_def demo_lock_def lock_row_def Let_def)
qed

section \<open>All of them are reachable\<close>

lemma demo_requests:
  "ProposalCreateRequest \<lparr>pc_title = ''Kafka'', pc_summary = None, pc_content = None\<rparr> =
     Inr \<lparr>pc_title = ''Kafka'', pc_summary = None, pc_content = None\<rparr>"
  "ProposalCreateRequest \<lparr>pc_title = ''Rabbit'', pc_summary = None, pc_content = None\<rparr> =
     Inr \<lparr>pc_title = ''Rabbit'', pc_summary = None, pc_content = None\<rparr>"
  "ObjectionCreateRequest \<lparr>oc_severity = MAJOR, oc_title = ''Cost'', oc_description = ''Brokers''\<rparr> =
     Inr \<lparr>oc_severity = MAJOR, oc_title = ''Cost'', oc_description = ''Brokers''\<rparr>"
  by (simp_all add: ProposalCreateRequest_def ObjectionCreateRequest_def normalized_field_def stripped_field_def
      field_length_def normalize_text_def py_split_def py_strip_def is_space_def Let_def)

lemma demo_session_request:
  "VotingSessionCreateRequest (demo_env 10) 51 None = Inr \<lparr>vc_quorum_percentage = 51, vc_closes_at = None\<rparr>"
  by (simp add: VotingSessionCreateRequest_def int_field_def)

lemma demo_reachable0: "reachable demo_digest demo0"
  unfolding demo0_def by (rule reachable.start)

lemma demo_reachable2: "reachable demo_digest demo2"
proof -
  obtain r where "workspace_add_member (demo_env 2) ada 100 ''bob'' AR_MEMBER demo1 = Inr (r, demo2)" using run2 by blast
  then show ?thesis
    using demo_reachable0 run1
    by (blast intro: reachable.step app_step.workspace workspace_step.create workspace_step.add_member)
qed

lemma demo_reachable4: "reachable demo_digest demo4"
  by (rule reachable.step [OF reachable.step [OF demo_reachable2 app_step.decision [OF decision_step.create [OF demo_body run3]]]
        app_step.decision [OF decision_step.transition [OF run4]]])

lemma demo_reachable6: "reachable demo_digest demo6"
  by (rule reachable.step [OF reachable.step [OF demo_reachable4
        app_step.proposal [OF proposal_step.create [OF demo_requests(1) run5]]]
        app_step.proposal [OF proposal_step.create [OF demo_requests(2) run6]]])

lemma demo_reachable9: "reachable demo_digest demo9"
  by (rule reachable.step [OF reachable.step [OF reachable.step [OF demo_reachable6
        app_step.proposal [OF proposal_step.transition [OF run7]]]
        app_step.proposal [OF proposal_step.transition [OF run8]]]
        app_step.objection [OF objection_step.create [OF demo_requests(3) run9]]])

lemma demo_reachable11: "reachable demo_digest demo11"
  by (rule reachable.step [OF reachable.step [OF demo_reachable9
        app_step.voting [OF voting_step.create [OF demo_session_request run10]]]
        app_step.voting [OF voting_step.openS [OF run11]]])

lemma demo_reachable13: "reachable demo_digest demo13"
  by (rule reachable.step [OF reachable.step [OF demo_reachable11
        app_step.voting [OF voting_step.cast [OF run12]]] app_step.voting [OF voting_step.cast [OF run13]]])

lemma demo_reachable14: "reachable demo_digest demo14"
  by (rule reachable.step [OF demo_reachable13 app_step.voting [OF voting_step.close [OF run14]]])

lemma demo_lock_step: "app_step demo_digest demo14 demo15"
  by (rule app_step.lock, rule lock_step.create [OF _ run15]) simp

lemma demo_reachable15: "reachable demo_digest demo15"
  by (rule reachable.step [OF demo_reachable14 demo_lock_step])

text \<open>One more step: another decision in the same workspace.\<close>

definition demo_second :: decision where
  "demo_second = demo_decision\<lparr>d_id := 1600, d_created_at := 16, d_updated_at := 16\<rparr>"

definition demo16 :: db where
  "demo16 = demo15\<lparr>decisions := decisions demo15 @ [demo_second]\<rparr>"

lemma run16: "decision_create (demo_env 16) ada 100 \<lparr>dc_title = ''Queue'', dc_summary = None, dc_category = TECHNOLOGY,
    dc_due_at = None, dc_review_at = None\<rparr> demo15 = Inr (demo_second, demo16)"
  unfolding decision_create_Inr
  by (intro exI [of _ ada_member]) (simp add: demo16_def demo15_def demo_second_def demo_db_defs workspaces_repo_get_by_id_def
      workspaces_repo_get_membership_def can_write_decisions_def demo_row_defs)

lemma demo_step16: "app_step demo_digest demo15 demo16"
  by (rule app_step.decision [OF decision_step.create [OF demo_body run16]])

lemma demo_locks15: "locks demo15 = [demo_lock]" "l_decision_id demo_lock = 300" "l_voting_session_id demo_lock = 1000"
  by (simp_all add: demo15_def demo_lock_def lock_row_def) (simp_all add: demo_row_defs)

end
