(* ===== verification/Demo_Ratings.thy ===== *)
theory Demo_Ratings imports Demo begin

text \<open>
  A branch of the run: two criteria for the submitted proposals, and Bob's scores of one of them.
\<close>

definition cost :: decision_criterion where
  "cost = \<lparr>c_id = 2000, c_decision_id = 300, c_created_by_id = 1, c_name = ''Cost'', c_description = None,
     c_weight = 60, c_position = 0, c_created_at = 20, c_updated_at = 20\<rparr>"

definition speed :: decision_criterion where
  "speed = \<lparr>c_id = 2100, c_decision_id = 300, c_created_by_id = 1, c_name = ''Speed'', c_description = None,
     c_weight = 40, c_position = 1, c_created_at = 21, c_updated_at = 21\<rparr>"

definition bobs_score :: "uuid \<Rightarrow> uuid \<Rightarrow> int \<Rightarrow> time \<Rightarrow> proposal_score" where
  "bobs_score i c score t = \<lparr>s_id = i, s_proposal_id = 500, s_criterion_id = c, s_scored_by_id = 2, s_score = score,
     s_rationale = None, s_created_at = t, s_updated_at = t\<rparr>"

definition rated1 :: db where "rated1 = demo8\<lparr>criteria := [cost]\<rparr>"
definition rated2 :: db where "rated2 = demo8\<lparr>criteria := [cost, speed]\<rparr>"
definition rated3 :: db where "rated3 = rated2\<lparr>scores := [bobs_score 2200 2000 4 22]\<rparr>"
definition rated4 :: db where "rated4 = rated2\<lparr>scores := [bobs_score 2200 2000 4 22, bobs_score 2300 2100 5 23]\<rparr>"

lemmas rated_defs = rated1_def rated2_def rated3_def rated4_def

lemma rated_bases [simp]: "demo_base rated1" "demo_base rated2" "demo_base rated3" "demo_base rated4"
  using demo_bases by (simp_all add: rated_defs demo_base_def)

lemma rated_criteria [simp]:
  "criteria demo8 = []" "criteria rated1 = [cost]" "criteria rated2 = [cost, speed]" "criteria rated3 = [cost, speed]"
  "criteria rated4 = [cost, speed]" "scores demo8 = []" "scores rated2 = []"
  "scores rated3 = [bobs_score 2200 2000 4 22]" "scores rated4 = [bobs_score 2200 2000 4 22, bobs_score 2300 2100 5 23]"
  by (simp_all add: rated_defs demo_db_defs)

lemma rate1: "criterion_create (demo_env 20) ada 100 300 \<lparr>cc_name = ''Cost'', cc_description = None, cc_weight = 60\<rparr> demo8
    = Inr (cost, rated1)"
  unfolding criterion_create_def demo_context(1) [OF demo_bases(5)]
  by (simp add: proposals_repo_create_criterion_def proposals_repo_next_criterion_position_def flush_insert_def
      uq_criteria_position_def ck_decision_criteria_def can_manage_criteria_def rated1_def)
    (simp add: cost_def demo_row_defs on_integrity_error_def)

lemma rate2: "criterion_create (demo_env 21) ada 100 300 \<lparr>cc_name = ''Speed'', cc_description = None, cc_weight = 40\<rparr> rated1
    = Inr (speed, rated2)"
  unfolding criterion_create_def demo_context(1) [OF rated_bases(1)]
  by (simp add: proposals_repo_create_criterion_def proposals_repo_next_criterion_position_def flush_insert_def
      uq_criteria_position_def ck_decision_criteria_def can_manage_criteria_def rated1_def rated2_def cost_def)
    (simp add: speed_def demo_row_defs on_integrity_error_def)

lemma rate3: "score_upsert (demo_env 22) bob 100 300 500 2000 \<lparr>su_score = 4, su_rationale = None\<rparr> rated2
    = Inr (bobs_score 2200 2000 4 22, rated3)"
  unfolding score_upsert_def demo_context(2) [OF rated_bases(2)]
  by (simp add: require_proposal_def proposals_repo_get_for_decision_def proposal_for_decision_def require_criterion_def
      proposals_repo_get_criterion_def criterion_for_decision_def proposals_repo_get_score_def
      proposals_repo_upsert_score_def Let_def flush_insert_def ck_proposal_scores_def uq_proposal_scores_def
      can_score_proposals_def rated3_def)
    (simp add: rated2_def cost_def speed_def bobs_score_def demo_db_defs demo_row_defs Let_def)

lemma rate4: "score_upsert (demo_env 23) bob 100 300 500 2100 \<lparr>su_score = 5, su_rationale = None\<rparr> rated3
    = Inr (bobs_score 2300 2100 5 23, rated4)"
  unfolding score_upsert_def demo_context(2) [OF rated_bases(3)]
  by (simp add: require_proposal_def proposals_repo_get_for_decision_def proposal_for_decision_def require_criterion_def
      proposals_repo_get_criterion_def criterion_for_decision_def proposals_repo_get_score_def
      proposals_repo_upsert_score_def Let_def flush_insert_def ck_proposal_scores_def uq_proposal_scores_def
      can_score_proposals_def rated4_def)
    (simp add: rated3_def rated2_def cost_def speed_def bobs_score_def demo_db_defs demo_row_defs Let_def)

lemma rating_requests:
  "CriterionCreateRequest \<lparr>cc_name = ''Cost'', cc_description = None, cc_weight = 60\<rparr> =
     Inr \<lparr>cc_name = ''Cost'', cc_description = None, cc_weight = 60\<rparr>"
  "CriterionCreateRequest \<lparr>cc_name = ''Speed'', cc_description = None, cc_weight = 40\<rparr> =
     Inr \<lparr>cc_name = ''Speed'', cc_description = None, cc_weight = 40\<rparr>"
  "ProposalScoreUpsertRequest \<lparr>su_score = 4, su_rationale = None\<rparr> = Inr \<lparr>su_score = 4, su_rationale = None\<rparr>"
  "ProposalScoreUpsertRequest \<lparr>su_score = 5, su_rationale = None\<rparr> = Inr \<lparr>su_score = 5, su_rationale = None\<rparr>"
  by (simp_all add: CriterionCreateRequest_def ProposalScoreUpsertRequest_def int_field_def normalized_field_def
      field_length_def normalize_text_def py_split_def is_space_def Let_def)

lemma demo_reachable8: "reachable demo_digest demo8"
  by (rule reachable.step [OF reachable.step [OF demo_reachable6
        app_step.proposal [OF proposal_step.transition [OF run7]]]
        app_step.proposal [OF proposal_step.transition [OF run8]]])

lemma rated_reachable2: "reachable demo_digest rated2"
  by (rule reachable.step [OF reachable.step [OF demo_reachable8
        app_step.criterion [OF criterion_step.create [OF rating_requests(1) rate1]]]
        app_step.criterion [OF criterion_step.create [OF rating_requests(2) rate2]]])

lemma rated_reachable4: "reachable demo_digest rated4"
  by (rule reachable.step [OF reachable.step [OF rated_reachable2
        app_step.criterion [OF criterion_step.score [OF rating_requests(3) rate3]]]
        app_step.criterion [OF criterion_step.score [OF rating_requests(4) rate4]]])

lemma rated_lists:
  "proposals_repo_list_criteria 300 rated2 = [cost, speed]" "proposals_repo_list_criteria 300 rated4 = [cost, speed]"
  "proposals_repo_list_scores_for_decision 300 rated4 = [bobs_score 2200 2000 4 22, bobs_score 2300 2100 5 23]"
  by (simp_all add: proposals_repo_list_criteria_def proposals_repo_list_scores_for_decision_def)
    (simp_all add: cost_def speed_def bobs_score_def rated4_def rated2_def demo_db_defs demo_row_defs)

text \<open>Another branch: Bob resolves his objection.\<close>

definition settled :: db where
  "settled = demo9\<lparr>objections := [demo_objection\<lparr>o_status := O_RESOLVED, o_resolution_note := Some ''Paid'',
       o_resolved_by_id := Some 2, o_resolved_at := Some 30, o_updated_at := 30\<rparr>],
     objection_events := [\<lparr>oe_id = 3000, oe_objection_id = 900, oe_actor_id = 2, oe_from_status = O_OPEN,
       oe_to_status = O_RESOLVED, oe_note = ''Paid'', oe_created_at = 30\<rparr>]\<rparr>"

lemma settle: "objection_transition (demo_env 30) bob 100 300 500 900 O_RESOLVED ''Paid'' demo9 =
    Inr (demo_objection\<lparr>o_status := O_RESOLVED, o_resolution_note := Some ''Paid'',
       o_resolved_by_id := Some 2, o_resolved_at := Some 30, o_updated_at := 30\<rparr>, settled)"
proof -
  have "proposals_repo_get_for_decision 300 500 demo9 = Some (submitted 7 kafka)"
    by (simp add: proposals_repo_get_for_decision_def proposal_for_decision_def demo_db_defs demo_row_defs)
  then have ctx: "objection_context (u_id bob) 100 300 500 demo9 = Inr (bob_member, demo_active, submitted 7 kafka)"
    using demo_context(2) [OF demo_bases(6)] unfolding objection_context_Inr_iff by auto
  have x: "require_objection 500 900 demo9 = Inr demo_objection"
    by (simp add: require_objection_def objections_repo_get_for_proposal_def objection_for_proposal_def demo_db_defs)
      (simp add: demo_objection_def)
  let ?x = "demo_objection\<lparr>o_status := O_RESOLVED, o_resolution_note := Some ''Paid'', o_resolved_by_id := Some 2,
       o_resolved_at := Some 30\<rparr>"
  have save: "save_objection (demo_env 30) demo_objection ?x demo9 =
      Inr (?x\<lparr>o_updated_at := 30\<rparr>, demo9\<lparr>objections := [?x\<lparr>o_updated_at := 30\<rparr>]\<rparr>)"
    by (simp add: save_objection_def flush_update_def write_objection_def put_if_dirty_def
        ck_objections_resolution_state_def store_def demo_objection_def demo_db_defs)
  have ids: "u_id bob = 2" "o_status demo_objection = O_OPEN" "o_id demo_objection = 900" "o_created_by_id demo_objection = 2"
    "m_role bob_member = MEMBER" "objection_events demo9 = []"
    by (simp_all add: demo_row_defs demo_db_defs)
  have can: "can_transition_objection MEMBER 2 2 O_RESOLVED" by (simp add: can_transition_objection_def)
  have commit: "objections_repo_transition (demo_env 30) demo_objection 2 O_RESOLVED ''Paid'' (Some 30) demo9 =
      Inr (?x\<lparr>o_updated_at := 30\<rparr>, settled)"
    unfolding objections_repo_transition_def using save
    by (simp add: flush_insert_def ids settled_def del: bindE_Inr_iff)
  show ?thesis
    using x by (simp add: objection_transition_def ctx [unfolded ids] ids can commit
        del: bindE_Inr_iff objection_context_Inr require_objection_Inr)
qed

end
