(* ===== verification/Revisions.thy ===== *)
theory Revisions imports Histories begin

text \<open>
  The revisions of a decision as a chain: each revision starts from the decision the one before it
  opened, and the numbers count 1, 2, 3, \<dots>. The invariant of the actions, reviews and revisions,
  kept by every step of the application.
\<close>

section \<open>Chains\<close>

text \<open>Each row starts where the previous one ended, the first one at the root.\<close>

fun linked :: "uuid \<Rightarrow> decision_revision list \<Rightarrow> bool" where
  "linked i [] = True"
| "linked i (n # ns) = (n_predecessor_decision_id n = i \<and> linked (n_successor_decision_id n) ns)"

fun chain_end :: "uuid \<Rightarrow> decision_revision list \<Rightarrow> uuid" where
  "chain_end i [] = i"
| "chain_end i (n # ns) = chain_end (n_successor_decision_id n) ns"

lemma linked_append [simp]: "linked i (ns @ ms) \<longleftrightarrow> linked i ns \<and> linked (chain_end i ns) ms"
  by (induction ns arbitrary: i) auto

lemma chain_end_append [simp]: "chain_end i (ns @ ms) = chain_end (chain_end i ns) ms"
  by (induction ns arbitrary: i) auto

text \<open>A link of a chain leads to the row of the next link, unless it is the last.\<close>

lemma linked_next:
  assumes "linked i ns" and "m \<in> set ns" and "n_successor_decision_id m \<notin> n_predecessor_decision_id ` set ns"
  shows "chain_end i ns = n_successor_decision_id m"
  using assms
proof (induction ns arbitrary: i)
  case (Cons n ns)
  show ?case
  proof (cases "m \<in> set ns")
    case True
    then show ?thesis using Cons by simp
  next
    case False
    then have m: "m = n" using Cons.prems(2) by simp
    show ?thesis using Cons.prems(1,3) by (cases ns) (auto simp: m)
  qed
qed simp

lemma linked_start: "linked i ns \<Longrightarrow> i \<notin> n_predecessor_decision_id ` set ns \<Longrightarrow> ns = []"
  by (cases ns) auto

definition of_root :: "uuid \<Rightarrow> decision_revision list \<Rightarrow> decision_revision list" where
  "of_root i ns = filter (\<lambda>n. n_root_decision_id n = i) ns"

definition counted :: "decision_revision list \<Rightarrow> bool" where
  "counted ns \<longleftrightarrow> map n_revision_number ns = map int [1..<Suc (length ns)]"

lemma counted_append: "counted ns \<Longrightarrow> n_revision_number n = int (length ns) + 1 \<Longrightarrow> counted (ns @ [n])"
  by (simp add: counted_def)

lemma counted_sorted:
  assumes "counted ns"
  shows "sort_key n_revision_number ns = ns"
proof (rule sort_key_id_if_sorted)
  have "sorted (map int [1..<Suc (length ns)])" unfolding sorted_iff_nth_mono by (simp del: upt_Suc)
  then show "sorted (map n_revision_number ns)" unfolding assms [unfolded counted_def] .
qed

lemma counted_next:
  assumes "counted ns" and "ns \<noteq> []"
  shows "Max (set (map n_revision_number ns)) = int (length ns)"
  unfolding assms(1) [unfolded counted_def]
proof (rule Max_eqI)
  have "length ns \<in> set [1..<Suc (length ns)]" using assms(2) by (cases ns) auto
  then show "int (length ns) \<in> set (map int [1..<Suc (length ns)])" by (simp del: upt_Suc)
qed (auto simp del: upt_Suc)

definition chain_inv :: "decision_revision list \<Rightarrow> bool" where
  "chain_inv ns \<longleftrightarrow>
     (\<forall>i. counted (of_root i ns) \<and> linked i (of_root i ns)) \<and>
     distinct (map n_predecessor_decision_id ns) \<and> distinct (map n_successor_decision_id ns) \<and>
     distinct (map n_review_id ns) \<and>
     (\<forall>n \<in> set ns. n_root_decision_id n \<notin> n_successor_decision_id ` set ns)"

lemma chain_invD:
  assumes "chain_inv ns"
  shows "counted (of_root i ns)" and "linked i (of_root i ns)" and "distinct (map n_predecessor_decision_id ns)"
    and "distinct (map n_successor_decision_id ns)" and "distinct (map n_review_id ns)"
    and "n \<in> set ns \<Longrightarrow> n_root_decision_id n \<notin> n_successor_decision_id ` set ns"
  using assms by (simp_all add: chain_inv_def)

text \<open>The repository's functions on the table of revisions.\<close>

lemma list_revisions_of_root:
  "chain_inv (revisions db) \<Longrightarrow> records_repo_list_revisions i db = of_root i (revisions db)"
  using counted_sorted chain_invD(1) by (simp add: records_repo_list_revisions_def of_root_def)

lemma next_number:
  assumes "chain_inv (revisions db)"
  shows "records_repo_next_revision_number i db = int (length (of_root i (revisions db))) + 1"
proof -
  have "records_repo_next_revision_number i db =
      (case of_root i (revisions db) of [] \<Rightarrow> 1 | ns \<Rightarrow> Max (set (map n_revision_number ns)) + 1)"
    by (simp add: records_repo_next_revision_number_def of_root_def)
  then show ?thesis
    using counted_next [OF chain_invD(1) [OF assms], of i] by (cases "of_root i (revisions db) = []") (auto split: list.split)
qed

lemma revision_root_cases:
  obtains (successor) m where "m \<in> set (revisions db)" and "n_successor_decision_id m = d"
      and "records_repo_get_revision_root d db = n_root_decision_id m"
  | (root) "d \<notin> n_successor_decision_id ` set (revisions db)" and "records_repo_get_revision_root d db = d"
proof (cases "first_where (\<lambda>n. n_successor_decision_id n = d) (revisions db)")
  case None
  have "records_repo_get_revision_root d db = d" by (simp add: records_repo_get_revision_root_def None)
  then show thesis using None by (intro root) (auto simp: first_where_None_iff)
next
  case (Some m)
  then show thesis using first_where_SomeD [OF Some] by (intro successor [of m]) (simp_all add: records_repo_get_revision_root_def)
qed

text \<open>A decision that is not yet the predecessor of a revision is the end of its chain.\<close>

lemma free_decision_ends_chain:
  assumes inv: "chain_inv (revisions db)" and free: "d \<notin> n_predecessor_decision_id ` set (revisions db)"
  shows "chain_end (records_repo_get_revision_root d db) (of_root (records_repo_get_revision_root d db) (revisions db)) = d"
proof (cases rule: revision_root_cases [of db d])
  case (successor m)
  let ?ns = "of_root (n_root_decision_id m) (revisions db)"
  have "m \<in> set ?ns" using successor(1) by (simp add: of_root_def)
  moreover have "n_successor_decision_id m \<notin> n_predecessor_decision_id ` set ?ns"
    using free successor(2) by (auto simp: of_root_def)
  ultimately show ?thesis
    using linked_next [OF chain_invD(2) [OF inv, of "n_root_decision_id m"]] successor(2,3) by simp
next
  case root
  have "d \<notin> n_predecessor_decision_id ` set (of_root d (revisions db))" using free by (auto simp: of_root_def)
  then have "of_root d (revisions db) = []" by (rule linked_start [OF chain_invD(2) [OF inv]])
  then show ?thesis by (simp add: root(2))
qed

lemma chain_inv_append:
  assumes inv: "chain_inv (revisions db)" and ck: "ck_decision_revisions (revisions db) n"
    and root: "n_root_decision_id n = records_repo_get_revision_root (n_predecessor_decision_id n) db"
    and number: "n_revision_number n = records_repo_next_revision_number (n_root_decision_id n) db"
    and fresh: "\<And>m. m \<in> set (n # revisions db) \<Longrightarrow> n_root_decision_id m \<noteq> n_successor_decision_id n"
  shows "chain_inv (revisions db @ [n])"
proof -
  note I = chain_invD [OF inv]
  have ck': "n_predecessor_decision_id n \<notin> n_predecessor_decision_id ` set (revisions db)"
    "n_successor_decision_id n \<notin> n_successor_decision_id ` set (revisions db)" "n_review_id n \<notin> n_review_id ` set (revisions db)"
    using ck by (simp_all add: ck_decision_revisions_def)
  note e = free_decision_ends_chain [OF inv ck'(1), folded root]
  have rows: "of_root i (revisions db @ [n]) = of_root i (revisions db) @ (if i = n_root_decision_id n then [n] else [])" for i
    by (auto simp: of_root_def)
  have "counted (of_root i (revisions db @ [n]))" for i
    using counted_append [OF I(1), of n i] I(1) number next_number [OF inv] by (auto simp: rows)
  moreover have "linked i (of_root i (revisions db @ [n]))" for i
    using I(2) e by (simp add: rows)
  moreover have "n_root_decision_id m \<notin> n_successor_decision_id ` set (revisions db @ [n])"
    if m: "m \<in> set (revisions db @ [n])" for m
  proof -
    have "n_root_decision_id n \<notin> n_successor_decision_id ` set (revisions db)"
      unfolding root
    proof (cases rule: revision_root_cases [of db "n_predecessor_decision_id n"])
      case (successor m)
      then show "records_repo_get_revision_root (n_predecessor_decision_id n) db \<notin> n_successor_decision_id ` set (revisions db)"
        using I(6) by simp
    qed simp
    then show ?thesis using m I(6) fresh [of m] by auto
  qed
  ultimately show ?thesis using I(3-5) ck' unfolding chain_inv_def by simp
qed

section \<open>The invariant\<close>

text \<open>
  Actions and reviews belong to locked decisions. A revision belongs to the review that asked for
  it, and starts from the lock of its predecessor.
\<close>

definition actions_inv :: "db \<Rightarrow> bool" where
  "actions_inv db \<longleftrightarrow> distinct (map a_id (actions db)) \<and>
     (\<forall>a \<in> set (actions db). ck_implementation_actions a \<and> locked_decision (a_decision_id a) db)"

definition reviews_inv :: "db \<Rightarrow> bool" where
  "reviews_inv db \<longleftrightarrow> distinct (map r_id (reviews db)) \<and> uq_one_scheduled (reviews db) \<and>
     (\<forall>r \<in> set (reviews db). ck_decision_reviews r \<and> locked_decision (r_decision_id r) db)"

definition revision_grounded :: "db \<Rightarrow> decision_revision \<Rightarrow> bool" where
  "revision_grounded db n \<longleftrightarrow> n_outcome n \<in> {REOPENED, SUPERSEDED} \<and>
     locked_decision (n_predecessor_decision_id n) db \<and>
     n_root_decision_id n \<in> d_id ` set (decisions db) \<and> n_successor_decision_id n \<in> d_id ` set (decisions db) \<and>
     (\<exists>l \<in> set (locks db). l_id l = n_source_lock_id n \<and> l_decision_id l = n_predecessor_decision_id n) \<and>
     (\<exists>r \<in> set (reviews db). r_id r = n_review_id n \<and> r_decision_id r = n_predecessor_decision_id n \<and>
        r_status r = R_COMPLETED \<and> r_outcome r = Some (n_outcome n) \<and> r_outcome_rationale r = Some (n_rationale n))"

definition records_inv :: "db \<Rightarrow> bool" where
  "records_inv db \<longleftrightarrow> actions_inv db \<and> reviews_inv db \<and> chain_inv (revisions db) \<and>
     (\<forall>n \<in> set (revisions db). revision_grounded db n) \<and>
     (\<forall>r \<in> set (reviews db). r_outcome r \<in> {Some REOPENED, Some SUPERSEDED} \<longrightarrow> r_id r \<in> n_review_id ` set (revisions db))"

lemma records_invD:
  assumes "records_inv db"
  shows "actions_inv db" and "reviews_inv db" and "chain_inv (revisions db)"
    and "n \<in> set (revisions db) \<Longrightarrow> revision_grounded db n"
    and "r \<in> set (reviews db) \<Longrightarrow> r_outcome r \<in> {Some REOPENED, Some SUPERSEDED} \<Longrightarrow>
           r_id r \<in> n_review_id ` set (revisions db)"
  using assms unfolding records_inv_def by blast+

text \<open>Steps that leave the three tables alone, keep the locks, and delete no decision they name.\<close>

lemma records_inv_other:
  assumes inv: "records_inv db"
    and same: "actions db' = actions db" "reviews db' = reviews db" "revisions db' = revisions db" "set (locks db) \<subseteq> set (locks db')"
    and locked: "\<And>i. locked_decision i db \<Longrightarrow> locked_decision i db'"
    and named: "\<And>n i. n \<in> set (revisions db) \<Longrightarrow> i \<in> {n_root_decision_id n, n_successor_decision_id n} \<Longrightarrow>
       i \<in> d_id ` set (decisions db) \<Longrightarrow> i \<in> d_id ` set (decisions db')"
  shows "records_inv db'"
proof -
  note I = records_invD [OF inv]
  have "actions_inv db'" using I(1) locked unfolding actions_inv_def same by blast
  moreover have "reviews_inv db'" using I(2) locked unfolding reviews_inv_def same by blast
  moreover have "revision_grounded db' n" if n: "n \<in> set (revisions db)" for n
    using I(4) [OF n] locked named [OF n] same(4) unfolding revision_grounded_def same by blast
  ultimately show ?thesis using I(3,5) unfolding records_inv_def same by blast
qed

lemma app_step_locked:
  assumes "app_step H db db'" and "db_inv H db" and "locked_decision i db"
  shows "locked_decision i db'"
proof -
  obtain d where d: "d \<in> set (decisions db)" "d_id d = i" "d_status d = D_LOCKED" using assms(3) by blast
  from app_step_decision_life [OF assms(1,2) d(1)] show ?thesis
    using d by (auto simp: decision_evolves_def decision_final_def)
qed

lemma cascade_named:
  assumes "decisions_unreferenced g db" and "n \<in> set (revisions db)"
    and "i \<in> {n_root_decision_id n, n_successor_decision_id n}" and "i \<in> d_id ` set (decisions db)"
  shows "i \<in> d_id ` set (decisions (cascade_decisions g db))"
proof -
  obtain d where d: "d \<in> set (decisions db)" "i = d_id d" using assms(4) by blast
  have "\<not> g i" using assms(1-3) by (auto simp: decisions_unreferenced_def)
  then show ?thesis using d by (simp add: cascade_decisions_tables)
qed

text \<open>What the other components do to the three tables, and to the decisions a revision names: nothing.\<close>

lemma other_step_tables:
  assumes step: "app_step H db db'" and other: "\<not> record_step db db'" and inv: "db_inv H db"
  shows "actions db' = actions db \<and> reviews db' = reviews db \<and> revisions db' = revisions db \<and>
    (\<forall>n \<in> set (revisions db). \<forall>i \<in> {n_root_decision_id n, n_successor_decision_id n} \<inter> d_id ` set (decisions db).
       i \<in> d_id ` set (decisions db'))"
proof -
  note I = db_invD [OF inv] and K = db_inv_keys [OF inv]
  have kept: ?thesis if "actions db' = actions db" "reviews db' = reviews db" "revisions db' = revisions db"
    "d_id ` set (decisions db) \<subseteq> d_id ` set (decisions db')"
    using that by blast
  from step show ?thesis
  proof cases
    case workspace
    from workspace_step_cases [OF this] show ?thesis
    proof (elim disjE exE)
      fix w assume "delete_workspace_row w db = Inr db'"
      then have "decisions_unreferenced (in_workspace w (decisions db)) db"
        "decisions db' = decisions (cascade_decisions (in_workspace w (decisions db)) db)"
        "actions db' = actions db" "reviews db' = reviews db" "revisions db' = revisions db"
        by (auto simp: delete_workspace_row_def Let_def)
      then show ?thesis using cascade_named by auto
    qed (auto intro: kept)
  next
    case decision
    from decision_step_cases [OF this I(2)] show ?thesis
    proof (elim disjE exE conjE bexE)
      fix d assume "decisions_unreferenced (\<lambda>j. j = d_id d) db" "db' = cascade_decisions (\<lambda>j. j = d_id d) db"
      then show ?thesis using cascade_named [of "\<lambda>j. j = d_id d" db] by auto
    next
      fix ds xs ys assume "db' = db\<lparr>decisions := ds, outbox := xs, published := ys\<rparr>"
        "d_id ` set (decisions db) \<subseteq> d_id ` set ds"
      then show ?thesis by (intro kept) simp_all
    qed
  next
    case proposal
    from proposal_step_effect [OF this I(3)] show ?thesis by (intro kept) (auto simp: cascade_proposals_def)
  next
    case criterion
    from criterion_step_frame [OF this] obtain cs ss where "db' = db\<lparr>criteria := cs, scores := ss\<rparr>" by blast
    then show ?thesis by (intro kept) simp_all
  next
    case objection
    from objection_step_effect [OF this I(6)] show ?thesis by (intro kept) auto
  next
    case voting
    then have "voting_effect db db'"
      by (rule voting_step_effect [OF _ voting_invD(1) [OF I(7)] register_invD(1) [OF voting_invD(2) [OF I(7)]]
          register_invD(3) [OF voting_invD(2) [OF I(7)]]])
    then show ?thesis by (intro kept; cases rule: voting_effect.cases) simp_all
  next
    case lock
    then show ?thesis
    proof cases
      case (create env me w d i k)
      from create(2) K(1) show ?thesis by (rule lock_create_InrD) (rule kept; simp)
    qed
  next
    case follow_up
    then show ?thesis using other by contradiction
  next
    case side
    then show ?thesis by (intro kept) (simp_all add: side_step_same)
  qed
qed

text \<open>One review changes: it was scheduled, so no revision is its outcome yet.\<close>

lemma uq_one_scheduled_store:
  assumes uq: "uq_one_scheduled rs" and ids: "distinct (map r_id rs)" and r: "lookup r_id (r_id r) rs = Some r"
    and s: "r_status r = R_SCHEDULED" and same: "r_id r' = r_id r" "r_decision_id r' = r_decision_id r"
  shows "uq_one_scheduled (store r_id r' rs)"
  using uq ids r
proof (induction rs)
  case (Cons x xs)
  have tail: "uq_one_scheduled xs" using Cons.prems(1) by (simp add: uq_one_scheduled_def split: if_splits)
  show ?case
  proof (cases "r_id x = r_id r")
    case True
    then have "x = r" "r_id r \<notin> r_id ` set xs" using Cons.prems(2,3) by auto
    then have "store r_id r' (x # xs) = r' # xs" using same(1) by (auto simp: store_def image_iff intro!: map_idI)
    then show ?thesis using Cons.prems(1) s same(2) \<open>x = r\<close> by (auto simp: uq_one_scheduled_def)
  next
    case False
    then have look: "lookup r_id (r_id r) xs = Some r" using Cons.prems(3) by simp
    have "uq_one_scheduled (store r_id r' xs)" using Cons.IH [OF tail _ look] Cons.prems(2) by simp
    moreover have "r_decision_id ` set (filter (\<lambda>r. r_status r = R_SCHEDULED) (store r_id r' xs)) \<subseteq>
        r_decision_id ` set (filter (\<lambda>r. r_status r = R_SCHEDULED) xs)"
      using lookup_SomeD [OF look] s same(2) by (auto simp: set_store split: if_splits)
    moreover have "store r_id r' (x # xs) = x # store r_id r' xs" using False same(1) by (simp add: store_def)
    ultimately show ?thesis using Cons.prems(1) unfolding uq_one_scheduled_def by auto
  qed
qed simp

lemma reviews_inv_store:
  assumes inv: "reviews_inv db" and r: "lookup r_id (r_id r) (reviews db) = Some r" "r_status r = R_SCHEDULED"
    and same: "r_id r' = r_id r" "r_decision_id r' = r_decision_id r" and ck: "ck_decision_reviews r'"
  shows "reviews_inv (db\<lparr>reviews := store r_id r' (reviews db)\<rparr>)"
proof -
  have "locked_decision (r_decision_id r') db"
    using inv lookup_SomeD [OF r(1)] same(2) by (simp add: reviews_inv_def)
  then show ?thesis
    using inv uq_one_scheduled_store [OF _ _ r same] ck by (auto simp: reviews_inv_def dest!: mem_storeD)
qed

lemma revision_grounded_store:
  assumes g: "revision_grounded db n" and ids: "distinct (map r_id (reviews db))"
    and r: "lookup r_id (r_id r) (reviews db) = Some r" "r_status r = R_SCHEDULED" "r_id r' = r_id r"
  shows "revision_grounded (db\<lparr>reviews := store r_id r' (reviews db)\<rparr>) n"
proof -
  obtain x where x: "x \<in> set (reviews db)" "r_id x = n_review_id n" "r_decision_id x = n_predecessor_decision_id n"
    "r_status x = R_COMPLETED" "r_outcome x = Some (n_outcome n)" "r_outcome_rationale x = Some (n_rationale n)"
    using g by (auto simp: revision_grounded_def)
  have "r_id x \<noteq> r_id r'" using distinct_key_eq [OF ids x(1)] lookup_SomeD [OF r(1)] r(2,3) x(4) by auto
  then have "x \<in> set (store r_id r' (reviews db))" using x(1) by (simp add: set_store)
  then show ?thesis using g x by (auto simp: revision_grounded_def)
qed

lemma revision_grounded_mono:
  assumes "revision_grounded db n" and "set (decisions db) \<subseteq> set (decisions db')" and "set (locks db) \<subseteq> set (locks db')"
    and "set (reviews db) \<subseteq> set (reviews db')"
  shows "revision_grounded db' n"
  using assms unfolding revision_grounded_def by blast

text \<open>The reviews of the revisions are completed, so a scheduled review has none.\<close>

lemma scheduled_without_revision:
  assumes inv: "records_inv db" and r: "r \<in> set (reviews db)" "r_status r = R_SCHEDULED"
  shows "r_id r \<notin> n_review_id ` set (revisions db)"
proof
  assume "r_id r \<in> n_review_id ` set (revisions db)"
  then obtain n where n: "n \<in> set (revisions db)" "n_review_id n = r_id r" by auto
  then obtain x where "x \<in> set (reviews db)" "r_id x = r_id r" "r_status x = R_COMPLETED"
    using records_invD(4) [OF inv n(1)] n(2) unfolding revision_grounded_def by auto
  then show False using distinct_key_eq [of r_id "reviews db" x r] r records_invD(2) [OF inv] by (auto simp: reviews_inv_def)
qed

lemma records_inv_review:
  assumes inv: "records_inv db" and r: "lookup r_id (r_id r) (reviews db) = Some r" "r_status r = R_SCHEDULED"
    and r': "r_id r' = r_id r" "r_decision_id r' = r_decision_id r" "ck_decision_reviews r'"
  shows "actions_inv (db\<lparr>reviews := store r_id r' (reviews db)\<rparr>)" and "reviews_inv (db\<lparr>reviews := store r_id r' (reviews db)\<rparr>)"
    and "n \<in> set (revisions db) \<Longrightarrow> revision_grounded (db\<lparr>reviews := store r_id r' (reviews db)\<rparr>) n"
    and "x \<in> set (store r_id r' (reviews db)) \<Longrightarrow> r_outcome x \<in> {Some REOPENED, Some SUPERSEDED} \<Longrightarrow>
           x = r' \<or> r_id x \<in> n_review_id ` set (revisions db)"
proof -
  note I = records_invD [OF inv]
  show "actions_inv (db\<lparr>reviews := store r_id r' (reviews db)\<rparr>)" using I(1) by (simp add: actions_inv_def)
  show "reviews_inv (db\<lparr>reviews := store r_id r' (reviews db)\<rparr>)" by (rule reviews_inv_store [OF I(2) r r'])
  show "revision_grounded (db\<lparr>reviews := store r_id r' (reviews db)\<rparr>) n" if "n \<in> set (revisions db)"
    using revision_grounded_store [OF I(4) [OF that] _ r r'(1)] I(2) by (simp add: reviews_inv_def)
  show "x = r' \<or> r_id x \<in> n_review_id ` set (revisions db)"
    if "x \<in> set (store r_id r' (reviews db))" "r_outcome x \<in> {Some REOPENED, Some SUPERSEDED}"
    using mem_storeD [OF that(1)] I(5) [OF _ that(2)] by blast
qed

section \<open>Every step keeps it\<close>

lemma record_effect_inv:
  assumes eff: "record_effect db db'" and inv: "records_inv db"
  shows "records_inv db'"
proof -
  note I = records_invD [OF inv]
  from eff show ?thesis
  proof cases
    case (action_added a)
    have "actions_inv db'" using I(1) action_added(1,2,4) by (auto simp: actions_inv_def action_added(5))
    then show ?thesis
      using I by (simp add: records_inv_def action_added(5) reviews_inv_def revision_grounded_def)
  next
    case (action_changed a a')
    have a: "a \<in> set (actions db)" "a_decision_id a' = a_decision_id a"
      using lookup_SomeD [OF action_changed(1)] action_changed(2) by (auto simp: action_evolves_def)
    then have "locked_decision (a_decision_id a') db" using I(1) by (simp add: actions_inv_def)
    then have "actions_inv db'" using I(1) action_changed(3) by (auto simp: actions_inv_def action_changed(4) dest!: mem_storeD)
    then show ?thesis
      using I by (simp add: records_inv_def action_changed(4) reviews_inv_def revision_grounded_def)
  next
    case (review_added r)
    have none: "r_outcome r = None" using review_added(2,3) by (auto simp: ck_decision_reviews_def)
    have "reviews_inv db'" using I(2) review_added(1,2,4,5) by (auto simp: reviews_inv_def review_added(6))
    moreover have "actions_inv db'" using I(1) by (simp add: actions_inv_def review_added(6))
    moreover have "revision_grounded db' n" if "n \<in> set (revisions db)" for n
      by (rule revision_grounded_mono [OF I(4) [OF that]]) (auto simp: review_added(6))
    ultimately show ?thesis using I(3,5) none unfolding records_inv_def by (auto simp: review_added(6))
  next
    case (review_changed r r')
    note R = records_inv_review [OF inv review_changed(1-3,6,5), folded review_changed(8)]
    have "r_id x \<in> n_review_id ` set (revisions db)"
      if "x \<in> set (store r_id r' (reviews db))" "r_outcome x \<in> {Some REOPENED, Some SUPERSEDED}" for x
      using R(4) [OF that] that(2) review_changed(7) by auto
    then show ?thesis using R(1-3) I(3) unfolding records_inv_def by (simp add: review_changed(8))
  next
    case (revised r r' n l s)
    let ?m = "db\<lparr>reviews := store r_id r' (reviews db)\<rparr>"
    note R = records_inv_review [OF inv revised(1-3,6,5)]
    have db': "reviews db' = reviews ?m" "actions db' = actions ?m" "locks db' = locks ?m" "decisions db' = decisions db @ [s]"
      "revisions db' = revisions db @ [n]" by (simp_all add: revised(24))
    have locked: "locked_decision i db'" if "locked_decision i ?m" for i using that db'(4) by auto
    have acts: "actions_inv db'" using R(1) locked unfolding actions_inv_def db' by blast
    have revs: "reviews_inv db'" using R(2) locked unfolding reviews_inv_def db' by blast
    have named: "n_root_decision_id m \<in> d_id ` set (decisions db)" if "m \<in> set (revisions db)" for m
      using I(4) [OF that] by (simp add: revision_grounded_def)
    have root: "n_root_decision_id n \<in> d_id ` set (decisions db)"
    proof (cases rule: revision_root_cases [of db "n_predecessor_decision_id n"])
      case (successor m)
      then show ?thesis using named revised(12) by simp
    next
      case root
      then show ?thesis using revised(10,12) by (metis imageI)
    qed
    have chain: "chain_inv (revisions db @ [n])"
    proof (rule chain_inv_append [OF I(3) revised(19,12,13)])
      fix m assume "m \<in> set (n # revisions db)"
      then have "n_root_decision_id m \<in> d_id ` set (decisions db)" using named root by auto
      then show "n_root_decision_id m \<noteq> n_successor_decision_id n" using revised(20,21) by auto
    qed
    have old: "revision_grounded db' m" if "m \<in> set (revisions db)" for m
      by (rule revision_grounded_mono [OF R(3) [OF that]]) (auto simp: db')
    have "r' \<in> set (reviews db')" using lookup_SomeD [OF revised(1)] revised(3) by (auto simp: db' set_store)
    then have new: "revision_grounded db' n"
      using revised(3,6,7,8,9,10,11,14,15,16,17,20) revised(19) [unfolded ck_decision_revisions_def] root unfolding revision_grounded_def
      by (intro conjI) (auto simp: db')
    have "r_id x \<in> n_review_id ` set (revisions db @ [n])"
      if "x \<in> set (reviews db')" "r_outcome x \<in> {Some REOPENED, Some SUPERSEDED}" for x
      using R(4) [of x] that revised(3,14) by (auto simp: db')
    then show ?thesis using acts revs chain old new unfolding records_inv_def by (auto simp: db'(5))
  qed
qed

lemma app_step_records_inv:
  assumes step: "app_step H db db'" and inv: "db_inv H db" and recs: "records_inv db"
  shows "records_inv db'"
proof (cases "record_step db db'")
  case True
  note I = records_invD [OF recs]
  have "record_effect db db'"
    by (rule record_step_effect [OF True]) (use I(1,2) in \<open>auto simp: actions_inv_def reviews_inv_def\<close>)
  then show ?thesis using recs by (rule record_effect_inv)
next
  case False
  note T = other_step_tables [OF step False inv]
  show ?thesis
  proof (rule records_inv_other [OF recs])
    show "set (locks db) \<subseteq> set (locks db')" using app_step_locks(1) [OF step inv] by blast
    show "locked_decision i db'" if "locked_decision i db" for i by (rule app_step_locked [OF step inv that])
  qed (use T in blast)+
qed

lemma records_inv_start: "records_inv (empty_db\<lparr>users := us\<rparr>)"
  by (simp add: records_inv_def actions_inv_def reviews_inv_def uq_one_scheduled_def chain_inv_def of_root_def counted_def
      empty_db_def)

lemma reachable_records_inv: "reachable H db \<Longrightarrow> records_inv db"
  by (induction rule: reachable.induct) (auto simp: records_inv_start intro: app_step_records_inv reachable_db_inv)

section \<open>What follows for single rows\<close>

lemma distinct_at_most_one: "distinct (map f xs) \<Longrightarrow> length (filter (\<lambda>x. f x = i) xs) \<le> 1"
proof (induction xs)
  case (Cons x xs)
  have "filter (\<lambda>x. f x = i) xs = []" if "f x = i" using that Cons.prems by (auto simp: filter_empty_conv image_iff)
  then show ?case using Cons by auto
qed simp

lemma app_step_action:
  assumes step: "app_step H db db'" and inv: "db_inv H db" and recs: "records_inv db" and a: "a \<in> set (actions db)"
  shows "\<exists>a' \<in> set (actions db'). action_evolves a a' \<and> ck_implementation_actions a'"
proof (cases "record_step db db'")
  case True
  note I = records_invD [OF recs]
  have ids: "distinct (map a_id (actions db))" and ck: "ck_implementation_actions a"
    using I(1) a by (simp_all add: actions_inv_def)
  have self: "action_evolves a a" by (simp add: action_evolves_def)
  have "record_effect db db'"
    by (rule record_step_effect [OF True]) (use I(1,2) in \<open>auto simp: actions_inv_def reviews_inv_def\<close>)
  then show ?thesis
  proof cases
    case (action_changed b b')
    show ?thesis
    proof (cases "a_id b = a_id a")
      case True
      then have "b = a" using lookup_SomeD [OF action_changed(1)] a distinct_key_eq [OF ids] by blast
      then show ?thesis
        using action_changed(2,3) a by (intro bexI [of _ b']) (auto simp: action_changed(4) set_store action_evolves_def)
    next
      case False
      moreover have "a_id b' = a_id b" using action_changed(2) by (auto simp: action_evolves_def)
      ultimately show ?thesis using a self ck by (intro bexI [of _ a]) (simp_all add: action_changed(4) set_store)
    qed
  qed (use a self ck in auto)
next
  case False
  have "action_evolves a a" by (simp add: action_evolves_def)
  then show ?thesis using other_step_tables [OF step False inv] a records_invD(1) [OF recs] by (auto simp: actions_inv_def)
qed

lemma revision_of_review:
  assumes inv: "records_inv db" and n: "n \<in> set (revisions db)" and r: "r \<in> set (reviews db)" "n_review_id n = r_id r"
  shows "r_status r = R_COMPLETED \<and> r_outcome r = Some (n_outcome n) \<and> n_outcome n \<in> {REOPENED, SUPERSEDED}"
proof -
  obtain x where x: "x \<in> set (reviews db)" "r_id x = r_id r" "r_status x = R_COMPLETED" "r_outcome x = Some (n_outcome n)" "n_outcome n \<in> {REOPENED, SUPERSEDED}"
    using records_invD(4) [OF inv n] r(2) unfolding revision_grounded_def by auto
  have "x = r" using records_invD(2) [OF inv] x r by (auto simp: reviews_inv_def intro: distinct_key_eq)
  then show ?thesis using x by simp
qed

lemma completed_row:
  "r_status r = R_SCHEDULED \<Longrightarrow> write_review env r (review_completed oc rationale who t r) r =
     r\<lparr>r_status := R_COMPLETED, r_outcome := Some oc, r_outcome_rationale := Some rationale,
       r_completed_by_id := Some who, r_completed_at := Some t, r_updated_at := db_now env\<rparr>"
  by (auto simp: write_review_def review_completed_def dest: arg_cong [where f = r_status])

lemma successor_row:
  "successor_of env me dec q = dec\<lparr>d_id := fresh env 0, d_created_by_id := u_id me,
     d_title := (case ro_successor_title q of Some (ch # text) \<Rightarrow> ch # text | _ \<Rightarrow> d_title dec),
     d_summary := (case ro_successor_summary q of Some text \<Rightarrow> Some text | None \<Rightarrow> d_summary dec),
     d_category := (case ro_successor_category q of Some c \<Rightarrow> c | None \<Rightarrow> d_category dec),
     d_status := D_DRAFT, d_due_at := None, d_review_at := None, d_closed_at := None, d_archived_at := None,
     d_locked_at := None, d_created_at := db_now env, d_updated_at := db_now env\<rparr>"
  by (simp add: successor_of_def split: option.split list.split)

lemma review_complete_result:
  assumes run: "review_complete env me w d i q db = Inr (x, db')" and inv: "records_inv db"
  shows "\<exists>r dec. r \<in> set (reviews db) \<and> r_id r = i \<and> r_decision_id r = d \<and> r_status r = R_SCHEDULED \<and> r_scheduled_for r \<le> now env \<and>
    dec \<in> set (decisions db) \<and> d_id dec = d \<and> d_workspace_id dec = w \<and> d_status dec = D_LOCKED \<and>
    ror_review x = r\<lparr>r_status := R_COMPLETED, r_outcome := Some (ro_outcome q), r_outcome_rationale := Some (ro_rationale q),
      r_completed_by_id := Some (u_id me), r_completed_at := Some (now env), r_updated_at := db_now env\<rparr> \<and>
    (if ro_outcome q = CONFIRMED then
       ror_revision x = None \<and> ror_successor_decision x = None \<and> db' = db\<lparr>reviews := store r_id (ror_review x) (reviews db)\<rparr>
     else \<exists>s n l. ror_successor_decision x = Some s \<and> ror_revision x = Some n \<and> l \<in> set (locks db) \<and> l_decision_id l = d \<and>
       db' = db\<lparr>reviews := store r_id (ror_review x) (reviews db), decisions := decisions db @ [s], revisions := revisions db @ [n]\<rparr> \<and>
       d_id s \<notin> d_id ` set (decisions db) \<and> n_id n \<notin> n_id ` set (revisions db) \<and>
       s = dec\<lparr>d_id := d_id s, d_created_by_id := u_id me,
         d_title := (case ro_successor_title q of Some (ch # text) \<Rightarrow> ch # text | _ \<Rightarrow> d_title dec),
         d_summary := (case ro_successor_summary q of Some text \<Rightarrow> Some text | None \<Rightarrow> d_summary dec),
         d_category := (case ro_successor_category q of Some c \<Rightarrow> c | None \<Rightarrow> d_category dec),
         d_status := D_DRAFT, d_due_at := None, d_review_at := None, d_closed_at := None, d_archived_at := None,
         d_locked_at := None, d_created_at := db_now env, d_updated_at := db_now env\<rparr> \<and>
       n = \<lparr>n_id = n_id n, n_root_decision_id = records_repo_get_revision_root d db, n_predecessor_decision_id = d,
         n_successor_decision_id = d_id s, n_source_lock_id = l_id l, n_review_id = i, n_created_by_id = u_id me,
         n_revision_number = int (length (records_repo_list_revisions (records_repo_get_revision_root d db) db)) + 1,
         n_outcome = ro_outcome q, n_rationale = ro_rationale q, n_created_at = db_now env\<rparr>)"
  using run
proof (cases rule: review_complete_cases)
  note I = records_invD [OF inv]
  have ids: "distinct (map r_id (reviews db))" using I(2) by (simp add: reviews_inv_def)
  {
    case (confirmed m dec r r')
    note G = review_getD [OF confirmed(4)]
    note s = save_review_InrD [OF confirmed(8) review_get_lookup [OF ids confirmed(4)]]
    show ?thesis
      using G confirmed(1,3,5-7,9) completed_row [OF confirmed(5)] s(1,3)
      by (intro exI [of _ r] exI [of _ dec]) (auto dest: decision_getD)
  next
    case (revision m dec r l r')
    let ?n = "revision_of env me d r l q db" and ?s = "successor_of env me dec q"
    note G = review_getD [OF revision(4)] and look = review_get_lookup [OF ids revision(4)]
    have dec: "dec \<in> set (decisions db)" "d_workspace_id dec = w" using revision(1) by (auto dest: decision_getD)
    have l: "l \<in> set (locks db)" "l_decision_id l = d"
      using revision(8) by (auto simp: records_repo_get_decision_lock_def dest: first_where_SomeD)
    obtain rs ns where "d_id ?s \<notin> d_id ` set (decisions db)"
      using complete_with_revision_frame [OF revision(10)] by blast
    then have fresh: "n_successor_decision_id ?n \<notin> d_id ` set (decisions db)" by (simp add: revision_of_def Let_def)
    have n: "n_outcome ?n = ro_outcome q" "n_rationale ?n = ro_rationale q"
      "?n = \<lparr>n_id = n_id ?n, n_root_decision_id = records_repo_get_revision_root d db, n_predecessor_decision_id = d,
         n_successor_decision_id = d_id ?s, n_source_lock_id = l_id l, n_review_id = i, n_created_by_id = u_id me,
         n_revision_number = int (length (records_repo_list_revisions (records_repo_get_revision_root d db) db)) + 1,
         n_outcome = ro_outcome q, n_rationale = ro_rationale q, n_created_at = db_now env\<rparr>"
      using G by (simp_all add: revision_of_def Let_def next_number [OF I(3)] list_revisions_of_root [OF I(3)])
    from revision(10) look fresh obtain r'' where e: "r'' = write_review env r (review_completed (n_outcome ?n) (n_rationale ?n) (u_id me) (now env) r) r"
      "(r', ?n, ?s) = (r'', ?n, ?s)" "d_id ?s \<notin> d_id ` set (decisions db)" "n_id ?n \<notin> n_id ` set (revisions db)"
      "db' = db\<lparr>reviews := store r_id r'' (reviews db), decisions := decisions db @ [?s], revisions := revisions db @ [?n]\<rparr>"
      by (rule complete_with_revision_InrD)
    have x: "ror_review x = r''" "ror_successor_decision x = Some ?s" "ror_revision x = Some ?n" "d_id ?s = fresh env 0"
      using e(2) revision(11) by simp_all
    have db': "db' = db\<lparr>reviews := store r_id (ror_review x) (reviews db), decisions := decisions db @ [?s], revisions := revisions db @ [?n]\<rparr>"
      using e(5) x(1) by simp
    have row: "ror_review x = r\<lparr>r_status := R_COMPLETED, r_outcome := Some (ro_outcome q), r_outcome_rationale := Some (ro_rationale q),
        r_completed_by_id := Some (u_id me), r_completed_at := Some (now env), r_updated_at := db_now env\<rparr>"
      using e(1) completed_row [OF revision(5)] n(1,2) x(1) by simp
    note s = successor_row [of env me dec q, folded x(4)]
    note facts = x(2,3) l db' e(3,4) s n(3)
    show ?thesis
      unfolding if_not_P [OF revision(7)]
      by (rule exI [of _ r], rule exI [of _ dec], (rule conjI | fact revision(5,6,3,9) dec row G [THEN conjunct1] G [THEN conjunct2, THEN conjunct1]
        G [THEN conjunct2, THEN conjunct2])+, rule exI [of _ ?s], rule exI [of _ ?n], rule exI [of _ l], (rule conjI | fact facts)+)
  }
qed

lemma review_complete_revision_first:
  assumes inv: "db_inv H db" and recs: "records_inv db" and first: "revision_first env" and "ro_outcome q \<noteq> CONFIRMED"
    and ctx: "decision_context (u_id me) w d db = Inr (m, dec)" and role: "m_role m \<in> {OWNER, ADMIN}" and lk: "d_status dec = D_LOCKED"
    and r: "records_repo_get_review d i db = Some r" "r_status r = R_SCHEDULED" "r_scheduled_for r \<le> now env"
    and fresh: "fresh env 0 \<notin> d_id ` set (decisions db)"
  shows "review_complete env me w d i q db = Inl ReviewConflictError"
proof -
  have ids: "distinct (map r_id (reviews db))" using records_invD(2) [OF recs] by (simp add: reviews_inv_def)
  note look = review_get_lookup [OF ids r(1)]
  have dec: "dec \<in> set (decisions db)" "d_id dec = d" using ctx by (auto dest: decision_getD)
  have "records_repo_get_decision_lock d db \<noteq> None"
    using lock_invD(5) [OF db_invD(8) [OF inv] dec(1) lk] dec(2)
    unfolding records_repo_get_decision_lock_def first_where_None_iff by auto
  then obtain l where l: "records_repo_get_decision_lock d db = Some l" by blast
  have "can_manage_reviews (m_role m)" using role by (simp add: can_manage_reviews_def)
  moreover have "records_repo_complete_review_with_revision env r (successor_of env me dec q) n (u_id me) (now env) db = Inl ReviewConflictError"
    if "n_successor_decision_id n = fresh env 0" for n
    using first fresh that look
    by (auto simp: records_repo_complete_review_with_revision_def save_review_def flush_update_def insert_revision_def
        on_integrity_error_def ensure_def)
  ultimately show ?thesis
    using assms(4) r lk l by (simp add: review_complete_def ctx require_locked_def require_review_def dec(2) Let_def del: decision_context_Inr)
qed

end
