(* ===== verification/Demo_Reviews.thy ===== *)
theory Demo_Reviews imports Revisions Demo begin

text \<open>
  The run of \<open>Demo\<close> goes on after the lock: Ada assigns an action to Bob, who completes it, and
  schedules a review, which reopens the decision.
\<close>

definition demo_locked :: decision where
  "demo_locked = decision_locked (demo_env 15) demo_active"

definition rollout :: implementation_action where
  "rollout = \<lparr>a_id = 1700, a_decision_id = 300, a_created_by_id = 1, a_assignee_id = 2, a_title = ''Deploy'', a_description = None,
     a_status = A_TODO, a_due_at = None, a_completed_at = None, a_cancelled_at = None, a_created_at = 17, a_updated_at = 17\<rparr>"

definition rolled_out :: implementation_action where
  "rolled_out = rollout\<lparr>a_status := A_COMPLETED, a_completed_at := Some 18, a_updated_at := 18\<rparr>"

definition checkup :: decision_review where
  "checkup = \<lparr>r_id = 1900, r_decision_id = 300, r_scheduled_by_id = 1, r_scheduled_for = 20, r_status = R_SCHEDULED, r_notes = None,
     r_outcome = None, r_outcome_rationale = None, r_completed_by_id = None, r_completed_at = None, r_cancelled_by_id = None,
     r_cancelled_at = None, r_created_at = 19, r_updated_at = 19\<rparr>"

definition reopening :: review_outcome_request where
  "reopening = \<lparr>ro_outcome = REOPENED, ro_rationale = ''Costs'', ro_successor_title = None, ro_successor_summary = None,
     ro_successor_category = None\<rparr>"

definition checked :: decision_review where
  "checked = (review_completed REOPENED ''Costs'' 1 21 checkup)\<lparr>r_updated_at := 21\<rparr>"

definition reopened :: decision where
  "reopened = \<lparr>d_id = 2100, d_workspace_id = 100, d_created_by_id = 1, d_title = ''Queue'', d_summary = None,
     d_category = TECHNOLOGY, d_status = D_DRAFT, d_due_at = None, d_review_at = None, d_closed_at = None,
     d_archived_at = None, d_locked_at = None, d_created_at = 21, d_updated_at = 21\<rparr>"

definition first_revision :: decision_revision where
  "first_revision = \<lparr>n_id = 2101, n_root_decision_id = 300, n_predecessor_decision_id = 300, n_successor_decision_id = 2100,
     n_source_lock_id = l_id demo_lock, n_review_id = 1900, n_created_by_id = 1, n_revision_number = 1, n_outcome = REOPENED,
     n_rationale = ''Costs'', n_created_at = 21\<rparr>"

definition demo17 :: db where "demo17 = demo15\<lparr>actions := [rollout]\<rparr>"
definition demo18 :: db where "demo18 = demo15\<lparr>actions := [rolled_out]\<rparr>"
definition demo19 :: db where "demo19 = demo18\<lparr>reviews := [checkup]\<rparr>"
definition demo21 :: db where
  "demo21 = demo18\<lparr>reviews := [checked], decisions := [demo_locked, reopened], revisions := [first_revision]\<rparr>"

lemmas demo_record_defs = rollout_def rolled_out_def checkup_def reopening_def checked_def reopened_def first_revision_def

lemma demo15_tables [simp]:
  "workspaces demo15 = [demo_workspace]" "members demo15 = [ada_member, bob_member]" "decisions demo15 = [demo_locked]"
  "locks demo15 = [demo_lock]" "actions demo15 = []" "reviews demo15 = []" "revisions demo15 = []"
  by (simp_all add: demo15_def demo_locked_def demo_db_defs)

lemma demo_locked_fields [simp]:
  "d_id demo_locked = 300" "d_workspace_id demo_locked = 100" "d_status demo_locked = D_LOCKED" "d_title demo_locked = ''Queue''"
  "d_summary demo_locked = None" "d_category demo_locked = TECHNOLOGY"
  by (simp_all add: demo_locked_def decision_locked_def demo_row_defs)

definition locked_base :: "db \<Rightarrow> bool" where
  "locked_base db \<longleftrightarrow> workspaces db = [demo_workspace] \<and> members db = [ada_member, bob_member] \<and> decisions db = [demo_locked] \<and>
     locks db = [demo_lock] \<and> revisions db = []"

lemma locked_context:
  assumes "locked_base db"
  shows "decision_context (u_id ada) 100 300 db = Inr (ada_member, demo_locked)"
    and "decision_context (u_id bob) 100 300 db = Inr (bob_member, demo_locked)"
proof -
  have "decisions_repo_get_for_workspace 100 300 db = Some demo_locked"
    using assms by (simp add: locked_base_def decisions_repo_get_for_workspace_def decision_for_workspace_def)
  then show "decision_context (u_id ada) 100 300 db = Inr (ada_member, demo_locked)"
    "decision_context (u_id bob) 100 300 db = Inr (bob_member, demo_locked)"
    using assms by (simp_all add: locked_base_def)
qed

lemma locked_bases: "locked_base demo15" "locked_base demo17" "locked_base demo18" "locked_base demo19"
  by (simp_all add: locked_base_def demo17_def demo18_def demo19_def)

lemma locked_permits [simp]:
  "can_manage_actions (m_role ada_member)" "can_manage_reviews (m_role ada_member)"
  "can_transition_action (m_role bob_member) (u_id bob) 2"
  by (simp_all add: permission_defs demo_row_defs)

lemma locked_requests:
  "ActionCreateRequest \<lparr>acb_title = ''Deploy'', acb_description = None, acb_assignee_id = 2, acb_due_at = None\<rparr> =
     Inr \<lparr>ac_title = ''Deploy'', ac_description = None, ac_assignee_id = 2, ac_due_at = None\<rparr>"
  "ReviewCreateRequest \<lparr>rcb_scheduled_for = Aware 20, rcb_notes = None\<rparr> = Inr \<lparr>rc_scheduled_for = 20, rc_notes = None\<rparr>"
  "ReviewOutcomeRequest reopening = Inr reopening"
  by (simp_all add: ActionCreateRequest_def ReviewCreateRequest_def ReviewOutcomeRequest_def reopening_def normalized_field_def
      field_length_def normalize_text_def py_split_def is_space_def Let_def)

lemma run17: "action_create (demo_env 17) ada 100 300
    \<lparr>ac_title = ''Deploy'', ac_description = None, ac_assignee_id = 2, ac_due_at = None\<rparr> demo15 = Inr (rollout, demo17)"
proof -
  have "require_eligible_assignee 100 2 demo15 = Inr ()"
    by (simp add: require_eligible_assignee_def workspaces_repo_get_membership_def demo_row_defs)
  then show ?thesis
    unfolding action_create_def locked_context(1) [OF locked_bases(1)]
    by (simp add: require_locked_def records_repo_create_action_def flush_insert_def demo17_def rollout_def
        ck_implementation_actions_def ada_def)
qed

lemma run18: "action_transition (demo_env 18) bob 100 300 1700 A_COMPLETED demo17 = Inr (rolled_out, demo18)"
  unfolding action_transition_def locked_context(2) [OF locked_bases(2)]
  by (simp add: require_locked_def require_action_def records_repo_get_action_def action_for_decision_def
      records_repo_transition_action_def save_action_def flush_update_def write_action_def put_if_dirty_def store_def
      ck_implementation_actions_def demo17_def demo18_def rollout_def rolled_out_def)

lemma run19: "review_create (demo_env 19) ada 100 300 \<lparr>rc_scheduled_for = 20, rc_notes = None\<rparr> demo18 = Inr (checkup, demo19)"
  unfolding review_create_def locked_context(1) [OF locked_bases(3)]
  by (simp add: require_locked_def require_future_review_def records_repo_create_review_def flush_insert_def
      ck_decision_reviews_def uq_one_scheduled_def on_integrity_error_def demo18_def demo19_def checkup_def ada_def)

lemma run21: "review_complete (demo_env 21) ada 100 300 1900 reopening demo19 =
    Inr (\<lparr>ror_review = checked, ror_revision = Some first_revision, ror_successor_decision = Some reopened\<rparr>, demo21)"
proof -
  have root: "records_repo_get_revision_root 300 demo19 = 300" "records_repo_next_revision_number 300 demo19 = 1"
    by (simp_all add: records_repo_get_revision_root_def records_repo_next_revision_number_def demo18_def demo19_def)
  have lock: "records_repo_get_decision_lock 300 demo19 = Some demo_lock"
    by (simp add: records_repo_get_decision_lock_def demo18_def demo19_def demo_locks15)
  have succ: "successor_of (demo_env 21) ada demo_locked reopening = reopened"
    by (simp add: successor_of_def reopening_def reopened_def ada_def)
  have run: "records_repo_complete_review_with_revision (demo_env 21) checkup reopened first_revision 1 21 demo19 =
      Inr ((checked, first_revision, reopened), demo21)"
    by (simp add: records_repo_complete_review_with_revision_def save_review_def flush_update_def write_review_def
        put_if_dirty_def store_def insert_decision_def insert_revision_def flush_insert_def ck_decision_reviews_def
        ck_decision_revisions_def ck_decisions_locked_state_def review_completed_def on_integrity_error_def
        demo18_def demo19_def demo21_def demo_record_defs)
  have review: "records_repo_get_review 300 1900 demo19 = Some checkup" "r_status checkup = R_SCHEDULED" "r_scheduled_for checkup \<le> 21"
    "r_id checkup = 1900"
    by (simp_all add: records_repo_get_review_def review_for_decision_def demo18_def demo19_def checkup_def)
  have o1: "ro_outcome reopening = REOPENED" "ro_rationale reopening = ''Costs''" by (simp_all add: reopening_def)
  have me: "u_id ada = 1" by (simp add: ada_def)
  show ?thesis
    unfolding review_complete_def locked_context(1) [OF locked_bases(4)]
    by (simp add: require_locked_def require_review_def review lock root succ run [unfolded first_revision_def One_nat_def] o1 me
        first_revision_def Let_def)
qed

lemma demo_reachable18: "reachable demo_digest demo18"
  by (rule reachable.step [OF reachable.step [OF demo_reachable15
        app_step.follow_up [OF record_step.action_create [OF locked_requests(1) run17]]]
        app_step.follow_up [OF record_step.action_transition [OF run18]]])

lemma demo_step19: "app_step demo_digest demo18 demo19"
  by (rule app_step.follow_up [OF record_step.review_create [OF locked_requests(2) run19]])

lemma demo_reachable19: "reachable demo_digest demo19"
  by (rule reachable.step [OF demo_reachable18 demo_step19])

lemma demo_reachable21: "reachable demo_digest demo21"
  by (rule reachable.step [OF demo_reachable19 app_step.follow_up [OF record_step.review_complete [OF locked_requests(3) run21]]])

end
