(* ===== verification/Follow_Up.thy ===== *)
theory Follow_Up imports Demo_Reviews begin

text \<open>
  What holds of the actions, reviews and revisions that follow a lock, in every state the application
  reaches.
\<close>

section \<open>Actions\<close>

text \<open>
  C31. An action is never removed and never leaves its decision; once completed or cancelled it does
  not change at all, whatever the step; before that its status moves along the table of transitions.
\<close>

theorem action_life:
  assumes "reachable H db" and "app_step H db db'" and "a \<in> set (actions db)"
  shows "\<exists>a' \<in> set (actions db'). a_id a' = a_id a \<and>
    (a' = a \<or> a_status a \<notin> {A_COMPLETED, A_CANCELLED} \<and> a_decision_id a' = a_decision_id a \<and>
       a_created_by_id a' = a_created_by_id a \<and>
       (a_status a' = a_status a \<or> a_status a' \<in> ACTION_TRANSITIONS (a_status a)) \<and>
       (a_completed_at a' \<noteq> None \<longleftrightarrow> a_status a' = A_COMPLETED) \<and> (a_cancelled_at a' \<noteq> None \<longleftrightarrow> a_status a' = A_CANCELLED))"
  using app_step_action [OF assms(2) reachable_db_inv [OF assms(1)] reachable_records_inv [OF assms(1)] assms(3)]
  by (auto simp: action_evolves_def action_final_def ck_implementation_actions_def)

theorem action_life_witness: "rolled_out \<in> set (actions demo19)"
proof -
  have "rolled_out \<in> set (actions demo18)" by (simp add: demo18_def)
  from action_life [OF demo_reachable18 demo_step19 this] show ?thesis by (auto simp: rolled_out_def)
qed

section \<open>Reviews\<close>

text \<open>
  C32. Actions and reviews belong to locked decisions only; a decision has at most one scheduled
  review; and the reviews that did not confirm their decision are exactly those a revision names.
\<close>

theorem reviews_grounded:
  assumes "reachable H db"
  shows "(\<forall>a \<in> set (actions db). \<exists>d \<in> set (decisions db). d_id d = a_decision_id a \<and> d_status d = D_LOCKED) \<and>
    (\<forall>r \<in> set (reviews db).
       (\<exists>d \<in> set (decisions db). d_id d = r_decision_id r \<and> d_status d = D_LOCKED) \<and>
       (r_outcome r \<noteq> None \<longleftrightarrow> r_status r = R_COMPLETED) \<and>
       (r_outcome r \<in> {Some REOPENED, Some SUPERSEDED} \<longleftrightarrow> (\<exists>n \<in> set (revisions db). n_review_id n = r_id r))) \<and>
    (\<forall>d. length (filter (\<lambda>r. r_decision_id r = d \<and> r_status r = R_SCHEDULED) (reviews db)) \<le> 1)"
proof (intro conjI ballI allI)
  note I = records_invD [OF reachable_records_inv [OF assms]]
  note R = I(2) [unfolded reviews_inv_def]
  show "\<exists>d \<in> set (decisions db). d_id d = a_decision_id a \<and> d_status d = D_LOCKED" if "a \<in> set (actions db)" for a
    using I(1) that by (simp add: actions_inv_def)
  show "length (filter (\<lambda>r. r_decision_id r = d \<and> r_status r = R_SCHEDULED) (reviews db)) \<le> 1" for d
    using R distinct_at_most_one [of r_decision_id "filter (\<lambda>r. r_status r = R_SCHEDULED) (reviews db)" d]
    by (simp add: uq_one_scheduled_def conj_commute)
  fix r assume r: "r \<in> set (reviews db)"
  show "\<exists>d \<in> set (decisions db). d_id d = r_decision_id r \<and> d_status d = D_LOCKED" using R r by simp
  show "r_outcome r \<noteq> None \<longleftrightarrow> r_status r = R_COMPLETED" using R r by (auto simp: ck_decision_reviews_def)
  show "r_outcome r \<in> {Some REOPENED, Some SUPERSEDED} \<longleftrightarrow> (\<exists>n \<in> set (revisions db). n_review_id n = r_id r)"
  proof
    assume "r_outcome r \<in> {Some REOPENED, Some SUPERSEDED}"
    then show "\<exists>n \<in> set (revisions db). n_review_id n = r_id r" using I(5) [OF r] by auto
  next
    assume "\<exists>n \<in> set (revisions db). n_review_id n = r_id r"
    then obtain n where "n \<in> set (revisions db)" "n_review_id n = r_id r" by blast
    then show "r_outcome r \<in> {Some REOPENED, Some SUPERSEDED}"
      using revision_of_review [OF reachable_records_inv [OF assms] _ r] by auto
  qed
qed

theorem reviews_grounded_witness:
  "r_outcome checked \<in> {Some REOPENED, Some SUPERSEDED} \<longleftrightarrow> (\<exists>n. n \<in> set (revisions demo21) \<and> n_review_id n = r_id checked)"
proof -
  have "checked \<in> set (reviews demo21)" by (simp add: demo21_def)
  then show ?thesis using reviews_grounded [OF demo_reachable21] by blast
qed

text \<open>
  C33. What completing a review that is due writes. The review row is completed with the outcome, the rationale, the
  caller and the time. Confirming the decision changes nothing else. Any other outcome also appends a draft decision of the
  same workspace, with the title, summary and category of the locked one where the request names no others, and the next
  revision, which names the root, the locked decision, that draft, the lock, the review and the caller; nothing else changes,
  so the locked decision stays as it is.
\<close>

theorem review_outcome_effect:
  assumes "reachable H db" and "review_complete env me w d i q db = Inr (x, db')"
  shows "\<exists>r dec. r \<in> set (reviews db) \<and> r_id r = i \<and> r_decision_id r = d \<and> r_status r = R_SCHEDULED \<and> r_scheduled_for r \<le> now env \<and>
    dec \<in> set (decisions db) \<and> d_id dec = d \<and> d_workspace_id dec = w \<and> d_status dec = D_LOCKED \<and>
    ror_review x = r\<lparr>r_status := R_COMPLETED, r_outcome := Some (ro_outcome q), r_outcome_rationale := Some (ro_rationale q),
      r_completed_by_id := Some (u_id me), r_completed_at := Some (now env), r_updated_at := db_now env\<rparr> \<and>
    (if ro_outcome q = CONFIRMED then
       ror_revision x = None \<and> ror_successor_decision x = None \<and> db' = db\<lparr>reviews := store r_id (ror_review x) (reviews db)\<rparr>
     else \<exists>s n l. ror_successor_decision x = Some s \<and> ror_revision x = Some n \<and> l \<in> set (locks db) \<and> l_decision_id l = d \<and>
       db' = db\<lparr>reviews := store r_id (ror_review x) (reviews db), decisions := decisions db @ [s], revisions := revisions db @ [n]\<rparr> \<and>
       d_id s \<notin> d_id ` set (decisions db) \<and> n_id n \<notin> n_id ` set (revisions db) \<and>
       s = dec\<lparr>d_id := d_id s, d_created_by_id := u_id me,
         d_title := (case ro_successor_title q of Some (ch # text) \<Rightarrow> ch # text | _ \<Rightarrow> d_title dec),
         d_summary := (case ro_successor_summary q of Some text \<Rightarrow> Some text | None \<Rightarrow> d_summary dec),
         d_category := (case ro_successor_category q of Some c \<Rightarrow> c | None \<Rightarrow> d_category dec),
         d_status := D_DRAFT, d_due_at := None, d_review_at := None, d_closed_at := None, d_archived_at := None,
         d_locked_at := None, d_created_at := db_now env, d_updated_at := db_now env\<rparr> \<and>
       n = \<lparr>n_id = n_id n, n_root_decision_id = records_repo_get_revision_root d db, n_predecessor_decision_id = d,
         n_successor_decision_id = d_id s, n_source_lock_id = l_id l, n_review_id = i, n_created_by_id = u_id me,
         n_revision_number = int (length (records_repo_list_revisions (records_repo_get_revision_root d db) db)) + 1,
         n_outcome = ro_outcome q, n_rationale = ro_rationale q, n_created_at = db_now env\<rparr>)"
  using review_complete_result [OF assms(2) reachable_records_inv [OF assms(1)]] .

theorem review_outcome_effect_witness: "\<exists>s n. decisions demo21 = decisions demo19 @ [s] \<and> revisions demo21 = revisions demo19 @ [n]"
proof -
  have "ro_outcome reopening \<noteq> CONFIRMED" by (simp add: reopening_def)
  then obtain rs s n where e: "demo21 = demo19\<lparr>reviews := rs, decisions := decisions demo19 @ [s], revisions := revisions demo19 @ [n]\<rparr>"
    using review_outcome_effect [OF demo_reachable19 run21] by auto
  show ?thesis using arg_cong [OF e, of decisions] arg_cong [OF e, of revisions] by auto
qed

text \<open>
  C34. The revisions a request lists for a decision are numbered 1, 2, 3, \<dots>; each one leads from a
  locked decision, through its completed review, to the decision the next one starts from; and the
  decision asked about is the root or one of the successors.
\<close>

theorem revision_chain:
  assumes "reachable H db" and "revision_list me w d db = Inr ns"
  shows "map n_revision_number ns = map int [1..<Suc (length ns)] \<and>
    (\<exists>root_id. linked root_id ns \<and> d \<in> set (root_id # map n_successor_decision_id ns)) \<and>
    (\<forall>n \<in> set ns.
       (\<exists>e \<in> set (decisions db). d_id e = n_predecessor_decision_id n \<and> d_status e = D_LOCKED) \<and>
       (\<exists>l \<in> set (locks db). l_id l = n_source_lock_id n \<and> l_decision_id l = n_predecessor_decision_id n) \<and>
       (\<exists>r \<in> set (reviews db). r_id r = n_review_id n \<and> r_status r = R_COMPLETED \<and> r_outcome r = Some (n_outcome n)) \<and>
       n_successor_decision_id n \<in> d_id ` set (decisions db))"
proof -
  note I = records_invD [OF reachable_records_inv [OF assms(1)]]
  let ?root = "records_repo_get_revision_root d db"
  have ns: "ns = of_root ?root (revisions db)"
    using assms(2) list_revisions_of_root [OF I(3)] by (auto simp: revision_list_def simp del: decision_context_Inr)
  have "d \<in> set (?root # map n_successor_decision_id ns)"
    unfolding ns by (cases rule: revision_root_cases [of db d]) (auto simp: of_root_def)
  moreover have "counted ns" "linked ?root ns" unfolding ns by (rule chain_invD(1,2) [OF I(3)])+
  moreover have "revision_grounded db n" if "n \<in> set ns" for n using that I(4) by (simp add: ns of_root_def)
  ultimately show ?thesis unfolding counted_def revision_grounded_def by blast
qed

theorem revision_chain_witness: "map n_revision_number [first_revision] = map int [1..<Suc (length [first_revision])]"
proof -
  have "revision_list ada 100 2100 demo21 = Inr [first_revision]"
    by (simp add: revision_list_def decisions_repo_get_for_workspace_def decision_for_workspace_def
        records_repo_get_revision_root_def records_repo_list_revisions_def demo18_def demo21_def)
       (simp add: demo_record_defs)
  then show ?thesis using revision_chain [OF demo_reachable21] by blast
qed

text \<open>
  A review that does not confirm its decision can be completed only because the new draft is
  inserted before the revision that names it: where the revision is sent first, its foreign key fails,
  the request ends in a conflict and nothing is stored, whatever the data.
\<close>

theorem revision_before_draft:
  assumes "reachable H db" and "revision_first env" and "ro_outcome q \<noteq> CONFIRMED"
    and "decision_context (u_id me) w d db = Inr (m, dec)" and "m_role m \<in> {OWNER, ADMIN}" and "d_status dec = D_LOCKED"
    and "records_repo_get_review d i db = Some r" and "r_status r = R_SCHEDULED" and "r_scheduled_for r \<le> now env"
    and "fresh env 0 \<notin> d_id ` set (decisions db)"
  shows "review_complete env me w d i q db = Inl ReviewConflictError"
  using review_complete_revision_first [OF reachable_db_inv [OF assms(1)] reachable_records_inv [OF assms(1)] assms(2-10)] .

theorem revision_before_draft_witness:
  "review_complete ((demo_env 21)\<lparr>revision_first := True\<rparr>) ada 100 300 1900 reopening demo19 = Inl ReviewConflictError"
  by (rule revision_before_draft [OF demo_reachable19 _ _ locked_context(1) [OF locked_bases(4)], of _ _ _ checkup])
    (simp_all add: reopening_def records_repo_get_review_def review_for_decision_def demo18_def demo19_def checkup_def ada_member_def)

end
