(* ===== verification/Delivery.thy ===== *)
theory Delivery imports Demo_Reviews begin

text \<open>
  What holds of reminders and their delivery in every state the application reaches.
\<close>

section \<open>The table of notifications over time\<close>

lemma notifications_inv_filter: "notifications_inv ns \<Longrightarrow> notifications_inv (filter P ns)"
  by (auto simp: notifications_inv_def intro: distinct_map_filter)

text \<open>Requests elsewhere leave the table alone, except that a workspace goes with its notifications.\<close>

lemma app_step_notifications:
  assumes step: "app_step H db db'" and inv: "db_inv H db"
  shows "notifications db' = notifications db \<or> notify_step db db' \<or>
    (\<exists>w. notifications db' = filter (\<lambda>n. nt_workspace_id n \<noteq> w) (notifications db) \<and> w \<notin> w_id ` set (workspaces db'))"
proof -
  note I = db_invD [OF inv] and K = db_inv_keys [OF inv]
  from step show ?thesis
  proof cases
    case workspace
    from workspace_step_cases [OF this] show ?thesis
    proof (elim disjE exE)
      fix w assume "delete_workspace_row w db = Inr db'"
      then have "notifications db' = filter (\<lambda>n. nt_workspace_id n \<noteq> w) (notifications db)"
        "w \<notin> w_id ` set (workspaces db')"
        by (auto simp: delete_workspace_row_def Let_def)
      then show ?thesis by blast
    qed simp
  next
    case decision
    from decision_step_cases [OF this I(2)] show ?thesis by auto
  next
    case proposal
    from proposal_step_effect [OF this I(3)] show ?thesis by auto
  next
    case criterion
    from criterion_step_frame [OF this] obtain cs ss where "db' = db\<lparr>criteria := cs, scores := ss\<rparr>" by blast
    then show ?thesis by simp
  next
    case objection
    from objection_step_effect [OF this I(6)] show ?thesis by auto
  next
    case voting
    then have "voting_effect db db'"
      by (rule voting_step_effect [OF _ voting_invD(1) [OF I(7)] register_invD(1) [OF voting_invD(2) [OF I(7)]]
          register_invD(3) [OF voting_invD(2) [OF I(7)]]])
    then show ?thesis by (cases rule: voting_effect.cases) simp_all
  next
    case lock
    from this K(1) show ?thesis by (rule lock_step_tables) simp
  next
    case follow_up
    then show ?thesis by (cases rule: record_step_tables) simp_all
  next
    case side
    then show ?thesis
    proof cases
      case attach
      then show ?thesis using attachment_step_table by fastforce
    next
      case integrate
      then show ?thesis using integration_step_tables(1) by fastforce
    qed simp
  qed
qed

lemma notify_step_tables:
  assumes "notify_step db db'" and "notifications_inv (notifications db)"
  shows "notifications_inv (notifications db')" and "notifications_follow (notifications db) (notifications db')"
proof -
  obtain ns where "db' = db\<lparr>notifications := ns\<rparr>" "notifications_inv ns" "notifications_follow (notifications db) ns"
    using notify_step_effect [OF assms] unfolding notify_effect_def by blast
  then show "notifications_inv (notifications db')" "notifications_follow (notifications db) (notifications db')" by simp_all
qed

lemma app_step_notifications_inv:
  assumes "app_step H db db'" and "db_inv H db" and inv: "notifications_inv (notifications db)"
  shows "notifications_inv (notifications db')"
  using app_step_notifications [OF assms(1,2)]
proof (elim disjE exE conjE)
  assume "notify_step db db'"
  then show ?thesis using notify_step_tables(1) inv by blast
qed (use inv in \<open>simp_all add: notifications_inv_filter\<close>)

lemma reachable_notifications_inv: "reachable H db \<Longrightarrow> notifications_inv (notifications db)"
proof (induction rule: reachable.induct)
  case (start us)
  show ?case by (simp add: notifications_inv_def empty_db_def)
next
  case (step db db')
  then show ?case by (blast intro: app_step_notifications_inv [OF _ reachable_db_inv])
qed

lemma app_step_notification:
  assumes reach: "reachable H db" and step: "app_step H db db'" and n: "n \<in> set (notifications db)"
  shows "(\<exists>n' \<in> set (notifications db'). notification_evolves n n') \<or>
    nt_id n \<notin> nt_id ` set (notifications db') \<and> nt_workspace_id n \<notin> w_id ` set (workspaces db')"
proof -
  note inv = reachable_notifications_inv [OF reach]
  have ids: "distinct (map nt_id (notifications db))" using inv by (simp add: notifications_inv_def)
  from app_step_notifications [OF step reachable_db_inv [OF reach]] show ?thesis
  proof (elim disjE exE conjE)
    assume "notifications db' = notifications db"
    then show ?thesis using n by (intro disjI1 bexI [of _ n]) simp_all
  next
    assume "notify_step db db'"
    then have "notifications_follow (notifications db) (notifications db')"
      using notify_step_tables(2) inv by blast
    then show ?thesis using n by (rule follows_cases) auto
  next
    fix w assume w: "notifications db' = filter (\<lambda>n. nt_workspace_id n \<noteq> w) (notifications db)" "w \<notin> w_id ` set (workspaces db')"
    show ?thesis
    proof (cases "nt_workspace_id n = w")
      case True
      have "nt_id n \<notin> nt_id ` set (notifications db')"
      proof
        assume "nt_id n \<in> nt_id ` set (notifications db')"
        then obtain m where "m \<in> set (notifications db)" "nt_workspace_id m \<noteq> w" "nt_id m = nt_id n" using w(1) by auto
        then show False using distinct_key_eq [OF ids _ n] True by blast
      qed
      then show ?thesis using w(2) True by blast
    next
      case False
      then have "n \<in> set (notifications db')" using n w(1) by simp
      then show ?thesis by (intro disjI1 bexI [of _ n]) simp_all
    qed
  qed
qed

section \<open>A reminder in the demonstration run\<close>

text \<open>One microsecond before the review of \<open>Demo_Reviews\<close> is due, the job finds it for Ada.\<close>

definition demo_candidate :: reminder_candidate where
  "demo_candidate = \<lparr>rk_recipient_id = 1, rk_workspace_id = 100, rk_kind = DECISION_REVIEW, rk_source_id = 1900, rk_due_at = 20,
     rk_title = ''Decision review due'', rk_body = ''A scheduled decision review is due soon.''\<rparr>"

definition demo_reminder :: notification where
  "demo_reminder = candidate_row (demo_env 19) 1900 demo_candidate 2 19"

definition demo20 :: db where "demo20 = demo19\<lparr>notifications := [demo_reminder]\<rparr>"

lemma demo19_tables [simp]:
  "actions demo19 = [rolled_out]" "reviews demo19 = [checkup]" "decisions demo19 = [demo_locked]"
  "members demo19 = [ada_member, bob_member]" "notifications demo19 = []" "users demo19 = [ada, bob]"
  by (simp_all add: demo19_def demo18_def demo17_def) (simp_all add: demo15_def demo_db_defs)

lemma demo19_sessions [simp]: "sessions demo19 = [demo_closed]"
  by (simp add: demo19_def demo18_def demo15_def demo_db_defs)

lemma demo_key_length: "length (idempotency_key demo_candidate) \<le> 255"
  by code_simp

lemma demo_loaders:
  "due_action_candidates 19 b demo19 = []" "due_review_candidates 19 (19 + minutes 60) demo19 = [demo_candidate]"
  "due_decision_candidates 19 b demo19 = []" "due_voting_candidates 19 b demo19 = []"
  by (simp_all add: due_action_candidates_def due_review_candidates_def due_decision_candidates_def due_voting_candidates_def
      demo_candidate_def minutes_def rolled_out_def rollout_def checkup_def ada_member_def bob_member_def)

lemma loaders_notifications [simp]:
  "due_action_candidates a b (db\<lparr>notifications := ns\<rparr>) = due_action_candidates a b db"
  "due_review_candidates a b (db\<lparr>notifications := ns\<rparr>) = due_review_candidates a b db"
  "due_decision_candidates a b (db\<lparr>notifications := ns\<rparr>) = due_decision_candidates a b db"
  "due_voting_candidates a b (db\<lparr>notifications := ns\<rparr>) = due_voting_candidates a b db"
  by (simp_all add: due_action_candidates_def due_review_candidates_def due_decision_candidates_def due_voting_candidates_def
      cong: if_cong)

lemma run_reminders: "reminder_discover (demo_env 19) (\<lambda>_. True) 60 2 demo19 =
    (Inr (), \<lparr>dv_db = demo20, dv_enqueued = [1900], dv_draws = 1\<rparr>)"
proof -
  have "notifications_repo_create_candidate (demo_env 19) 1900 demo_candidate 2 19 demo19 = Inr (Some 1900, demo20)"
    using demo_key_length
    by (simp add: notifications_repo_create_candidate_def flush_insert_def demo20_def demo_reminder_def)
      (simp add: candidate_row_def ck_notifications_def demo_candidate_def)
  then show ?thesis
    by (simp add: reminder_discover_def reminder_loaders_def demo_loaders demo20_def)
qed

lemma demo_reminder_step: "app_step demo_digest demo19 demo20"
proof -
  have "notify_step demo19 demo20" using notify_step.discover [OF run_reminders] by simp
  then show ?thesis by (blast intro: app_step.side side_step.notify)
qed

lemma demo_reachable20: "reachable demo_digest demo20"
  by (rule reachable.step [OF demo_reachable19 demo_reminder_step])

lemma demo_reminder_fields [simp]:
  "nt_id demo_reminder = 1900" "nt_status demo_reminder = N_PENDING" "nt_attempt_count demo_reminder = 0"
  "nt_max_attempts demo_reminder = 2" "nt_available_at demo_reminder = 19" "nt_recipient_id demo_reminder = 1"
  by (simp_all add: demo_reminder_def candidate_row_def demo_candidate_def)

lemma demo20_look: "lookup nt_id 1900 (notifications demo20) = Some demo_reminder"
  by (simp add: demo20_def)

text \<open>A worker claims it.\<close>

definition demo_claimed :: db where
  "demo_claimed = demo20\<lparr>notifications := [claimed_row (demo_env 20) demo_reminder]\<rparr>"

lemma demo_claimed_tables: "notifications demo_claimed = [claimed_row (demo_env 20) demo_reminder]"
  by (simp add: demo_claimed_def)

lemma demo_claim_step: "app_step demo_digest demo20 demo_claimed"
proof -
  have "claimable (now (demo_env 20)) demo_reminder" by (simp add: claimable_def)
  from claim_due [OF reachable_notifications_inv [OF demo_reachable20] demo20_look this]
  have "notifications_repo_claim_for_delivery (demo_env 20) 1900 20 demo20 = Inr (Some (claimed_row (demo_env 20) demo_reminder), demo_claimed)"
    by (simp add: demo_claimed_def demo20_def store_def)
  from notify_step.claim [OF this] show ?thesis by (blast intro: app_step.side side_step.notify)
qed



section \<open>Termination\<close>

definition status_of :: "uuid \<Rightarrow> db \<Rightarrow> notification_status option" where
  "status_of i db = map_option nt_status (lookup nt_id i (notifications db))"

fun status_changes :: "uuid \<Rightarrow> db list \<Rightarrow> nat" where
  "status_changes i (a # b # dbs) = (if status_of i a = status_of i b then 0 else 1) + status_changes i (b # dbs)"
| "status_changes i _ = 0"

lemma app_step_remaining:
  assumes "reachable H db" and "app_step H db db'" and "lookup nt_id i (notifications db) = Some n"
    and "lookup nt_id i (notifications db') = Some n'"
  shows "remaining n' + (if nt_status n = nt_status n' then 0 else 1) \<le> remaining n"
proof -
  have n: "n \<in> set (notifications db)" "nt_id n = i" and n': "n' \<in> set (notifications db')" "nt_id n' = i"
    using lookup_SomeD [OF assms(3)] lookup_SomeD [OF assms(4)] by simp_all
  have "\<not> nt_id n \<notin> nt_id ` set (notifications db')" using n(2) n' by (metis imageI)
  then obtain m where m: "m \<in> set (notifications db')" "notification_evolves n m"
    using app_step_notification [OF assms(1,2) n(1)] by blast
  have "m = n'"
    using distinct_key_eq [of nt_id "notifications db'" m n'] m n n' reachable_notifications_inv [OF reachable.step [OF assms(1,2)]]
    by (simp add: notifications_inv_def notification_evolves_def same_message_def)
  then show ?thesis using m(2) by (auto simp: notification_evolves_def same_message_def remaining_def)
qed

text \<open>
  C37. However jobs, workers and requests interleave, a notification changes its status only a bounded
  number of times, so its delivery ends: at most \<open>2 * max_attempts + 3\<close> changes while it exists.
\<close>

theorem delivery_terminates:
  assumes "reachable H db" and "successively (app_step H) (db # dbs)"
    and "\<forall>x \<in> set (db # dbs). lookup nt_id i (notifications x) \<noteq> None" and "lookup nt_id i (notifications db) = Some n"
  shows "status_changes i (db # dbs) \<le> 2 * nat (nt_max_attempts n) + 3"
proof -
  have "status_changes i (db # dbs) \<le> remaining n"
    using assms
  proof (induction dbs arbitrary: db n)
    case (Cons x dbs)
    obtain m where m: "lookup nt_id i (notifications x) = Some m" using Cons.prems(3) by auto
    have step: "app_step H db x" using Cons.prems(2) by simp
    have "status_changes i (x # dbs) \<le> remaining m"
      using Cons.prems(2,3) by (intro Cons.IH [OF reachable.step [OF Cons.prems(1) step] _ _ m]) auto
    then show ?case
      using app_step_remaining [OF Cons.prems(1) step Cons.prems(4) m] Cons.prems(4) m by (auto simp: status_of_def)
  qed simp
  moreover have "ck_notifications n"
    using reachable_notifications_inv [OF assms(1)] lookup_SomeD [OF assms(4)] by (simp add: notifications_inv_def)
  then have "remaining n \<le> 2 * nat (nt_max_attempts n) + 3"
    by (cases "nt_status n") (auto simp: remaining_def ck_notifications_def Let_def)
  ultimately show ?thesis by linarith
qed

theorem delivery_terminates_witness: "status_changes 1900 [demo20, demo_claimed] \<le> 7"
  using delivery_terminates [OF demo_reachable20, of "[demo_claimed]" 1900 demo_reminder] demo_claim_step demo20_look
  by (simp add: demo_claimed_tables)

section \<open>Every delivery ends\<close>

text \<open>
  C38. A notification that is due, to an active recipient, reaches an end if its task is run again each
  time its message is due: after as many runs as it has attempts left it is delivered, if the mail
  server took one of them, and failed otherwise. It is never sent again after that.
\<close>

theorem delivery_ends:
  assumes "reachable H db" and "lookup nt_id i (notifications db) = Some n"
    and "nt_status n \<in> {N_PENDING, N_RETRY_SCHEDULED}" and "nt_attempt_count n < nt_max_attempts n"
    and "lookup u_id (nt_recipient_id n) (users db) = Some u" and "u_is_active u"
    and "due_runs cfg (nt_available_at n) rs" and "nat (nt_max_attempts n - nt_attempt_count n) \<le> length rs"
  shows "\<exists>n'. lookup nt_id i (notifications (deliver_runs cfg message i rs db)) = Some n' \<and>
    nt_status n' = (if \<exists>r \<in> set (take (nat (nt_max_attempts n - nt_attempt_count n)) rs). dr_sent r = None
                    then N_DELIVERED else N_FAILED)"
  using assms(5,6) by (intro deliver_runs_end [OF reachable_notifications_inv [OF assms(1)] assms(2-4) _ assms(7,8)]) simp

definition demo_runs :: "delivery_run list" where
  "demo_runs = [\<lparr>dr_claim = demo_env 20, dr_end = demo_env 21, dr_sent = Some ''timeout'', dr_retries = 0\<rparr>,
     \<lparr>dr_claim = demo_env 40000000, dr_end = demo_env 40000001, dr_sent = None, dr_retries = 1\<rparr>]"

theorem delivery_ends_witness:
  "\<exists>n. lookup nt_id 1900 (notifications (deliver_runs \<lparr>ds_base_seconds = 30, ds_max_seconds = 3600, ds_max_attempts = 5\<rparr>
      (\<lambda>_. []) 1900 demo_runs demo20)) = Some n \<and> nt_status n = N_DELIVERED"
proof -
  have user: "lookup u_id (nt_recipient_id demo_reminder) (users demo20) = Some ada" "u_is_active ada"
    by (simp_all add: demo20_def) (simp_all add: ada_def)
  have runs: "due_runs \<lparr>ds_base_seconds = 30, ds_max_seconds = 3600, ds_max_attempts = 5\<rparr> (nt_available_at demo_reminder) demo_runs"
    "nat (nt_max_attempts demo_reminder - nt_attempt_count demo_reminder) \<le> length demo_runs"
    by (simp_all add: demo_runs_def retry_countdown_def)
  show ?thesis
    using delivery_ends [OF demo_reachable20 demo20_look _ _ user runs, where message = "\<lambda>_. []"]
    by (simp add: demo_runs_def)
qed

end
