(* ===== verification/Attachment_Life.thy ===== *)
theory Attachment_Life imports Demo begin

text \<open>
  What holds of attachments in every state the application reaches. The requests of the other
  components only remove an attachment with its workspace, its decision or its proposal.
\<close>

definition parent_gone :: "attachment \<Rightarrow> db \<Rightarrow> bool" where
  "parent_gone a db \<longleftrightarrow>
     at_workspace_id a \<notin> w_id ` set (workspaces db) \<or>
     (\<exists>d. at_decision_id a = Some d \<and> d \<notin> d_id ` set (decisions db)) \<or>
     (\<exists>p. at_proposal_id a = Some p \<and> p \<notin> p_id ` set (proposals db))"

lemma cascade_proposals_attachments:
  "attachments (cascade_proposals g db) = filter (\<lambda>a. \<not> (\<exists>i. at_proposal_id a = Some i \<and> g i)) (attachments db)"
  by (simp add: cascade_proposals_def)

lemma cascade_decisions_attachments:
  "attachments (cascade_decisions g db) = filter (\<lambda>a. \<not> (\<exists>i. at_proposal_id a = Some i \<and> in_decision g (proposals db) i) \<and>
     \<not> (\<exists>i. at_decision_id a = Some i \<and> g i)) (attachments db)"
  by (simp add: cascade_decisions_def cascade_proposals_attachments Let_def)

lemma app_step_attachments:
  assumes step: "app_step H db db'" and inv: "db_inv H db"
  shows "attachments db' = attachments db \<or> attachment_step db db' \<or>
    (\<exists>P. attachments db' = filter P (attachments db) \<and> (\<forall>a. \<not> P a \<longrightarrow> parent_gone a db'))"
proof -
  note I = db_invD [OF inv] and K = db_inv_keys [OF inv]
  from step show ?thesis
  proof cases
    case workspace
    from workspace_step_cases [OF this] show ?thesis
    proof (elim disjE exE)
      fix w assume del: "delete_workspace_row w db = Inr db'"
      let ?g = "in_workspace w (decisions db)"
      have tables: "attachments db' = filter (\<lambda>a. at_workspace_id a \<noteq> w) (attachments (cascade_decisions ?g db))"
        "workspaces db' = filter (\<lambda>x. w_id x \<noteq> w) (workspaces db)"
        "decisions db' = filter (\<lambda>d. \<not> ?g (d_id d)) (decisions db)"
        "proposals db' = filter (\<lambda>p. \<not> in_decision ?g (proposals db) (p_id p)) (proposals db)"
        using del by (auto simp: delete_workspace_row_def Let_def cascade_decisions_tables)
      let ?P = "\<lambda>a. at_workspace_id a \<noteq> w \<and> \<not> (\<exists>i. at_proposal_id a = Some i \<and> in_decision ?g (proposals db) i) \<and>
        \<not> (\<exists>i. at_decision_id a = Some i \<and> ?g i)"
      have "attachments db' = filter ?P (attachments db)"
        by (simp add: tables cascade_decisions_attachments conj_commute conj_left_commute)
      moreover have "\<forall>a. \<not> ?P a \<longrightarrow> parent_gone a db'" by (auto simp: tables parent_gone_def)
      ultimately show ?thesis by blast
    qed simp
  next
    case decision
    from decision_step_cases [OF this I(2)] show ?thesis
    proof (elim disjE exE bexE conjE)
      fix d assume db': "db' = cascade_decisions (\<lambda>j. j = d_id d) db"
      let ?P = "\<lambda>a. \<not> (\<exists>i. at_proposal_id a = Some i \<and> in_decision (\<lambda>j. j = d_id d) (proposals db) i) \<and>
        \<not> (\<exists>i. at_decision_id a = Some i \<and> i = d_id d)"
      have "attachments db' = filter ?P (attachments db)" by (simp only: db' cascade_decisions_attachments)
      moreover have "\<forall>a. \<not> ?P a \<longrightarrow> parent_gone a db'" by (auto simp: db' parent_gone_def cascade_decisions_tables)
      ultimately show ?thesis by blast
    qed simp
  next
    case proposal
    from proposal_step_effect [OF this I(3)] show ?thesis
    proof (elim disjE exE conjE)
      fix p assume db': "db' = cascade_proposals (\<lambda>j. j = p_id p) db"
      let ?P = "\<lambda>a. \<not> (\<exists>i. at_proposal_id a = Some i \<and> i = p_id p)"
      have "attachments db' = filter ?P (attachments db)" by (simp only: db' cascade_proposals_attachments)
      moreover have "\<forall>a. \<not> ?P a \<longrightarrow> parent_gone a db'" by (auto simp: db' parent_gone_def cascade_proposals_def)
      ultimately show ?thesis by blast
    qed simp_all
  next
    case criterion
    from criterion_step_frame [OF this] obtain cs ss where "db' = db\<lparr>criteria := cs, scores := ss\<rparr>" by blast
    then show ?thesis by simp
  next
    case objection
    from objection_step_effect [OF this I(6)] show ?thesis by auto
  next
    case voting
    then have "voting_effect db db'"
      by (rule voting_step_effect [OF _ voting_invD(1) [OF I(7)] register_invD(1) [OF voting_invD(2) [OF I(7)]]
          register_invD(3) [OF voting_invD(2) [OF I(7)]]])
    then show ?thesis by (cases rule: voting_effect.cases) simp_all
  next
    case lock
    from this K(1) show ?thesis by (rule lock_step_tables) simp
  next
    case follow_up
    then show ?thesis by (cases rule: record_step_tables) simp_all
  next
    case side
    then show ?thesis
    proof cases
      case notify
      then show ?thesis using notifications_onlyD [OF notify_step_only] by fastforce
    next
      case integrate
      then show ?thesis using integration_step_tables(1) by fastforce
    qed simp
  qed
qed

lemma attachments_inv_filter: "attachments_inv as \<Longrightarrow> attachments_inv (filter P as)"
  by (auto simp: attachments_inv_def intro: distinct_map_filter)

lemma reachable_attachments_inv: "reachable H db \<Longrightarrow> attachments_inv (attachments db)"
proof (induction rule: reachable.induct)
  case (start us)
  show ?case by (simp add: attachments_inv_def empty_db_def)
next
  case (step db db')
  from app_step_attachments [OF step.hyps(2) reachable_db_inv [OF step.hyps(1)]] show ?case
  proof (elim disjE exE conjE)
    assume "attachment_step db db'"
    then have "attachment_effect db db'" by (rule attachment_step_effect)
    then show ?thesis using step.IH by (auto simp: attachment_effect_def)
  qed (use step.IH in \<open>simp_all add: attachments_inv_filter\<close>)
qed

lemma app_step_attachment:
  assumes reach: "reachable H db" and step: "app_step H db db'" and a: "a \<in> set (attachments db)"
  shows "(\<exists>a' \<in> set (attachments db'). attachment_evolves a a' \<and> file_moves a a') \<or> parent_gone a db'"
  using app_step_attachments [OF step reachable_db_inv [OF reach]]
proof (elim disjE exE conjE)
  assume "attachments db' = attachments db"
  then show ?thesis using a by (intro disjI1 bexI [of _ a]) simp_all
next
  assume s: "attachment_step db db'"
  note inv = reachable_attachments_inv [OF reach] reachable_attachments_inv [OF reachable.step [OF reach step]]
  have "attachments_follow (attachments db) (attachments db')"
    using attachment_step_effect [OF s] inv(1) by (auto simp: attachment_effect_def)
  then obtain a' where a': "lookup at_id (at_id a) (attachments db') = Some a'" "attachment_evolves a a'"
    using a by (rule attachment_history.stays) simp
  obtain b where b: "b \<in> set (attachments db')" "at_id b = at_id a" "file_moves a b"
    using attachment_step_moves [OF s inv(1) a] by blast
  have "distinct (map at_id (attachments db'))" using inv(2) by (simp add: attachments_inv_def)
  then have "b = a'" using b(1,2) lookup_SomeD [OF a'(1)] distinct_key_eq by metis
  then show ?thesis using a'(2) b by blast
next
  fix P assume "attachments db' = filter P (attachments db)" "\<forall>a. \<not> P a \<longrightarrow> parent_gone a db'"
  then show ?thesis using a by (cases "P a") (auto intro: bexI [of _ a])
qed

section \<open>An upload in the demonstration run\<close>

definition demo_client :: object_client where
  "demo_client = \<lparr>oc_bucket_exists = Inr True, oc_make_bucket = Inr (), oc_presigned_put_object = (\<lambda>k t. Inr ''put''),
     oc_presigned_get_object = (\<lambda>k t d. Inr ''get''), oc_stat_object = (\<lambda>k. Inr (Some 5, None)), oc_get_object = (\<lambda>k. Inr [''hello'']),
     oc_put_object = (\<lambda>k b c. Inr ()), oc_remove_object = (\<lambda>k. Inr ())\<rparr>"

definition demo_limits :: attachment_settings where
  "demo_limits = \<lparr>as_max_bytes = 10, as_url_expire_minutes = 15, as_processing_max_attempts = 5, as_retry_base_seconds = 30,
     as_retry_max_seconds = 3600\<rparr>"

definition demo_upload :: attachment_create_request where
  "demo_upload = \<lparr>atc_filename = ''a.txt'', atc_media_type = ''text/plain'', atc_size_bytes = 5, atc_decision_id = None, atc_proposal_id = None\<rparr>"

definition demo_file :: attachment where
  "demo_file = uploaded_row (demo_env 2) ada 100 demo_upload"

definition demo_sent :: attachment where
  "demo_sent = demo_file\<lparr>at_status := AT_PROCESSING, at_updated_at := 3\<rparr>"

definition demo_f1 :: db where "demo_f1 = demo1\<lparr>attachments := [demo_file]\<rparr>"
definition demo_f2 :: db where "demo_f2 = demo1\<lparr>attachments := [demo_sent]\<rparr>"

lemma demo_upload_step: "app_step demo_digest demo1 demo_f1"
proof -
  have "attachment_create_upload demo_limits demo_client (demo_env 2) ada 100 demo_upload demo1 =
      Inr ((demo_file, ''put'', 2 + url_expiry demo_limits), demo_f1)"
    by (simp add: attachment_create_upload_def attachment_membership_def workspaces_repo_get_by_id_def workspaces_repo_get_membership_def
        demo1_def demo_workspace_def ada_member_def ada_def can_upload_attachment_def attachment_validate_target_def
        storage_presigned_upload_def ensure_bucket_def storage_def demo_client_def attachments_repo_create_def demo0_def empty_db_def)
      (simp add: demo_upload_def demo_limits_def demo_file_def demo_f1_def uploaded_row_def ck_attachments_def demo1_def demo0_def
        empty_db_def demo_workspace_def ada_member_def ada_def)
  from attachment_step.create [OF this] show ?thesis by (blast intro: app_step.side side_step.attach)
qed

lemma demo_reachable1: "reachable demo_digest demo1"
  using demo_reachable0 run1 by (blast intro: reachable.step app_step.workspace workspace_step.create)

lemma demo_reachable_f1: "reachable demo_digest demo_f1"
  by (rule reachable.step [OF demo_reachable1 demo_upload_step])

lemma demo_file_fields [simp]:
  "at_id demo_file = 200" "at_workspace_id demo_file = 100" "at_status demo_file = AT_PENDING" "at_uploaded_by_id demo_file = 1"
  by (simp_all add: demo_file_def uploaded_row_def ada_def)

lemma demo_complete_step: "app_step demo_digest demo_f1 demo_f2"
proof -
  have ck: "ck_attachments demo_sent" by (simp add: demo_sent_def demo_file_def uploaded_row_def ck_attachments_def demo_upload_def)
  have new: "write_attachment (demo_env 3) demo_file (demo_file\<lparr>at_status := AT_PROCESSING, at_processing_error := None\<rparr>) demo_file = demo_sent"
    by (simp add: write_attachment_def demo_sent_def put_if_dirty_def) (simp add: demo_file_def uploaded_row_def)
  have "attachment_complete_upload (\<lambda>_. True) (demo_env 3) ada 100 200 demo_f1 = (Inr demo_sent, demo_f2)"
    using ck new
    by (simp add: attachment_complete_upload_def attachment_membership_def workspaces_repo_get_by_id_def workspaces_repo_get_membership_def
        require_attachment_def attachments_repo_get_def can_delete_attachment_def attachments_repo_update_def flush_update_def store_def
        demo_f1_def demo_f2_def demo1_def demo0_def demo_workspace_def ada_member_def ada_def)
  from attachment_step.complete [OF this] show ?thesis by (blast intro: app_step.side side_step.attach)
qed

section \<open>The property\<close>

text \<open>
  C40. What any step may do to an attachment: the stored file it stands for, its name and target and who uploaded it never
  change; it stays until its workspace, decision or proposal goes. Its status moves from waiting to processing, from
  processing to rejected, from anything but waiting to available, and from anything to deleted. A digest is
  written only where the attachment becomes or is available, and what is available has one. A
  mark of deletion is set only by a deletion and never taken back, and what is deleted has one; but a check that was under
  way can still make a deleted or a rejected attachment available.
\<close>

theorem attachment_life:
  assumes "reachable H db" and "app_step H db db'" and "a \<in> set (attachments db)"
  shows "(\<exists>a' \<in> set (attachments db'). at_id a' = at_id a \<and> at_workspace_id a' = at_workspace_id a \<and>
      at_decision_id a' = at_decision_id a \<and> at_proposal_id a' = at_proposal_id a \<and> at_uploaded_by_id a' = at_uploaded_by_id a \<and>
      at_object_key a' = at_object_key a \<and> at_filename a' = at_filename a \<and> at_media_type a' = at_media_type a \<and>
      at_size_bytes a' = at_size_bytes a \<and> at_created_at a' = at_created_at a \<and>
      (at_status a' = at_status a \<or> at_status a = AT_PENDING \<and> at_status a' = AT_PROCESSING \<or>
       at_status a = AT_PROCESSING \<and> at_status a' = AT_REJECTED \<or> at_status a \<noteq> AT_PENDING \<and> at_status a' = AT_AVAILABLE \<or>
       at_status a' = AT_DELETED) \<and>
      (at_sha256 a' = at_sha256 a \<or> at_status a' = AT_AVAILABLE) \<and>
      (at_status a' = AT_AVAILABLE \<longrightarrow> at_sha256 a' \<noteq> None \<and> at_processed_at a' \<noteq> None) \<and>
      (at_deleted_at a' = at_deleted_at a \<or> at_status a' = AT_DELETED) \<and>
      (at_deleted_at a \<noteq> None \<or> at_status a' = AT_DELETED \<longrightarrow> at_deleted_at a' \<noteq> None) \<and>
      at_processing_attempts a \<le> at_processing_attempts a') \<or>
    at_workspace_id a \<notin> w_id ` set (workspaces db') \<or>
    (\<exists>d. at_decision_id a = Some d \<and> d \<notin> d_id ` set (decisions db')) \<or>
    (\<exists>p. at_proposal_id a = Some p \<and> p \<notin> p_id ` set (proposals db'))"
  using app_step_attachment [OF assms]
proof (elim disjE bexE)
  fix a' assume a': "a' \<in> set (attachments db')" and e: "attachment_evolves a a' \<and> file_moves a a'"
  have "attachment_row_ok a'"
    using reachable_attachments_inv [OF reachable.step [OF assms(1,2)]] a' by (simp add: attachments_inv_def)
  then have ok: "at_status a' = AT_AVAILABLE \<longrightarrow> at_sha256 a' \<noteq> None \<and> at_processed_at a' \<noteq> None"
      "at_status a' = AT_DELETED \<longrightarrow> at_deleted_at a' \<noteq> None"
    by (simp_all add: attachment_row_ok_def)
  have "same_file a a'" "at_deleted_at a \<noteq> None \<longrightarrow> at_deleted_at a' \<noteq> None" "at_processing_attempts a \<le> at_processing_attempts a'"
    using e by (simp_all add: attachment_evolves_def)
  with ok e show ?thesis
    unfolding same_file_def file_moves_def by - (rule disjI1, rule bexI [OF _ a'], intro conjI; blast)
qed (auto simp: parent_gone_def)

theorem attachment_life_witness: "\<exists>a \<in> set (attachments demo_f2). at_id a = 200 \<and> at_object_key a = at_object_key demo_file"
proof -
  have "demo_file \<in> set (attachments demo_f1)" by (simp add: demo_f1_def)
  from attachment_life [OF demo_reachable_f1 demo_complete_step this] show ?thesis
    by (auto simp: demo_f2_def demo1_def demo0_def demo_workspace_def demo_file_def uploaded_row_def demo_upload_def demo_sent_def)
qed

end
