(* ===== verification/Integration_Life.thy ===== *)
theory Integration_Life imports Attachment_Life begin

text \<open>
  How an event of the outbox reaches the connected workspaces, and what holds of the integration
  tables in every state the application reaches.
\<close>

section \<open>One delivery per subscribed connection\<close>

lemma length_numbered [simp]: "length (numbered env fs) = length fs"
  by (simp add: numbered_def)

lemma nth_numbered: "k < length fs \<Longrightarrow> numbered env fs ! k = (fs ! k) (fresh env k)"
  by (simp add: numbered_def)

lemma insert_deliveries_all:
  assumes "distinct (map dl_id (deliveries db @ ds))" and "uq_deliveries (deliveries db @ ds)"
  shows "insert_deliveries ds db = Inr (db\<lparr>deliveries := deliveries db @ ds\<rparr>)"
  using assms
proof (induction ds arbitrary: db)
  case (Cons d ds)
  have "uq_deliveries (deliveries db @ [d])" "dl_id d \<notin> dl_id ` set (deliveries db)"
    using Cons.prems by (auto simp: uq_deliveries_def)
  then show ?case using Cons.IH [of "db\<lparr>deliveries := deliveries db @ [d]\<rparr>"] Cons.prems by simp
qed simp

text \<open>An active connection appears at most once among the addressees of an event.\<close>

lemma distinct_join:
  assumes "distinct (map f xs)" and "\<And>x. x \<in> set xs \<Longrightarrow> length (g x) \<le> 1"
    and "\<And>x y. x \<in> set xs \<Longrightarrow> y \<in> set (g x) \<Longrightarrow> h y = f x"
  shows "distinct (map h (concat (map g xs)))"
  using assms
proof (induction xs)
  case (Cons x xs)
  have "distinct (map h (g x))" using Cons.prems(2) [of x] by (cases "g x") auto
  moreover have "h ` set (g x) \<inter> h ` set (concat (map g xs)) = {}"
    using Cons.prems(1,3) by fastforce
  ultimately show ?case using Cons by auto
qed simp

lemma length_filter_key:
  assumes "distinct (map f (filter P xs))" and "\<And>x y. P x \<Longrightarrow> P y \<Longrightarrow> f x = f y"
  shows "length (filter P xs) \<le> 1"
proof (cases "filter P xs")
  case (Cons x ys)
  show ?thesis
  proof (cases ys)
    case (Cons y zs)
    then have "x \<in> set (filter P xs)" "y \<in> set (filter P xs)" "f x \<noteq> f y"
      using \<open>filter P xs = x # ys\<close> assms(1) by simp_all
    then show ?thesis using assms(2) by auto
  qed (simp add: Cons)
qed simp

lemma addressed_to_alt:
  "addressed_to x db = concat (map (\<lambda>c. map (Pair c) (filter (\<lambda>s. is_connection_id s = ic_id c \<and> is_event_type s = x_event_type x \<and>
     is_enabled s \<and> is_destination_id s \<noteq> None) (subscriptions db)))
     (filter (\<lambda>c. ic_workspace_id c = x_workspace_id x \<and> ic_status c = IC_ACTIVE) (connections db)))"
proof -
  have inner: "concat (map (\<lambda>s. if P s then [(c, s)] else []) ss) = map (Pair c) (filter P ss)" for P and c :: integration_connection and ss :: "integration_subscription list"
    by (induction ss) simp_all
  have outer: "concat (map (\<lambda>c. if Q c then F c else []) cs) = concat (map F (filter Q cs))" for Q F and cs :: "integration_connection list"
    by (induction cs) simp_all
  show ?thesis by (simp add: addressed_to_def inner outer)
qed

lemma distinct_addressees:
  assumes "integration_inv db"
  shows "distinct (map (\<lambda>(c, s). ic_id c) (addressed_to x db))"
  unfolding addressed_to_alt
proof (rule distinct_join [where f = ic_id])
  show "distinct (map ic_id (filter (\<lambda>c. ic_workspace_id c = x_workspace_id x \<and> ic_status c = IC_ACTIVE) (connections db)))"
    using assms by (simp add: integration_inv_def distinct_map_filter)
next
  fix c
  have "distinct (map (\<lambda>s. (is_connection_id s, is_event_type s)) (subscriptions db))"
    using assms by (simp add: integration_inv_def uq_subscriptions_def)
  then have "length (filter (\<lambda>s. is_connection_id s = ic_id c \<and> is_event_type s = x_event_type x \<and> is_enabled s \<and>
      is_destination_id s \<noteq> None) (subscriptions db)) \<le> 1"
    by (intro length_filter_key [where f = "\<lambda>s. (is_connection_id s, is_event_type s)"]) (auto intro: distinct_map_filter)
  then show "length (map (Pair c) (filter (\<lambda>s. is_connection_id s = ic_id c \<and> is_event_type s = x_event_type x \<and> is_enabled s \<and>
      is_destination_id s \<noteq> None) (subscriptions db))) \<le> 1"
    by simp
qed auto

text \<open>The addressees that have no delivery of the event yet.\<close>

definition new_addressees :: "integration_outbox_event \<Rightarrow> db \<Rightarrow> (integration_connection \<times> integration_subscription) list" where
  "new_addressees x db = filter (\<lambda>(c, s). ic_id c \<notin> set (map dl_connection_id
     (filter (\<lambda>d. dl_event_type d = x_event_type x \<and> dl_event_id d = x_event_id x) (deliveries db)))) (addressed_to x db)"

definition deliveries_for :: "env \<Rightarrow> integration_outbox_event \<Rightarrow> db \<Rightarrow> integration_delivery list" where
  "deliveries_for env x db = numbered env (map (\<lambda>(c, s). new_delivery env x (now env) c s) (new_addressees x db))"

lemma deliveries_for_nth:
  "k < length (new_addressees x db) \<Longrightarrow>
     deliveries_for env x db ! k = new_delivery env x (now env) (fst (new_addressees x db ! k)) (snd (new_addressees x db ! k)) (fresh env k)"
  by (simp add: deliveries_for_def nth_numbered split: prod.split)

lemma length_deliveries_for [simp]: "length (deliveries_for env x db) = length (new_addressees x db)"
  by (simp add: deliveries_for_def)

lemma map_deliveries_for:
  "map dl_id (deliveries_for env x db) = map (fresh env) [0..<length (new_addressees x db)]"
  "map (\<lambda>d. (dl_connection_id d, dl_event_type d, dl_event_id d)) (deliveries_for env x db) =
     map (\<lambda>(c, s). (ic_id c, x_event_type x, x_event_id x)) (new_addressees x db)"
  by (intro nth_equalityI; simp add: deliveries_for_nth new_delivery_def case_prod_beta)+

lemma deliveries_for_ok:
  assumes inv: "integration_inv db" and ids: "inj (fresh env)" "range (fresh env) \<inter> dl_id ` set (deliveries db) = {}"
  shows "distinct (map dl_id (deliveries db @ deliveries_for env x db))" and "uq_deliveries (deliveries db @ deliveries_for env x db)"
proof -
  have "distinct (map (fresh env) [0..<length (new_addressees x db)])"
    using ids(1) by (simp add: distinct_map inj_on_def)
  then show "distinct (map dl_id (deliveries db @ deliveries_for env x db))"
    using inv ids(2) by (auto simp: integration_inv_def map_deliveries_for)
  have "distinct (map (\<lambda>(c, s). ic_id c) (new_addressees x db))"
    unfolding new_addressees_def by (rule distinct_map_filter [OF distinct_addressees [OF inv]])
  then have new: "distinct (map (\<lambda>(c, s). (ic_id c, x_event_type x, x_event_id x)) (new_addressees x db))"
    by (auto simp: distinct_map inj_on_def)
  have "set (map (\<lambda>d. (dl_connection_id d, dl_event_type d, dl_event_id d)) (deliveries db)) \<inter>
      set (map (\<lambda>(c, s). (ic_id c, x_event_type x, x_event_id x)) (new_addressees x db)) = {}"
    by (auto simp: new_addressees_def image_iff)
  then show "uq_deliveries (deliveries db @ deliveries_for env x db)"
    using inv new unfolding uq_deliveries_def integration_inv_def map_append map_deliveries_for distinct_append by blast
qed

text \<open>The event as a successful dispatch leaves it.\<close>

definition claimed_event :: "env \<Rightarrow> integration_outbox_event \<Rightarrow> integration_outbox_event" where
  "claimed_event env x = x\<lparr>x_status := X_PROCESSING, x_attempt_count := x_attempt_count x + 1, x_last_error := None,
     x_updated_at := db_now env\<rparr>"

definition processed :: "env \<Rightarrow> integration_outbox_event \<Rightarrow> integration_outbox_event" where
  "processed env x = x\<lparr>x_status := X_PROCESSED, x_processed_at := Some (now env), x_last_error := None, x_updated_at := db_now env\<rparr>"

lemma write_event_status:
  "x_status new \<noteq> x_status old \<Longrightarrow> write_outbox_event env old new old =
     old\<lparr>x_status := x_status new, x_attempt_count := x_attempt_count new, x_available_at := x_available_at new,
       x_processed_at := x_processed_at new, x_last_error := x_last_error new, x_updated_at := db_now env\<rparr>"
  by (auto simp: write_outbox_event_def)

lemma claim_ready:
  assumes inv: "outbox_inv (outbox db)" and x: "lookup x_id i (outbox db) = Some x" and ready: "ready_event t m x"
  shows "claim_outbox_event env i t m db = Inr (Some (claimed_event env x), db\<lparr>outbox := store x_id (claimed_event env x) (outbox db)\<rparr>)"
proof -
  have xid: "x_id x = i" "x \<in> set (outbox db)" using lookup_SomeD [OF x] by simp_all
  have ids: "distinct (map x_id (outbox db))" using inv by (simp add: outbox_inv_def)
  have "y = x" if "y \<in> set (outbox db)" "x_id y = i" for y using distinct_key_eq [OF ids that(1) xid(2)] that(2) xid(1) by simp
  then have "first_where (\<lambda>x. x_id x = i \<and> ready_event t m x) (outbox db) = Some x"
    using xid ready by (intro first_where_unique) blast+
  moreover have "x_status x \<noteq> X_PROCESSING" using ready by (auto simp: ready_event_def)
  ultimately show ?thesis using x xid(1)
    by (simp add: claim_outbox_event_def save_outbox_event_def flush_update_def write_event_status claimed_event_def)
qed

lemma create_deliveries_alt:
  "create_deliveries env x (now env) db =
     bindE (insert_deliveries (deliveries_for env x db) db) (\<lambda>db1.
     bindE (save_outbox_event env x (x\<lparr>x_status := X_PROCESSED, x_processed_at := Some (now env), x_last_error := None\<rparr>) db1) (\<lambda>(_, db2).
     Inr (deliveries_for env x db, db2)))"
  by (simp only: create_deliveries_def deliveries_for_def new_addressees_def Let_def)

lemma create_deliveries_claimed:
  assumes inv: "integration_inv db" and c: "lookup x_id (x_id c) (outbox db) = Some c" "x_status c = X_PROCESSING"
    and ids: "inj (fresh env)" "range (fresh env) \<inter> dl_id ` set (deliveries db) = {}"
  shows "create_deliveries env c (now env) db = Inr (deliveries_for env c db,
    db\<lparr>deliveries := deliveries db @ deliveries_for env c db, outbox := store x_id (processed env c) (outbox db)\<rparr>)"
proof -
  have ins: "insert_deliveries (deliveries_for env c db) db = Inr (db\<lparr>deliveries := deliveries db @ deliveries_for env c db\<rparr>)"
    by (rule insert_deliveries_all) (rule deliveries_for_ok [OF inv ids])+
  have "save_outbox_event env c (c\<lparr>x_status := X_PROCESSED, x_processed_at := Some (now env), x_last_error := None\<rparr>)
      (db\<lparr>deliveries := deliveries db @ deliveries_for env c db\<rparr>) =
    Inr (processed env c, db\<lparr>deliveries := deliveries db @ deliveries_for env c db, outbox := store x_id (processed env c) (outbox db)\<rparr>)"
    using c by (simp add: save_outbox_event_def flush_update_def write_event_status processed_def)
  then show ?thesis
    using ins by (simp add: create_deliveries_alt)
qed

lemma dispatch_ready:
  assumes inv: "integration_inv db" "outbox_inv (outbox db)" and x: "lookup x_id i (outbox db) = Some x"
    and ready: "ready_event (now env) (ns_max_retries cfg) x"
    and ids: "inj (fresh env)" "range (fresh env) \<inter> dl_id ` set (deliveries db) = {}"
  shows "dispatch_outbox cfg accepts env i db = (Inr (length (new_addressees x db)),
    filter accepts (map dl_id (deliveries_for env x db)), db\<lparr>deliveries := deliveries db @ deliveries_for env x db, outbox := store x_id (processed env (claimed_event env x)) (outbox db)\<rparr>)"
proof -
  let ?c = "claimed_event env x"
  let ?db1 = "db\<lparr>outbox := store x_id ?c (outbox db)\<rparr>"
  have xid: "x_id ?c = i" "x_id x = i" "x \<in> set (outbox db)" using lookup_SomeD [OF x] by (simp_all add: claimed_event_def)
  have look: "lookup x_id (x_id ?c) (outbox ?db1) = Some ?c"
    using xid image_eqI [of "x_id ?c" x_id x "set (outbox db)"] by (simp add: lookup_store)
  have inv1: "integration_inv ?db1" using inv(1) by (simp add: integration_inv_def)
  have same: "new_addressees ?c ?db1 = new_addressees x db" "deliveries_for env ?c ?db1 = deliveries_for env x db"
    by (simp_all add: claimed_event_def new_addressees_def addressed_to_def deliveries_for_def new_delivery_def [abs_def] cong: if_cong)
  have st2: "store x_id (processed env ?c) (store x_id ?c (outbox db)) = store x_id (processed env ?c) (outbox db)"
    using xid(1) by (simp add: store_def processed_def)
  have "create_deliveries env ?c (now env) ?db1 = Inr (deliveries_for env x db,
      db\<lparr>deliveries := deliveries db @ deliveries_for env x db, outbox := store x_id (processed env ?c) (outbox db)\<rparr>)"
    using create_deliveries_claimed [OF inv1 look _ ids(1), unfolded same] ids(2) st2 by (simp add: claimed_event_def)
  then show ?thesis using claim_ready [OF inv(2) x ready] by (simp add: dispatch_outbox_def enqueue_all_def)
qed

section \<open>The tables in every reachable state\<close>

text \<open>Only the deletion of a workspace touches the three tables from elsewhere.\<close>

definition without_workspace :: "uuid \<Rightarrow> db \<Rightarrow> db \<Rightarrow> bool" where
  "without_workspace w db db' \<longleftrightarrow>
     connections db' = filter (\<lambda>c. ic_workspace_id c \<noteq> w) (connections db) \<and>
     subscriptions db' = filter (\<lambda>s. \<not> connection_gone w (connections db) (is_connection_id s)) (subscriptions db) \<and>
     deliveries db' = filter (\<lambda>d. \<not> connection_gone w (connections db) (dl_connection_id d)) (deliveries db)"

definition same_integrations :: "db \<Rightarrow> db \<Rightarrow> bool" where
  "same_integrations db db' \<longleftrightarrow>
     connections db' = connections db \<and> subscriptions db' = subscriptions db \<and> deliveries db' = deliveries db"

lemma app_step_integrations:
  assumes step: "app_step H db db'" and inv: "db_inv H db"
  shows "same_integrations db db' \<or> integration_step db db' \<or> (\<exists>w. without_workspace w db db')"
proof -
  note I = db_invD [OF inv] and K = db_inv_keys [OF inv]
  from step show ?thesis
  proof cases
    case workspace
    from workspace_step_cases [OF this] show ?thesis
    proof (elim disjE exE)
      fix w assume "delete_workspace_row w db = Inr db'"
      then have "without_workspace w db db'"
        by (auto simp: delete_workspace_row_def Let_def without_workspace_def)
      then show ?thesis by blast
    qed (simp add: same_integrations_def)
  next
    case decision
    from decision_step_cases [OF this I(2)] show ?thesis by (auto simp: same_integrations_def)
  next
    case proposal
    from proposal_step_effect [OF this I(3)] show ?thesis by (auto simp: same_integrations_def)
  next
    case criterion
    from criterion_step_frame [OF this] obtain cs ss where "db' = db\<lparr>criteria := cs, scores := ss\<rparr>" by blast
    then show ?thesis by (simp add: same_integrations_def)
  next
    case objection
    from objection_step_effect [OF this I(6)] show ?thesis by (auto simp: same_integrations_def)
  next
    case voting
    then have "voting_effect db db'"
      by (rule voting_step_effect [OF _ voting_invD(1) [OF I(7)] register_invD(1) [OF voting_invD(2) [OF I(7)]]
          register_invD(3) [OF voting_invD(2) [OF I(7)]]])
    then show ?thesis by (cases rule: voting_effect.cases) (simp_all add: same_integrations_def)
  next
    case lock
    from this K(1) show ?thesis by (rule lock_step_tables) (simp add: same_integrations_def)
  next
    case follow_up
    then show ?thesis by (cases rule: record_step_tables) (simp_all add: same_integrations_def)
  next
    case side
    then show ?thesis
    proof cases
      case notify
      then obtain ns where "db' = db\<lparr>notifications := ns\<rparr>" using notifications_onlyD [OF notify_step_only] by blast
      then show ?thesis by (simp add: same_integrations_def)
    next
      case attach
      then obtain as where "db' = db\<lparr>attachments := as\<rparr>" using attachment_step_table by blast
      then show ?thesis by (simp add: same_integrations_def)
    qed simp
  qed
qed

lemma without_workspace_inv: "without_workspace w db db' \<Longrightarrow> integration_inv db \<Longrightarrow> integration_inv db'"
  unfolding without_workspace_def integration_inv_def uq_connections_def uq_subscriptions_def uq_deliveries_def
  by (auto intro: distinct_map_filter)

lemma reachable_integration_inv: "reachable H db \<Longrightarrow> integration_inv db"
proof (induction rule: reachable.induct)
  case (start us)
  show ?case by (simp add: integration_inv_def empty_db_def uq_connections_def uq_subscriptions_def uq_deliveries_def)
next
  case (step db db')
  from app_step_integrations [OF step.hyps(2) reachable_db_inv [OF step.hyps(1)]] show ?case
  proof (elim disjE exE)
    assume "same_integrations db db'"
    then show ?thesis using step.IH by (simp add: same_integrations_def integration_inv_def)
  next
    assume "integration_step db db'"
    then show ?thesis using step.IH by (rule integration_step_tables(4))
  next
    fix w assume "without_workspace w db db'"
    then show ?thesis using step.IH by (rule without_workspace_inv)
  qed
qed

lemma app_step_delivery:
  assumes reach: "reachable H db" and step: "app_step H db db'" and d: "d \<in> set (deliveries db)"
  shows "(\<exists>d' \<in> set (deliveries db'). delivery_evolves d d') \<or> dl_id d \<notin> dl_id ` set (deliveries db')"
  using app_step_integrations [OF step reachable_db_inv [OF reach]]
proof (elim disjE exE)
  assume "same_integrations db db'"
  then show ?thesis using d by (intro disjI1 bexI [of _ d]) (simp_all add: same_integrations_def delivery_evolves_def)
next
  assume "integration_step db db'"
  then have "deliveries_follow (deliveries db) (deliveries db')"
    using integration_step_tables(5) reachable_integration_inv [OF reach] by blast
  then obtain d' where "lookup dl_id (dl_id d) (deliveries db') = Some d'" "delivery_evolves d d'"
    using d by (rule delivery_history.stays) simp
  then show ?thesis using lookup_SomeD by fast
next
  fix w assume w: "without_workspace w db db'"
  have ids: "distinct (map dl_id (deliveries db))" using reachable_integration_inv [OF reach] by (simp add: integration_inv_def)
  show ?thesis
  proof (cases "d \<in> set (deliveries db')")
    case True
    then show ?thesis by (intro disjI1 bexI [of _ d]) (simp_all add: delivery_evolves_def)
  next
    case False
    have "e = d" if "e \<in> set (deliveries db')" "dl_id e = dl_id d" for e
      using that w distinct_key_eq [OF ids _ d] by (simp add: without_workspace_def)
    then show ?thesis using False by (intro disjI2) force
  qed
qed

section \<open>Properties\<close>

text \<open>
  C24. A delivery that is marked as delivered is settled, whatever the recovery job and late workers do: no step
  changes its address, content, status, attempt count, error code or next attempt; the most that happens is that a
  worker whose claim was recovered writes its own time of delivery. From then on every run of its task
  is ignored without a call to the provider. There is one delivery per connection and event.
\<close>

theorem delivered_stays:
  assumes "reachable H db" and "app_step H db db'" and "d \<in> set (deliveries db)" and "dl_status d = DL_DELIVERED"
    and "dl_id d \<in> dl_id ` set (deliveries db')"
  shows "(\<exists>t t'. d\<lparr>dl_delivered_at := t, dl_updated_at := t'\<rparr> \<in> set (deliveries db')) \<and>
    integration_deliver cfg providers fe env env' (dl_id d) db' = (Inr ''ignored'', db') \<and>
    distinct (map (\<lambda>d. (dl_connection_id d, dl_event_type d, dl_event_id d)) (deliveries db'))"
proof (intro conjI)
  obtain d' where d': "d' \<in> set (deliveries db')" "delivery_evolves d d'"
    using app_step_delivery [OF assms(1-3)] assms(5) by blast
  note inv = reachable_integration_inv [OF reachable.step [OF assms(1,2)]]
  have st: "dl_status d' = DL_DELIVERED" "dl_id d' = dl_id d" using d'(2) assms(4) by (simp_all add: delivery_evolves_def)
  have "d' = d\<lparr>dl_delivered_at := dl_delivered_at d', dl_updated_at := dl_updated_at d'\<rparr>"
    using d'(2) assms(4) by (simp add: delivery_evolves_def)
  then show "\<exists>t t'. d\<lparr>dl_delivered_at := t, dl_updated_at := t'\<rparr> \<in> set (deliveries db')" using d'(1) by metis
  have ids: "distinct (map dl_id (deliveries db'))" using inv by (simp add: integration_inv_def)
  have "\<not> due_delivery t e" if "e \<in> set (deliveries db')" "dl_id e = dl_id d" for e t
    using distinct_key_eq [OF ids that(1) d'(1)] that(2) st by (simp add: due_delivery_def)
  then have "first_where (\<lambda>e. dl_id e = dl_id d \<and> due_delivery (now env) e) (deliveries db') = None"
    by (auto simp: first_where_None_iff)
  then show "integration_deliver cfg providers fe env env' (dl_id d) db' = (Inr ''ignored'', db')"
    by (simp add: integration_deliver_def claim_delivery_def)
  show "distinct (map (\<lambda>d. (dl_connection_id d, dl_event_type d, dl_event_id d)) (deliveries db'))"
    using inv by (simp add: integration_inv_def uq_deliveries_def)
qed

text \<open>
  C39. Dispatching an event that is ready addresses every active connection of its workspace with an enabled
  subscription and a destination: afterwards each has exactly one delivery of the event, the new ones, under ids that are
  new, pending with the payload of the event; deliveries that were there are untouched, the event is
  processed, and dispatching it again does nothing. Each new delivery the broker takes is queued; whether it takes
  any makes no difference to the rest.
\<close>

theorem dispatch_reaches_subscribers:
  assumes "reachable H db" and "lookup x_id i (outbox db) = Some x" and "ready_event (now env) (ns_max_retries cfg) x"
    and "inj (fresh env)" and "range (fresh env) \<inter> dl_id ` set (deliveries db) = {}"
  shows "\<exists>ds x' db'. dispatch_outbox cfg accepts env i db = (Inr (length ds), filter accepts (map dl_id ds), db') \<and>
    db' = db\<lparr>deliveries := deliveries db @ ds, outbox := store x_id x' (outbox db)\<rparr> \<and>
    x_id x' = i \<and> x_status x' = X_PROCESSED \<and> x_payload x' = x_payload x \<and> x_attempt_count x' = x_attempt_count x + 1 \<and>
    (\<forall>d \<in> set ds. dl_status d = DL_PENDING \<and> dl_event_type d = x_event_type x \<and> dl_event_id d = x_event_id x \<and>
       map_of (the (json_fields (dl_request_summary d))) ''payload'' = Some (x_payload x) \<and>
       (\<exists>(c, s) \<in> set (addressed_to x db). dl_connection_id d = ic_id c)) \<and>
    (\<forall>(c, s) \<in> set (addressed_to x db).
       \<exists>!d. d \<in> set (deliveries db') \<and> dl_connection_id d = ic_id c \<and> dl_event_type d = x_event_type x \<and> dl_event_id d = x_event_id x) \<and>
    (\<forall>env'. dispatch_outbox cfg accepts env' i db' = (Inr 0, [], db'))"
proof -
  note inv = reachable_integration_inv [OF assms(1)] and oinv = db_invD(9) [OF reachable_db_inv [OF assms(1)]]
  let ?x = "processed env (claimed_event env x)" and ?ds = "deliveries_for env x db"
  let ?db = "db\<lparr>deliveries := deliveries db @ ?ds, outbox := store x_id ?x (outbox db)\<rparr>"
  have x: "x_id ?x = i" "x_status ?x = X_PROCESSED" "x_payload ?x = x_payload x" "x_attempt_count ?x = x_attempt_count x + 1"
    using lookup_SomeD [OF assms(2)] by (simp_all add: processed_def claimed_event_def)
  have run: "dispatch_outbox cfg accepts env i db = (Inr (length ?ds), filter accepts (map dl_id ?ds), ?db)"
    using dispatch_ready [OF inv oinv assms(2-5)] by simp
  have new: "dl_status d = DL_PENDING \<and> dl_event_type d = x_event_type x \<and> dl_event_id d = x_event_id x \<and>
      map_of (the (json_fields (dl_request_summary d))) ''payload'' = Some (x_payload x) \<and>
      (\<exists>(c, s) \<in> set (addressed_to x db). dl_connection_id d = ic_id c)" if d: "d \<in> set ?ds" for d
  proof -
    obtain k where k: "k < length (new_addressees x db)" "d = ?ds ! k"
      using d by (auto simp: in_set_conv_nth)
    have "new_addressees x db ! k \<in> set (addressed_to x db)"
      using nth_mem [OF k(1)] by (simp add: new_addressees_def)
    then show ?thesis using deliveries_for_nth [OF k(1)] k(2)
      by (auto simp: new_delivery_def intro!: bexI [of _ "new_addressees x db ! k"] split: prod.split)
  qed
  have uq: "uq_deliveries (deliveries db @ ?ds)" by (rule deliveries_for_ok [OF inv assms(4,5)])
  have one: "\<exists>!d. d \<in> set (deliveries ?db) \<and> dl_connection_id d = ic_id c \<and> dl_event_type d = x_event_type x \<and> dl_event_id d = x_event_id x"
    if cs: "(c, s) \<in> set (addressed_to x db)" for c s
  proof (rule ex_ex1I)
    show "\<exists>d. d \<in> set (deliveries ?db) \<and> dl_connection_id d = ic_id c \<and> dl_event_type d = x_event_type x \<and> dl_event_id d = x_event_id x"
    proof (cases "(c, s) \<in> set (new_addressees x db)")
      case True
      then obtain k where k: "k < length (new_addressees x db)" "new_addressees x db ! k = (c, s)" by (auto simp: in_set_conv_nth)
      then have "?ds ! k \<in> set ?ds" by simp
      then show ?thesis using deliveries_for_nth [OF k(1)] k(2) by (intro exI [of _ "?ds ! k"]) (simp add: new_delivery_def)
    qed (use cs in \<open>auto simp: new_addressees_def\<close>)
  next
    fix d e
    assume "d \<in> set (deliveries ?db) \<and> dl_connection_id d = ic_id c \<and> dl_event_type d = x_event_type x \<and> dl_event_id d = x_event_id x"
      "e \<in> set (deliveries ?db) \<and> dl_connection_id e = ic_id c \<and> dl_event_type e = x_event_type x \<and> dl_event_id e = x_event_id x"
    then show "d = e"
      using distinct_key_eq [where r = d and r' = e, OF uq [unfolded uq_deliveries_def]] by simp
  qed
  have again: "dispatch_outbox cfg accepts env' i ?db = (Inr 0, [], ?db)" for env'
  proof -
    have "first_where (\<lambda>y. x_id y = i \<and> ready_event (now env') (ns_max_retries cfg) y) (outbox ?db) = None"
      using x(1,2) by (auto simp: first_where_None_iff ready_event_def dest!: mem_storeD)
    then show ?thesis by (simp add: dispatch_outbox_def claim_outbox_event_def)
  qed
  show ?thesis using run x new one again
    by (intro exI [of _ ?ds] exI [of _ ?x] exI [of _ ?db]) blast
qed

section \<open>A connected workspace in the demonstration run\<close>

text \<open>
  Ada's decision is activated with events on; then she connects a Slack workspace, whose client and cipher
  here accept everything, and subscribes a channel to that event.
\<close>

definition event_env :: env where
  "event_env = (demo_env 4)\<lparr>emitter := True\<rparr>"

definition demo_event :: integration_outbox_event where
  "demo_event = \<lparr>x_id = 400, x_workspace_id = 100, x_event_type = DECISION_ACTIVATED, x_event_id = 300,
     x_payload = decision_activated_payload event_env ada 100 demo_decision, x_status = X_PENDING, x_attempt_count = 0,
     x_available_at = 4, x_processed_at = None, x_last_error = None, x_created_at = 4, x_updated_at = 4\<rparr>"

definition demo_e1 :: db where "demo_e1 = demo4\<lparr>outbox := [demo_event], published := [400]\<rparr>"

definition demo_installation :: provider_installation where
  "demo_installation = \<lparr>pi_external_account_id = ''T1'', pi_external_account_name = ''Acme'', pi_access_token = ''xoxb'',
     pi_refresh_token = None, pi_expires_at = None, pi_scopes = [''chat:write''], pi_configuration = JObj []\<rparr>"

definition demo_provider :: provider_client where
  "demo_provider = \<lparr>pc_provider = SLACK, pc_name = ''Slack'', pc_description = [], pc_capabilities = [], pc_available = True,
     pc_build_authorization_url = (\<lambda>s c. Inr ''url''), pc_exchange_code = (\<lambda>t c v. Inr demo_installation),
     pc_verify_connection = (\<lambda>t. Inr ()), pc_list_destinations = (\<lambda>t. Inr []), pc_send_test_message = (\<lambda>t d. Inr ()),
     pc_send_message = (\<lambda>t d m. Inr ()), pc_revoke = (\<lambda>t. Inr ())\<rparr>"

definition demo_fernet :: "string \<Rightarrow> fernet option" where
  "demo_fernet key = Some \<lparr>fe_encrypt = (\<lambda>s. s), fe_decrypt = Some\<rparr>"

definition demo_settings :: integration_settings where
  "demo_settings = \<lparr>ns_encryption_key = Some ''key'', ns_max_retries = 6, ns_retry_base_seconds = 30, ns_retry_max_seconds = 3600,
     ns_frontend_url = ''http://app/'', ns_oauth_state_ttl_seconds = 600\<rparr>"

definition demo_state :: oauth_state where
  "demo_state = \<lparr>os_workspace_id = 100, os_user_id = 1, os_provider = SLACK, os_code_verifier = ''v'', os_return_path = ''/w''\<rparr>"

definition demo_connection :: integration_connection where
  "demo_connection = \<lparr>ic_id = 2500, ic_workspace_id = 100, ic_provider = SLACK, ic_status = IC_ACTIVE, ic_external_account_id = ''T1'',
     ic_external_account_name = ''Acme'', ic_access_token_encrypted = Some ''xoxb'', ic_refresh_token_encrypted = None,
     ic_token_expires_at = None, ic_scopes = [''chat:write''], ic_configuration = JObj [], ic_connected_by_id = 1,
     ic_last_synced_at = None, ic_last_error = None, ic_created_at = 25, ic_updated_at = 25\<rparr>"

definition demo_subscription :: "uuid \<Rightarrow> integration_event_type \<Rightarrow> integration_subscription" where
  "demo_subscription i ty = new_subscription (demo_env 26) i 2500 ty"

definition demo_channel :: subscription_configuration where
  "demo_channel = \<lparr>sc_event_type = DECISION_ACTIVATED, sc_enabled = True, sc_destination_id = Some ''C1'', sc_destination_name = Some ''general'',
     sc_configuration = JObj []\<rparr>"

definition demo_subscribed :: integration_subscription where
  "demo_subscribed = (configured demo_channel (demo_subscription 2600 DECISION_ACTIVATED))\<lparr>is_updated_at := 27\<rparr>"

definition demo_e2 :: db where
  "demo_e2 = demo_e1\<lparr>connections := [demo_connection], subscriptions :=
     [demo_subscription 2600 DECISION_ACTIVATED, demo_subscription 2601 VOTING_OPENED, demo_subscription 2602 VOTING_CLOSED,
      demo_subscription 2603 DECISION_LOCKED]\<rparr>"

definition demo_e3 :: db where
  "demo_e3 = demo_e2\<lparr>subscriptions :=
     [demo_subscribed, demo_subscription 2601 VOTING_OPENED, demo_subscription 2602 VOTING_CLOSED, demo_subscription 2603 DECISION_LOCKED]\<rparr>"

lemma run_event: "decision_transition event_env ada 100 300 D_ACTIVE demo3 = Inr (demo_active, demo_e1)"
  by (simp add: decision_transition_def decision_require_membership_def workspaces_repo_get_by_id_def
      workspaces_repo_get_membership_def can_write_decisions_def require_decision_def decisions_repo_get_for_workspace_def
      decision_for_workspace_def event_env_def with_event_def emitter_stage_def stage_outbox_event_def uq_outbox_def
      flush_insert_def demo_e1_def demo_event_def emitter_publish_def decisions_repo_transition_def save_decision_def
      flush_update_def write_decision_def put_if_dirty_def ck_decisions_locked_state_def store_def Let_def demo_db_defs demo_row_defs)

lemma demo_reachable_e1: "reachable demo_digest demo_e1"
  by (rule reachable.step [OF reachable.step [OF demo_reachable2 app_step.decision [OF decision_step.create [OF demo_body run3]]]
        app_step.decision [OF decision_step.transition [OF run_event]]])

lemma demo_e1_tables [simp]:
  "workspaces demo_e1 = [demo_workspace]" "members demo_e1 = [ada_member, bob_member]" "connections demo_e1 = []"
  "subscriptions demo_e1 = []" "deliveries demo_e1 = []" "outbox demo_e1 = [demo_event]"
  by (simp_all add: demo_e1_def demo_db_defs)

lemma demo_members_of_ada:
  "workspaces db = [demo_workspace] \<Longrightarrow> members db = [ada_member, bob_member] \<Longrightarrow> integration_require_manager 1 100 db = Inr ()"
  by (simp add: integration_require_manager_def workspaces_repo_get_by_id_def workspaces_repo_get_membership_def can_manage_workspace_def
      demo_workspace_def ada_member_def)

lemma run_connect:
  "snd (integration_complete_authorization demo_settings [demo_provider] demo_fernet (demo_env 25) (demo_env 26) (\<lambda>_. Some demo_state)
     SLACK (Some ''s'') (Some ''c'') None demo_e1) = demo_e2"
proof -
  have cipher: "token_cipher demo_fernet (Some ''key'') = Inr \<lparr>fe_encrypt = (\<lambda>s. s), fe_decrypt = Some\<rparr>"
  proof -
    have "py_strip ''key'' \<noteq> []" "is_ascii ''key''" by code_simp+
    then show ?thesis by (simp add: token_cipher_def demo_fernet_def)
  qed
  have upsert: "upsert_connection (demo_env 25) 100 SLACK 1 demo_installation ''xoxb'' None demo_e1 =
      Inr (demo_connection, demo_e1\<lparr>connections := [demo_connection]\<rparr>)"
    by (simp add: upsert_connection_def flush_insert_def uq_connections_def installed_def demo_installation_def demo_connection_def Let_def)
  have subs: "ensure_subscriptions (demo_env 26) 2500 supported_events (demo_e1\<lparr>connections := [demo_connection]\<rparr>) =
      Inr (list_subscriptions 2500 demo_e2, demo_e2)"
    by (simp add: ensure_subscriptions_def list_subscriptions_def supported_events_def numbered_def flush_insert_def uq_subscriptions_def
        new_subscription_def demo_e2_def demo_subscription_def Let_def)
  have "connect_account demo_settings [demo_provider] demo_fernet (demo_env 25) (demo_env 26) demo_state ''c'' demo_e1 = (Inr (), demo_e2)"
    using cipher upsert subs demo_members_of_ada [of demo_e1]
    by (simp add: connect_account_def demo_state_def lift_error_def registry_get_def demo_provider_def demo_settings_def)
      (simp add: demo_installation_def demo_connection_def)
  then show ?thesis by (simp add: integration_complete_authorization_def nonempty_def demo_state_def)
qed

lemma demo_reachable_e2: "reachable demo_digest demo_e2"
proof -
  have "integration_step demo_e1 demo_e2" using integration_step.connect [OF prod.collapse [symmetric]] run_connect by metis
  then show ?thesis using demo_reachable_e1 by (blast intro: reachable.step app_step.side side_step.integrate)
qed

lemma demo_subscription_fields [simp]:
  "is_id (demo_subscription i ty) = i" "is_connection_id (demo_subscription i ty) = 2500" "is_event_type (demo_subscription i ty) = ty"
  "\<not> is_enabled (demo_subscription i ty)"
  by (simp_all add: demo_subscription_def new_subscription_def)

lemma run_subscribe:
  "\<exists>r. integration_update_subscriptions (demo_env 27) ada 100 2500 [demo_channel] demo_e2 = Inr (r, demo_e3)"
proof -
  have c: "manager_connection ada 100 2500 demo_e2 = Inr demo_connection"
    using demo_members_of_ada [of demo_e2]
    by (simp add: manager_connection_def require_connection_def get_connection_def connection_for_workspace_def ada_def)
      (simp add: demo_e2_def demo_connection_def)
  have w: "write_subscription (demo_env 27) (demo_subscription 2600 DECISION_ACTIVATED)
      (configured demo_channel (demo_subscription 2600 DECISION_ACTIVATED)) (demo_subscription 2600 DECISION_ACTIVATED) = demo_subscribed"
    by (simp add: write_subscription_def demo_subscribed_def configured_def demo_channel_def demo_subscription_def new_subscription_def)
  have "is_id demo_subscribed = 2600" by (simp add: demo_subscribed_def configured_def)
  moreover have "first_where (\<lambda>s. is_event_type s = DECISION_ACTIVATED) (list_subscriptions 2500 demo_e2) =
      Some (demo_subscription 2600 DECISION_ACTIVATED)"
    by (rule first_where_unique) (auto simp: list_subscriptions_def demo_e2_def)
  moreover have "is_id (demo_subscription 2600 DECISION_ACTIVATED) = 2600" by simp
  moreover have "lookup is_id 2600 (subscriptions demo_e2) = Some (demo_subscription 2600 DECISION_ACTIVATED)"
    by (simp add: demo_e2_def)
  moreover have "store is_id demo_subscribed (subscriptions demo_e2) = subscriptions demo_e3"
    using calculation(1) by (simp add: store_def demo_e2_def demo_e3_def)
  ultimately have "\<exists>r. update_subscriptions (demo_env 27) 2500 [demo_channel] demo_e2 = Inr (r, demo_e3)"
    using w by (simp add: update_subscriptions_def Let_def flush_update_def numbered_def demo_channel_def)
      (simp add: demo_e3_def)
  then show ?thesis using c
    by (simp add: integration_update_subscriptions_def supported_events_def) (simp add: demo_connection_def demo_channel_def)
qed

lemma demo_reachable_e3: "reachable demo_digest demo_e3"
  using run_subscribe demo_reachable_e2 by (blast intro: reachable.step app_step.side side_step.integrate integration_step.configure)

text \<open>The event is dispatched and its message delivered.\<close>

definition demo_delivery :: integration_delivery where
  "demo_delivery = new_delivery (demo_env 28) demo_event 28 demo_connection demo_subscribed 2800"

lemma demo_e3_tables [simp]:
  "outbox demo_e3 = [demo_event]" "deliveries demo_e3 = []" "connections demo_e3 = [demo_connection]"
  by (simp_all add: demo_e3_def demo_e2_def)

lemma demo_addressed: "addressed_to demo_event demo_e3 = [(demo_connection, demo_subscribed)]"
  by (simp add: addressed_to_def)
    (simp add: demo_e3_def demo_event_def demo_connection_def demo_subscribed_def configured_def demo_channel_def demo_subscription_def
      new_subscription_def)

lemma demo_ready: "lookup x_id 400 (outbox demo_e3) = Some demo_event" "ready_event (now (demo_env 28)) (ns_max_retries demo_settings) demo_event"
  by (simp_all add: demo_event_def ready_event_def demo_settings_def)

lemma demo_fresh: "inj (fresh (demo_env k))"
  by (simp add: inj_def)

theorem dispatch_reaches_subscribers_witness:
  "\<exists>db'. dispatch_outbox demo_settings (\<lambda>_. False) (demo_env 28) 400 demo_e3 = (Inr 1, [], db') \<and>
     (\<exists>d \<in> set (deliveries db'). dl_connection_id d = 2500 \<and> dl_event_id d = 300)"
proof -
  obtain ds x' db' where run: "dispatch_outbox demo_settings (\<lambda>_. False) (demo_env 28) 400 demo_e3 = (Inr (length ds), [], db')"
    and db': "db' = demo_e3\<lparr>deliveries := deliveries demo_e3 @ ds, outbox := store x_id x' (outbox demo_e3)\<rparr>"
    and uniq: "\<forall>(c, s) \<in> set (addressed_to demo_event demo_e3). \<exists>!d. d \<in> set (deliveries db') \<and> dl_connection_id d = ic_id c \<and>
       dl_event_type d = x_event_type demo_event \<and> dl_event_id d = x_event_id demo_event"
    using dispatch_reaches_subscribers [OF demo_reachable_e3 demo_ready demo_fresh, of "\<lambda>_. False"] by auto
  have "length ds = 1"
    using run dispatch_ready [OF reachable_integration_inv [OF demo_reachable_e3] db_invD(9) [OF reachable_db_inv [OF demo_reachable_e3]]
        demo_ready demo_fresh, of "\<lambda>_. False"] demo_addressed
    by (simp add: new_addressees_def)
  then show ?thesis using run uniq demo_addressed by (auto simp: demo_connection_def demo_event_def)
qed

definition demo_e4 :: db where
  "demo_e4 = demo_e3\<lparr>deliveries := [demo_delivery], outbox := [processed (demo_env 28) (claimed_event (demo_env 28) demo_event)]\<rparr>"

definition demo_delivering :: integration_delivery where
  "demo_delivering = demo_delivery\<lparr>dl_status := DL_DELIVERING, dl_attempt_count := 1, dl_next_retry_at := None, dl_updated_at := 29\<rparr>"

definition demo_delivered :: integration_delivery where
  "demo_delivered = demo_delivering\<lparr>dl_status := DL_DELIVERED, dl_delivered_at := Some 30, dl_updated_at := 30\<rparr>"

lemma demo_reachable_e4: "reachable demo_digest demo_e4"
proof -
  let ?c = "claimed_event (demo_env 28) demo_event" and ?e = "demo_e3\<lparr>outbox := [claimed_event (demo_env 28) demo_event]\<rparr>"
  have "claim_outbox_event (demo_env 28) 400 28 6 demo_e3 = Inr (Some ?c, ?e)"
    using claim_ready [OF db_invD(9) [OF reachable_db_inv [OF demo_reachable_e3]] demo_ready]
    by (simp add: demo_settings_def store_def) (simp add: claimed_event_def)
  then have 1: "reachable demo_digest ?e"
    using demo_reachable_e3 by (blast intro: reachable.step app_step.side side_step.integrate integration_step.claim_event)
  have "deliveries_for (demo_env 28) ?c ?e = [demo_delivery]"
    using demo_addressed
    by (simp add: deliveries_for_def new_addressees_def addressed_to_def claimed_event_def numbered_def demo_delivery_def new_delivery_def
        cong: if_cong)
  then have "create_deliveries (demo_env 28) ?c 28 ?e = Inr ([demo_delivery], demo_e4)"
    using create_deliveries_claimed [OF reachable_integration_inv [OF 1], of ?c "demo_env 28"] demo_fresh
    by (simp add: demo_e4_def store_def) (simp add: claimed_event_def processed_def)
  moreover have "x_status ?c = X_PROCESSING" by (simp add: claimed_event_def)
  ultimately show ?thesis using 1 by (blast intro: reachable.step app_step.side side_step.integrate integration_step.create)
qed

definition demo_e5 :: db where "demo_e5 = demo_e4\<lparr>deliveries := [demo_delivering]\<rparr>"
definition demo_e6 :: db where "demo_e6 = demo_e4\<lparr>deliveries := [demo_delivered]\<rparr>"

lemma demo_delivery_rows:
  "write_delivery (demo_env 29) demo_delivery (demo_delivery\<lparr>dl_status := DL_DELIVERING, dl_attempt_count := dl_attempt_count demo_delivery + 1,
     dl_error_code := None, dl_next_retry_at := None\<rparr>) demo_delivery = demo_delivering"
  "write_delivery (demo_env 30) demo_delivering (demo_delivering\<lparr>dl_status := DL_DELIVERED, dl_delivered_at := Some 30,
     dl_next_retry_at := None, dl_error_code := None\<rparr>) demo_delivering = demo_delivered"
  by (simp_all add: write_delivery_def demo_delivering_def demo_delivered_def demo_delivery_def new_delivery_def)

lemma demo_delivery_ids [simp]: "dl_id demo_delivery = 2800" "dl_id demo_delivering = 2800" "dl_id demo_delivered = 2800"
  by (simp_all add: demo_delivered_def demo_delivering_def demo_delivery_def new_delivery_def)

lemma demo_reachable_e6: "reachable demo_digest demo_e6"
proof -
  have "due_delivery 29 demo_delivery" by (simp add: due_delivery_def demo_delivery_def new_delivery_def)
  then have "claim_delivery (demo_env 29) 2800 29 demo_e4 = Inr (Some demo_delivering, demo_e5)"
    using demo_delivery_rows(1)
    by (simp add: claim_delivery_def save_delivery_def flush_update_def store_def demo_e4_def demo_e5_def)
  then have 5: "reachable demo_digest demo_e5"
    using demo_reachable_e4 by (blast intro: reachable.step app_step.side side_step.integrate integration_step.claim)
  have "mark_delivery_delivered (demo_env 30) (Some demo_delivering) 30 demo_e5 = Inr demo_e6"
    using demo_delivery_rows(2)
    by (simp add: mark_delivery_delivered_def save_delivery_def flush_update_def store_def demo_e5_def demo_e6_def)
  moreover have "dl_status demo_delivering = DL_DELIVERING" "dl_error_code demo_delivering = None" "dl_next_retry_at demo_delivering = None"
    by (simp_all add: demo_delivering_def demo_delivery_def new_delivery_def)
  ultimately show ?thesis using 5 by (blast intro: reachable.step app_step.side side_step.integrate integration_step.delivered)
qed

theorem delivered_stays_witness:
  "integration_deliver demo_settings [demo_provider] demo_fernet (demo_env 32) (demo_env 32) 2800 demo_e6 = (Inr ''ignored'', demo_e6)"
proof -
  have st: "dl_status demo_delivered = DL_DELIVERED" by (simp add: demo_delivered_def)
  have "\<exists>res. integration_recover demo_settings (\<lambda>_. True) (demo_env 31) demo_e6 = (res, demo_e6)"
    using st by (simp add: integration_recover_def recover_stale_claims_def stale_event_def stale_claim_def demo_e6_def demo_e4_def
        processed_def claimed_event_def Let_def)
  then have step: "app_step demo_digest demo_e6 demo_e6"
    by (blast intro: app_step.side side_step.integrate integration_step.recover)
  have "demo_delivered \<in> set (deliveries demo_e6)" by (simp add: demo_e6_def)
  from delivered_stays [OF demo_reachable_e6 step this st] this show ?thesis by force
qed

end
