(* ===== verification/Ballot_Box.thy ===== *)
theory Ballot_Box imports Demo begin

text \<open>
  What voting promises, without tables, ids and time stamps: a ballot box has a register of voters and a sheet
  of choices, fixed when it is opened, and at most one ballot per voter. The four voting tables
  implement it: every step of the application is a step of the box or leaves it alone, and the published
  result is the one the box determines.
\<close>

section \<open>The abstract box\<close>

record ballot_box =
  bx_status :: voting_session_status
  bx_voters :: "uuid set"
  bx_sheet :: "uuid set"
  bx_ballots :: "uuid \<rightharpoonup> uuid"

inductive box_step :: "ballot_box \<Rightarrow> ballot_box \<Rightarrow> bool" where
  open_box: "bx_status b = V_DRAFT \<Longrightarrow> 2 \<le> card sheet \<Longrightarrow>
    box_step b \<lparr>bx_status = V_OPEN, bx_voters = voters, bx_sheet = sheet, bx_ballots = Map.empty\<rparr>"
| cast_ballot: "bx_status b = V_OPEN \<Longrightarrow> u \<in> bx_voters b \<Longrightarrow> p \<in> bx_sheet b \<Longrightarrow> bx_ballots b u = None \<Longrightarrow>
    box_step b (b\<lparr>bx_ballots := (bx_ballots b)(u \<mapsto> p)\<rparr>)"
| close_box: "bx_status b = V_OPEN \<Longrightarrow> box_step b (b\<lparr>bx_status := V_CLOSED\<rparr>)"
| cancel_box: "bx_status b \<in> {V_DRAFT, V_OPEN} \<Longrightarrow> box_step b (b\<lparr>bx_status := V_CANCELLED\<rparr>)"

definition box_count :: "ballot_box \<Rightarrow> uuid \<Rightarrow> nat" where
  "box_count b p = card {u. bx_ballots b u = Some p}"

text \<open>\<open>p\<close> wins with a quorum of \<open>q\<close> percent of the register.\<close>

definition box_winner :: "int \<Rightarrow> ballot_box \<Rightarrow> uuid \<Rightarrow> bool" where
  "box_winner q b p \<longleftrightarrow>
     q * int (card (bx_voters b)) \<le> 100 * int (card (dom (bx_ballots b))) \<and>
     p \<in> bx_sheet b \<and> (\<forall>r \<in> bx_sheet b. r \<noteq> p \<longrightarrow> box_count b r < box_count b p)"

section \<open>The box of a session\<close>

definition ballot_map :: "uuid \<Rightarrow> vote list \<Rightarrow> uuid \<rightharpoonup> uuid" where
  "ballot_map i bs = map_of (map (\<lambda>b. (b_voter_id b, b_proposal_id b)) (ballots_of i bs))"

definition box_of :: "voting_session \<Rightarrow> db \<Rightarrow> ballot_box" where
  "box_of v db =
     \<lparr>bx_status = v_status v, bx_voters = set (eligible_of (v_id v) (eligible_voters db)),
      bx_sheet = set (choices_of (v_id v) (session_proposals db)), bx_ballots = ballot_map (v_id v) (votes db)\<rparr>"

lemma box_of_file:
  assumes "session_file (v_id v) db' = session_file (v_id v) db" and "v \<in> set (sessions db)"
  shows "v \<in> set (sessions db')" and "box_of v db' = box_of v db"
proof -
  have "v \<in> set (filter (\<lambda>x. v_id x = v_id v) (sessions db'))" using assms by (simp add: session_file_def)
  then show "v \<in> set (sessions db')" by simp
  show "box_of v db' = box_of v db"
    using assms(1) by (simp add: session_file_def box_of_def ballot_map_def)
qed

text \<open>The unique constraint on ballots makes the table a map from voters to choices.\<close>

lemma ballot_map_Some:
  assumes "uq_votes bs"
  shows "ballot_map i bs u = Some p \<longleftrightarrow> (\<exists>b \<in> set bs. b_voting_session_id b = i \<and> b_voter_id b = u \<and> b_proposal_id b = p)"
proof -
  have "distinct (map fst (map (\<lambda>b. (b_voter_id b, b_proposal_id b)) (ballots_of i bs)))"
    using distinct_ballot_voters [OF assms] by (simp add: comp_def)
  from map_of_eq_Some_iff [OF this] show ?thesis by (auto simp: ballot_map_def)
qed

lemma card_ballots:
  assumes "uq_votes bs"
  shows "card {u. ballot_map i bs u = Some p} = ballots_for i p bs" and "card (dom (ballot_map i bs)) = length (ballots_of i bs)"
proof -
  note d = distinct_ballot_voters [OF assms, of i]
  have "{u. ballot_map i bs u = Some p} = set (map b_voter_id (filter (\<lambda>b. b_proposal_id b = p) (ballots_of i bs)))"
    using ballot_map_Some [OF assms] by auto
  moreover have "distinct (map b_voter_id (filter (\<lambda>b. b_proposal_id b = p) (ballots_of i bs)))"
    by (rule distinct_map_filter [OF d])
  ultimately show "card {u. ballot_map i bs u = Some p} = ballots_for i p bs"
    using distinct_card by (fastforce simp: ballots_for_def conj_commute)
  have "dom (ballot_map i bs) = set (map b_voter_id (ballots_of i bs))"
    by (simp add: ballot_map_def dom_map_of_conv_image_fst image_image)
  then show "card (dom (ballot_map i bs)) = length (ballots_of i bs)" using distinct_card [OF d] by simp
qed

lemma ballot_map_add:
  assumes "uq_votes (bs @ [b])"
  shows "ballot_map (b_voting_session_id b) bs (b_voter_id b) = None"
    and "ballot_map (b_voting_session_id b) (bs @ [b]) = (ballot_map (b_voting_session_id b) bs)(b_voter_id b \<mapsto> b_proposal_id b)"
proof -
  have "b_voter_id b \<notin> set (map b_voter_id (ballots_of (b_voting_session_id b) bs))"
    using assms by (auto simp: uq_votes_def image_iff)
  then show none: "ballot_map (b_voting_session_id b) bs (b_voter_id b) = None"
    by (simp add: ballot_map_def map_of_eq_None_iff image_image)
  show "ballot_map (b_voting_session_id b) (bs @ [b]) = (ballot_map (b_voting_session_id b) bs)(b_voter_id b \<mapsto> b_proposal_id b)"
  proof
    fix u
    show "ballot_map (b_voting_session_id b) (bs @ [b]) u =
        ((ballot_map (b_voting_session_id b) bs)(b_voter_id b \<mapsto> b_proposal_id b)) u"
      using none by (auto simp: ballot_map_def map_add_def split: option.splits)
  qed
qed

lemma ballot_map_nil: "(\<And>b. b \<in> set bs \<Longrightarrow> b_voting_session_id b \<noteq> i) \<Longrightarrow> ballot_map i bs = Map.empty"
  by (simp add: ballot_map_def filter_False)

lemma no_ballots:
  assumes "ballot_inv es ps bs" and "eligible_of i es = []"
  shows "ballot_map i bs = Map.empty"
proof (rule ballot_map_nil)
  fix b assume b: "b \<in> set bs"
  show "b_voting_session_id b \<noteq> i"
  proof
    assume i: "b_voting_session_id b = i"
    have "b_voter_id b \<in> set (eligible_of (b_voting_session_id b) es)" using assms(1) b unfolding ballot_inv_def by blast
    then show False unfolding i assms(2) by simp
  qed
qed

section \<open>The simulation\<close>

definition box_simulated :: "voting_session \<Rightarrow> db \<Rightarrow> db \<Rightarrow> bool" where
  "box_simulated v db db' \<longleftrightarrow>
     (\<exists>v' \<in> set (sessions db'). v_id v' = v_id v \<and> (box_of v' db' = box_of v db \<or> box_step (box_of v db) (box_of v' db')))"

lemma box_simulated_file:
  "session_file (v_id v) db' = session_file (v_id v) db \<Longrightarrow> v \<in> set (sessions db) \<Longrightarrow> box_simulated v db db'"
  using box_of_file unfolding box_simulated_def by blast

lemma store_other: "v_id r \<noteq> i \<Longrightarrow> filter (\<lambda>y. v_id y = i) (store v_id r vs) = filter (\<lambda>y. v_id y = i) vs"
  by (rule filter_store_other) auto

lemma voting_effect_box:
  assumes eff: "voting_effect db db'" and inv: "voting_inv db" and v: "v \<in> set (sessions db)"
  shows "box_simulated v db db'"
proof -
  note I = voting_invD [OF inv]
  have ids: "distinct (map v_id (sessions db))" using I(1) by (simp add: session_inv_def)
  have reg: "session_registered (eligible_voters db) (session_proposals db) v" by (rule register_invD(7) [OF I(2) v])
  have same: "x = v" if "lookup v_id (v_id x) (sessions db) = Some x" "v_id x = v_id v" for x
    using distinct_key_eq [OF ids _ v that(2)] lookup_SomeD [OF that(1)] by simp
  from eff show ?thesis
  proof cases
    case (created dec x)
    then have "v_id x \<noteq> v_id v" using v by auto
    then show ?thesis by (intro box_simulated_file v) (simp add: created session_file_def)
  next
    case (opened x r env es ps xs ys)
    have r: "v_id r = v_id x" by (simp add: opened(3))
    show ?thesis
    proof (cases "v_id x = v_id v")
      case False
      then have "filter (\<lambda>e. ev_voting_session_id e = v_id v) es = []" "filter (\<lambda>p. sp_voting_session_id p = v_id v) ps = []"
        using opened(6,7) by (simp_all add: filter_empty_conv)
      then show ?thesis using False r
        by (intro box_simulated_file v) (simp add: opened(14) session_file_def store_other)
    next
      case True
      then have x: "x = v" using same opened(1) by blast
      have old: "eligible_of (v_id v) (eligible_voters db) = []" "choices_of (v_id v) (session_proposals db) = []"
        using reg opened(2) x by (simp_all add: session_registered_def)
      have none: "ballot_map (v_id v) (votes db) = Map.empty" by (rule no_ballots [OF I(3) old(1)])
      have new: "choices_of (v_id v) (session_proposals db @ ps) = map sp_proposal_id ps"
        "eligible_of (v_id v) (eligible_voters db @ es) = map ev_user_id es"
        using old opened(6,7) x by (simp_all add: filter_id_conv)
      have "distinct (map sp_proposal_id ps)"
        using distinct_choices [OF opened(13), of "v_id v"] unfolding new(1) .
      then have "2 \<le> card (set (map sp_proposal_id ps))" using opened(8) by (metis distinct_card length_map)
      moreover have "box_of r db' = \<lparr>bx_status = V_OPEN, bx_voters = set (map ev_user_id es), bx_sheet = set (map sp_proposal_id ps),
          bx_ballots = Map.empty\<rparr>"
        using new none r x by (simp add: box_of_def opened(14)) (simp add: opened(3))
      moreover have "bx_status (box_of v db) = V_DRAFT" using opened(2) x by (simp add: box_of_def)
      ultimately have "box_step (box_of v db) (box_of r db')" using box_step.open_box by metis
      moreover have "r \<in> set (sessions db')" using v r x by (auto simp: opened(14) set_store)
      ultimately show ?thesis using r x unfolding box_simulated_def by auto
    qed
  next
    case (ballot x b)
    show ?thesis
    proof (cases "v_id x = v_id v")
      case False
      then show ?thesis using ballot by (intro box_simulated_file v) (simp add: session_file_def)
    next
      case True
      then have x: "x = v" using same ballot(1) by blast
      have "box_of v db' = (box_of v db)\<lparr>bx_ballots := (bx_ballots (box_of v db))(b_voter_id b \<mapsto> b_proposal_id b)\<rparr>"
        using ballot_map_add(2) [OF ballot(7)] ballot(3) x by (simp add: box_of_def ballot(8))
      moreover have "box_step (box_of v db) ((box_of v db)\<lparr>bx_ballots := (bx_ballots (box_of v db))(b_voter_id b \<mapsto> b_proposal_id b)\<rparr>)"
        using ballot x ballot_map_add(1) [OF ballot(7)] by (intro box_step.cast_ballot) (simp_all add: box_of_def)
      ultimately show ?thesis using v ballot(8) unfolding box_simulated_def by auto
    qed
  next
    case (ended x r xs ys)
    show ?thesis
    proof (cases "v_id x = v_id v")
      case False
      then show ?thesis using ended(3) by (intro box_simulated_file v) (simp add: ended(9) session_file_def store_other)
    next
      case True
      then have x: "x = v" using same ended(1) by blast
      have r: "r \<in> set (sessions db')" using v ended(3) x by (auto simp: ended(9) set_store)
      have box: "box_of r db' = (box_of v db)\<lparr>bx_status := v_status r\<rparr>" using ended(3) x by (simp add: box_of_def ended(9))
      have "r = v \<or> v_status r \<in> session_transitions (v_status v)" using session_evolves_status [OF ended(2)] x by simp
      moreover have "box_step (box_of v db) ((box_of v db)\<lparr>bx_status := v_status r\<rparr>)"
        if "v_status r \<in> session_transitions (v_status v)"
        using that ended(5) box_step.close_box [of "box_of v db"] box_step.cancel_box [of "box_of v db"]
        by (cases "v_status v") (auto simp: box_of_def)
      ultimately have "box_of r db' = box_of v db \<or> box_step (box_of v db) (box_of r db')"
        using box by (auto simp: box_of_def)
      then show ?thesis using r ended(3) x unfolding box_simulated_def by auto
    qed
  qed
qed

section \<open>Every step of the application\<close>

definition session_gone_from :: "voting_session \<Rightarrow> db \<Rightarrow> bool" where
  "session_gone_from v db \<longleftrightarrow> v_id v \<notin> v_id ` set (sessions db)"

text \<open>A box disappears with its decision, and then nobody could have voted.\<close>

definition box_life :: "voting_session \<Rightarrow> db \<Rightarrow> db \<Rightarrow> bool" where
  "box_life v db db' \<longleftrightarrow>
     (if session_gone_from v db' then v_status v \<in> {V_DRAFT, V_CANCELLED} else box_simulated v db db')"

lemma box_simulated_life: "box_simulated v db db' \<Longrightarrow> box_life v db db'"
  unfolding box_life_def box_simulated_def session_gone_from_def by (metis image_eqI)

lemmas box_life_file = box_simulated_life [OF box_simulated_file]

lemma cascade_box:
  assumes inv: "db_inv H db" and v: "v \<in> set (sessions db)" and free: "decisions_unreferenced g db"
    and db': "sessions db' = filter (\<lambda>x. \<not> g (v_decision_id x)) (sessions db)"
    and kept: "\<not> g (v_decision_id v) \<Longrightarrow> session_file (v_id v) db' = session_file (v_id v) db"
  shows "box_life v db db'"
proof (cases "g (v_decision_id v)")
  case True
  then have "v_status v \<in> {V_DRAFT, V_CANCELLED}"
    using closed_session_pins_decision [OF inv v _ free] by (cases "v_status v") auto
  moreover have "session_gone_from v db'"
    using True distinct_key_eq [OF db_inv_keys(4) [OF inv] _ v] by (fastforce simp: session_gone_from_def db')
  ultimately show ?thesis by (simp add: box_life_def)
qed (rule box_life_file [OF kept v])

lemma app_step_box:
  assumes step: "app_step H db db'" and inv: "db_inv H db" and v: "v \<in> set (sessions db)"
  shows "box_life v db db'"
proof -
  note I = db_invD [OF inv] and K = db_inv_keys [OF inv] and V = voting_invD [OF db_invD(7) [OF inv]]
  show ?thesis
    using step
  proof cases
    case workspace
    from workspace_step_cases [OF workspace] show ?thesis
    proof (elim disjE exE)
      fix w assume del: "delete_workspace_row w db = Inr db'"
      let ?g = "in_workspace w (decisions db)"
      obtain a b c d e f h k where db': "db' = (cascade_decisions ?g db)\<lparr>workspaces := a, members := b,
          notifications := c, attachments := d, outbox := e, connections := f, subscriptions := h, deliveries := k\<rparr>"
        and free: "decisions_unreferenced ?g db"
        using del by (auto simp: delete_workspace_row_def Let_def)
      show ?thesis
        by (rule cascade_box [OF inv v free])
          (simp_all add: db' cascade_decisions_tables session_file_cascade_decisions [OF K(4) v])
    qed (auto intro!: box_life_file v)
  next
    case decision
    from decision_step_cases [OF decision I(2)] show ?thesis
    proof (elim disjE bexE conjE)
      fix d assume d: "decisions_unreferenced (\<lambda>j. j = d_id d) db" "db' = cascade_decisions (\<lambda>j. j = d_id d) db"
      show ?thesis
        by (rule cascade_box [OF inv v d(1)])
          (simp_all add: d(2) cascade_decisions_tables session_file_cascade_decisions [OF K(4) v])
    qed (auto intro!: box_life_file v)
  next
    case proposal
    show ?thesis using proposal_step_effect [OF proposal I(3)] by (auto intro!: box_life_file v)
  next
    case criterion
    show ?thesis by (rule box_life_file [OF _ v], subst criterion_step_frame [OF criterion]) (simp add: session_file_def)
  next
    case objection
    show ?thesis using objection_step_effect [OF objection I(6)] by (auto intro!: box_life_file v)
  next
    case voting
    have "voting_effect db db'"
      by (rule voting_step_effect [OF voting V(1) register_invD(1) [OF V(2)] register_invD(3) [OF V(2)]])
    then show ?thesis by (intro box_simulated_life voting_effect_box I(7) v)
  next
    case lock
    then have "session_file (v_id v) db' = session_file (v_id v) db" by (rule lock_step_tables) (use K(1) in simp_all)
    then show ?thesis by (rule box_life_file [OF _ v])
  next
    case follow_up
    then show ?thesis by (cases rule: record_step_tables) (auto intro!: box_life_file v simp: session_file_def)
  next
    case side
    then show ?thesis by (intro box_life_file v side_step_same)
  qed
qed

section \<open>A new session is an empty box\<close>

definition empty_box :: ballot_box where
  "empty_box = \<lparr>bx_status = V_DRAFT, bx_voters = {}, bx_sheet = {}, bx_ballots = Map.empty\<rparr>"

lemma draft_box:
  assumes inv: "voting_inv db" and v: "v \<in> set (sessions db)" "v_status v = V_DRAFT"
  shows "box_of v db = empty_box"
proof -
  note I = voting_invD [OF inv]
  have old: "eligible_of (v_id v) (eligible_voters db) = []" "choices_of (v_id v) (session_proposals db) = []"
    using register_invD(7) [OF I(2) v(1)] v(2) by (simp_all add: session_registered_def)
  show ?thesis using no_ballots [OF I(3) old(1)] by (simp add: box_of_def empty_box_def old v(2))
qed

lemma app_step_new_session:
  assumes step: "app_step H db db'" and inv: "db_inv H db"
    and v: "v \<in> set (sessions db')" "v_id v \<notin> v_id ` set (sessions db)"
  shows "v_status v = V_DRAFT"
proof -
  note I = db_invD [OF inv] and K = db_inv_keys [OF inv] and V = voting_invD [OF db_invD(7) [OF inv]]
  have old: "sessions db' = sessions db \<Longrightarrow> ?thesis" using v by force
  show ?thesis
    using step
  proof cases
    case workspace
    from workspace_step_cases [OF workspace] show ?thesis
      using v by (elim disjE exE) (auto simp: delete_workspace_row_def Let_def cascade_decisions_tables split: if_splits)
  next
    case decision
    from decision_step_cases [OF decision I(2)] show ?thesis
      using v by (elim disjE exE bexE conjE) (auto simp: cascade_decisions_tables)
  next
    case proposal
    show ?thesis using proposal_step_effect [OF proposal I(3)] by (auto intro!: old)
  next
    case criterion
    show ?thesis by (rule old, subst criterion_step_frame [OF criterion]) simp
  next
    case objection
    show ?thesis using objection_step_effect [OF objection I(6)] by (auto intro!: old)
  next
    case voting
    have "voting_effect db db'"
      by (rule voting_step_effect [OF voting V(1) register_invD(1) [OF V(2)] register_invD(3) [OF V(2)]])
    then show ?thesis
    proof cases
      case (created dec x)
      then show ?thesis using v by auto
    next
      case (opened x r env es ps xs ys)
      then have "v_id ` set (sessions db') = v_id ` set (sessions db)" by (simp add: opened(14))
      then show ?thesis using v by blast
    next
      case ballot
      then show ?thesis by (intro old) simp
    next
      case (ended x r xs ys)
      then have "v_id ` set (sessions db') = v_id ` set (sessions db)" by (simp add: ended(9))
      then show ?thesis using v by blast
    qed
  next
    case lock
    then have "sessions db' = sessions db" by (rule lock_step_tables) (use K(1) in simp_all)
    then show ?thesis by (rule old)
  next
    case follow_up
    then show ?thesis by (cases rule: record_step_tables) (auto intro!: old)
  next
    case side
    then show ?thesis by (intro old side_step_same)
  qed
qed

section \<open>The published result is the one of the box\<close>

lemma box_result:
  assumes inv: "voting_inv db" and v: "v \<in> set (sessions db)" "v_status v = V_CLOSED" "v_eligible_voter_count v < 2 ^ 31"
  shows "vr_winner_proposal_id (voting_result_of v db) = Some p \<longleftrightarrow> box_winner (v_quorum_percentage v) (box_of v db) p"
proof -
  note I = voting_invD [OF inv]
  have uq: "uq_votes (votes db)" using I(3) by (simp add: ballot_inv_def)
  have "ck_voting_sessions v" using session_invD(2) [OF I(1) v(1)] .
  then have quorum: "vr_quorum_met (voting_result_of v db) \<longleftrightarrow>
      v_eligible_voter_count v * v_quorum_percentage v \<le> 100 * int (count_votes (v_id v) db)"
    using v(3) by (rule quorum_met_iff)
  have voters: "v_eligible_voter_count v = int (card (set (eligible_of (v_id v) (eligible_voters db))))"
    using register_invD(7) [OF I(2) v(1)] distinct_card [OF distinct_eligible [OF register_invD(2) [OF I(2)]]]
    by (simp add: session_registered_def)
  show ?thesis
    unfolding winner_iff [OF inv v(1,2)] quorum voters plurality_winner_def box_winner_def box_count_def
    using card_ballots [OF uq, of "v_id v"] by (auto simp: box_of_def count_votes_def mult.commute)
qed

section \<open>The refinement\<close>

text \<open>
  C8. Voting implements a ballot box: a session that appears is an empty box, every step of any component is a step
  of the box of each session or leaves the box alone, a session that disappears with its decision had never been
  open, or was cancelled, and the winner published for a closed session is the one its box determines.
\<close>

theorem voting_refines_box:
  assumes "reachable H db" and "app_step H db db'" and "v \<in> set (sessions db)"
  shows "(if v_id v \<in> v_id ` set (sessions db')
          then \<exists>v' \<in> set (sessions db'). v_id v' = v_id v \<and> (box_of v' db' = box_of v db \<or> box_step (box_of v db) (box_of v' db'))
          else v_status v = V_DRAFT \<or> v_status v = V_CANCELLED) \<and>
    (v_status v = V_CLOSED \<and> v_eligible_voter_count v < 2 ^ 31 \<longrightarrow>
       vr_winner_proposal_id (voting_result_of v db) = Some p \<longleftrightarrow> box_winner (v_quorum_percentage v) (box_of v db) p) \<and>
    (\<forall>v' \<in> set (sessions db'). v_id v' \<notin> v_id ` set (sessions db) \<longrightarrow> box_of v' db' = empty_box)"
proof -
  have inv: "db_inv H db" by (rule reachable_db_inv [OF assms(1)])
  have "box_of x db' = empty_box" if "x \<in> set (sessions db')" "v_id x \<notin> v_id ` set (sessions db)" for x
    by (rule draft_box [OF db_invD(7) [OF app_step_db_inv [OF assms(2) inv]] that(1) app_step_new_session [OF assms(2) inv that]])
  then show ?thesis
    using app_step_box [OF assms(2) inv assms(3)] box_result [OF db_invD(7) [OF inv] assms(3)]
    by (auto simp: box_life_def box_simulated_def session_gone_from_def)
qed

theorem voting_refines_box_witness:
  "(box_of demo_closed demo15 = box_of demo_closed demo14 \<or>
    box_step (box_of demo_closed demo14) (box_of demo_closed demo15)) \<and> box_winner 51 (box_of demo_closed demo14) 500"
proof -
  have v: "sessions demo14 = [demo_closed]" "sessions demo15 = [demo_closed]"
    by (simp_all add: demo_db_defs demo15_def)
  from voting_refines_box [OF demo_reachable14 demo_lock_step, of demo_closed 500]
  show ?thesis using demo_result(4) by (simp add: v)
qed

end
