(* ===== verification/Auth_Tokens.thy ===== *)
theory Auth_Tokens imports Redis begin

text \<open>
  \<open>app/core/security.py\<close> and the repositories that keep their state in Redis: refresh tokens, action tokens,
  rate limits (\<open>app/repositories/refresh_token.py\<close>, \<open>action_token.py\<close>, \<open>rate_limit.py\<close>). PyJWT is a parameter;
  Redis and the application read the same clock.
\<close>

section \<open>Settings\<close>

record auth_settings =
  as_access_secret :: string
  as_refresh_secret :: string
  as_access_minutes :: int
  as_refresh_days :: int
  as_verification_minutes :: int
  as_reset_minutes :: int
  as_frontend_url :: string
  as_rate_window_seconds :: int
  as_register_limit :: int
  as_login_limit :: int
  as_refresh_limit :: int
  as_logout_limit :: int
  as_verification_limit :: int
  as_forgot_password_limit :: int
  as_reset_password_limit :: int

section \<open>Signed tokens\<close>

text \<open>
  \<open>jwt_encode claims secret\<close> is \<open>jwt.encode\<close>, which writes a \<open>datetime\<close> as its whole seconds;
  \<open>jwt_decode required at token secret\<close> is \<open>jwt.decode\<close> at that time: the claims if the signature is
  right, the required claims are there and the token is neither expired nor issued later.
\<close>

record jwt =
  jwt_encode :: "(string \<times> json) list \<Rightarrow> string \<Rightarrow> string"
  jwt_decode :: "string list \<Rightarrow> time \<Rightarrow> string \<Rightarrow> string \<Rightarrow> (string \<times> json) list option"

record token_pair =
  tp_access_token :: string
  tp_refresh_token :: string
  tp_access_token_expires_in :: int

record decoded_token =
  dt_user_id :: uuid
  dt_jti :: uuid
  dt_family_id :: uuid
  dt_token_version :: int
  dt_expires_at :: time

definition numeric_date :: "time \<Rightarrow> json" where
  "numeric_date t = JInt (t div 1000000)"

definition create_token :: "jwt \<Rightarrow> time \<Rightarrow> uuid \<Rightarrow> uuid \<Rightarrow> string \<Rightarrow> uuid \<Rightarrow> int \<Rightarrow> string \<Rightarrow> int \<Rightarrow> string" where
  "create_token j at jti subject token_type family_id token_version secret lifetime =
     jwt_encode j
       [(''sub'', JStr (uuid_str subject)), (''type'', JStr token_type), (''jti'', JStr (uuid_str jti)),
        (''family'', JStr (uuid_str family_id)), (''ver'', JInt token_version), (''iat'', numeric_date at),
        (''exp'', numeric_date (at + lifetime * 1000000))] secret"

text \<open>The ids are drawn in the order of the code: the family if none is given, then one per token.\<close>

definition create_token_pair :: "auth_settings \<Rightarrow> jwt \<Rightarrow> env \<Rightarrow> uuid \<Rightarrow> uuid option \<Rightarrow> int \<Rightarrow> token_pair" where
  "create_token_pair cfg j env user_id family_id token_version =
     (let (family, k) = (case family_id of None \<Rightarrow> (fresh env 0, 1) | Some f \<Rightarrow> (f, 0));
          access_lifetime = as_access_minutes cfg * 60 in
      \<lparr>tp_access_token =
         create_token j (now env) (fresh env k) user_id ''access'' family token_version (as_access_secret cfg) access_lifetime,
       tp_refresh_token =
         create_token j (now env) (fresh env (k + 1)) user_id ''refresh'' family token_version (as_refresh_secret cfg)
           (as_refresh_days cfg * 86400),
       tp_access_token_expires_in = access_lifetime\<rparr>)"

abbreviation invalid_token :: failure where
  "invalid_token \<equiv> Raised InvalidTokenError []"

text \<open>\<open>UUID(payload[key])\<close>: what is no text has no method \<open>replace\<close>, but \<open>None\<close> is refused before.\<close>

fun claim_uuid :: "json option \<Rightarrow> failure + uuid" where
  "claim_uuid (Some (JStr s)) = require (parse_uuid s) invalid_token"
| "claim_uuid (Some JNull) = Inl invalid_token"
| "claim_uuid None = Inl invalid_token"
| "claim_uuid (Some v) = Inl (Foreign ''AttributeError'' [])"

text \<open>\<open>int(payload[key])\<close>\<close>

fun claim_int :: "json option \<Rightarrow> failure + int" where
  "claim_int (Some (JInt i)) = Inr i"
| "claim_int (Some (JBool b)) = Inr (if b then 1 else 0)"
| "claim_int (Some (JHundredths h)) = Inr (if h < 0 then - (- h div 100) else h div 100)"
| "claim_int (Some (JStr s)) = require (py_int 10 s) invalid_token"
| "claim_int v = Inl invalid_token"

text \<open>\<open>datetime.fromtimestamp(payload["exp"], tz=UTC)\<close>, for the years 1 to 9999\<close>

definition calendar_time :: "time \<Rightarrow> failure + time" where
  "calendar_time t = bindE (ensure (- 62135596800000000 \<le> t \<and> t < 253402300800000000) invalid_token) (\<lambda>_. Inr t)"

fun claim_time :: "json option \<Rightarrow> failure + time" where
  "claim_time (Some (JInt i)) = calendar_time (i * 1000000)"
| "claim_time (Some (JBool b)) = calendar_time (if b then 1000000 else 0)"
| "claim_time (Some (JHundredths h)) = calendar_time (h * 10000)"
| "claim_time v = Inl invalid_token"

definition decode_token :: "jwt \<Rightarrow> time \<Rightarrow> string \<Rightarrow> string \<Rightarrow> string \<Rightarrow> failure + decoded_token" where
  "decode_token j at token expected_type secret =
     bindE (require (jwt_decode j [''sub'', ''type'', ''jti'', ''family'', ''ver'', ''iat'', ''exp''] at token secret) invalid_token) (\<lambda>payload.
     bindE (ensure (map_of payload ''type'' = Some (JStr expected_type)) invalid_token) (\<lambda>_.
     bindE (claim_uuid (map_of payload ''sub'')) (\<lambda>user_id.
     bindE (claim_uuid (map_of payload ''jti'')) (\<lambda>jti.
     bindE (claim_uuid (map_of payload ''family'')) (\<lambda>family_id.
     bindE (claim_int (map_of payload ''ver'')) (\<lambda>token_version.
     bindE (claim_time (map_of payload ''exp'')) (\<lambda>expires_at.
     Inr \<lparr>dt_user_id = user_id, dt_jti = jti, dt_family_id = family_id, dt_token_version = token_version,
          dt_expires_at = expires_at\<rparr>)))))))"

definition decode_access_token :: "auth_settings \<Rightarrow> jwt \<Rightarrow> time \<Rightarrow> string \<Rightarrow> failure + decoded_token" where
  "decode_access_token cfg j at token = decode_token j at token ''access'' (as_access_secret cfg)"

definition decode_refresh_token :: "auth_settings \<Rightarrow> jwt \<Rightarrow> time \<Rightarrow> string \<Rightarrow> failure + decoded_token" where
  "decode_refresh_token cfg j at token = decode_token j at token ''refresh'' (as_refresh_secret cfg)"

section \<open>Refresh tokens\<close>

definition used_key :: "uuid \<Rightarrow> string" where
  "used_key jti = ''auth:refresh:used:'' @ uuid_str jti"

definition revoked_key :: "uuid \<Rightarrow> string" where
  "revoked_key family_id = ''auth:refresh:family:revoked:'' @ uuid_str family_id"

definition refresh_consume :: "time \<Rightarrow> uuid \<Rightarrow> time \<Rightarrow> redis \<Rightarrow> bool \<times> redis" where
  "refresh_consume at jti expires_at r =
     redis_set_nx at (used_key jti) (Text ''1'') (max 1 ((expires_at - at) div 1000000)) r"

definition is_family_revoked :: "time \<Rightarrow> uuid \<Rightarrow> redis \<Rightarrow> bool" where
  "is_family_revoked at family_id r \<longleftrightarrow> redis_get at (revoked_key family_id) r \<noteq> None"

definition revoke_family :: "time \<Rightarrow> uuid \<Rightarrow> int \<Rightarrow> redis \<Rightarrow> redis" where
  "revoke_family at family_id ttl_seconds r = redis_set at (revoked_key family_id) (Text ''1'') ttl_seconds r"

section \<open>Action tokens\<close>

definition action_token_key :: "string \<Rightarrow> string \<Rightarrow> string" where
  "action_token_key purpose digest = ''auth:action:'' @ purpose @ '':token:'' @ digest"

definition action_user_key :: "string \<Rightarrow> string \<Rightarrow> string" where
  "action_user_key purpose user_id = ''auth:action:'' @ purpose @ '':user:'' @ user_id"

text \<open>\<open>token\<close> is the random text of \<open>secrets.token_urlsafe(32)\<close>.\<close>

definition issue_action_token :: "env \<Rightarrow> string \<Rightarrow> string \<Rightarrow> uuid \<Rightarrow> int \<Rightarrow> redis \<Rightarrow> redis" where
  "issue_action_token env token purpose user_id ttl_seconds r =
     (let digest = sha256_hex env token;
          user_key = action_user_key purpose (uuid_str user_id);
          r1 = (case redis_get (now env) user_key r of
                  Some (Text previous) \<Rightarrow> redis_delete (action_token_key purpose previous) r
                | _ \<Rightarrow> r);
          r2 = redis_set (now env) (action_token_key purpose digest) (Text (uuid_str user_id)) ttl_seconds r1 in
      redis_set (now env) user_key (Text digest) ttl_seconds r2)"

definition consume_action_token :: "env \<Rightarrow> string \<Rightarrow> string \<Rightarrow> redis \<Rightarrow> uuid option \<times> redis" where
  "consume_action_token env purpose token r =
     (let digest = sha256_hex env token; key = action_token_key purpose digest in
      case redis_get (now env) key r of
        Some (Text user_id) \<Rightarrow>
          (let r1 = redis_delete key r; user_key = action_user_key purpose user_id in
           (parse_uuid user_id,
            if redis_get (now env) user_key r1 = Some (Text digest) then redis_delete user_key r1 else r1))
      | _ \<Rightarrow> (None, r))"

section \<open>Rate limits\<close>

record rate_limit_result =
  rl_allowed :: bool
  rl_retry_after :: int

text \<open>The script of \<open>hit\<close>; \<open>TTL\<close> rounds the milliseconds left to seconds.\<close>

definition rate_limit_hit :: "time \<Rightarrow> string \<Rightarrow> int \<Rightarrow> int \<Rightarrow> redis \<Rightarrow> rate_limit_result \<times> redis" where
  "rate_limit_hit at key limit window_seconds r =
     (let (current, expiry) =
            (case (redis_get at key r, r key) of
               (Some (Counter n), Some (_, x)) \<Rightarrow> (n + 1, x)
             | _ \<Rightarrow> (1, at + window_seconds * 1000000));
          ttl = ((expiry - at) div 1000 + 500) div 1000 in
      (\<lparr>rl_allowed = current \<le> limit, rl_retry_after = max ttl 1\<rparr>, r(key \<mapsto> (Counter current, expiry))))"

end
