(* ===== verification/Accounts.thy ===== *)
theory Accounts imports Auth_Tokens OAuth_States Users Requests begin

text \<open>
  Accounts and sign-in: \<open>app/schemas/auth.py\<close>, \<open>app/services/auth.py\<close>, \<open>app/dependencies/auth.py\<close> and the e-mails of
  \<open>app/integrations/email.py\<close>; Google sign-in: \<open>app/services/google_oauth.py\<close>, \<open>app/integrations/google_oauth.py\<close>,
  \<open>app/repositories/oauth_account.py\<close>. An operation returns its error or result together with what it has committed to
  the database and to Redis. Password hashing, the mail server, Google and the random texts are parameters.
\<close>

section \<open>The state\<close>

record oauth_account =
  oa_id :: uuid
  oa_user_id :: uuid
  oa_provider_subject :: string
  oa_provider_email :: string
  oa_created_at :: time
  oa_updated_at :: time

text \<open>There is one provider, so its column is left out.\<close>

definition uq_oauth_accounts :: "oauth_account list \<Rightarrow> bool" where
  "uq_oauth_accounts as \<longleftrightarrow> distinct (map oa_provider_subject as) \<and> distinct (map oa_user_id as)"

record site =
  st_db :: db
  st_redis :: redis
  st_accounts :: "oauth_account list"

section \<open>The requests\<close>

record register_request =
  rg_email :: string
  rg_password :: string
  rg_display_name :: string

text \<open>\<open>valid_email\<close> is the check of \<open>EmailStr\<close>, with the address it makes of the text.\<close>

definition RegisterRequest :: "(string \<Rightarrow> string option) \<Rightarrow> register_request \<Rightarrow> error + register_request" where
  "RegisterRequest valid_email p =
     bindE (require (valid_email (rg_email p)) ValidationError) (\<lambda>email.
     bindE (field_length 8 128 (rg_password p)) (\<lambda>_.
     bindE (normalized_field 2 100 (rg_display_name p)) (\<lambda>name.
     Inr \<lparr>rg_email = email, rg_password = rg_password p, rg_display_name = name\<rparr>)))"

definition LoginRequest :: "(string \<Rightarrow> string option) \<Rightarrow> string \<times> string \<Rightarrow> error + string \<times> string" where
  "LoginRequest valid_email p =
     bindE (require (valid_email (fst p)) ValidationError) (\<lambda>email.
     bindE (field_length 1 128 (snd p)) (\<lambda>_. Inr (email, snd p)))"

definition RefreshRequest :: "string \<Rightarrow> error + string" where
  "RefreshRequest token = bindE (ensure (1 \<le> length token) ValidationError) (\<lambda>_. Inr token)"

definition ActionTokenRequest :: "string \<Rightarrow> error + string" where
  "ActionTokenRequest token = bindE (field_length 20 512 token) (\<lambda>_. Inr token)"

definition ResetPasswordRequest :: "string \<times> string \<Rightarrow> error + string \<times> string" where
  "ResetPasswordRequest p =
     bindE (field_length 20 512 (fst p)) (\<lambda>_. bindE (field_length 8 128 (snd p)) (\<lambda>_. Inr p))"

section \<open>E-mails\<close>

record email_message =
  em_recipient :: string
  em_subject :: string
  em_text :: string

abbreviation newline :: string where
  "newline \<equiv> [CHR 0x0A]"

definition send_verification_email ::
  "auth_settings \<Rightarrow> (email_message \<Rightarrow> failure option) \<Rightarrow> string \<Rightarrow> string \<Rightarrow> string \<Rightarrow> failure + unit" where
  "send_verification_email cfg mail recipient display_name token =
     (let url = rstrip_slash (as_frontend_url cfg) @ ''/verify-email?token='' @ token in
      case mail \<lparr>em_recipient = recipient, em_subject = ''Verify your ForkRoom email'',
          em_text = ''Hi '' @ display_name @ '','' @ newline @ newline @ ''Verify your ForkRoom email by opening this link:'' @ newline @
            url @ newline @ newline @ ''This link expires in '' @ int_str (as_verification_minutes cfg) @ '' minutes.''\<rparr> of
        Some err \<Rightarrow> Inl err
      | None \<Rightarrow> Inr ())"

definition send_password_reset_email ::
  "auth_settings \<Rightarrow> (email_message \<Rightarrow> failure option) \<Rightarrow> string \<Rightarrow> string \<Rightarrow> string \<Rightarrow> failure + unit" where
  "send_password_reset_email cfg mail recipient display_name token =
     (let url = rstrip_slash (as_frontend_url cfg) @ ''/reset-password?token='' @ token in
      case mail \<lparr>em_recipient = recipient, em_subject = ''Reset your ForkRoom password'',
          em_text = ''Hi '' @ display_name @ '','' @ newline @ newline @ ''Reset your ForkRoom password by opening this link:'' @ newline @
            url @ newline @ newline @ ''This link expires in '' @ int_str (as_reset_minutes cfg) @
            '' minutes. If you did not request this, you can ignore this email.''\<rparr> of
        Some err \<Rightarrow> Inl err
      | None \<Rightarrow> Inr ())"

section \<open>The service\<close>

record password_hash =
  pw_hash :: "string \<Rightarrow> string"
  pw_verify :: "string \<Rightarrow> string \<Rightarrow> bool"

definition email_verification_purpose :: string where
  "email_verification_purpose = ''email-verification''"

definition password_reset_purpose :: string where
  "password_reset_purpose = ''password-reset''"

definition family_revocation_ttl :: "auth_settings \<Rightarrow> int" where
  "family_revocation_ttl cfg = as_refresh_days cfg * 86400"

definition auth_send_verification_email ::
  "auth_settings \<Rightarrow> (email_message \<Rightarrow> failure option) \<Rightarrow> env \<Rightarrow> string \<Rightarrow> user \<Rightarrow> site \<Rightarrow> (failure + unit) \<times> site" where
  "auth_send_verification_email cfg mail env token u s =
     (send_verification_email cfg mail (u_email u) (u_display_name u) token,
      s\<lparr>st_redis := issue_action_token env token email_verification_purpose (u_id u) (as_verification_minutes cfg * 60) (st_redis s)\<rparr>)"

definition new_user :: "env \<Rightarrow> string \<Rightarrow> string \<Rightarrow> string \<Rightarrow> user" where
  "new_user env email hash display_name =
     \<lparr>u_id = fresh env 0, u_email = email, u_password_hash = hash, u_display_name = display_name, u_avatar_url = None,
      u_is_active = True, u_is_email_verified = False, u_auth_version = 0, u_created_at = db_now env, u_updated_at = db_now env\<rparr>"

definition auth_register ::
  "auth_settings \<Rightarrow> password_hash \<Rightarrow> (email_message \<Rightarrow> failure option) \<Rightarrow> env \<Rightarrow> string \<Rightarrow> register_request \<Rightarrow> site
     \<Rightarrow> (failure + user) \<times> site" where
  "auth_register cfg pw mail env token p s =
     (let email = lower (rg_email p) in
      if users_repo_get_by_email email (st_db s) \<noteq> None then (Inl (Raised EmailAlreadyRegisteredError []), s)
      else
        (case users_repo_create (new_user env email (pw_hash pw (rg_password p)) (rg_display_name p)) (st_db s) of
           Inl e \<Rightarrow> (Inl (Raised e []), s)
         | Inr (u, db) \<Rightarrow>
             (case auth_send_verification_email cfg mail env token u (s\<lparr>st_db := db\<rparr>) of
                (Inl err, s') \<Rightarrow> (Inl err, s')
              | (Inr _, s') \<Rightarrow> (Inr u, s'))))"

definition auth_login ::
  "auth_settings \<Rightarrow> jwt \<Rightarrow> password_hash \<Rightarrow> env \<Rightarrow> string \<Rightarrow> string \<Rightarrow> db \<Rightarrow> failure + user \<times> token_pair" where
  "auth_login cfg j pw env email password db =
     bindE (require (users_repo_get_by_email (lower email) db) (Raised InvalidCredentialsError [])) (\<lambda>u.
     bindE (ensure (pw_verify pw password (u_password_hash u)) (Raised InvalidCredentialsError [])) (\<lambda>_.
     bindE (ensure (u_is_active u) (Raised InactiveAccountError [])) (\<lambda>_.
     bindE (ensure (u_is_email_verified u) (Raised EmailNotVerifiedError [])) (\<lambda>_.
     Inr (u, create_token_pair cfg j env (u_id u) None (u_auth_version u))))))"

text \<open>A refusal after the token has been consumed revokes its family.\<close>

definition refresh_account :: "decoded_token \<Rightarrow> db \<Rightarrow> failure + user" where
  "refresh_account d db =
     bindE (require (users_repo_get_by_id (dt_user_id d) db) invalid_token) (\<lambda>u.
     bindE (ensure (u_is_active u) (Raised InactiveAccountError [])) (\<lambda>_.
     bindE (ensure (dt_token_version d = u_auth_version u) invalid_token) (\<lambda>_. Inr u)))"

definition auth_refresh :: "auth_settings \<Rightarrow> jwt \<Rightarrow> env \<Rightarrow> string \<Rightarrow> site \<Rightarrow> (failure + token_pair) \<times> site" where
  "auth_refresh cfg j env token s =
     (case decode_refresh_token cfg j (now env) token of
        Inl err \<Rightarrow> (Inl err, s)
      | Inr d \<Rightarrow>
          if is_family_revoked (now env) (dt_family_id d) (st_redis s) then (Inl invalid_token, s)
          else
            (let (was_consumed, r) = refresh_consume (now env) (dt_jti d) (dt_expires_at d) (st_redis s);
                 revoked = s\<lparr>st_redis := revoke_family (now env) (dt_family_id d) (family_revocation_ttl cfg) r\<rparr> in
             if \<not> was_consumed then (Inl invalid_token, revoked)
             else
               (case refresh_account d (st_db s) of
                  Inl err \<Rightarrow> (Inl err, revoked)
                | Inr u \<Rightarrow> (Inr (create_token_pair cfg j env (u_id u) (Some (dt_family_id d)) (u_auth_version u)), s\<lparr>st_redis := r\<rparr>))))"

definition auth_logout :: "auth_settings \<Rightarrow> jwt \<Rightarrow> env \<Rightarrow> string \<Rightarrow> site \<Rightarrow> (failure + unit) \<times> site" where
  "auth_logout cfg j env token s =
     (case decode_refresh_token cfg j (now env) token of
        Inl err \<Rightarrow> (Inl err, s)
      | Inr d \<Rightarrow> (Inr (), s\<lparr>st_redis := revoke_family (now env) (dt_family_id d) (family_revocation_ttl cfg) (st_redis s)\<rparr>))"

definition auth_request_email_verification ::
  "auth_settings \<Rightarrow> (email_message \<Rightarrow> failure option) \<Rightarrow> env \<Rightarrow> string \<Rightarrow> string \<Rightarrow> site \<Rightarrow> (failure + unit) \<times> site" where
  "auth_request_email_verification cfg mail env token email s =
     (case users_repo_get_by_email (lower email) (st_db s) of
        None \<Rightarrow> (Inr (), s)
      | Some u \<Rightarrow>
          if \<not> u_is_active u \<or> u_is_email_verified u then (Inr (), s) else auth_send_verification_email cfg mail env token u s)"

definition action_account :: "uuid option \<Rightarrow> db \<Rightarrow> failure + user" where
  "action_account user_id db =
     bindE (require user_id (Raised InvalidActionTokenError [])) (\<lambda>i.
     bindE (require (users_repo_get_by_id i db) (Raised InvalidActionTokenError [])) (\<lambda>u.
     bindE (ensure (u_is_active u) (Raised InactiveAccountError [])) (\<lambda>_. Inr u)))"

definition auth_verify_email :: "env \<Rightarrow> string \<Rightarrow> site \<Rightarrow> (failure + user) \<times> site" where
  "auth_verify_email env token s =
     (let (user_id, r) = consume_action_token env email_verification_purpose token (st_redis s);
          s1 = s\<lparr>st_redis := r\<rparr> in
      case action_account user_id (st_db s) of
        Inl err \<Rightarrow> (Inl err, s1)
      | Inr u \<Rightarrow>
          if u_is_email_verified u then (Inr u, s1)
          else
            (case users_repo_mark_email_verified env u (st_db s) of
               Inl e \<Rightarrow> (Inl (Raised e []), s1)
             | Inr (u', db) \<Rightarrow> (Inr u', s1\<lparr>st_db := db\<rparr>)))"

definition auth_forgot_password ::
  "auth_settings \<Rightarrow> (email_message \<Rightarrow> failure option) \<Rightarrow> env \<Rightarrow> string \<Rightarrow> string \<Rightarrow> site \<Rightarrow> (failure + unit) \<times> site" where
  "auth_forgot_password cfg mail env token email s =
     (case users_repo_get_by_email (lower email) (st_db s) of
        None \<Rightarrow> (Inr (), s)
      | Some u \<Rightarrow>
          if \<not> u_is_active u then (Inr (), s)
          else
            (send_password_reset_email cfg mail (u_email u) (u_display_name u) token,
             s\<lparr>st_redis := issue_action_token env token password_reset_purpose (u_id u) (as_reset_minutes cfg * 60) (st_redis s)\<rparr>))"

definition auth_reset_password :: "password_hash \<Rightarrow> env \<Rightarrow> string \<Rightarrow> string \<Rightarrow> site \<Rightarrow> (failure + unit) \<times> site" where
  "auth_reset_password pw env token new_password s =
     (let (user_id, r) = consume_action_token env password_reset_purpose token (st_redis s);
          s1 = s\<lparr>st_redis := r\<rparr> in
      case action_account user_id (st_db s) of
        Inl err \<Rightarrow> (Inl err, s1)
      | Inr u \<Rightarrow>
          (case users_repo_update_password env u (pw_hash pw new_password) (st_db s) of
             Inl e \<Rightarrow> (Inl (Raised e []), s1)
           | Inr (_, db) \<Rightarrow> (Inr (), s1\<lparr>st_db := db\<rparr>)))"

section \<open>What guards the other requests\<close>

text \<open>The refusals of \<open>get_current_user\<close> are status codes.\<close>

definition get_current_user :: "auth_settings \<Rightarrow> jwt \<Rightarrow> time \<Rightarrow> string option \<Rightarrow> site \<Rightarrow> nat + user" where
  "get_current_user cfg j at cookie s =
     (case cookie of
        None \<Rightarrow> Inl 401
      | Some access_token \<Rightarrow>
          if access_token = [] then Inl 401
          else
            (case decode_access_token cfg j at access_token of
               Inl (Raised e text) \<Rightarrow> Inl (if e = InvalidTokenError then 401 else 500)
             | Inl (Foreign name text) \<Rightarrow> Inl 500
             | Inr d \<Rightarrow>
                 bindE (ensure (\<not> is_family_revoked at (dt_family_id d) (st_redis s)) 401) (\<lambda>_.
                 bindE (require (users_repo_get_by_id (dt_user_id d) (st_db s)) 401) (\<lambda>u.
                 bindE (ensure (u_is_active u) 403) (\<lambda>_.
                 bindE (ensure (dt_token_version d = u_auth_version u) 401) (\<lambda>_. Inr u))))))"

definition path_action :: "string \<Rightarrow> string" where
  "path_action path = rev (takeWhile (\<lambda>c. c \<noteq> CHR ''/'') (rev path))"

definition rate_limits :: "auth_settings \<Rightarrow> (string \<times> int) list" where
  "rate_limits cfg =
     [(''register'', as_register_limit cfg), (''login'', as_login_limit cfg), (''authorize'', as_login_limit cfg),
      (''refresh'', as_refresh_limit cfg), (''logout'', as_logout_limit cfg), (''request'', as_verification_limit cfg),
      (''confirm'', as_verification_limit cfg), (''forgot-password'', as_forgot_password_limit cfg),
      (''reset-password'', as_reset_password_limit cfg)]"

definition rate_key :: "string \<Rightarrow> string option \<Rightarrow> string" where
  "rate_key action client =
     ''auth:rate:'' @ action @ '':'' @ (case client of None \<Rightarrow> ''unknown'' | Some host \<Rightarrow> host)"

text \<open>\<open>Inl n\<close>: refused with status 429, to be tried again after \<open>n\<close> seconds.\<close>

definition enforce_auth_rate_limit ::
  "auth_settings \<Rightarrow> time \<Rightarrow> string \<Rightarrow> string option \<Rightarrow> redis \<Rightarrow> (int + unit) \<times> redis" where
  "enforce_auth_rate_limit cfg at path client r =
     (case map_of (rate_limits cfg) (path_action path) of
        None \<Rightarrow> (Inr (), r)
      | Some limit \<Rightarrow>
          (let (result, r') = rate_limit_hit at (rate_key (path_action path) client) limit (as_rate_window_seconds cfg) r in
           (ensure (rl_allowed result) (rl_retry_after result), r')))"

end
