(* ===== verification/Google_OAuth.thy ===== *)
theory Google_OAuth imports Accounts begin

text \<open>
  Signing in with Google: \<open>GoogleOAuthClient\<close> of \<open>app/integrations/google_oauth.py\<close>, \<open>OAuthAccountRepository\<close> of
  \<open>app/repositories/oauth_account.py\<close> and \<open>GoogleOAuthService\<close> of \<open>app/services/google_oauth.py\<close>. The answers of
  Google are the parameter \<open>http\<close>.
\<close>

section \<open>The client\<close>

record google_settings =
  gs_client_id :: "string option"
  gs_client_secret :: "string option"
  gs_redirect_uri :: "string option"
  gs_scopes :: string
  gs_state_ttl_seconds :: int
  gs_frontend_url :: string

record google_profile =
  gp_subject :: string
  gp_email :: string
  gp_display_name :: string
  gp_avatar_url :: "string option"

definition google_credentials :: "google_settings \<Rightarrow> failure + string \<times> string \<times> string" where
  "google_credentials cfg =
     (case (gs_client_id cfg, gs_client_secret cfg, gs_redirect_uri cfg) of
        (Some a, Some b, Some c) \<Rightarrow>
          if py_strip a \<noteq> [] \<and> py_strip b \<noteq> [] \<and> py_strip c \<noteq> [] then Inr (a, b, c)
          else Inl (Raised GoogleOAuthNotConfiguredError [])
      | _ \<Rightarrow> Inl (Raised GoogleOAuthNotConfiguredError []))"

definition google_authorization_url :: "google_settings \<Rightarrow> string \<Rightarrow> string \<Rightarrow> failure + string" where
  "google_authorization_url cfg state code_challenge =
     bindE (google_credentials cfg) (\<lambda>(client_id, _, redirect_uri).
     Inr (''https://accounts.google.com/o/oauth2/v2/auth?'' @ urlencode
       [(''client_id'', client_id), (''redirect_uri'', redirect_uri), (''response_type'', ''code''), (''scope'', gs_scopes cfg),
        (''state'', state), (''code_challenge'', code_challenge), (''code_challenge_method'', ''S256''),
        (''prompt'', ''select_account'')]))"

definition google_request :: "(http_request \<Rightarrow> http_result) \<Rightarrow> http_request \<Rightarrow> failure + (string \<times> json) list" where
  "google_request http request =
     (case http request of
        HttpBody (JObj kvs) \<Rightarrow> Inr kvs
      | _ \<Rightarrow> Inl (Raised GoogleOAuthProviderError []))"

definition google_required_string :: "(string \<times> json) list \<Rightarrow> string \<Rightarrow> failure + string" where
  "google_required_string payload key =
     (case map_of payload key of
        Some (JStr s) \<Rightarrow> if s \<noteq> [] then Inr s else Inl (Raised GoogleOAuthProfileInvalidError [])
      | _ \<Rightarrow> Inl (Raised GoogleOAuthProfileInvalidError []))"

definition google_optional_string :: "(string \<times> json) list \<Rightarrow> string \<Rightarrow> string option" where
  "google_optional_string payload key =
     (case map_of payload key of Some (JStr s) \<Rightarrow> if s \<noteq> [] then Some s else None | _ \<Rightarrow> None)"

definition google_exchange_code ::
  "google_settings \<Rightarrow> (http_request \<Rightarrow> http_result) \<Rightarrow> string \<Rightarrow> string \<Rightarrow> failure + google_profile" where
  "google_exchange_code cfg http code code_verifier =
     bindE (google_credentials cfg) (\<lambda>(client_id, client_secret, redirect_uri).
     bindE (google_request http
       \<lparr>hr_method = ''POST'', hr_url = ''https://oauth2.googleapis.com/token'', hr_authorization = None, hr_headers = [],
        hr_data = [(''code'', code), (''client_id'', client_id), (''client_secret'', client_secret), (''redirect_uri'', redirect_uri),
          (''grant_type'', ''authorization_code''), (''code_verifier'', code_verifier)], hr_params = [], hr_json = None\<rparr>) (\<lambda>token_response.
     bindE (google_required_string token_response ''access_token'') (\<lambda>access_token.
     bindE (google_request http
       \<lparr>hr_method = ''GET'', hr_url = ''https://openidconnect.googleapis.com/v1/userinfo'', hr_authorization = None,
        hr_headers = [(''Authorization'', ''Bearer '' @ access_token)], hr_data = [], hr_params = [], hr_json = None\<rparr>) (\<lambda>profile.
     bindE (google_required_string profile ''sub'') (\<lambda>subject.
     bindE (google_required_string profile ''email'') (\<lambda>address.
     let email = lower address in
     bindE (ensure (map_of profile ''email_verified'' = Some (JBool True)) (Raised GoogleOAuthProfileInvalidError [])) (\<lambda>_.
     let display_name = (case google_optional_string profile ''name'' of
                           Some n \<Rightarrow> n | None \<Rightarrow> takeWhile (\<lambda>c. c \<noteq> CHR 0x40) email);
         avatar = google_optional_string profile ''picture'' in
     bindE (ensure (length subject \<le> 255 \<and> length email \<le> 320 \<and> length display_name \<le> 100)
       (Raised GoogleOAuthProfileInvalidError [])) (\<lambda>_.
     Inr \<lparr>gp_subject = subject, gp_email = email, gp_display_name = display_name,
          gp_avatar_url = (case avatar of None \<Rightarrow> None | Some a \<Rightarrow> if length a > 2048 then None else Some a)\<rparr>))))))))"

section \<open>Linking an account\<close>

definition get_linked_user :: "string \<Rightarrow> site \<Rightarrow> (oauth_account \<times> user) option" where
  "get_linked_user subject s =
     (case first_where (\<lambda>a. oa_provider_subject a = subject) (st_accounts s) of
        None \<Rightarrow> None
      | Some a \<Rightarrow> map_option (Pair a) (lookup u_id (oa_user_id a) (users (st_db s))))"

definition new_google_user :: "env \<Rightarrow> string \<Rightarrow> google_profile \<Rightarrow> user" where
  "new_google_user env hash profile =
     \<lparr>u_id = fresh env 0, u_email = gp_email profile, u_password_hash = hash, u_display_name = gp_display_name profile,
      u_avatar_url = gp_avatar_url profile, u_is_active = True, u_is_email_verified = True, u_auth_version = 0,
      u_created_at = db_now env, u_updated_at = db_now env\<rparr>"

text \<open>What the UPDATE of a known user writes; there is none when nothing changes.\<close>

definition adopt_profile :: "env \<Rightarrow> google_profile \<Rightarrow> user \<Rightarrow> user" where
  "adopt_profile env profile u =
     (let u' = u\<lparr>u_avatar_url := (if u_avatar_url u = None then gp_avatar_url profile else u_avatar_url u),
                 u_is_email_verified := True\<rparr> in
      if u' = u then u else u'\<lparr>u_updated_at := db_now env\<rparr>)"

definition link_account :: "env \<Rightarrow> uuid \<Rightarrow> uuid \<Rightarrow> google_profile \<Rightarrow> oauth_account list \<Rightarrow> error + oauth_account list" where
  "link_account env i user_id profile as =
     flush_insert oa_id (\<lambda>a. oa_provider_subject a \<notin> oa_provider_subject ` set as \<and> oa_user_id a \<notin> oa_user_id ` set as)
       \<lparr>oa_id = i, oa_user_id = user_id, oa_provider_subject = gp_subject profile, oa_provider_email = gp_email profile,
        oa_created_at = db_now env, oa_updated_at = db_now env\<rparr> as"

text \<open>The \<open>try\<close> block: the user and the account are written in one transaction. \<open>secret\<close> is a random text.\<close>

definition google_sign_up :: "password_hash \<Rightarrow> env \<Rightarrow> string \<Rightarrow> google_profile \<Rightarrow> user option \<Rightarrow> site \<Rightarrow> error + user \<times> site" where
  "google_sign_up pw env secret profile known s =
     (case known of
        None \<Rightarrow>
          (let u = new_google_user env (pw_hash pw secret) profile; us = users (st_db s) in
           bindE (flush_insert u_id (\<lambda>x. u_email x \<notin> u_email ` set us) u us) (\<lambda>us'.
           bindE (link_account env (fresh env 1) (u_id u) profile (st_accounts s)) (\<lambda>as.
           Inr (u, s\<lparr>st_db := (st_db s)\<lparr>users := us'\<rparr>, st_accounts := as\<rparr>))))
      | Some u \<Rightarrow>
          (let u' = adopt_profile env profile u in
           bindE (link_account env (fresh env 0) (u_id u) profile (st_accounts s)) (\<lambda>as.
           Inr (u', s\<lparr>st_db := (st_db s)\<lparr>users := store u_id u' (users (st_db s))\<rparr>, st_accounts := as\<rparr>))))"

definition authenticate_google :: "password_hash \<Rightarrow> env \<Rightarrow> string \<Rightarrow> google_profile \<Rightarrow> site \<Rightarrow> (failure + user) \<times> site" where
  "authenticate_google pw env secret profile s =
     (case get_linked_user (gp_subject profile) s of
        Some (a, u) \<Rightarrow>
          if \<not> u_is_active u then (Inl (Raised InactiveAccountError []), s)
          else (Inr u,
            if oa_provider_email a \<noteq> gp_email profile
            then s\<lparr>st_accounts := store oa_id (a\<lparr>oa_provider_email := gp_email profile, oa_updated_at := db_now env\<rparr>) (st_accounts s)\<rparr>
            else s)
      | None \<Rightarrow>
          (let known = users_repo_get_by_email (gp_email profile) (st_db s) in
           if \<exists>u \<in> set_option known. \<not> u_is_active u then (Inl (Raised InactiveAccountError []), s)
           else
             (case google_sign_up pw env secret profile known s of
                Inr (u, s') \<Rightarrow> (Inr u, s')
              | Inl e \<Rightarrow>
                  (case get_linked_user (gp_subject profile) s of
                     Some (_, u) \<Rightarrow> if \<not> u_is_active u then (Inl (Raised InactiveAccountError []), s) else (Inr u, s)
                   | None \<Rightarrow> (Inl (Raised GoogleOAuthAccountConflictError []), s)))))"

section \<open>The service\<close>

text \<open>
  \<open>urlsplit\<close>: leading blanks and control characters and every tab and line break are dropped, then
  the scheme, then the host after two slashes.
\<close>

definition url_cleaned :: "string \<Rightarrow> string" where
  "url_cleaned url = filter (\<lambda>c. c \<notin> {CHR 0x09, CHR 0x0A, CHR 0x0D}) (dropWhile (\<lambda>c. (of_char c :: nat) \<le> 32) url)"

definition is_letter :: "char \<Rightarrow> bool" where
  "is_letter c \<longleftrightarrow> (let n = of_char c :: nat in (65 \<le> n \<and> n \<le> 90) \<or> (97 \<le> n \<and> n \<le> 122))"

definition url_scheme :: "string \<Rightarrow> string" where
  "url_scheme url =
     (let u = url_cleaned url; p = takeWhile (\<lambda>c. c \<noteq> CHR '':'') u in
      if p \<noteq> u \<and> p \<noteq> [] \<and> is_letter (hd p) \<and>
         (\<forall>c \<in> set p. is_letter c \<or> c \<in> set ''0123456789+-.'')
      then p else [])"

definition url_netloc :: "string \<Rightarrow> string" where
  "url_netloc url =
     (let u = url_cleaned url; rest = (if url_scheme url = [] then u else drop (length (url_scheme url) + 1) u) in
      if take 2 rest = ''//'' then takeWhile (\<lambda>c. c \<notin> {CHR ''/'', CHR ''?'', CHR 0x23}) (drop 2 rest) else [])"

text \<open>\<open>bad_netloc\<close>: the hosts \<open>urlsplit\<close> refuses with a \<open>ValueError\<close>, such as one with an unmatched bracket.\<close>

definition safe_return_path :: "(string \<Rightarrow> bool) \<Rightarrow> string \<Rightarrow> failure + string" where
  "safe_return_path bad_netloc path =
     (if length path > 2048 then Inr ''/''
      else if url_netloc path \<noteq> [] \<and> bad_netloc (url_netloc path) then Inl (Foreign ''ValueError'' [])
      else if take 1 path \<noteq> ''/'' \<or> take 2 path = ''//'' \<or> url_scheme path \<noteq> [] \<or> url_netloc path \<noteq> [] \<or> CHR 0x5C \<in> set path
      then Inr ''/''
      else Inr path)"

definition frontend_redirect :: "google_settings \<Rightarrow> string \<Rightarrow> (string \<times> string) list \<Rightarrow> string" where
  "frontend_redirect cfg return_path query =
     rstrip_slash (gs_frontend_url cfg) @ return_path @ (if CHR ''?'' \<in> set return_path then ''&'' else ''?'') @ urlencode query"

text \<open>\<open>verifier\<close> and \<open>state\<close> are random texts.\<close>

definition google_begin ::
  "google_settings \<Rightarrow> (string \<Rightarrow> bool) \<Rightarrow> env \<Rightarrow> string \<Rightarrow> string \<Rightarrow> string \<Rightarrow> redis \<Rightarrow> (failure + string) \<times> redis" where
  "google_begin cfg bad_netloc env verifier state return_path r =
     (case safe_return_path bad_netloc return_path of
        Inl err \<Rightarrow> (Inl err, r)
      | Inr path \<Rightarrow>
          (google_authorization_url cfg state (b64_unpadded (hex_bytes (sha256_hex env verifier))),
           issue_google_state (now env) state \<lparr>ao_code_verifier = verifier, ao_return_path = path\<rparr> (gs_state_ttl_seconds cfg) r))"

record google_completion =
  gc_user :: user
  gc_tokens :: token_pair
  gc_redirect_url :: string

text \<open>\<open>env\<close> is read up to the commit, \<open>env'\<close> by the tokens.\<close>

definition google_complete ::
  "google_settings \<Rightarrow> auth_settings \<Rightarrow> jwt \<Rightarrow> password_hash \<Rightarrow> (http_request \<Rightarrow> http_result) \<Rightarrow> env \<Rightarrow> env \<Rightarrow> string
     \<Rightarrow> string \<Rightarrow> string \<Rightarrow> site \<Rightarrow> (failure + google_completion) \<times> site" where
  "google_complete cfg acfg j pw http env env' secret code state s =
     (let (found, r) = consume_google_state (now env) state (st_redis s); s1 = s\<lparr>st_redis := r\<rparr> in
      case found of
        None \<Rightarrow> (Inl (Raised GoogleOAuthStateInvalidError []), s1)
      | Some st \<Rightarrow>
          (case google_exchange_code cfg http code (ao_code_verifier st) of
             Inl err \<Rightarrow> (Inl err, s1)
           | Inr profile \<Rightarrow>
               (case authenticate_google pw env secret profile s1 of
                  (Inl err, s2) \<Rightarrow> (Inl err, s2)
                | (Inr u, s2) \<Rightarrow>
                    (Inr \<lparr>gc_user = u, gc_tokens = create_token_pair acfg j env' (u_id u) None (u_auth_version u),
                          gc_redirect_url = frontend_redirect cfg (ao_return_path st) [(''oauth'', ''google''), (''status'', ''success'')]\<rparr>,
                     s2))))"

definition google_cancel :: "google_settings \<Rightarrow> time \<Rightarrow> string \<Rightarrow> string \<Rightarrow> redis \<Rightarrow> (failure + string) \<times> redis" where
  "google_cancel cfg at state provider_error r =
     (let (found, r') = consume_google_state at state r in
      case found of
        None \<Rightarrow> (Inl (Raised GoogleOAuthStateInvalidError []), r')
      | Some st \<Rightarrow>
          (Inr (frontend_redirect cfg (ao_return_path st)
             [(''oauth'', ''google''), (''error'', if provider_error = ''access_denied'' then ''access_denied'' else ''oauth_failed'')]), r'))"

end
