(* ===== verification/Account_Steps.thy ===== *)
theory Account_Steps imports Google_OAuth App begin

text \<open>
  Runs of the authentication requests, in time order and interleaved with every other request: which
  marks in Redis stay, and that the version of an account never falls.
\<close>

section \<open>The steps\<close>

lemma app_step_users:
  assumes step: "app_step H db db'" and inv: "db_inv H db"
  shows "users db' = users db"
proof -
  note I = db_invD [OF inv] and K = db_inv_keys [OF inv] and V = voting_invD [OF db_invD(7) [OF inv]]
  show ?thesis
    using step
  proof cases
    case workspace
    from workspace_step_cases [OF workspace] show ?thesis
      by (elim disjE exE) (auto simp: delete_workspace_row_def Let_def cascade_decisions_tables split: if_splits)
  next
    case decision
    from decision_step_cases [OF decision I(2)] show ?thesis by (auto simp: cascade_decisions_tables)
  next
    case proposal
    show ?thesis using proposal_step_effect [OF proposal I(3)] by auto
  next
    case criterion
    show ?thesis by (subst criterion_step_frame [OF criterion]) simp
  next
    case objection
    show ?thesis using objection_step_effect [OF objection I(6)] by auto
  next
    case voting
    have "voting_effect db db'"
      by (rule voting_step_effect [OF voting V(1) register_invD(1) [OF V(2)] register_invD(3) [OF V(2)]])
    then show ?thesis by cases simp_all
  next
    case lock
    then show ?thesis by (rule lock_step_tables) (use K(1) in simp_all)
  next
    case follow_up
    then show ?thesis by (cases rule: record_step_tables) simp_all
  next
    case side
    then show ?thesis by (rule side_step_frame) simp
  qed
qed

text \<open>
  A step takes a site at a time to another not earlier. The settings \<open>cfg\<close> are those of the process;
  the result of the request does not matter.
\<close>

inductive auth_step :: "auth_settings \<Rightarrow> (string \<Rightarrow> string) \<Rightarrow> time \<times> site \<Rightarrow> time \<times> site \<Rightarrow> bool" for cfg H where
  register: "t \<le> now env \<Longrightarrow> auth_step cfg H (t, s) (now env, snd (auth_register cfg pw mail env token p s))"
| refresh: "t \<le> now env \<Longrightarrow> auth_step cfg H (t, s) (now env, snd (auth_refresh cfg j env token s))"
| logout: "t \<le> now env \<Longrightarrow> auth_step cfg H (t, s) (now env, snd (auth_logout cfg j env token s))"
| request_verification:
    "t \<le> now env \<Longrightarrow> auth_step cfg H (t, s) (now env, snd (auth_request_email_verification cfg mail env token email s))"
| verify: "t \<le> now env \<Longrightarrow> auth_step cfg H (t, s) (now env, snd (auth_verify_email env token s))"
| forgot: "t \<le> now env \<Longrightarrow> auth_step cfg H (t, s) (now env, snd (auth_forgot_password cfg mail env token email s))"
| reset: "t \<le> now env \<Longrightarrow> auth_step cfg H (t, s) (now env, snd (auth_reset_password pw env token password s))"
| google_begins: "t \<le> now env \<Longrightarrow> auth_step cfg H (t, s)
    (now env, s\<lparr>st_redis := snd (google_begin gcfg bad env verifier state path (st_redis s))\<rparr>)"
| google_completes: "t \<le> now env \<Longrightarrow>
    auth_step cfg H (t, s) (now env, snd (google_complete gcfg cfg j pw http env env' secret code state s))"
| google_cancels: "t \<le> t' \<Longrightarrow>
    auth_step cfg H (t, s) (t', s\<lparr>st_redis := snd (google_cancel gcfg t' state provider_error (st_redis s))\<rparr>)"
| rate: "t \<le> t' \<Longrightarrow>
    auth_step cfg H (t, s) (t', s\<lparr>st_redis := snd (enforce_auth_rate_limit cfg t' path client (st_redis s))\<rparr>)"
| integration_issue: "t \<le> t' \<Longrightarrow> auth_step cfg H (t, s) (t', s\<lparr>st_redis := issue_oauth_state t' state v ttl (st_redis s)\<rparr>)"
| integration_consume: "t \<le> t' \<Longrightarrow> auth_step cfg H (t, s) (t', s\<lparr>st_redis := snd (consume_oauth_state t' state (st_redis s))\<rparr>)"
| app: "t \<le> t' \<Longrightarrow> db_inv H (st_db s) \<Longrightarrow> app_step H (st_db s) db \<Longrightarrow> auth_step cfg H (t, s) (t', s\<lparr>st_db := db\<rparr>)"

abbreviation auth_run :: "auth_settings \<Rightarrow> (string \<Rightarrow> string) \<Rightarrow> time \<times> site \<Rightarrow> time \<times> site \<Rightarrow> bool" where
  "auth_run cfg H \<equiv> (auth_step cfg H)\<^sup>*\<^sup>*"

section \<open>Marks in Redis\<close>

text \<open>The keys of marks: never deleted, and a mark is only renewed.\<close>

definition mark_key :: "string \<Rightarrow> bool" where
  "mark_key key \<longleftrightarrow> (\<exists>i. key = used_key i \<or> key = revoked_key i)"

lemmas key_defs = used_key_def revoked_key_def action_token_key_def action_user_key_def rate_key_def integration_state_key_def
  google_state_key_def

lemma key_distinct:
  assumes "mark_key key"
  shows "key \<noteq> action_token_key a b" and "key \<noteq> action_user_key a b" and "key \<noteq> rate_key a c" and "key \<noteq> integration_state_key a"
    and "key \<noteq> google_state_key a"
  using assms by (auto simp: mark_key_def key_defs)

lemma used_not_revoked [simp]: "used_key i \<noteq> revoked_key f" "revoked_key f \<noteq> used_key i"
  by (simp_all add: key_defs)

lemmas redis_step_defs = issue_action_token_def consume_action_token_def google_begin_def google_cancel_def issue_google_state_def
  consume_google_state_def issue_oauth_state_def consume_oauth_state_def enforce_auth_rate_limit_def rate_limit_hit_def
  redis_set_def redis_delete_def Let_def

lemma other_operations_keep_marks:
  assumes "mark_key key"
  shows "issue_action_token env token purpose i ttl r key = r key"
    and "snd (consume_action_token env purpose token r) key = r key"
    and "snd (google_begin gcfg bad env verifier state path r) key = r key"
    and "snd (consume_google_state u state r) key = r key"
    and "snd (google_cancel gcfg u state provider_error r) key = r key"
    and "snd (enforce_auth_rate_limit cfg u path client r) key = r key"
    and "issue_oauth_state u state v ttl r key = r key"
    and "snd (consume_oauth_state u state r) key = r key"
  using key_distinct [OF assms]
  by (auto simp: redis_step_defs split: option.splits redis_value.splits prod.splits sum.splits json.splits)

text \<open>A mark that lasts at least until \<open>x\<close>.\<close>

definition marked_until :: "time \<Rightarrow> string \<Rightarrow> redis \<Rightarrow> bool" where
  "marked_until x key r \<longleftrightarrow> (\<exists>v y. r key = Some (v, y) \<and> x \<le> y)"

lemma marked_until_get: "marked_until x key r \<Longrightarrow> t < x \<Longrightarrow> redis_get t key r \<noteq> None"
  by (auto simp: marked_until_def redis_get_def)

lemma marked_until_set: "x \<le> t + ttl * 1000000 \<Longrightarrow> marked_until x key (redis_set t key v ttl r)"
  by (auto simp: marked_until_def redis_set_def)

lemma marked_until_other: "r' key = r key \<Longrightarrow> marked_until x key r' = marked_until x key r"
  by (simp add: marked_until_def)

text \<open>Consuming a token renews its mark only when it has run out.\<close>

lemma refresh_consume_mark:
  "marked_until x (used_key i) r \<Longrightarrow> marked_until x (used_key i) (snd (refresh_consume t jti e r))"
  "marked_until x (revoked_key f) r \<Longrightarrow> marked_until x (revoked_key f) (snd (refresh_consume t jti e r))"
proof -
  have "t \<le> t + max 1 ((e - t) div 1000000) * 1000000" by simp
  then show "marked_until x (used_key i) r \<Longrightarrow> marked_until x (used_key i) (snd (refresh_consume t jti e r))"
    by (auto simp: marked_until_def refresh_consume_def redis_set_nx_def redis_get_def redis_set_def split: if_splits)
  show "marked_until x (revoked_key f) r \<Longrightarrow> marked_until x (revoked_key f) (snd (refresh_consume t jti e r))"
    by (auto simp: marked_until_def refresh_consume_def redis_set_nx_def redis_set_def)
qed

lemma revoke_family_mark:
  "marked_until x (used_key i) r \<Longrightarrow> marked_until x (used_key i) (revoke_family t g ttl r)"
  "marked_until x (revoked_key f) r \<Longrightarrow> x \<le> t + ttl * 1000000 \<Longrightarrow> marked_until x (revoked_key f) (revoke_family t g ttl r)"
  by (auto simp: marked_until_def revoke_family_def redis_set_def)

text \<open>What a refresh leaves in Redis, and that it leaves the accounts alone.\<close>

abbreviation consumed :: "env \<Rightarrow> decoded_token \<Rightarrow> redis \<Rightarrow> redis" where
  "consumed env d r \<equiv> snd (refresh_consume (now env) (dt_jti d) (dt_expires_at d) r)"

lemma auth_refresh_decoded:
  assumes "decode_refresh_token cfg j (now env) token = Inr d"
  shows "auth_refresh cfg j env token s =
    (let r = consumed env d (st_redis s);
         revoked = s\<lparr>st_redis := revoke_family (now env) (dt_family_id d) (family_revocation_ttl cfg) r\<rparr> in
     if is_family_revoked (now env) (dt_family_id d) (st_redis s) then (Inl invalid_token, s)
     else if redis_get (now env) (used_key (dt_jti d)) (st_redis s) \<noteq> None then (Inl invalid_token, revoked)
     else case refresh_account d (st_db s) of
            Inl err \<Rightarrow> (Inl err, revoked)
          | Inr u \<Rightarrow> (Inr (create_token_pair cfg j env (u_id u) (Some (dt_family_id d)) (u_auth_version u)), s\<lparr>st_redis := r\<rparr>))"
  using assms
  by (cases "redis_get (now env) (used_key (dt_jti d)) (st_redis s)")
    (simp_all add: auth_refresh_def refresh_consume_def redis_set_nx_def Let_def split: sum.split)

lemma auth_refresh_site:
  "snd (auth_refresh cfg j env token s) = s \<or>
   (\<exists>d. snd (auth_refresh cfg j env token s) = s\<lparr>st_redis := consumed env d (st_redis s)\<rparr> \<or>
        snd (auth_refresh cfg j env token s) =
          s\<lparr>st_redis := revoke_family (now env) (dt_family_id d) (family_revocation_ttl cfg) (consumed env d (st_redis s))\<rparr>)"
proof (cases "decode_refresh_token cfg j (now env) token")
  case (Inl err)
  then show ?thesis by (simp add: auth_refresh_def)
next
  case (Inr d)
  have "snd (auth_refresh cfg j env token s) \<in>
     {s, s\<lparr>st_redis := consumed env d (st_redis s)\<rparr>,
      s\<lparr>st_redis := revoke_family (now env) (dt_family_id d) (family_revocation_ttl cfg) (consumed env d (st_redis s))\<rparr>}"
    by (simp add: auth_refresh_decoded [OF Inr] Let_def split: sum.split)
  then show ?thesis by blast
qed

lemma auth_logout_site:
  "snd (auth_logout cfg j env token s) = s \<or>
   (\<exists>d :: decoded_token. snd (auth_logout cfg j env token s) = s\<lparr>st_redis := revoke_family (now env) (dt_family_id d) (family_revocation_ttl cfg) (st_redis s)\<rparr>)"
proof (cases "decode_refresh_token cfg j (now env) token")
  case (Inr d)
  then show ?thesis by (intro disjI2 exI [of _ d]) (simp add: auth_logout_def)
qed (simp add: auth_logout_def)

text \<open>Every other step leaves the marks alone.\<close>

lemma send_verification_keeps:
  "mark_key key \<Longrightarrow> st_redis (snd (auth_send_verification_email cfg mail env token u s)) key = st_redis s key"
  by (simp add: auth_send_verification_email_def other_operations_keep_marks)

lemma authenticate_google_redis: "st_redis (snd (authenticate_google pw env secret profile s)) = st_redis s"
  by (auto simp: authenticate_google_def google_sign_up_def Let_def split: option.splits sum.splits)

lemma account_requests_keep_marks:
  assumes "mark_key key"
  shows "st_redis (snd (auth_register cfg pw mail env token p s)) key = st_redis s key"
    and "st_redis (snd (auth_request_email_verification cfg mail env token email s)) key = st_redis s key"
    and "st_redis (snd (auth_verify_email env token s)) key = st_redis s key"
    and "st_redis (snd (auth_forgot_password cfg mail env token email s)) key = st_redis s key"
    and "st_redis (snd (auth_reset_password pw env token password s)) key = st_redis s key"
    and "st_redis (snd (google_complete gcfg acfg j pw http env env' secret code state s)) key = st_redis s key"
proof -
  note keep = send_verification_keeps [OF assms] other_operations_keep_marks [OF assms]
  show "st_redis (snd (auth_register cfg pw mail env token p s)) key = st_redis s key"
  proof (cases "users_repo_create (new_user env (lower (rg_email p)) (pw_hash pw (rg_password p)) (rg_display_name p)) (st_db s)")
    case (Inr x)
    then show ?thesis using keep(1) [of cfg mail env token "fst x" "s\<lparr>st_db := snd x\<rparr>"]
      by (auto simp: auth_register_def Let_def split: prod.split sum.split)
  qed (simp add: auth_register_def Let_def)
  show "st_redis (snd (auth_request_email_verification cfg mail env token email s)) key = st_redis s key"
    using keep(1) by (simp add: auth_request_email_verification_def split: option.split)
  show "st_redis (snd (auth_forgot_password cfg mail env token email s)) key = st_redis s key"
    using keep(2) by (simp add: auth_forgot_password_def split: option.split)
  show "st_redis (snd (auth_verify_email env token s)) key = st_redis s key"
    using keep(3) [of env email_verification_purpose token "st_redis s"]
    by (cases "consume_action_token env email_verification_purpose token (st_redis s)")
      (simp add: auth_verify_email_def Let_def split: prod.split sum.split)
  show "st_redis (snd (auth_reset_password pw env token password s)) key = st_redis s key"
    using keep(3) [of env password_reset_purpose token "st_redis s"]
    by (cases "consume_action_token env password_reset_purpose token (st_redis s)")
      (simp add: auth_reset_password_def Let_def split: prod.split sum.split)
  show "st_redis (snd (google_complete gcfg acfg j pw http env env' secret code state s)) key = st_redis s key"
  proof -
    have "st_redis s' = st_redis t" if "authenticate_google pw env secret profile t = (x, s')" for profile t x s'
      using authenticate_google_redis [of pw env secret profile t] that by simp
    then show ?thesis using keep(5) [of "now env" state "st_redis s"]
      by (fastforce simp: google_complete_def Let_def split: prod.split sum.split option.split)
  qed
qed

lemma auth_step_keeps_used:
  assumes "auth_step cfg H (t, s) (t', s')" and "marked_until x (used_key i) (st_redis s)"
  shows "marked_until x (used_key i) (st_redis s')"
proof -
  have key: "mark_key (used_key i)" by (auto simp: mark_key_def)
  note keep = account_requests_keep_marks [OF key] other_operations_keep_marks [OF key]
  show ?thesis
    using assms(1)
  proof cases
    case (refresh env j token)
    then show ?thesis using auth_refresh_site [of cfg j env token s] assms(2)
      by (auto intro!: refresh_consume_mark revoke_family_mark)
  next
    case (logout env j token)
    then show ?thesis using auth_logout_site [of cfg j env token s] assms(2) by (auto intro!: revoke_family_mark)
  qed (use assms(2) keep in \<open>simp_all add: marked_until_def\<close>)
qed

lemma auth_step_keeps_revoked:
  assumes "auth_step cfg H (t, s) (t', s')" and "marked_until x (revoked_key f) (st_redis s)"
    and "x \<le> t + family_revocation_ttl cfg * 1000000"
  shows "marked_until x (revoked_key f) (st_redis s') \<and> x \<le> t' + family_revocation_ttl cfg * 1000000"
proof -
  have key: "mark_key (revoked_key f)" by (auto simp: mark_key_def)
  note keep = account_requests_keep_marks [OF key] other_operations_keep_marks [OF key]
  have "t \<le> t'" using assms(1) by cases simp_all
  then have x: "x \<le> t' + family_revocation_ttl cfg * 1000000" using assms(3) by simp
  have "marked_until x (revoked_key f) (st_redis s')"
    using assms(1)
  proof cases
    case (refresh env j token)
    then show ?thesis using auth_refresh_site [of cfg j env token s] assms(2) x
      by (auto intro!: refresh_consume_mark revoke_family_mark)
  next
    case (logout env j token)
    then show ?thesis using auth_logout_site [of cfg j env token s] assms(2) x by (auto intro!: revoke_family_mark)
  qed (use assms(2) keep in \<open>simp_all add: marked_until_def\<close>)
  with x show ?thesis by simp
qed

end
