(* ===== verification/Sessions.thy ===== *)
theory Sessions imports Account_Steps Demo begin

text \<open>
  Accounts along a run, and the properties of sessions: a refresh token works once, a revoked family is
  refused, a password reset ends the sessions of the account, and whom a Google sign-in signs in.
\<close>

section \<open>Accounts along a run\<close>

text \<open>Accounts stay, and their versions only grow.\<close>

definition accounts_follow :: "user list \<Rightarrow> user list \<Rightarrow> bool" where
  "accounts_follow us us' \<longleftrightarrow>
     (email_inv us \<longrightarrow> email_inv us' \<and>
       (\<forall>u \<in> set us. \<exists>u' \<in> set us'. u_id u' = u_id u \<and> u_email u' = u_email u \<and> u_auth_version u \<le> u_auth_version u'))"

lemma accounts_follow_refl [simp]: "accounts_follow us us"
  by (auto simp: accounts_follow_def)

lemma accounts_follow_trans: "accounts_follow us vs \<Longrightarrow> accounts_follow vs ws \<Longrightarrow> accounts_follow us ws"
  unfolding accounts_follow_def by (metis order.trans)

lemma accounts_follow_append:
  "u_id u \<notin> u_id ` set us \<Longrightarrow> u_email u \<notin> u_email ` set us \<Longrightarrow> lower (u_email u) = u_email u \<Longrightarrow> accounts_follow us (us @ [u])"
  unfolding accounts_follow_def by (auto intro!: email_inv_create)

lemma accounts_follow_store:
  assumes "lookup u_id i us = Some cur \<or> (cur \<in> set us \<and> u_id cur = i)"
    and "u_id u = u_id cur" and "u_email u = u_email cur" and "u_auth_version cur \<le> u_auth_version u"
  shows "accounts_follow us (store u_id u us)"
  unfolding accounts_follow_def
proof (intro impI conjI ballI)
  assume inv: "email_inv us"
  then have ids: "distinct (map u_id us)" by (simp add: email_inv_def)
  then have cur: "lookup u_id i us = Some cur" "cur \<in> set us" using assms(1) by (auto simp: lookup_distinct)
  show "email_inv (store u_id u us)" by (rule email_inv_store [OF inv cur(1) assms(2,3)])
  fix x assume x: "x \<in> set us"
  show "\<exists>x' \<in> set (store u_id u us). u_id x' = u_id x \<and> u_email x' = u_email x \<and> u_auth_version x \<le> u_auth_version x'"
  proof (cases "u_id x = u_id u")
    case True
    then have "x = cur" using distinct_key_eq [OF ids x cur(2)] assms(2) by simp
    moreover have "u \<in> set (store u_id u us)" using x True imageI [OF x, of u_id] by (simp add: set_store)
    ultimately show ?thesis using assms(2-4) by auto
  next
    case False
    then show ?thesis using x by (intro bexI [of _ x]) (simp_all add: set_store)
  qed
qed

lemma save_user_follow:
  assumes "save_user env u new db = Inr (r, db')" and "lookup u_id (u_id u) (users db) = Some u"
    and "u_auth_version u \<le> u_auth_version new"
  shows "accounts_follow (users db) (users db')"
proof -
  have r: "r = write_user env u new u" "users db' = store u_id r (users db)"
    using assms(1,2) by (auto simp: save_user_Inr)
  then show ?thesis using assms(2,3)
    by (intro accounts_follow_store [where i = "u_id u" and cur = u, THEN ssubst [OF r(2), where P = "accounts_follow (users db)"]])
      (auto simp: write_user_def put_if_dirty_def)
qed

lemma send_verification_db: "st_db (snd (auth_send_verification_email cfg mail env token u s)) = st_db s"
  by (simp add: auth_send_verification_email_def)

lemma register_follow: "accounts_follow (users (st_db s)) (users (st_db (snd (auth_register cfg pw mail env token p s))))"
proof (cases "users_repo_get_by_email (lower (rg_email p)) (st_db s) = None")
  case True
  let ?u = "new_user env (lower (rg_email p)) (pw_hash pw (rg_password p)) (rg_display_name p)"
  show ?thesis
  proof (cases "users_repo_create ?u (st_db s)")
    case (Inr x)
    obtain u db where x: "x = (u, db)" by (cases x)
    then have new: "u_id ?u \<notin> u_id ` set (users (st_db s))" "u_email ?u \<notin> u_email ` set (users (st_db s))"
      "users db = users (st_db s) @ [?u]"
      using Inr by (auto simp: users_repo_create_Inr)
    have "st_db (snd (auth_register cfg pw mail env token p s)) = db"
      using True Inr x send_verification_db [of cfg mail env token u "s\<lparr>st_db := db\<rparr>"]
      by (auto simp: auth_register_def Let_def split: prod.split sum.split)
    then show ?thesis using accounts_follow_append [OF new(1,2)] new(3) by (simp add: new_user_def)
  qed (simp add: auth_register_def True)
qed (simp add: auth_register_def)

lemma action_account_Inr: "action_account i db = Inr u \<longleftrightarrow> (\<exists>k. i = Some k \<and> lookup u_id k (users db) = Some u \<and> u_is_active u)"
  by (auto simp: action_account_def users_repo_get_by_id_def)

lemma lookup_self: "lookup key k rs = Some r \<Longrightarrow> lookup key (key r) rs = Some r"
  using lookup_SomeD by metis

lemma verify_follow: "accounts_follow (users (st_db s)) (users (st_db (snd (auth_verify_email env token s))))"
proof (cases "consume_action_token env email_verification_purpose token (st_redis s)")
  case (Pair i r)
  show ?thesis
  proof (cases "action_account i (st_db s)")
    case (Inr u)
    then have u: "lookup u_id (u_id u) (users (st_db s)) = Some u" by (auto simp: action_account_Inr dest: lookup_self)
    show ?thesis
      using Inr save_user_follow [OF _ u, of env "u\<lparr>u_is_email_verified := True\<rparr>"]
      by (auto simp: auth_verify_email_def Pair Let_def users_repo_mark_email_verified_def split: sum.split prod.split)
  qed (simp add: auth_verify_email_def Pair Let_def)
qed

lemma reset_follow: "accounts_follow (users (st_db s)) (users (st_db (snd (auth_reset_password pw env token password s))))"
proof (cases "consume_action_token env password_reset_purpose token (st_redis s)")
  case (Pair i r)
  show ?thesis
  proof (cases "action_account i (st_db s)")
    case (Inr u)
    then have u: "lookup u_id (u_id u) (users (st_db s)) = Some u" by (auto simp: action_account_Inr dest: lookup_self)
    show ?thesis
      using Inr save_user_follow [OF _ u, of env "u\<lparr>u_password_hash := pw_hash pw password, u_auth_version := u_auth_version u + 1\<rparr>"]
      by (auto simp: auth_reset_password_def Pair Let_def users_repo_update_password_def split: sum.split prod.split)
  qed (simp add: auth_reset_password_def Pair Let_def)
qed

lemma get_by_email_mem: "users_repo_get_by_email email db = Some u \<Longrightarrow> u \<in> set (users db)"
  by (auto simp: users_repo_get_by_email_def dest: first_where_SomeD)

lemma adopt_profile_fields [simp]:
  "u_id (adopt_profile env profile u) = u_id u" "u_email (adopt_profile env profile u) = u_email u"
  "u_auth_version (adopt_profile env profile u) = u_auth_version u" "u_is_active (adopt_profile env profile u) = u_is_active u"
  "u_password_hash (adopt_profile env profile u) = u_password_hash u" "u_is_email_verified (adopt_profile env profile u)"
  by (auto simp: adopt_profile_def Let_def dest: arg_cong [where f = u_is_email_verified])

lemma sign_up_follow:
  assumes "google_sign_up pw env secret profile (users_repo_get_by_email (gp_email profile) (st_db s)) s = Inr (u, s')"
    and "lower (gp_email profile) = gp_email profile"
  shows "accounts_follow (users (st_db s)) (users (st_db s'))"
proof (cases "users_repo_get_by_email (gp_email profile) (st_db s)")
  case None
  then have "u_id (new_google_user env (pw_hash pw secret) profile) \<notin> u_id ` set (users (st_db s))"
    "gp_email profile \<notin> u_email ` set (users (st_db s))"
    "users (st_db s') = users (st_db s) @ [new_google_user env (pw_hash pw secret) profile]"
    using assms(1) by (auto simp: google_sign_up_def Let_def new_google_user_def)
  then show ?thesis using accounts_follow_append assms(2) by (simp add: new_google_user_def)
next
  case (Some v)
  then have "users (st_db s') = store u_id (adopt_profile env profile v) (users (st_db s))"
    using assms(1) by (auto simp: google_sign_up_def Let_def)
  then show ?thesis
    using get_by_email_mem [OF Some] accounts_follow_store [of "u_id v" "users (st_db s)" v "adopt_profile env profile v"] by simp
qed

lemma authenticate_follow:
  assumes "lower (gp_email profile) = gp_email profile"
  shows "accounts_follow (users (st_db s)) (users (st_db (snd (authenticate_google pw env secret profile s))))"
  using sign_up_follow [OF _ assms]
  by (auto simp: authenticate_google_def Let_def split: option.splits sum.splits prod.splits)

lemma exchanged_email: "google_exchange_code cfg http code verifier = Inr profile \<Longrightarrow> lower (gp_email profile) = gp_email profile"
  by (auto simp: google_exchange_code_def Let_def)

lemma google_complete_follow:
  "accounts_follow (users (st_db s)) (users (st_db (snd (google_complete gcfg cfg j pw http env env' secret code state s))))"
proof (cases "consume_google_state (now env) state (st_redis s)")
  case (Pair found r)
  show ?thesis
  proof (cases found)
    case None
    then show ?thesis by (simp add: google_complete_def Pair Let_def)
  next
    case (Some st)
    show ?thesis
    proof (cases "google_exchange_code gcfg http code (ao_code_verifier st)")
      case (Inl err)
      then show ?thesis by (simp add: google_complete_def Pair Some Let_def)
    next
      case (Inr profile)
      have "snd (google_complete gcfg cfg j pw http env env' secret code state s) =
          snd (authenticate_google pw env secret profile (s\<lparr>st_redis := r\<rparr>))"
        by (simp add: google_complete_def Pair Some Inr Let_def split: prod.split sum.split)
      then show ?thesis using authenticate_follow [OF exchanged_email [OF Inr], of "s\<lparr>st_redis := r\<rparr>"] by simp
    qed
  qed
qed

lemma auth_step_follow:
  assumes "auth_step cfg H (t, s) (t', s')"
  shows "t \<le> t' \<and> accounts_follow (users (st_db s)) (users (st_db s'))"
  using assms
proof cases
  case (refresh env j token)
  then show ?thesis using auth_refresh_site [of cfg j env token s] by auto
next
  case (logout env j token)
  then show ?thesis using auth_logout_site [of cfg j env token s] by auto
next
  case (app db)
  then show ?thesis using app_step_users by simp
qed (simp_all add: register_follow verify_follow reset_follow google_complete_follow auth_request_email_verification_def
    auth_forgot_password_def send_verification_db split: option.split)

lemma auth_run_follow:
  "auth_run cfg H (t, s) (t', s') \<Longrightarrow> t \<le> t' \<and> accounts_follow (users (st_db s)) (users (st_db s'))"
proof (induction rule: rtranclp_induct2)
  case (step t1 s1 t2 s2)
  then show ?case using auth_step_follow [OF step(2)] accounts_follow_trans by (meson order.trans)
qed simp

section \<open>Concrete sessions\<close>

definition demo_settings :: auth_settings where
  "demo_settings = \<lparr>as_access_secret = ''access'', as_refresh_secret = ''refresh'', as_access_minutes = 15, as_refresh_days = 7,
     as_verification_minutes = 60, as_reset_minutes = 15, as_frontend_url = ''http://localhost:3000'', as_rate_window_seconds = 60,
     as_register_limit = 3, as_login_limit = 5, as_refresh_limit = 10, as_logout_limit = 10, as_verification_limit = 3,
     as_forgot_password_limit = 3, as_reset_password_limit = 5\<rparr>"

text \<open>Ada's tokens, named after their secrets, which expire after 700 seconds.\<close>

definition demo_claims :: "string \<Rightarrow> (string \<times> json) list" where
  "demo_claims kind = [(''sub'', JStr (uuid_str 1)), (''type'', JStr kind), (''jti'', JStr (uuid_str 71)),
     (''family'', JStr (uuid_str 70)), (''ver'', JInt 1), (''iat'', JInt 0), (''exp'', JInt 700)]"

definition demo_jwt :: jwt where
  "demo_jwt = \<lparr>jwt_encode = (\<lambda>claims secret. secret),
     jwt_decode = (\<lambda>required t token secret. if token = secret \<and> t < 700000000 then Some (demo_claims secret) else None)\<rparr>"

definition demo_token :: decoded_token where
  "demo_token = \<lparr>dt_user_id = 1, dt_jti = 71, dt_family_id = 70, dt_token_version = 1, dt_expires_at = 700000000\<rparr>"

definition demo_site :: site where
  "demo_site = \<lparr>st_db = demo0, st_redis = Map.empty, st_accounts = []\<rparr>"

abbreviation demo_at :: "time \<Rightarrow> env" where
  "demo_at t \<equiv> (demo_env 7)\<lparr>now := t\<rparr>"

lemma demo_decodes:
  assumes "t < 700000000"
  shows "decode_refresh_token demo_settings demo_jwt t ''refresh'' = Inr demo_token"
    and "decode_access_token demo_settings demo_jwt t ''access'' = Inr demo_token"
  using assms
  by (simp_all add: decode_refresh_token_def decode_access_token_def decode_token_def demo_settings_def demo_jwt_def demo_claims_def
      demo_token_def uuid_roundtrip calendar_time_def)

lemma demo_site_fields [simp]:
  "users (st_db demo_site) = [ada, bob]" "st_redis demo_site = Map.empty" "st_accounts demo_site = []"
  by (simp_all add: demo_site_def demo0_def)

lemma demo_email_inv: "email_inv [ada, bob]"
proof -
  have "lower ''ada'' = ''ada''" "lower ''bob'' = ''bob''" by code_simp+
  then show ?thesis by (simp add: email_inv_def ada_def bob_def)
qed

lemma demo_refresh:
  obtains pair s1 where "auth_refresh demo_settings demo_jwt (demo_at 1500000) ''refresh'' demo_site = (Inr pair, s1)"
proof -
  have "refresh_account demo_token (st_db demo_site) = Inr ada"
    by (simp add: refresh_account_def users_repo_get_by_id_def demo_token_def ada_def)
  then show thesis
    using auth_refresh_decoded [of demo_settings demo_jwt "demo_at 1500000" "''refresh''" demo_token demo_site] demo_decodes(1) [of 1500000]
    by (intro that) (auto simp: Let_def is_family_revoked_def redis_get_def)
qed

section \<open>A refresh token works once\<close>

lemma run_keeps_used:
  assumes "auth_run cfg H (t, s) (t', s')" and "marked_until x (used_key i) (st_redis s)"
  shows "marked_until x (used_key i) (st_redis s')"
  using assms by (induction rule: rtranclp_induct2) (auto intro: auth_step_keeps_used)

lemma run_keeps_revoked:
  assumes "auth_run cfg H (t, s) (t', s')" and "marked_until x (revoked_key f) (st_redis s)"
    and "x \<le> t + family_revocation_ttl cfg * 1000000"
  shows "marked_until x (revoked_key f) (st_redis s') \<and> x \<le> t' + family_revocation_ttl cfg * 1000000"
  using assms by (induction rule: rtranclp_induct2) (auto dest!: auth_step_keeps_revoked)

text \<open>When the mark of a consumed token runs out; the division leaves out a fraction of a second.\<close>

definition used_until :: "time \<Rightarrow> decoded_token \<Rightarrow> time" where
  "used_until t d = t + max 1 ((dt_expires_at d - t) div 1000000) * 1000000"

lemma refresh_ok:
  assumes "auth_refresh cfg j env token s = (Inr pair, s1)" and "decode_refresh_token cfg j (now env) token = Inr d"
  shows "\<not> is_family_revoked (now env) (dt_family_id d) (st_redis s)" and "s1 = s\<lparr>st_redis := consumed env d (st_redis s)\<rparr>"
    and "\<exists>u. refresh_account d (st_db s) = Inr u" and "marked_until (used_until (now env) d) (used_key (dt_jti d)) (st_redis s1)"
    and "redis_get (now env) (used_key (dt_jti d)) (st_redis s) = None"
  using assms(1) unfolding auth_refresh_decoded [OF assms(2)]
  by (auto simp: Let_def refresh_consume_def redis_set_nx_def used_until_def marked_until_def redis_set_def split: if_splits sum.splits)

lemma refresh_marked:
  assumes "redis_get (now env) (used_key (dt_jti d)) (st_redis s) \<noteq> None" and "decode_refresh_token cfg j (now env) token = Inr d"
    and "0 < as_refresh_days cfg"
  shows "fst (auth_refresh cfg j env token s) = Inl invalid_token"
    and "is_family_revoked (now env) (dt_family_id d) (st_redis (snd (auth_refresh cfg j env token s)))"
  using assms(1,3) unfolding auth_refresh_decoded [OF assms(2)]
  by (auto simp: Let_def is_family_revoked_def revoke_family_def redis_gets family_revocation_ttl_def)

text \<open>
  C16. Refresh tokens rotate: a token that was exchanged is refused whenever it is presented again, and then its
  family is revoked, until its mark runs out. The mark counts whole seconds, so it runs out before the token when
  the token was not exchanged on a full second: in that fraction of a second the token is accepted once more.
\<close>

theorem refresh_token_once:
  assumes "0 < as_refresh_days cfg" and "auth_refresh cfg j env token s = (Inr pair, s1)"
    and "decode_refresh_token cfg j (now env) token = Inr d" and "auth_run cfg H (now env, s1) (t, s2)" and "t \<le> now env2"
    and "decode_refresh_token cfg j2 (now env2) token2 = Inr d2" and "dt_jti d2 = dt_jti d"
  shows "(now env2 < now env + max 1 ((dt_expires_at d - now env) div 1000000) * 1000000 \<longrightarrow>
      fst (auth_refresh cfg j2 env2 token2 s2) = Inl (Raised InvalidTokenError []) \<and>
      is_family_revoked (now env2) (dt_family_id d2) (st_redis (snd (auth_refresh cfg j2 env2 token2 s2)))) \<and>
    (now env + max 1 ((dt_expires_at d - now env) div 1000000) * 1000000 \<le> now env2 \<and>
      decode_refresh_token cfg j (now env2) token = Inr d \<longrightarrow>
      (\<exists>again. fst (auth_refresh cfg j env2 token s1) = Inr again))"
proof (intro conjI impI)
  note first = refresh_ok [OF assms(2,3)]
  {
    assume "now env2 < now env + max 1 ((dt_expires_at d - now env) div 1000000) * 1000000"
    then have "redis_get (now env2) (used_key (dt_jti d2)) (st_redis s2) \<noteq> None"
      using marked_until_get [OF run_keeps_used [OF assms(4) first(4)]] assms(7) by (simp add: used_until_def)
    from refresh_marked [OF this assms(6,1)]
    show "fst (auth_refresh cfg j2 env2 token2 s2) = Inl (Raised InvalidTokenError [])"
      and "is_family_revoked (now env2) (dt_family_id d2) (st_redis (snd (auth_refresh cfg j2 env2 token2 s2)))" .
  }
  assume late: "now env + max 1 ((dt_expires_at d - now env) div 1000000) * 1000000 \<le> now env2 \<and>
    decode_refresh_token cfg j (now env2) token = Inr d"
  obtain u where u: "refresh_account d (st_db s) = Inr u" using first(3) by blast
  have "now env \<le> now env2" using auth_run_follow [OF assms(4)] assms(5) by simp
  then have "\<not> is_family_revoked (now env2) (dt_family_id d) (st_redis s1)"
    using first(1,5) redis_get_expires by (simp add: first(2) is_family_revoked_def refresh_consume_def redis_set_nx_def redis_gets)
  moreover have "redis_get (now env2) (used_key (dt_jti d)) (st_redis s1) = None"
    using first(5) late by (simp add: first(2) refresh_consume_def redis_set_nx_def redis_gets)
  ultimately show "\<exists>again. fst (auth_refresh cfg j env2 token s1) = Inr again"
    using u late by (simp add: auth_refresh_decoded Let_def) (simp add: first(2))
qed

theorem refresh_token_once_witness:
  "\<exists>pair s1. auth_refresh demo_settings demo_jwt (demo_at 1500000) ''refresh'' demo_site = (Inr pair, s1) \<and>
     fst (auth_refresh demo_settings demo_jwt (demo_at 2000000) ''refresh'' s1) = Inl (Raised InvalidTokenError []) \<and>
     (\<exists>again. fst (auth_refresh demo_settings demo_jwt (demo_at 699600000) ''refresh'' s1) = Inr again)"
proof -
  obtain pair s1 where run: "auth_refresh demo_settings demo_jwt (demo_at 1500000) ''refresh'' demo_site = (Inr pair, s1)"
    by (rule demo_refresh)
  have "0 < as_refresh_days demo_settings" by (simp add: demo_settings_def)
  note once = refresh_token_once [OF this run, of demo_token demo_digest 1500000 s1 _ demo_jwt "''refresh''" demo_token]
  have e: "dt_expires_at demo_token = 700000000" by (simp add: demo_token_def)
  show ?thesis
    using run once [of "demo_at 2000000"] once [of "demo_at 699600000"] demo_decodes(1) e by auto
qed

section \<open>A revoked family is refused\<close>

text \<open>
  C23. Logging out ends a family of tokens for good: while any token of it issued before could still be valid, every
  refresh with a token of the family and every request with an access token of it is refused, whatever ran in
  between.
\<close>

theorem logout_ends_family:
  assumes "auth_logout cfg j env token s = (Inr (), s1)" and "decode_refresh_token cfg j (now env) token = Inr d"
    and "auth_run cfg H (now env, s1) (t, s2)" and "t \<le> now env2" and "now env2 < now env + as_refresh_days cfg * 86400 * 1000000"
    and "decode_refresh_token cfg j2 (now env2) token2 = Inr d2" and "dt_family_id d2 = dt_family_id d"
    and "decode_access_token cfg j3 (now env2) cookie = Inr d3" and "dt_family_id d3 = dt_family_id d"
  shows "auth_refresh cfg j2 env2 token2 s2 = (Inl (Raised InvalidTokenError []), s2) \<and>
    get_current_user cfg j3 (now env2) (Some cookie) s2 = Inl 401"
proof -
  have "s1 = s\<lparr>st_redis := revoke_family (now env) (dt_family_id d) (family_revocation_ttl cfg) (st_redis s)\<rparr>"
    using assms(1,2) by (simp add: auth_logout_def)
  then have "marked_until (now env + family_revocation_ttl cfg * 1000000) (revoked_key (dt_family_id d)) (st_redis s1)"
    by (simp add: revoke_family_def marked_until_set)
  then have "marked_until (now env + family_revocation_ttl cfg * 1000000) (revoked_key (dt_family_id d)) (st_redis s2)"
    using run_keeps_revoked [OF assms(3)] by simp
  from marked_until_get [OF this] have "is_family_revoked (now env2) (dt_family_id d) (st_redis s2)"
    using assms(5) by (simp add: is_family_revoked_def family_revocation_ttl_def)
  then show ?thesis using assms(6-9) by (simp add: auth_refresh_decoded get_current_user_def Let_def)
qed

theorem logout_ends_family_witness:
  "\<exists>s1. auth_logout demo_settings demo_jwt (demo_at 1500000) ''refresh'' demo_site = (Inr (), s1) \<and>
     get_current_user demo_settings demo_jwt 2000000 (Some ''access'') s1 = Inl 401"
proof -
  obtain s1 where run: "auth_logout demo_settings demo_jwt (demo_at 1500000) ''refresh'' demo_site = (Inr (), s1)"
    using demo_decodes(1) [of 1500000] by (auto simp: auth_logout_def)
  have "as_refresh_days demo_settings = 7" by (simp add: demo_settings_def)
  with logout_ends_family [OF run, of demo_token demo_digest 1500000 s1 "demo_at 2000000" demo_jwt "''refresh''" demo_token
      demo_jwt "''access''" demo_token] demo_decodes run
  show ?thesis by auto
qed

section \<open>A password reset ends the sessions of the account\<close>

lemma refresh_account_version:
  "refresh_account d db = Inr u \<Longrightarrow> lookup u_id (dt_user_id d) (users db) = Some u \<and> dt_token_version d = u_auth_version u"
  by (auto simp: refresh_account_def users_repo_get_by_id_def)

text \<open>
  C29. After a password reset no token issued to the account before is of use, neither to refresh nor as an access
  token, whatever ran in between: its version is smaller than the one of the account.
\<close>

theorem reset_ends_sessions:
  assumes "email_inv (users (st_db s))" and "auth_reset_password pw env token password s = (Inr (), s1)"
    and "fst (consume_action_token env password_reset_purpose token (st_redis s)) = Some i"
    and "lookup u_id i (users (st_db s)) = Some u" and "auth_run cfg H (now env, s1) (t, s2)"
    and "decode_refresh_token cfg j (now env2) token2 = Inr d" and "dt_user_id d = i" and "dt_token_version d \<le> u_auth_version u"
    and "decode_access_token cfg j (now env2) cookie = Inr d2" and "dt_user_id d2 = i" and "dt_token_version d2 \<le> u_auth_version u"
  shows "(\<exists>e. fst (auth_refresh cfg j env2 token2 s2) = Inl e) \<and>
    (get_current_user cfg j (now env2) (Some cookie) s2 = Inl 401 \<or> get_current_user cfg j (now env2) (Some cookie) s2 = Inl 403)"
proof -
  obtain r where c: "consume_action_token env password_reset_purpose token (st_redis s) = (Some i, r)"
    using assms(3) by (metis fst_conv surj_pair)
  have u: "u \<in> set (users (st_db s))" "u_id u = i" "lookup u_id (u_id u) (users (st_db s)) = Some u"
    using lookup_SomeD [OF assms(4)] assms(4) by simp_all
  have account: "action_account (Some i) (st_db s) = Inr u"
    using assms(2,4) by (auto simp: auth_reset_password_def c Let_def action_account_def users_repo_get_by_id_def split: sum.splits)
  have s1: "users (st_db s1) = store u_id (write_user env u (u\<lparr>u_password_hash := pw_hash pw password, u_auth_version := u_auth_version u + 1\<rparr>) u)
      (users (st_db s))"
    using assms(2) account u(3) by (auto simp: auth_reset_password_def c Let_def users_repo_update_password_def save_user_Inr split: sum.splits)
  let ?v = "write_user env u (u\<lparr>u_password_hash := pw_hash pw password, u_auth_version := u_auth_version u + 1\<rparr>) u"
  have v: "u_id ?v = i" "u_auth_version ?v = u_auth_version u + 1" using u(2) by (auto simp: write_user_def dest: arg_cong [where f = u_auth_version])
  have "?v \<in> set (users (st_db s1))" using s1 v(1) imageI [OF u(1), of u_id] u(2) by (simp add: set_store)
  moreover have inv: "email_inv (users (st_db s1))" using reset_follow [of s pw env token password] assms(1,2) by (simp add: accounts_follow_def)
  ultimately obtain w where w: "w \<in> set (users (st_db s2))" "u_id w = i" "u_auth_version u < u_auth_version w"
    using auth_run_follow [OF assms(5)] v unfolding accounts_follow_def by (metis zless_add1_eq order.strict_iff_order order.trans zle_add1_eq_le)
  have "email_inv (users (st_db s2))" using auth_run_follow [OF assms(5)] inv by (simp add: accounts_follow_def)
  then have look: "lookup u_id i (users (st_db s2)) = Some w" using w by (simp add: lookup_distinct email_inv_def)
  have "\<nexists>x. refresh_account d (st_db s2) = Inr x" using refresh_account_version look w(3) assms(7,8) by fastforce
  then have "\<exists>e. fst (auth_refresh cfg j env2 token2 s2) = Inl e"
    by (cases "refresh_account d (st_db s2)") (auto simp: auth_refresh_decoded [OF assms(6)] Let_def)
  moreover have "get_current_user cfg j (now env2) (Some cookie) s2 \<in> {Inl 401, Inl 403}"
    using look w(3) assms(9-11) by (auto simp: get_current_user_def users_repo_get_by_id_def bindE_def ensure_def)
  ultimately show ?thesis by auto
qed

definition demo_reset_site :: site where
  "demo_reset_site = demo_site\<lparr>st_redis := issue_action_token (demo_at 1000000) ''secret'' password_reset_purpose 1 900 Map.empty\<rparr>"

definition demo_password :: password_hash where
  "demo_password = \<lparr>pw_hash = (\<lambda>p. p), pw_verify = (\<lambda>p h. p = h)\<rparr>"

theorem reset_ends_sessions_witness:
  "\<exists>s1. auth_reset_password demo_password (demo_at 1500000) ''secret'' ''new password'' demo_reset_site = (Inr (), s1) \<and>
     (\<exists>e. fst (auth_refresh demo_settings demo_jwt (demo_at 2000000) ''refresh'' s1) = Inl e)"
proof -
  have c: "fst (consume_action_token (demo_at 1500000) password_reset_purpose ''secret'' (st_redis demo_reset_site)) = Some 1"
    by (simp add: consume_action_token_def demo_reset_site_def issue_action_token_def redis_gets key_defs Let_def demo_env_def
        uuid_roundtrip redis_get_def [of _ _ Map.empty])
  have u: "lookup u_id 1 (users (st_db demo_reset_site)) = Some ada" by (simp add: demo_reset_site_def ada_def)
  obtain r where r: "consume_action_token (demo_at 1500000) password_reset_purpose ''secret'' (st_redis demo_reset_site) = (Some 1, r)"
    using c by (metis fst_conv surj_pair)
  have "\<exists>s1. auth_reset_password demo_password (demo_at 1500000) ''secret'' ''new password'' demo_reset_site = (Inr (), s1)"
    using u by (auto simp: auth_reset_password_def r Let_def action_account_def users_repo_get_by_id_def users_repo_update_password_def
        save_user_def flush_update_def ada_def split: prod.split)
  then obtain s1 where run: "auth_reset_password demo_password (demo_at 1500000) ''secret'' ''new password'' demo_reset_site = (Inr (), s1)" ..
  have inv: "email_inv (users (st_db demo_reset_site))" using demo_email_inv by (simp add: demo_reset_site_def)
  have d: "dt_user_id demo_token = 1" "dt_token_version demo_token \<le> u_auth_version ada" by (simp_all add: demo_token_def ada_def)
  have "\<exists>e. fst (auth_refresh demo_settings demo_jwt (demo_at 2000000) ''refresh'' s1) = Inl e"
    using reset_ends_sessions [OF inv run c u, of demo_settings demo_digest 1500000 s1 demo_jwt "demo_at 2000000" "''refresh''" demo_token
        "''access''" demo_token] demo_decodes [of 2000000] d by simp
  with run show ?thesis by blast
qed

section \<open>Signing in with Google\<close>

text \<open>
  C35. Who signs in with Google under an address that is registered already is signed in to that account, verified
  or not, and the account keeps its password: whoever registered the address before, without owning it, can
  log in with the password chosen then.
\<close>

theorem google_sign_in_keeps_password:
  assumes "email_inv (users (st_db s))" and "get_linked_user (gp_subject profile) s = None"
    and "users_repo_get_by_email (gp_email profile) (st_db s) = Some v" and "u_is_active v"
    and "link_account env (fresh env 0) (u_id v) profile (st_accounts s) = Inr as"
    and "pw_verify pw password (u_password_hash v)"
  shows "\<exists>u s'. authenticate_google pw env secret profile s = (Inr u, s') \<and> u_id u = u_id v \<and> st_accounts s' = as \<and>
    (\<exists>tokens. auth_login cfg j pw env' (u_email v) password (st_db s') = Inr (u, tokens))"
proof -
  let ?u = "adopt_profile env profile v"
  let ?s = "s\<lparr>st_db := (st_db s)\<lparr>users := store u_id ?u (users (st_db s))\<rparr>, st_accounts := as\<rparr>"
  have run: "authenticate_google pw env secret profile s = (Inr ?u, ?s)"
    using assms(2-5) by (simp add: authenticate_google_def google_sign_up_def Let_def)
  have v: "v \<in> set (users (st_db s))" by (rule get_by_email_mem [OF assms(3)])
  have "accounts_follow (users (st_db s)) (users (st_db ?s))"
    using v accounts_follow_store [of "u_id v" "users (st_db s)" v ?u] by simp
  then have inv: "email_inv (users (st_db ?s))" using assms(1) by (simp add: accounts_follow_def)
  have "?u \<in> set (users (st_db ?s))" using imageI [OF v, of u_id] by (simp add: set_store)
  moreover have "lower (u_email v) = u_email v" using assms(1) v by (simp add: email_inv_def)
  ultimately have "users_repo_get_by_email (lower (u_email v)) (st_db ?s) = Some ?u"
    using get_by_email_iff [OF inv refl, of "lower (u_email v)" ?u] by simp
  then have "auth_login cfg j pw env' (u_email v) password (st_db ?s) =
      Inr (?u, create_token_pair cfg j env' (u_id ?u) None (u_auth_version ?u))"
    using assms(4,6) by (simp add: auth_login_def)
  with run show ?thesis by auto
qed

definition demo_profile :: google_profile where
  "demo_profile = \<lparr>gp_subject = ''g1'', gp_email = ''bob'', gp_display_name = ''Bob'', gp_avatar_url = None\<rparr>"

theorem google_sign_in_keeps_password_witness:
  "\<exists>u s'. authenticate_google demo_password (demo_at 1000000) ''random'' demo_profile demo_site = (Inr u, s') \<and>
     (\<exists>tokens. auth_login demo_settings demo_jwt demo_password (demo_at 2000000) ''bob'' ''h2'' (st_db s') = Inr (u, tokens))"
proof -
  have inv: "email_inv (users (st_db demo_site))" using demo_email_inv by simp
  have "lower ''bob'' = ''bob''" by code_simp
  then have known: "users_repo_get_by_email (gp_email demo_profile) (st_db demo_site) = Some bob"
    using get_by_email_iff [OF inv refl] by (simp add: demo_profile_def bob_def)
  have free: "get_linked_user (gp_subject demo_profile) demo_site = None" by (simp add: get_linked_user_def)
  obtain as where link: "link_account (demo_at 1000000) (fresh (demo_at 1000000) 0) (u_id bob) demo_profile (st_accounts demo_site) = Inr as"
    by (auto simp: link_account_def)
  have b: "u_is_active bob" "pw_verify demo_password ''h2'' (u_password_hash bob)" "u_email bob = ''bob''"
    by (simp_all add: bob_def demo_password_def)
  from google_sign_in_keeps_password [OF inv free known b(1) link b(2), where secret = "''random''" and cfg = demo_settings and j = demo_jwt
      and env' = "demo_at 2000000"]
  show ?thesis unfolding b(3) by blast
qed

end
