(* ===== verification/Answers.thy ===== *)
theory Answers imports Workspaces Decisions Proposals Objections Locks Action_Reviews Attachments Notifications Google_OAuth Integrations Demo begin

text \<open>
  What the controllers of \<open>app/controllers\<close> make of the exceptions of the services: a status code with a text,
  or the exception goes on and the server answers 500.
\<close>

section \<open>The controllers\<close>

definition workspace_error :: "error \<Rightarrow> (nat \<times> string) option" where
  "workspace_error e =
     (if e = WorkspaceNotFoundError then Some (404, ''Workspace not found'')
      else if e = WorkspaceMemberNotFoundError then Some (404, ''Workspace member not found'')
      else if e = WorkspaceMemberAlreadyExistsError then Some (409, ''User is already a workspace member'')
      else if e = WorkspaceOwnerImmutableError then Some (409, ''The workspace owner cannot be removed or assigned another role'')
      else if e = WorkspaceAccessDeniedError then Some (403, ''You do not have permission to perform this workspace action'')
      else None)"

definition decision_error :: "error \<Rightarrow> (nat \<times> string) option" where
  "decision_error e =
     (if e = WorkspaceNotFoundError then Some (404, ''Workspace not found'')
      else if e = DecisionNotFoundError then Some (404, ''Decision not found'')
      else if e = DecisionAccessDeniedError then Some (403, ''You do not have permission to perform this decision action'')
      else if e = DecisionInvalidTransitionError then Some (409, ''The requested decision state or schedule is invalid'')
      else if e = DecisionImmutableError then Some (409, ''Closed, locked, or archived decisions cannot be changed'')
      else None)"

definition proposal_error :: "error \<Rightarrow> (nat \<times> string) option" where
  "proposal_error e =
     (if e = WorkspaceNotFoundError then Some (404, ''Workspace not found'')
      else if e = DecisionNotFoundError then Some (404, ''Decision not found'')
      else if e = ProposalNotFoundError then Some (404, ''Proposal not found'')
      else if e = CriterionNotFoundError then Some (404, ''Comparison criterion not found'')
      else if e \<in> {ProposalAccessDeniedError, CriterionAccessDeniedError} then Some (403, ''You do not have permission to perform this proposal action'')
      else if e \<in> {ProposalImmutableError, DecisionImmutableError} then Some (409, ''The proposal or its parent decision cannot be changed'')
      else if e \<in> {ProposalInvalidTransitionError, CriterionConflictError} then Some (409, ''The requested proposal state or criterion order is invalid'')
      else None)"

definition objection_error :: "error \<Rightarrow> (nat \<times> string) option" where
  "objection_error e =
     (if e = WorkspaceNotFoundError then Some (404, ''Workspace not found'')
      else if e = DecisionNotFoundError then Some (404, ''Decision not found'')
      else if e = ProposalNotFoundError then Some (404, ''Proposal not found'')
      else if e = ObjectionNotFoundError then Some (404, ''Objection not found'')
      else if e = ObjectionAccessDeniedError then Some (403, ''You do not have permission to perform this objection action'')
      else if e \<in> {ObjectionImmutableError, ProposalImmutableError, DecisionImmutableError} then Some (409, ''The objection, proposal, or decision cannot be changed'')
      else if e = ObjectionInvalidTransitionError then Some (409, ''The requested objection status transition is invalid'')
      else None)"

definition voting_error :: "error \<Rightarrow> (nat \<times> string) option" where
  "voting_error e =
     (if e = WorkspaceNotFoundError then Some (404, ''Workspace not found'')
      else if e = DecisionNotFoundError then Some (404, ''Decision not found'')
      else if e = VotingSessionNotFoundError then Some (404, ''Voting session not found'')
      else if e = ProposalNotFoundError then Some (404, ''Proposal is not an option in this voting session'')
      else if e = VotingAccessDeniedError then Some (403, ''You do not have permission to perform this voting action'')
      else if e = VotingBlockedByObjectionsError then Some (409, ''Resolve every blocking objection before opening voting'')
      else if e = VoteAlreadyCastError then Some (409, ''You have already voted in this session'')
      else if e = VotingResultUnavailableError then Some (409, ''Voting results are available only after the session closes'')
      else if e = VotingClosedError then Some (409, ''The voting session is not accepting ballots'')
      else if e \<in> {VotingConflictError, VotingInvalidTransitionError, DecisionImmutableError} then Some (409, ''The requested voting session state is invalid'')
      else None)"

definition decision_lock_error :: "error \<Rightarrow> (nat \<times> string) option" where
  "decision_lock_error e =
     (if e = WorkspaceNotFoundError then Some (404, ''Workspace not found'')
      else if e = DecisionNotFoundError then Some (404, ''Decision not found'')
      else if e = DecisionLockNotFoundError then Some (404, ''Decision lock not found'')
      else if e = VotingSessionNotFoundError then Some (404, ''Voting session not found'')
      else if e = ProposalNotFoundError then Some (404, ''Winning proposal not found'')
      else if e = DecisionLockAccessDeniedError then Some (403, ''Only workspace owners and admins can lock decisions'')
      else if e = VotingBlockedByObjectionsError then Some (409, ''Resolve every blocking objection before locking the decision'')
      else if e = VotingResultUnavailableError then Some (409, ''Close the voting session before locking the decision'')
      else if e \<in> {DecisionImmutableError, DecisionLockConflictError, DecisionLockInvalidResultError} then Some (409, ''The decision cannot be locked from this voting result'')
      else None)"

definition action_review_error :: "error \<Rightarrow> (nat \<times> string) option" where
  "action_review_error e =
     (if e = WorkspaceNotFoundError then Some (404, ''Workspace not found'')
      else if e = DecisionNotFoundError then Some (404, ''Decision not found'')
      else if e = ActionNotFoundError then Some (404, ''Implementation action not found'')
      else if e = ReviewNotFoundError then Some (404, ''Decision review not found'')
      else if e = DecisionRevisionNotFoundError then Some (404, ''Decision revision not found'')
      else if e \<in> {ActionAccessDeniedError, ReviewAccessDeniedError} then Some (403, ''You do not have permission to perform this operation'')
      else if e = ActionAssigneeInvalidError then Some (422, ''The assignee must be an eligible workspace participant'')
      else if e = DecisionImmutableError then Some (409, ''Implementation actions and reviews require a locked decision'')
      else if e = ActionInvalidTransitionError then Some (409, ''The implementation action transition is invalid'')
      else if e = ReviewConflictError then Some (409, ''The decision already has a scheduled review'')
      else if e = ReviewInvalidScheduleError then Some (409, ''The decision review schedule or state is invalid'')
      else if e = ReviewNotDueError then Some (409, ''The decision review is not due yet'')
      else if e = ReviewOutcomeInvalidError then Some (409, ''The decision review outcome cannot be applied'')
      else None)"

definition attachment_error :: "error \<Rightarrow> (nat \<times> string) option" where
  "attachment_error e =
     (if e \<in> {WorkspaceNotFoundError, AttachmentNotFoundError} then Some (404, ''Workspace or attachment not found'')
      else if e = AttachmentAccessDeniedError then Some (403, ''You do not have permission to perform this attachment action'')
      else if e = AttachmentTooLargeError then Some (413, ''Attachment exceeds the configured size limit'')
      else if e = AttachmentInvalidTargetError then Some (422, ''Attachment target is invalid or outside this workspace'')
      else if e = AttachmentInvalidStateError then Some (409, ''Attachment is not in the required lifecycle state'')
      else None)"

definition notification_error :: "error \<Rightarrow> (nat \<times> string) option" where
  "notification_error e =
     (if e = NotificationNotFoundError then Some (404, ''Notification not found'')
      else None)"

definition google_oauth_error :: "error \<Rightarrow> (nat \<times> string) option" where
  "google_oauth_error e =
     (if e = GoogleOAuthNotConfiguredError then Some (503, ''Google sign-in is not configured'')
      else if e = GoogleOAuthStateInvalidError then Some (400, ''Invalid or expired Google sign-in state'')
      else if e = InactiveAccountError then Some (403, ''This account is inactive'')
      else if e = GoogleOAuthAccountConflictError then Some (409, ''This Google account cannot be linked to the existing account'')
      else if e = GoogleOAuthProfileInvalidError then Some (400, ''Google did not return a usable verified profile'')
      else if e = GoogleOAuthProviderError then Some (502, ''Google sign-in could not be completed'')
      else None)"

text \<open>The integrations pass the text of some exceptions on.\<close>

definition integration_error :: "failure \<Rightarrow> (nat \<times> string) option" where
  "integration_error failure =
     (case failure of
        Foreign name text \<Rightarrow> None
      | Raised e text \<Rightarrow>
          if e = WorkspaceNotFoundError then Some (404, ''Workspace not found'')
          else if e = IntegrationNotFoundError then Some (404, ''Integration connection not found'')
          else if e = IntegrationAccessDeniedError then Some (403, ''Only workspace owners and admins can manage integrations'')
          else if e = IntegrationProviderUnavailableError then Some (503, ''Integration provider is not configured'')
          else if e = IntegrationConfigurationError then Some (409, text)
          else if e = IntegrationProviderError then Some (502, text)
          else None)"

text \<open>Each request of \<open>app/controllers/auth.py\<close> has a table of its own.\<close>

definition register_error :: "error \<Rightarrow> (nat \<times> string) option" where
  "register_error e =
     (if e = EmailAlreadyRegisteredError then Some (409, ''An account with this email already exists'') else None)"

definition login_error :: "error \<Rightarrow> (nat \<times> string) option" where
  "login_error e =
     (if e = InvalidCredentialsError then Some (401, ''Invalid email or password'')
      else if e = InactiveAccountError then Some (403, ''This account is inactive'')
      else if e = EmailNotVerifiedError then Some (403, ''Verify your email before logging in'')
      else None)"

definition refresh_error :: "error \<Rightarrow> (nat \<times> string) option" where
  "refresh_error e =
     (if e = InvalidTokenError then Some (401, ''Invalid, expired, or already used refresh token'')
      else if e = InactiveAccountError then Some (403, ''This account is inactive'')
      else None)"

definition logout_error :: "error \<Rightarrow> (nat \<times> string) option" where
  "logout_error e = (if e = InvalidTokenError then Some (401, ''Invalid or expired refresh token'') else None)"

definition verify_email_error :: "error \<Rightarrow> (nat \<times> string) option" where
  "verify_email_error e =
     (if e = InvalidActionTokenError then Some (400, ''Invalid or expired email verification token'')
      else if e = InactiveAccountError then Some (403, ''This account is inactive'')
      else None)"

definition reset_password_error :: "error \<Rightarrow> (nat \<times> string) option" where
  "reset_password_error e =
     (if e = InvalidActionTokenError then Some (400, ''Invalid or expired password reset token'')
      else if e = InactiveAccountError then Some (403, ''This account is inactive'')
      else None)"

datatype controller =
    Workspace_Controller
  | Decision_Controller
  | Proposal_Controller
  | Objection_Controller
  | Voting_Controller
  | Decision_Lock_Controller
  | Action_Review_Controller
  | Attachment_Controller
  | Notification_Controller

fun error_answer :: "controller \<Rightarrow> error \<Rightarrow> (nat \<times> string) option" where
  "error_answer Workspace_Controller e = workspace_error e"
| "error_answer Decision_Controller e = decision_error e"
| "error_answer Proposal_Controller e = proposal_error e"
| "error_answer Objection_Controller e = objection_error e"
| "error_answer Voting_Controller e = voting_error e"
| "error_answer Decision_Lock_Controller e = decision_lock_error e"
| "error_answer Action_Review_Controller e = action_review_error e"
| "error_answer Attachment_Controller e = attachment_error e"
| "error_answer Notification_Controller e = notification_error e"

datatype 'a answer = Answer 'a | Refused nat string | Escaped error

text \<open>\<open>execute_..._action\<close> of the controllers\<close>

definition execute_action :: "controller \<Rightarrow> error + 'a \<Rightarrow> 'a answer" where
  "execute_action c r =
     (case r of
        Inr x \<Rightarrow> Answer x
      | Inl e \<Rightarrow> (case error_answer c e of Some (status, detail) \<Rightarrow> Refused status detail | None \<Rightarrow> Escaped e))"

section \<open>The requests\<close>

text \<open>\<open>create_workspace\<close> calls its service without a handler; every other request that can fail has one.\<close>

text \<open>\<open>request_escapes c e\<close>: some request of controller \<open>c\<close>, in some state, lets the exception \<open>e\<close> escape.\<close>

inductive request_escapes :: "controller \<Rightarrow> error \<Rightarrow> bool" where
  workspace_create: "workspace_create env me payload db = Inl e \<Longrightarrow> request_escapes Workspace_Controller e"
| workspace_get: "execute_action Workspace_Controller (workspace_get me w db) = Escaped e \<Longrightarrow> request_escapes Workspace_Controller e"
| workspace_update: "execute_action Workspace_Controller (workspace_update env me w payload db) = Escaped e \<Longrightarrow> request_escapes Workspace_Controller e"
| workspace_delete: "execute_action Workspace_Controller (workspace_delete me w db) = Escaped e \<Longrightarrow> request_escapes Workspace_Controller e"
| workspace_list_members: "execute_action Workspace_Controller (workspace_list_members me w db) = Escaped e \<Longrightarrow> request_escapes Workspace_Controller e"
| workspace_add_member: "execute_action Workspace_Controller (workspace_add_member env me w email role db) = Escaped e \<Longrightarrow> request_escapes Workspace_Controller e"
| workspace_update_member_role: "execute_action Workspace_Controller (workspace_update_member_role me w member role db) = Escaped e \<Longrightarrow> request_escapes Workspace_Controller e"
| workspace_remove_member: "execute_action Workspace_Controller (workspace_remove_member me w member db) = Escaped e \<Longrightarrow> request_escapes Workspace_Controller e"
| decision_create: "execute_action Decision_Controller (decision_create env me w payload db) = Escaped e \<Longrightarrow> request_escapes Decision_Controller e"
| decision_list: "execute_action Decision_Controller (decision_list me w status category limit offset db) = Escaped e \<Longrightarrow> request_escapes Decision_Controller e"
| decision_get: "execute_action Decision_Controller (decision_get me w i db) = Escaped e \<Longrightarrow> request_escapes Decision_Controller e"
| decision_update: "execute_action Decision_Controller (decision_update env me w i payload db) = Escaped e \<Longrightarrow> request_escapes Decision_Controller e"
| decision_transition: "execute_action Decision_Controller (decision_transition env me w i target db) = Escaped e \<Longrightarrow> request_escapes Decision_Controller e"
| decision_delete: "execute_action Decision_Controller (decision_delete me w i db) = Escaped e \<Longrightarrow> request_escapes Decision_Controller e"
| proposal_create: "execute_action Proposal_Controller (proposal_create env me w d payload db) = Escaped e \<Longrightarrow> request_escapes Proposal_Controller e"
| proposal_list: "execute_action Proposal_Controller (proposal_list me w d status db) = Escaped e \<Longrightarrow> request_escapes Proposal_Controller e"
| proposal_get: "execute_action Proposal_Controller (proposal_get me w d i db) = Escaped e \<Longrightarrow> request_escapes Proposal_Controller e"
| proposal_update: "execute_action Proposal_Controller (proposal_update env me w d i payload db) = Escaped e \<Longrightarrow> request_escapes Proposal_Controller e"
| proposal_transition: "execute_action Proposal_Controller (proposal_transition env me w d i target db) = Escaped e \<Longrightarrow> request_escapes Proposal_Controller e"
| proposal_delete: "execute_action Proposal_Controller (proposal_delete me w d i db) = Escaped e \<Longrightarrow> request_escapes Proposal_Controller e"
| criterion_create: "execute_action Proposal_Controller (criterion_create env me w d payload db) = Escaped e \<Longrightarrow> request_escapes Proposal_Controller e"
| criterion_list: "execute_action Proposal_Controller (criterion_list me w d db) = Escaped e \<Longrightarrow> request_escapes Proposal_Controller e"
| criterion_update: "execute_action Proposal_Controller (criterion_update env me w d i payload db) = Escaped e \<Longrightarrow> request_escapes Proposal_Controller e"
| criterion_reorder: "execute_action Proposal_Controller (criterion_reorder env me w d ids db) = Escaped e \<Longrightarrow> request_escapes Proposal_Controller e"
| criterion_delete: "execute_action Proposal_Controller (criterion_delete me w d i db) = Escaped e \<Longrightarrow> request_escapes Proposal_Controller e"
| score_upsert: "execute_action Proposal_Controller (score_upsert env me w d pid cid payload db) = Escaped e \<Longrightarrow> request_escapes Proposal_Controller e"
| proposal_compare: "execute_action Proposal_Controller (proposal_compare me w d db) = Escaped e \<Longrightarrow> request_escapes Proposal_Controller e"
| objection_create: "execute_action Objection_Controller (objection_create env me w d p payload db) = Escaped e \<Longrightarrow> request_escapes Objection_Controller e"
| objection_list: "execute_action Objection_Controller (objection_list me w d p severity status db) = Escaped e \<Longrightarrow> request_escapes Objection_Controller e"
| objection_get: "execute_action Objection_Controller (objection_get me w d p i db) = Escaped e \<Longrightarrow> request_escapes Objection_Controller e"
| objection_update: "execute_action Objection_Controller (objection_update env me w d p i payload db) = Escaped e \<Longrightarrow> request_escapes Objection_Controller e"
| objection_transition: "execute_action Objection_Controller (objection_transition env me w d p i target note db) = Escaped e \<Longrightarrow> request_escapes Objection_Controller e"
| objection_list_history: "execute_action Objection_Controller (objection_list_history me w d p i db) = Escaped e \<Longrightarrow> request_escapes Objection_Controller e"
| voting_create_session: "execute_action Voting_Controller (voting_create_session env me w d payload db) = Escaped e \<Longrightarrow> request_escapes Voting_Controller e"
| voting_list_sessions: "execute_action Voting_Controller (voting_list_sessions me w d db) = Escaped e \<Longrightarrow> request_escapes Voting_Controller e"
| voting_get_session: "execute_action Voting_Controller (voting_get_session me w d i db) = Escaped e \<Longrightarrow> request_escapes Voting_Controller e"
| voting_open_session: "execute_action Voting_Controller (voting_open_session env me w d i db) = Escaped e \<Longrightarrow> request_escapes Voting_Controller e"
| voting_cast_vote: "execute_action Voting_Controller (voting_cast_vote env me w d i prop db) = Escaped e \<Longrightarrow> request_escapes Voting_Controller e"
| voting_close_session: "execute_action Voting_Controller (voting_close_session env me w d i db) = Escaped e \<Longrightarrow> request_escapes Voting_Controller e"
| voting_cancel_session: "execute_action Voting_Controller (voting_cancel_session env me w d i db) = Escaped e \<Longrightarrow> request_escapes Voting_Controller e"
| voting_get_result: "execute_action Voting_Controller (voting_get_result me w d i db) = Escaped e \<Longrightarrow> request_escapes Voting_Controller e"
| lock_create: "execute_action Decision_Lock_Controller (lock_create env me w d session_id db) = Escaped e \<Longrightarrow> request_escapes Decision_Lock_Controller e"
| lock_get: "execute_action Decision_Lock_Controller (lock_get me w d db) = Escaped e \<Longrightarrow> request_escapes Decision_Lock_Controller e"
| lock_verify: "execute_action Decision_Lock_Controller (lock_verify env me w d db) = Escaped e \<Longrightarrow> request_escapes Decision_Lock_Controller e"
| action_create: "execute_action Action_Review_Controller (action_create env me w d payload db) = Escaped e \<Longrightarrow> request_escapes Action_Review_Controller e"
| action_list: "execute_action Action_Review_Controller (action_list me w d status assignee db) = Escaped e \<Longrightarrow> request_escapes Action_Review_Controller e"
| action_get: "execute_action Action_Review_Controller (action_get me w d i db) = Escaped e \<Longrightarrow> request_escapes Action_Review_Controller e"
| action_update: "execute_action Action_Review_Controller (action_update env me w d i payload db) = Escaped e \<Longrightarrow> request_escapes Action_Review_Controller e"
| action_transition: "execute_action Action_Review_Controller (action_transition env me w d i target db) = Escaped e \<Longrightarrow> request_escapes Action_Review_Controller e"
| review_create: "execute_action Action_Review_Controller (review_create env me w d payload db) = Escaped e \<Longrightarrow> request_escapes Action_Review_Controller e"
| review_list: "execute_action Action_Review_Controller (review_list me w d db) = Escaped e \<Longrightarrow> request_escapes Action_Review_Controller e"
| review_get: "execute_action Action_Review_Controller (review_get me w d i db) = Escaped e \<Longrightarrow> request_escapes Action_Review_Controller e"
| review_update: "execute_action Action_Review_Controller (review_update env me w d i payload db) = Escaped e \<Longrightarrow> request_escapes Action_Review_Controller e"
| review_cancel: "execute_action Action_Review_Controller (review_cancel env me w d i db) = Escaped e \<Longrightarrow> request_escapes Action_Review_Controller e"
| review_complete: "execute_action Action_Review_Controller (review_complete env me w d i payload db) = Escaped e \<Longrightarrow> request_escapes Action_Review_Controller e"
| revision_list: "execute_action Action_Review_Controller (revision_list me w d db) = Escaped e \<Longrightarrow> request_escapes Action_Review_Controller e"
| revision_get: "execute_action Action_Review_Controller (revision_get me w d i db) = Escaped e \<Longrightarrow> request_escapes Action_Review_Controller e"
| attachment_create_upload: "execute_action Attachment_Controller (attachment_create_upload cfg oc env me w payload db) = Escaped e \<Longrightarrow> request_escapes Attachment_Controller e"
| attachment_complete_upload: "execute_action Attachment_Controller (fst (attachment_complete_upload accepts env me w i db)) = Escaped e \<Longrightarrow> request_escapes Attachment_Controller e"
| attachment_list: "execute_action Attachment_Controller (attachment_list me w decision_id proposal_id db) = Escaped e \<Longrightarrow> request_escapes Attachment_Controller e"
| attachment_get: "execute_action Attachment_Controller (attachment_get me w i db) = Escaped e \<Longrightarrow> request_escapes Attachment_Controller e"
| attachment_download: "execute_action Attachment_Controller (attachment_download cfg oc env me w i db) = Escaped e \<Longrightarrow> request_escapes Attachment_Controller e"
| attachment_delete: "execute_action Attachment_Controller (attachment_delete oc env me w i db) = Escaped e \<Longrightarrow> request_escapes Attachment_Controller e"
| notification_get: "execute_action Notification_Controller (notification_get me i db) = Escaped e \<Longrightarrow> request_escapes Notification_Controller e"
| notification_mark_read: "execute_action Notification_Controller (notification_mark_read env me i db) = Escaped e \<Longrightarrow> request_escapes Notification_Controller e"

section \<open>Which exceptions an operation raises\<close>

definition raises_in :: "error set \<Rightarrow> error + 'a \<Rightarrow> bool" where
  "raises_in S r \<longleftrightarrow> (\<forall>e. r = Inl e \<longrightarrow> e \<in> S)"

named_theorems raises \<open>how exceptions come about\<close>

lemma raises_Inr [raises]: "raises_in S (Inr x)"
  by (simp add: raises_in_def)

lemma raises_Inl [raises]: "e \<in> S \<Longrightarrow> raises_in S (Inl e)"
  by (simp add: raises_in_def)

lemma raises_bindE [raises]: "raises_in S x \<Longrightarrow> (\<And>a. raises_in S (f a)) \<Longrightarrow> raises_in S (bindE x f)"
  by (auto simp: raises_in_def bindE_Inl_iff)

lemma raises_ensure [raises]: "e \<in> S \<Longrightarrow> raises_in S (ensure b e)"
  by (simp add: raises_in_def)

lemma raises_require [raises]: "e \<in> S \<Longrightarrow> raises_in S (require x e)"
  by (simp add: raises_in_def)

lemma raises_if [raises]: "raises_in S x \<Longrightarrow> raises_in S y \<Longrightarrow> raises_in S (if b then x else y)"
  by simp

lemma raises_option [raises]:
  "raises_in S x \<Longrightarrow> (\<And>a. raises_in S (f a)) \<Longrightarrow> raises_in S (case y of None \<Rightarrow> x | Some a \<Rightarrow> f a)"
  by (simp split: option.split)

lemma raises_prod [raises]: "(\<And>a b. raises_in S (f a b)) \<Longrightarrow> raises_in S (case p of (a, b) \<Rightarrow> f a b)"
  by (simp split: prod.split)

lemma raises_prod_app [raises]:
  "(\<And>a b. raises_in S (f a b y)) \<Longrightarrow> raises_in S ((case p of (a, b) \<Rightarrow> f a b) y)"
  by (simp split: prod.split)

lemma raises_sum [raises]:
  "(\<And>e. raises_in S (g e)) \<Longrightarrow> (\<And>a. raises_in S (f a)) \<Longrightarrow> raises_in S (case r of Inl e \<Rightarrow> g e | Inr a \<Rightarrow> f a)"
  by (simp split: sum.split)

lemma raises_list [raises]:
  "raises_in S x \<Longrightarrow> (\<And>a as. raises_in S (f a as)) \<Longrightarrow> raises_in S (case l of [] \<Rightarrow> x | a # as \<Rightarrow> f a as)"
  by (simp split: list.split)

lemma raises_flush_insert [raises]: "IntegrityError \<in> S \<Longrightarrow> raises_in S (flush_insert key ok r rs)"
  by (simp add: raises_in_def)

lemma raises_flush_update [raises]:
  "IntegrityError \<in> S \<Longrightarrow> StaleDataError \<in> S \<Longrightarrow> raises_in S (flush_update key ok i f rs)"
  unfolding flush_update_def by (intro raises)

lemma raises_new_schedule [raises]:
  "ReviewInvalidScheduleError \<in> S \<Longrightarrow> raises_in S (new_schedule env s)"
  by (cases "(env, s)" rule: new_schedule.cases) (auto simp: raises_in_def require_future_review_def)

lemma raises_on_integrity_error [raises]: "raises_in S r \<Longrightarrow> e \<in> S \<Longrightarrow> raises_in S (on_integrity_error e r)"
  by (auto simp: raises_in_def on_integrity_error_def split: sum.splits error.splits)

lemma raises_emitter_stage [raises]: "IntegrityError \<in> S \<Longrightarrow> raises_in S (emitter_stage env i w ty source payload db)"
  unfolding emitter_stage_def stage_outbox_event_def Let_def by (intro raises)

lemma raises_with_event [raises]:
  "(\<And>db. raises_in S (stage db)) \<Longrightarrow> (\<And>db. raises_in S (commit db)) \<Longrightarrow> raises_in S (with_event b stage commit db)"
  unfolding with_event_def by (intro raises)

lemma raises_flush_positions [raises]:
  "IntegrityError \<in> S \<Longrightarrow> StaleDataError \<in> S \<Longrightarrow> raises_in S (flush_positions env k rows cs)"
  by (induction rows arbitrary: k cs) (auto intro!: raises)

lemma raises_alternatives [raises]: "ProposalNotFoundError \<in> S \<Longrightarrow> raises_in S (alternatives d win ts db)"
  by (induction ts) (auto intro!: raises)

definition database_errors :: "error set" where
  "database_errors = {IntegrityError, StaleDataError, DataError}"

text \<open>What the clients of the object storage and of the task queue raise in the requests about attachments.\<close>

fun outside_errors :: "controller \<Rightarrow> error set" where
  "outside_errors c = (if c = Attachment_Controller then {StorageError, BrokerError} else {})"

definition expected :: "controller \<Rightarrow> error set" where
  "expected c = {e. error_answer c e \<noteq> None} \<union> database_errors \<union> outside_errors c"

lemma escaped_expected:
  "raises_in (expected c) r \<Longrightarrow> execute_action c r = Escaped e \<Longrightarrow> e \<in> database_errors \<union> outside_errors c"
  by (auto simp: raises_in_def expected_def execute_action_def split: sum.splits option.splits)

lemmas answer_tables = workspace_error_def decision_error_def proposal_error_def objection_error_def voting_error_def decision_lock_error_def action_review_error_def attachment_error_def notification_error_def

lemmas expected_simps = expected_def answer_tables database_errors_def

lemmas helper_defs =
  delete_proposal_row_def delete_decision_row_def delete_workspace_row_def workspaces_repo_create_def workspaces_repo_update_def
  workspaces_repo_delete_def workspaces_repo_add_member_def workspaces_repo_update_member_role_def workspace_require_membership_def workspace_require_member_def
  workspace_create_def decisions_repo_create_def save_decision_def decisions_repo_update_def decisions_repo_transition_def
  decisions_repo_delete_def decision_require_membership_def require_decision_def decision_context_def int_field_def
  proposals_repo_create_def proposals_repo_update_def proposals_repo_delete_def proposals_repo_create_criterion_def proposals_repo_update_criterion_def
  proposals_repo_reorder_criteria_def proposals_repo_upsert_score_def require_mutable_decision_def require_proposal_def require_criterion_def
  objections_repo_create_def save_objection_def objections_repo_update_def objections_repo_transition_def objection_context_def
  objection_require_mutable_decision_def require_objection_def voting_repo_create_def save_session_def insert_all_def
  voting_repo_open_def voting_repo_close_def voting_repo_cancel_def voting_repo_create_vote_def require_active_decision_def
  require_session_def build_snapshot_def locks_repo_create_def records_repo_create_action_def save_action_def
  records_repo_update_action_def records_repo_transition_action_def records_repo_create_review_def save_review_def records_repo_update_review_def
  records_repo_cancel_review_def records_repo_complete_review_def insert_revision_def insert_decision_def records_repo_complete_review_with_revision_def
  require_locked_def require_eligible_assignee_def require_action_def require_review_def require_future_review_def
  normalize_filename_def storage_def attachments_repo_create_def attachments_repo_update_def attachments_repo_claim_processing_def
  attachments_repo_mark_available_def attachments_repo_mark_rejected_def attachment_membership_def attachment_validate_target_def require_attachment_def
  of_database_def process_attachment_def notifications_repo_create_candidate_def save_notification_def notifications_repo_mark_read_def
  notifications_repo_claim_for_delivery_def notifications_repo_mark_delivered_def notifications_repo_schedule_retry_def notifications_repo_mark_failed_def reminder_discover_def
  reminder_recover_stale_def worker_claim_def worker_mark_delivered_def worker_record_retry_def

lemma workspace_controller_raises:
  "raises_in (expected Workspace_Controller) (workspace_get me w db)"
  "raises_in (expected Workspace_Controller) (workspace_update env me w payload1 db)"
  "raises_in (expected Workspace_Controller) (workspace_delete me w db)"
  "raises_in (expected Workspace_Controller) (workspace_list_members me w db)"
  "raises_in (expected Workspace_Controller) (workspace_add_member env me w email4 role4 db)"
  "raises_in (expected Workspace_Controller) (workspace_update_member_role me w member5 role5 db)"
  "raises_in (expected Workspace_Controller) (workspace_remove_member me w member6 db)"
  unfolding workspace_get_def workspace_update_def workspace_delete_def workspace_list_members_def workspace_add_member_def workspace_update_member_role_def workspace_remove_member_def helper_defs Let_def
  by (intro raises; simp add: expected_simps)+

lemma decision_controller_raises:
  "raises_in (expected Decision_Controller) (decision_create env me w payload0 db)"
  "raises_in (expected Decision_Controller) (decision_list me w status1 category1 limit1 offset1 db)"
  "raises_in (expected Decision_Controller) (decision_get me w i db)"
  "raises_in (expected Decision_Controller) (decision_update env me w i payload3 db)"
  "raises_in (expected Decision_Controller) (decision_transition env me w i target4 db)"
  "raises_in (expected Decision_Controller) (decision_delete me w i db)"
  unfolding decision_create_def decision_list_def decision_get_def decision_update_def decision_transition_def decision_delete_def helper_defs Let_def
  by (intro raises; simp add: expected_simps)+

lemma proposal_controller_raises:
  "raises_in (expected Proposal_Controller) (proposal_create env me w d payload0 db)"
  "raises_in (expected Proposal_Controller) (proposal_list me w d status1 db)"
  "raises_in (expected Proposal_Controller) (proposal_get me w d i db)"
  "raises_in (expected Proposal_Controller) (proposal_update env me w d i payload3 db)"
  "raises_in (expected Proposal_Controller) (proposal_transition env me w d i target4 db)"
  "raises_in (expected Proposal_Controller) (proposal_delete me w d i db)"
  "raises_in (expected Proposal_Controller) (criterion_create env me w d payload6 db)"
  "raises_in (expected Proposal_Controller) (criterion_list me w d db)"
  "raises_in (expected Proposal_Controller) (criterion_update env me w d i payload8 db)"
  "raises_in (expected Proposal_Controller) (criterion_reorder env me w d ids9 db)"
  "raises_in (expected Proposal_Controller) (criterion_delete me w d i db)"
  "raises_in (expected Proposal_Controller) (score_upsert env me w d pid11 cid11 payload11 db)"
  "raises_in (expected Proposal_Controller) (proposal_compare me w d db)"
  unfolding proposal_create_def proposal_list_def proposal_get_def proposal_update_def proposal_transition_def proposal_delete_def criterion_create_def criterion_list_def criterion_update_def criterion_reorder_def criterion_delete_def score_upsert_def proposal_compare_def helper_defs Let_def
  by (intro raises; simp add: expected_simps)+

lemma objection_controller_raises:
  "raises_in (expected Objection_Controller) (objection_create env me w d p0 payload0 db)"
  "raises_in (expected Objection_Controller) (objection_list me w d p1 severity1 status1 db)"
  "raises_in (expected Objection_Controller) (objection_get me w d p2 i db)"
  "raises_in (expected Objection_Controller) (objection_update env me w d p3 i payload3 db)"
  "raises_in (expected Objection_Controller) (objection_transition env me w d p4 i target4 note4 db)"
  "raises_in (expected Objection_Controller) (objection_list_history me w d p5 i db)"
  unfolding objection_create_def objection_list_def objection_get_def objection_update_def objection_transition_def objection_list_history_def helper_defs Let_def
  by (intro raises; simp add: expected_simps)+

lemma voting_controller_raises:
  "raises_in (expected Voting_Controller) (voting_create_session env me w d payload0 db)"
  "raises_in (expected Voting_Controller) (voting_list_sessions me w d db)"
  "raises_in (expected Voting_Controller) (voting_get_session me w d i db)"
  "raises_in (expected Voting_Controller) (voting_open_session env me w d i db)"
  "raises_in (expected Voting_Controller) (voting_cast_vote env me w d i prop4 db)"
  "raises_in (expected Voting_Controller) (voting_close_session env me w d i db)"
  "raises_in (expected Voting_Controller) (voting_cancel_session env me w d i db)"
  "raises_in (expected Voting_Controller) (voting_get_result me w d i db)"
  unfolding voting_create_session_def voting_list_sessions_def voting_get_session_def voting_open_session_def voting_cast_vote_def voting_close_session_def voting_cancel_session_def voting_get_result_def helper_defs Let_def
  by (intro raises; simp add: expected_simps)+

lemma decision_lock_controller_raises:
  "raises_in (expected Decision_Lock_Controller) (lock_create env me w d session_id0 db)"
  "raises_in (expected Decision_Lock_Controller) (lock_get me w d db)"
  "raises_in (expected Decision_Lock_Controller) (lock_verify env me w d db)"
  unfolding lock_create_def lock_get_def lock_verify_def voting_get_result_def helper_defs Let_def
  by (intro raises; simp add: expected_simps)+

lemma action_review_controller_raises:
  "raises_in (expected Action_Review_Controller) (action_create env me w d payload0 db)"
  "raises_in (expected Action_Review_Controller) (action_list me w d status1 assignee1 db)"
  "raises_in (expected Action_Review_Controller) (action_get me w d i db)"
  "raises_in (expected Action_Review_Controller) (action_update env me w d i payload3 db)"
  "raises_in (expected Action_Review_Controller) (action_transition env me w d i target4 db)"
  "raises_in (expected Action_Review_Controller) (review_create env me w d payload5 db)"
  "raises_in (expected Action_Review_Controller) (review_list me w d db)"
  "raises_in (expected Action_Review_Controller) (review_get me w d i db)"
  "raises_in (expected Action_Review_Controller) (review_update env me w d i payload8 db)"
  "raises_in (expected Action_Review_Controller) (review_cancel env me w d i db)"
  "raises_in (expected Action_Review_Controller) (review_complete env me w d i payload10 db)"
  "raises_in (expected Action_Review_Controller) (revision_list me w d db)"
  "raises_in (expected Action_Review_Controller) (revision_get me w d i db)"
  unfolding action_create_def action_list_def action_get_def action_update_def action_transition_def review_create_def review_list_def review_get_def review_update_def review_cancel_def review_complete_def revision_list_def revision_get_def helper_defs Let_def
  by (intro raises; simp add: expected_simps)+

lemma attachment_controller_raises:
  "raises_in (expected Attachment_Controller) (attachment_create_upload cfg0 oc0 env me w payload0 db)"
  "raises_in (expected Attachment_Controller) (attachment_list me w decision_id1 proposal_id1 db)"
  "raises_in (expected Attachment_Controller) (attachment_get me w i db)"
  "raises_in (expected Attachment_Controller) (attachment_download cfg3 oc3 env me w i db)"
  "raises_in (expected Attachment_Controller) (attachment_delete oc4 env me w i db)"
  unfolding attachment_create_upload_def attachment_list_def attachment_get_def attachment_download_def attachment_delete_def helper_defs Let_def
  by (intro raises; simp add: expected_simps)+

lemma notification_controller_raises:
  "raises_in (expected Notification_Controller) (notification_get me i db)"
  "raises_in (expected Notification_Controller) (notification_mark_read env me i db)"
  unfolding notification_get_def notification_mark_read_def helper_defs Let_def
  by (intro raises; simp add: expected_simps)+

lemma raises_fst_sum:
  "raises_in S r \<Longrightarrow> (\<And>a db'. raises_in S (fst (f a db'))) \<Longrightarrow>
     raises_in S (fst (case r of Inl e \<Rightarrow> (Inl e, db) | Inr (a, db') \<Rightarrow> f a db'))"
  by (auto simp: raises_in_def split: sum.splits prod.splits)

lemma complete_upload_raises: "raises_in (expected Attachment_Controller) (fst (attachment_complete_upload accepts env me w i db))"
  unfolding attachment_complete_upload_def
  by (rule raises_fst_sum; (unfold fst_conv helper_defs Let_def)?; (intro raises; simp add: expected_simps)+)

lemma workspace_create_raises: "workspace_create env me payload db = Inl e \<Longrightarrow> e \<in> database_errors"
proof -
  have "raises_in database_errors (workspace_create env me payload db)"
    unfolding workspace_create_def helper_defs Let_def by (intro raises; simp add: database_errors_def)+
  then show "workspace_create env me payload db = Inl e \<Longrightarrow> e \<in> database_errors" by (simp add: raises_in_def)
qed

lemmas all_raises = complete_upload_raises workspace_controller_raises decision_controller_raises proposal_controller_raises objection_controller_raises voting_controller_raises decision_lock_controller_raises action_review_controller_raises attachment_controller_raises notification_controller_raises

lemma escape_database: "request_escapes c e \<Longrightarrow> e \<in> database_errors \<union> outside_errors c"
  by (induction rule: request_escapes.induct)
    ((rule UnI1, erule workspace_create_raises) | (erule escaped_expected [rotated], rule all_raises))+

section \<open>The property\<close>

lemma answer_codes: "error_answer c e = Some (status, detail) \<Longrightarrow> status \<in> {403, 404, 409, 413, 422}"
  by (cases c) (auto simp: answer_tables split: if_splits)

text \<open>
  C22. The controllers of workspaces, decisions, proposals (with criteria and scores), objections, votings, locks, of
  actions with reviews and revisions, of attachments and of notifications: whatever the request to one of them and whatever
  the state, every exception of the application's own becomes a status code of the 4xx range. Only an error of the
  database can escape, and from a request about an attachment also one of the object storage or of the task queue.
\<close>

theorem only_database_errors_escape:
  assumes "request_escapes c e"
  shows "(e \<in> {IntegrityError, StaleDataError, DataError} \<or> c = Attachment_Controller \<and> e \<in> {StorageError, BrokerError}) \<and>
    (\<forall>e' status detail. error_answer c e' = Some (status, detail) \<longrightarrow> status \<in> {403, 404, 409, 413, 422})"
  using escape_database [OF assms] answer_codes by (auto simp: database_errors_def split: if_splits)

theorem only_database_errors_escape_witness:
  "request_escapes Decision_Controller IntegrityError \<and> error_answer Decision_Controller DecisionNotFoundError = Some (404, ''Decision not found'')"
proof -
  let ?p = "\<lparr>dc_title = ''Queue'', dc_summary = None, dc_category = TECHNOLOGY, dc_due_at = None, dc_review_at = None\<rparr>"
  have "decision_create (demo_env 3) ada 100 ?p demo3 = Inl IntegrityError"
    by (simp add: decision_create_def decision_require_membership_def decisions_repo_create_def demo_db_defs demo_row_defs demo_env_def
        workspaces_repo_get_by_id_def workspaces_repo_get_membership_def can_write_decisions_def
        flush_insert_def)
  then have "execute_action Decision_Controller (decision_create (demo_env 3) ada 100 ?p demo3) = Escaped IntegrityError"
    by (simp add: execute_action_def answer_tables)
  then have escapes: "request_escapes Decision_Controller IntegrityError" by (rule request_escapes.decision_create)
  from only_database_errors_escape [OF escapes] escapes show ?thesis by (simp add: answer_tables)
qed

end
