(* ===== verification/Spec2Isabelle.thy ===== *)
theory Spec2Isabelle imports Activations Validation Outsiders Demo_Ratings Follow_Up Delivery Integration_Life Ballot_Box Sessions Answers begin

text \<open>
  ForkRoom is a workspace for group decisions: a FastAPI application (\<open>app/\<close>) on PostgreSQL. A
  request goes from a route through a controller to a service; the service checks the membership and
  the state of the decision, and calls repositories, which run the SQL. This development models the
  services and repositories of the decision life cycle, the files and integrations attached to it, accounts and their
  sessions, the background tasks, the tables with their constraints, and the validation of the requests; each request is a function from the database to an error or to a result
  and a new database.

  The parts and their theories.
  \<^item> \<open>Prelude\<close>: the errors (\<open>app/core/exceptions.py\<close>), sequencing of fallible code, tables, and the
    locales the components share: \<open>scoped_table\<close> (a row by id and parent), \<open>lifecycle\<close> (a table of
    transitions), \<open>row_history\<close> (what may become of a row).
  \<^item> \<open>Py_Text\<close>, \<open>Py_Numbers\<close>: what the code uses of Python: \<open>str.split\<close> and \<open>str.strip\<close>,
    \<open>isoformat\<close>, \<open>json.dumps\<close>; true division in binary floating point, \<open>round(x, 2)\<close>,
    \<open>math.ceil\<close>.
  \<^item> \<open>Data_Model\<close>: the tables of \<open>app/models\<close> as records, with their CHECK and UNIQUE constraints;
    \<open>Cascades\<close>: what the foreign keys do when a row is deleted; \<open>Permissions\<close>: \<open>app/permissions\<close>.
  \<^item> \<open>Requests\<close> and the first section of each component: the Pydantic models of \<open>app/schemas\<close>.
  \<^item> \<open>Users\<close>, \<open>Workspaces\<close>, \<open>Decisions\<close>, \<open>Proposals\<close> (with criteria and scores), \<open>Objections\<close>,
    \<open>Voting\<close>, \<open>Locks\<close>, \<open>Action_Reviews\<close>: repository and service of that name;
    \<open>Integration_Outbox\<close>: the event emitter of \<open>app/services/integration_delivery.py\<close>.
  \<^item> \<open>Voting_Register\<close> and \<open>Voting_Results\<close>: the invariants of voting, and tallies, quorum and winner.
  \<^item> \<open>Docket\<close>, \<open>Lock_Records\<close>, \<open>App\<close>, \<open>Histories\<close>: how the components interact. \<open>app_step\<close> is one
    successful request of any of them, \<open>reachable\<close> any sequence of requests from a database that holds
    nothing but accounts, \<open>db_inv\<close> the invariant; the docket of a decision is everything a lock fixes.
  \<^item> \<open>Record_Steps\<close>, \<open>Revisions\<close>, \<open>Follow_Up\<close>: the effect of each request on actions, reviews and
    revisions, the chain the revisions of a decision form, and the properties of the follow-up.
  \<^item> \<open>Notifications\<close>: model, repository and service of that name, and the reminder and delivery tasks of
    \<open>app/workers/tasks.py\<close>; \<open>Notification_Steps\<close>: their effect on a row; \<open>Background\<close>: jobs and requests
    that keep to tables of their own, a step relation \<open>app_step\<close> includes; \<open>Delivery\<close>: how a delivery ends.
  \<^item> \<open>Attachments\<close>: schema, repository and service of that name, \<open>app/integrations/object_storage.py\<close> and the
    task that checks an uploaded file; \<open>Attachment_Steps\<close>, \<open>Attachment_Life\<close>: what may become of a file.
  \<^item> \<open>Py_Url\<close>: \<open>urllib.parse\<close>, \<open>base64\<close> and \<open>str.casefold\<close> as far as the code uses them;
    \<open>Providers\<close>: \<open>app/integrations/providers\<close>, the registry and the token cipher.
  \<^item> \<open>Integration_Store\<close>, \<open>Integration_Delivery\<close>, \<open>Integrations\<close>: repository, delivery service with its tasks, and
    service of the integrations; \<open>Integration_Steps\<close>, \<open>Integration_Life\<close>: their effect on events and deliveries.
  \<^item> \<open>Redis\<close>: the commands of Redis the code uses, with expiry, and \<open>int\<close> and \<open>UUID\<close> of Python's library;
    \<open>OAuth_States\<close>: the two stores of OAuth states; \<open>Auth_Tokens\<close>: \<open>app/core/security.py\<close> and the repositories of
    refresh tokens, action tokens and rate limits; \<open>Accounts\<close>: service, schemas and dependencies of authentication;
    \<open>Google_OAuth\<close>: client, service and repository of the sign-in with Google.
  \<^item> \<open>Account_Steps\<close>: time, the steps of the application and those of authentication as one step relation, and
    how long the marks in Redis stand; \<open>Sessions\<close>: rotation, logout, password reset and sign-in with Google.
  \<^item> \<open>Activations\<close>: the activation events of the outbox belong to decisions that are no draft any more.
  \<^item> \<open>Validation\<close>: validating a request twice changes nothing, for each schema of the decision life cycle.
  \<^item> \<open>Outsiders\<close>: every request about one workspace, and what a person without a membership gets from it.
  \<^item> \<open>Answers\<close>: what the controllers of \<open>app/controllers\<close> answer to each exception, and which can escape them.
  \<^item> \<open>Ballot_Box\<close>: voting as an abstract ballot box, and the refinement of it by the tables.
  \<^item> \<open>Demo\<close>, \<open>Demo_Ratings\<close>, \<open>Demo_Reviews\<close>: a concrete run, the inputs at which the properties are applied.

  Conventions. A service method is \<open>error + 'a\<close> when it reads and \<open>error + 'a \<times> db\<close> when it writes; on an
  error the transaction is rolled back, so the database stays. A repository writes an UPDATE against
  the row the database holds, column by column as the unit of work does, and evaluates the CHECK
  constraints on the result; the row the request loaded may be older, which is how the properties about
  outdated copies are stated. \<open>env\<close> holds what a request reads from outside: the two clocks, the ids
  \<open>uuid4\<close> draws, whether an event emitter is injected, the digest function, and in which order the unit of work sends the INSERTs of two
  tables that no \<open>relationship()\<close> connects (\<open>revision_first\<close>). Times are microseconds in
  UTC, the ids are numbers, \<open>NUMERIC\<close> percentages and scores are in hundredths. ORDER BY is a stable
  sort of the insertion order; a join without ORDER BY lists its rows in table order. What is outside
  the repository is a parameter: which messages the broker accepts (\<open>accepts\<close>; the publisher of the integrations logs
  a refusal and goes on, those of reminders and attachments raise it), what sending an e-mail raises
  (\<open>sent\<close>), the answers of the object store (\<open>object_client\<close>) and of a provider (\<open>http\<close>), the cipher of a key
  (\<open>new_fernet\<close>), the signature of tokens (\<open>jwt\<close>), the hash of passwords (\<open>password_hash\<close>), what sending mail
  does (\<open>mail\<close>) and the random texts that are drawn. The integrations take the store of OAuth states as the parameters
  \<open>issue\<close> and \<open>consume\<close>, which \<open>OAuth_States\<close> defines. A function with several commits returns
  its error together with the database, because what was committed before stays. Accounts are written
  only by the steps \<open>auth_step\<close> adds to \<open>app_step\<close>. Nothing in the model is bounded or cut off by fuel: every function of
  it is total, by structural recursion.

  Not modelled. Routes, response schemas and the injection of dependencies only move data. Concurrency inside one transaction is the database's; requests are
  sequential, and the effect of a race is stated as a write from an outdated copy; a background task is
  several transactions, between which any other step may come. Comments,
  collaboration, meetings, exports and search keep their own tables, stores or services and do not write those of
  the decision life cycle; the search has a membership check and an exception of its own, which tells an outsider that a
  workspace exists. Of \<open>integration_webhook_events\<close> the application only declares the table.
\<close>

section \<open>Locks\<close>

text \<open>
  C1. A lock stays, and so does what it certifies: in every later state the snapshot can be computed
  again from the decision, the voting session and the winning proposal it names, with the same
  result, and the stored digest is the digest of its canonical text.
\<close>

theorem lock_snapshot_reproducible:
  assumes "reachable H db" and "l \<in> set (locks db)" and "(app_step H)\<^sup>*\<^sup>* db db'"
  shows "l \<in> set (locks db') \<and>
    (\<exists>d v win. d \<in> set (decisions db') \<and> d_id d = l_decision_id l \<and> d_status d = D_LOCKED \<and>
       v \<in> set (sessions db') \<and> v_id v = l_voting_session_id l \<and> v_status v = V_CLOSED \<and>
       win \<in> set (proposals db') \<and> p_id win = l_winning_proposal_id l \<and>
       vr_winner_proposal_id (voting_result_of v db') = Some (p_id win) \<and>
       build_snapshot d win (voting_result_of v db') db' = Inr (l_snapshot l)) \<and>
    l_document_hash l = H (dumps (l_snapshot l))"
proof -
  have "l \<in> set (locks db')" "db_inv H db'"
    using steps_locks [OF assms(3) reachable_db_inv [OF assms(1)] assms(2)] by simp_all
  moreover from this have "lock_faithful H l db'" using lock_invD(4) [OF db_invD(8)] by blast
  ultimately show ?thesis unfolding lock_faithful_def by blast
qed

theorem lock_snapshot_reproducible_witness:
  "demo_lock \<in> set (locks demo16) \<and> l_document_hash demo_lock = demo_digest (dumps (l_snapshot demo_lock))"
  using lock_snapshot_reproducible [OF demo_reachable15, of demo_lock demo16] demo_step16 demo_locks15(1) by auto

text \<open>
  C2. Once a decision is locked, its whole docket stands still: the row itself, its proposals and
  criteria, the objections to its proposals and their histories. No step of any component
  changes, adds or removes a row of it, and its workspace cannot be deleted either.
\<close>

theorem locked_docket_stands_still:
  assumes "reachable H db" and "l \<in> set (locks db)" and "(app_step H)\<^sup>*\<^sup>* db db'"
  shows "docket (l_decision_id l) db' = docket (l_decision_id l) db"
  using steps_locks [OF assms(3) reachable_db_inv [OF assms(1)] assms(2)] by simp

theorem locked_docket_stands_still_witness: "docket 300 demo16 = docket 300 demo15"
  using locked_docket_stands_still [OF demo_reachable15, of demo_lock demo16] demo_step16 demo_locks15 by auto

text \<open>
  C3. Exactly when a member can lock a decision with a session: as an owner or admin, when the decision
  is active, no blocking objection to any of its proposals is open, the session of that decision
  is closed, the ballots reach the quorum, and one submitted proposal has more ballots than every
  other on the sheet. Building the snapshot never fails then.
\<close>

theorem lock_create_iff:
  assumes "reachable H db" and "decision_context (u_id me) w d db = Inr (m, dec)"
    and "\<forall>v \<in> set (sessions db). v_eligible_voter_count v < 2 ^ 31" and "lock_ids_fresh env db"
  shows "(\<exists>l db'. lock_create env me w d i db = Inr (l, db')) \<longleftrightarrow>
    m_role m \<in> {OWNER, ADMIN} \<and> d_status dec = D_ACTIVE \<and>
    \<not> (\<exists>x \<in> set (objections db). \<exists>p \<in> set (proposals db). o_proposal_id x = p_id p \<and> p_decision_id p = d \<and>
         o_severity x = BLOCKING \<and> o_status x = O_OPEN) \<and>
    (\<exists>v win. v \<in> set (sessions db) \<and> v_id v = i \<and> v_decision_id v = d \<and> v_status v = V_CLOSED \<and>
       win \<in> set (proposals db) \<and> p_decision_id win = d \<and> p_status win = P_SUBMITTED \<and>
       v_eligible_voter_count v * v_quorum_percentage v \<le> 100 * int (count_votes i db) \<and>
       p_id win \<in> set (choices_of i (session_proposals db)) \<and>
       (\<forall>q \<in> set (choices_of i (session_proposals db)). q \<noteq> p_id win \<longrightarrow>
          ballots_for i q (votes db) < ballots_for i (p_id win) (votes db)))"
  using lock_create_succeeds_iff [OF reachable_db_inv [OF assms(1)] assms(2) _ assms(4), of i] assms(3)
  unfolding wins_def plurality_winner_def has_open_blocking_for_decision_def by blast

theorem lock_create_iff_witness: "\<exists>l db'. lock_create (demo_env 15) ada 100 300 1000 demo14 = Inr (l, db')"
proof -
  have rows: "sessions demo14 = [demo_closed]" "objections demo14 = [demo_objection]"
    "proposals demo14 = [kafka_submitted, submitted 8 rabbit]" "locks demo14 = []" "outbox demo14 = []"
    "choices_of 1000 (session_proposals demo14) = [600, 500]"
    "count_votes 1000 demo14 = 2" "ballots_for 1000 600 (votes demo14) = 0" "ballots_for 1000 500 (votes demo14) = 2"
    by (simp_all add: demo_db_defs count_votes_def ballots_for_def) (simp_all add: demo_ballot_def)
  have fields: "p_id kafka_submitted = 500" "p_decision_id kafka_submitted = 300" "p_status kafka_submitted = P_SUBMITTED"
    "o_severity demo_objection = MAJOR" "m_role ada_member = OWNER" "d_status demo_active = D_ACTIVE"
    by (simp_all add: demo_row_defs)
  have "lock_ids_fresh (demo_env 15) demo14" using rows by (simp add: lock_ids_fresh_def)
  from lock_create_iff [OF demo_reachable14 demo_context(1) [OF demo_bases(11)] _ this, of 1000]
  show ?thesis using rows fields by auto
qed

text \<open>
  C4. What a successful lock writes: one lock row naming the decision, the session and the winner, with
  the snapshot built from the state the request saw; the decision row becomes locked and closed at
  the time of the lock; one \<open>decision.locked\<close> event when events are on; and nothing else.
\<close>

theorem lock_create_effect:
  assumes "reachable H db" and "lock_create env me w d i db = Inr (l, db')"
  shows "\<exists>dec v win. dec \<in> set (decisions db) \<and> d_id dec = d \<and> v \<in> set (sessions db) \<and> v_id v = i \<and>
    win \<in> set (proposals db) \<and> vr_winner_proposal_id (voting_result_of v db) = Some (p_id win) \<and>
    l_decision_id l = d \<and> l_voting_session_id l = i \<and> l_winning_proposal_id l = p_id win \<and>
    l_locked_by_id l = u_id me \<and> l_locked_at l = now env \<and>
    build_snapshot dec win (voting_result_of v db) db = Inr (l_snapshot l) \<and>
    l_document_hash l = sha256_hex env (dumps (l_snapshot l)) \<and>
    emitted (emitter env) w DECISION_LOCKED (l_id l) (decision_locked_payload env me w dec (l_id l) win) db db' \<and>
    db' = db\<lparr>decisions := store d_id (decision_locked env dec) (decisions db), locks := locks db @ [l],
             outbox := outbox db', published := published db'\<rparr> \<and>
    d_status (decision_locked env dec) = D_LOCKED \<and> d_closed_at (decision_locked env dec) = Some (now env) \<and>
    d_locked_at (decision_locked env dec) = Some (now env) \<and> same_text dec (decision_locked env dec)"
  using assms(2) db_inv_keys(1) [OF reachable_db_inv [OF assms(1)]]
proof (rule lock_create_InrD)
  fix m dec v win snapshot xs ys
  assume ctx: "decision_context (u_id me) w d db = Inr (m, dec)" "d_id dec = d"
    and able: "lockable i v win snapshot dec db" and l: "l = lock_row env me dec i win snapshot"
    and db': "db' = db\<lparr>decisions := store d_id (decision_locked env dec) (decisions db), locks := locks db @ [l],
                  outbox := xs, published := ys\<rparr>"
    and e: "emitted (emitter env) w DECISION_LOCKED (l_id l) (decision_locked_payload env me w dec (l_id l) win) db db'"
  have row: "l_decision_id l = d" "l_voting_session_id l = i" "l_winning_proposal_id l = p_id win"
    "l_locked_by_id l = u_id me" "l_locked_at l = now env" "l_snapshot l = snapshot"
    "l_document_hash l = sha256_hex env (dumps (l_snapshot l))"
    by (simp_all add: l lock_row_def ctx(2) hash_snapshot_def)
  have "dec \<in> set (decisions db)" using ctx(1) by (auto dest: decision_getD)
  then show ?thesis
    using lockable_docket(1,2,4) [OF able] able ctx(2) row e
    by (intro exI [of _ dec] exI [of _ v] exI [of _ win]) (simp add: lockable_def db')
qed

theorem lock_create_effect_witness: "l_winning_proposal_id demo_lock = 500 \<and> l_locked_at demo_lock = 15"
proof -
  obtain v where v: "v \<in> set (sessions demo14)" "l_locked_at demo_lock = 15"
      "vr_winner_proposal_id (voting_result_of v demo14) = Some (l_winning_proposal_id demo_lock)"
    using lock_create_effect [OF demo_reachable14 run15] by auto
  then have "v = demo_closed" by (simp add: demo_db_defs)
  with v demo_result(4) show ?thesis by simp
qed

text \<open>
  C5. Verification answers "valid" for every lock of every reachable state, and the digest does not
  depend on the order in which the keys of the stored JSON objects come back.
\<close>

theorem lock_verify_valid:
  assumes "reachable (sha256_hex env) db" and "lock_get me w d db = Inr l"
  shows "lock_verify env me w d db =
      Inr \<lparr>lv_decision_id = d, lv_document_hash = l_document_hash l, lv_computed_hash = l_document_hash l, lv_valid = True\<rparr> \<and>
    (\<forall>j. canon j = canon (l_snapshot l) \<longrightarrow> hash_snapshot env j = l_document_hash l)"
proof -
  have l: "l \<in> set (locks db)" using assms(2) unfolding lock_get_Inr by (auto dest: locks_repo_get_SomeD)
  have "lock_faithful (sha256_hex env) l db"
    using lock_invD(4) [OF db_invD(8) [OF reachable_db_inv [OF assms(1)]] l] .
  then have hash: "l_document_hash l = sha256_hex env (dumps (l_snapshot l))" by (auto simp: lock_faithful_def)
  have "hash_snapshot env j = l_document_hash l" if "canon j = canon (l_snapshot l)" for j
    using dumps_cong [OF that] hash by (simp add: hash_snapshot_def)
  then show ?thesis using assms(2) hash by (simp add: lock_verify_Inr)
qed

theorem lock_verify_valid_witness: "\<exists>r. lock_verify (demo_env 15) ada 100 300 demo15 = Inr r \<and> lv_valid r"
proof -
  have "locks_repo_get_for_decision 300 demo15 = Some demo_lock"
    by (simp add: locks_repo_get_for_decision_def demo_locks15)
  moreover have "\<exists>m dec. decision_context (u_id ada) 100 300 demo15 = Inr (m, dec)"
    by (simp add: demo15_def demo_db_defs workspaces_repo_get_by_id_def workspaces_repo_get_membership_def
        decisions_repo_get_for_workspace_def decision_for_workspace_def) (simp add: demo_row_defs)
  ultimately have "lock_get ada 100 300 demo15 = Inr demo_lock" unfolding lock_get_Inr by blast
  moreover have "reachable (sha256_hex (demo_env 15)) demo15" using demo_reachable15 by simp
  ultimately show ?thesis using lock_verify_valid [of "demo_env 15" demo15] by auto
qed

text \<open>
  C6. A decision is locked exactly when it has a lock, and it has at most one; no voting session
  serves two locks.
\<close>

theorem locked_iff_lock_row:
  assumes "reachable H db"
  shows "distinct (map l_decision_id (locks db)) \<and> distinct (map l_voting_session_id (locks db)) \<and>
    (\<forall>d \<in> set (decisions db). d_status d = D_LOCKED \<longleftrightarrow> (\<exists>l \<in> set (locks db). l_decision_id l = d_id d))"
proof -
  note inv = reachable_db_inv [OF assms] 
  note L = db_invD(8) [OF inv] and ids = db_inv_keys(1) [OF inv]
  have "d_status d = D_LOCKED" if d: "d \<in> set (decisions db)" and l: "l \<in> set (locks db)" "l_decision_id l = d_id d" for d l
  proof -
    obtain x where "x \<in> set (decisions db)" "d_id x = l_decision_id l" "d_status x = D_LOCKED"
      by (rule lock_decision [OF L l(1)])
    then show ?thesis using distinct_key_eq [OF ids _ d] l(2) by metis
  qed
  moreover have "\<exists>l \<in> set (locks db). l_decision_id l = d_id d" if "d \<in> set (decisions db)" "d_status d = D_LOCKED" for d
    using lock_invD(5) [OF L that] by (metis imageE)
  ultimately show ?thesis using lock_invD(2,3) [OF L] by blast
qed

theorem locked_iff_lock_row_witness: "\<exists>l \<in> set (locks demo15). l_decision_id l = d_id demo_active"
  using locked_iff_lock_row [OF demo_reachable15] by (simp add: demo15_def)

section \<open>Voting\<close>

text \<open>
  C7. A published result names a proposal as the winner exactly when the ballots reach the quorum, the exact
  percentage of the registered voters, and that proposal of the sheet has more ballots than every other; on a tie
  for the first place and below the quorum there is no winner.
\<close>

theorem winner_is_plurality:
  assumes "reachable H db" and "voting_get_result me w d i db = Inr r"
    and "\<forall>v \<in> set (sessions db). v_eligible_voter_count v < 2 ^ 31"
  shows "vr_winner_proposal_id r = Some p \<longleftrightarrow>
    100 * int (count_votes i db) \<ge> vr_eligible_voter_count r * vr_quorum_percentage r \<and>
    p \<in> set (choices_of i (session_proposals db)) \<and>
    (\<forall>q \<in> set (choices_of i (session_proposals db)). q \<noteq> p \<longrightarrow>
       ballots_for i q (votes db) < ballots_for i p (votes db))"
proof -
  note I = db_invD [OF reachable_db_inv [OF assms(1)]]
  obtain v where v: "voting_repo_get_for_decision d i db = Some v" "v_status v = V_CLOSED" "r = voting_result_of v db"
    using assms(2) by auto
  have s: "v \<in> set (sessions db)" "v_id v = i" using session_getD [OF v(1)] by simp_all
  have fields: "vr_eligible_voter_count r = v_eligible_voter_count v" "vr_quorum_percentage r = v_quorum_percentage v"
    by (simp_all add: v(3) voting_result_of_def Let_def)
  have "ck_voting_sessions v" using session_invD(2) [OF voting_invD(1) [OF I(7)] s(1)] .
  then have "vr_quorum_met r \<longleftrightarrow> vr_eligible_voter_count r * vr_quorum_percentage r \<le> 100 * int (count_votes i db)"
    using quorum_met_iff [of v db] assms(3) s fields by (simp add: v(3))
  then show ?thesis using winner_iff [OF I(7) s(1) v(2), of p] s(2) by (simp add: v(3) plurality_winner_def)
qed

theorem winner_is_plurality_witness: "ballots_for 1000 600 (votes demo14) < ballots_for 1000 500 (votes demo14)"
proof -
  have rows: "sessions demo14 = [demo_closed]" "choices_of 1000 (session_proposals demo14) = [600, 500]"
    by (simp_all add: demo_db_defs)
  have get: "voting_repo_get_for_decision 300 1000 demo14 = Some demo_closed"
    by (simp add: voting_repo_get_for_decision_def session_for_decision_def rows)
  have "voting_get_result ada 100 300 1000 demo14 = Inr (voting_result_of demo_closed demo14)"
    using demo_context(1) [OF demo_bases(11)] get demo_closed_fields(2) unfolding voting_get_result_Inr by blast
  from winner_is_plurality [OF demo_reachable14 this, of 500] show ?thesis using rows demo_result(4) by simp
qed

text \<open>
  A result that reaches the quorum reports a tie exactly when no proposal has more ballots than
  every other one; then there is no winner.
\<close>

theorem tie_iff_no_plurality:
  assumes "reachable H db" and "voting_get_result me w d i db = Inr r" and "vr_quorum_met r"
  shows "(vr_is_tie r \<longleftrightarrow> (\<nexists>p. plurality_winner i db p)) \<and> (vr_is_tie r \<longleftrightarrow> vr_winner_proposal_id r = None)"
proof -
  note I = db_invD [OF reachable_db_inv [OF assms(1)]]
  obtain v where v: "voting_repo_get_for_decision d i db = Some v" "v_status v = V_CLOSED" "r = voting_result_of v db"
    using assms(2) by auto
  have s: "v \<in> set (sessions db)" "v_id v = i" using session_getD [OF v(1)] by simp_all
  have t: "vr_is_tie r \<longleftrightarrow> (\<nexists>p. plurality_winner i db p)"
    using tie_iff [OF I(7) s(1) v(2)] assms(3) s(2) by (simp add: v(3))
  moreover have "vr_winner_proposal_id r = None \<longleftrightarrow> (\<nexists>p. plurality_winner i db p)"
    using winner_iff [OF I(7) s(1) v(2)] assms(3) s(2) by (metis not_Some_eq v(3))
  ultimately show ?thesis by simp
qed

theorem tie_iff_no_plurality_witness: "\<exists>p. plurality_winner 1000 demo14 p"
proof -
  have "voting_repo_get_for_decision 300 1000 demo14 = Some demo_closed"
    by (simp add: voting_repo_get_for_decision_def session_for_decision_def demo_db_defs)
  then have "voting_get_result ada 100 300 1000 demo14 = Inr (voting_result_of demo_closed demo14)"
    using demo_context(1) [OF demo_bases(11)] demo_closed_fields(2) unfolding voting_get_result_Inr by blast
  from tie_iff_no_plurality [OF demo_reachable14 this demo_result(2)] show ?thesis using demo_result(3) by blast
qed

text \<open>
  C9. In every state each registered voter has at most one ballot in a session, every ballot was cast
  by a registered voter for a proposal on the sheet, and a session holds no more ballots than
  registered voters.
\<close>

theorem one_ballot_per_registered_voter:
  assumes "reachable H db"
  shows "distinct (map (\<lambda>b. (b_voting_session_id b, b_voter_id b)) (votes db)) \<and>
    (\<forall>b \<in> set (votes db). is_eligible_voter (b_voting_session_id b) (b_voter_id b) db \<and>
       is_session_proposal (b_voting_session_id b) (b_proposal_id b) db) \<and>
    (\<forall>v \<in> set (sessions db). int (count_votes (v_id v) db) \<le> v_eligible_voter_count v)"
proof -
  note I = db_invD [OF reachable_db_inv [OF assms]]
  show ?thesis
    using voting_invD(3) [OF I(7)] votes_cast_le [OF I(7)]
    by (simp add: ballot_inv_def uq_votes_def is_eligible_voter_iff is_session_proposal_iff)
qed

theorem one_ballot_per_registered_voter_witness:
  "is_eligible_voter 1000 2 demo13 \<and> int (count_votes 1000 demo13) \<le> 2"
  using one_ballot_per_registered_voter [OF demo_reachable13]
  by (auto simp: demo_db_defs demo_ballot_def demo_open_def demo_session_def)

text \<open>
  C10. Exactly when a ballot is accepted: from a member on the register of an open session before its
  closing time, for a proposal on the sheet, once. Neither leaving the proposal nor changing the
  role matters any more.
\<close>

theorem cast_vote_iff:
  assumes "reachable H db" and "decision_context (u_id me) w d db = Inr (m, dec)"
    and "fresh env 0 \<notin> b_id ` set (votes db)"
  shows "(\<exists>b db'. voting_cast_vote env me w d i choice db = Inr (b, db')) \<longleftrightarrow>
    (\<exists>v \<in> set (sessions db). v_id v = i \<and> v_decision_id v = d \<and> v_status v = V_OPEN \<and>
       (case v_closes_at v of None \<Rightarrow> True | Some t \<Rightarrow> now env < t)) \<and>
    is_eligible_voter i (u_id me) db \<and> is_session_proposal i choice db \<and>
    \<not> (\<exists>b \<in> set (votes db). b_voting_session_id b = i \<and> b_voter_id b = u_id me)"
    (is "?L \<longleftrightarrow> ?R")
proof -
  note K = db_inv_keys [OF reachable_db_inv [OF assms(1)]]
  have uq: "uq_votes (votes db)"
    using voting_invD(3) [OF db_invD(7) [OF reachable_db_inv [OF assms(1)]]] by (simp add: ballot_inv_def)
  have get: "voting_repo_get_for_decision d i db = Some v \<longleftrightarrow> v \<in> set (sessions db) \<and> v_id v = i \<and> v_decision_id v = d" for v
    using session_table.get_iff [OF K(4)] by (simp add: voting_repo_get_for_decision_def)
  have once: "uq_votes (votes db @ [b]) \<longleftrightarrow>
      \<not> (\<exists>x \<in> set (votes db). b_voting_session_id x = b_voting_session_id b \<and> b_voter_id x = b_voter_id b)" for b
    using uq by (auto simp: uq_votes_def image_iff)
  show ?thesis
    using assms(2,3) unfolding voting_cast_Inr by (auto simp: get once split: option.splits)
qed

theorem cast_vote_iff_witness: "\<exists>b db'. voting_cast_vote (demo_env 12) ada 100 300 1000 500 demo11 = Inr (b, db')"
  using cast_vote_iff [OF demo_reachable11 demo_context(1) [OF demo_bases(8)], of "demo_env 12" 1000 500]
  by (auto simp: demo_db_defs demo_open_def demo_session_def ada_def is_eligible_voter_def is_session_proposal_def)

text \<open>
  C11. Opening a session requires that no blocking objection is open and that two proposals are
  submitted; the register it writes holds exactly the members who may vote at that moment, the sheet
  exactly the submitted proposals, and the count in the session row is the size of the register.
\<close>

theorem open_session_register:
  assumes "reachable H db" and "voting_open_session env me w d i db = Inr (r, db')"
  shows "\<not> has_open_blocking_for_decision d db \<and> v_status r = V_OPEN \<and> v_id r = i \<and> r \<in> set (sessions db') \<and>
    set (eligible_of i (eligible_voters db')) =
      {m_user_id m | m. m \<in> set (members db) \<and> m_workspace_id m = w \<and> is_voting_role (m_role m)} \<and>
    v_eligible_voter_count r = int (card (set (eligible_of i (eligible_voters db')))) \<and>
    0 < v_eligible_voter_count r \<and>
    set (choices_of i (session_proposals db')) =
      {p_id p | p. p \<in> set (proposals db) \<and> p_decision_id p = d \<and> p_status p = P_SUBMITTED} \<and>
    2 \<le> card (set (choices_of i (session_proposals db')))"
proof -
  note inv = reachable_db_inv [OF assms(1)]
  note I = db_invD [OF inv] and K = db_inv_keys [OF inv]
  have inv': "voting_inv db'"
    using app_step_db_inv [OF app_step.voting [OF voting_step.openS [OF assms(2)]] inv] by (rule db_invD(7))
  note R = register_invD [OF voting_invD(2) [OF inv']]
  from assms(2) show ?thesis
  proof (rule voting_open_InrD)
    fix m dec v xs ys db2
    let ?us = "workspaces_repo_list_voting_eligible_user_ids w db"
    let ?ps = "map p_id (proposals_repo_list_for_decision d (Some P_SUBMITTED) db)"
    assume v: "voting_repo_get_for_decision d i db = Some v" "v_status v = V_DRAFT"
      and free: "\<not> has_open_blocking_for_decision d db" and some: "?us \<noteq> []"
      and run: "voting_repo_open env v ?us ?ps (now env) (db\<lparr>outbox := xs\<rparr>) = Inr (r, db2)"
      and db': "db' = db2\<lparr>published := ys\<rparr>"
    have look: "lookup v_id (v_id v) (sessions (db\<lparr>outbox := xs\<rparr>)) = Some v"
      using session_get_lookup [OF K(4) v(1)] by simp
    note O = voting_repo_open_InrD [OF run look]
    have s: "v \<in> set (sessions db)" "v_id v = i" using session_getD [OF v(1)] by simp_all
    have r: "r = session_opened env (length ?us) v" "r \<in> set (sessions db')" "v_id r = i" "v_status r = V_OPEN"
      using O s by (auto simp: db' set_store session_opened_def)
    have empty: "eligible_of i (eligible_voters db) = []" "choices_of i (session_proposals db) = []"
      using register_invD(7) [OF voting_invD(2) [OF I(7)] s(1)] v(2) s(2) by (simp_all add: session_registered_def)
    have es: "eligible_of i (eligible_voters db') = ?us"
    proof -
      have "eligible_of i (eligible_voters db') = eligible_of i (eligible_rows env 1 (v_id v) ?us)"
        using O empty(1) by (simp add: db')
      also have "filter (\<lambda>e. ev_voting_session_id e = i) (eligible_rows env 1 (v_id v) ?us) = eligible_rows env 1 (v_id v) ?us"
        using s(2) by (simp add: filter_id_conv)
      finally show ?thesis by simp
    qed
    have ps: "choices_of i (session_proposals db') = ?ps"
    proof -
      have "choices_of i (session_proposals db') = choices_of i (session_proposal_rows env (1 + length ?us) (v_id v) ?ps)"
        using O empty(2) by (simp add: db')
      also have "filter (\<lambda>p. sp_voting_session_id p = i) (session_proposal_rows env (1 + length ?us) (v_id v) ?ps) =
          session_proposal_rows env (1 + length ?us) (v_id v) ?ps"
        using s(2) by (simp add: filter_id_conv)
      finally show ?thesis by simp
    qed
    have cards: "card (set ?us) = length ?us" "card (set ?ps) = length ?ps"
      using distinct_eligible [OF R(2), of i] distinct_choices [OF R(4), of i]
      unfolding es ps by (simp_all only: distinct_card)
    have "v_eligible_voter_count r = int (length ?us)" "2 \<le> length ?ps"
      using R(7) [OF r(2)] r(3,4) unfolding session_registered_def r(3) es ps by simp_all
    then show ?thesis
      using free r some cards unfolding es ps
      by (auto simp: workspaces_repo_list_voting_eligible_user_ids_def is_voting_role_def
          proposals_repo_list_for_decision_def)
  qed
qed

theorem open_session_register_witness: "v_eligible_voter_count demo_open = 2"
proof -
  have "reachable demo_digest demo10"
    by (rule reachable.step [OF demo_reachable9 app_step.voting [OF voting_step.create [OF demo_session_request run10]]])
  from open_session_register [OF this run11] show ?thesis by (simp add: demo_db_defs)
qed

text \<open>C12. The result of a session is withheld until the session is closed.\<close>

theorem result_withheld:
  assumes "reachable H db" and "decision_context (u_id me) w d db = Inr (m, dec)"
    and "v \<in> set (sessions db)" and "v_decision_id v = d" and "v_status v \<noteq> V_CLOSED"
  shows "voting_get_result me w d (v_id v) db = Inl VotingResultUnavailableError"
proof -
  have "voting_repo_get_for_decision d (v_id v) db = Some v"
    using session_table.get_iff [OF db_inv_keys(4) [OF reachable_db_inv [OF assms(1)]]] assms(3,4)
    by (simp add: voting_repo_get_for_decision_def)
  then show ?thesis
    using assms(5) by (simp add: voting_get_result_def assms(2) require_session_def del: decision_context_Inr)
qed

theorem result_withheld_witness: "voting_get_result bob 100 300 1000 demo13 = Inl VotingResultUnavailableError"
  using result_withheld [OF demo_reachable13 demo_context(2) [OF demo_bases(10)], of demo_open]
  by (simp add: demo_db_defs demo_open_def demo_session_def)

text \<open>
  C13. A closed session is final: in every later state it is still there, and its result, recomputed
  from the ballots, is the same. Nothing, not even deleting the workspace, removes it.
\<close>

theorem closed_result_is_final:
  assumes "reachable H db" and "v \<in> set (sessions db)" and "v_status v = V_CLOSED" and "(app_step H)\<^sup>*\<^sup>* db db'"
  shows "v \<in> set (sessions db') \<and> voting_result_of v db' = voting_result_of v db"
proof -
  note inv = reachable_db_inv [OF assms(1)]
  have s: "v \<in> set (sessions db')" "session_file (v_id v) db' = session_file (v_id v) db" "db_inv H db'"
    using steps_closed_session [OF assms(4) inv assms(2,3)] by simp_all
  then show ?thesis using result_of_file [OF s(2) db_inv_keys(5) [OF inv] db_inv_keys(5) [OF s(3)]] by simp
qed

theorem closed_result_is_final_witness: "voting_result_of demo_closed demo16 = voting_result_of demo_closed demo14"
proof -
  have "demo_closed \<in> set (sessions demo14)" by (simp add: demo_db_defs)
  moreover have "(app_step demo_digest)\<^sup>*\<^sup>* demo14 demo16"
    using demo_lock_step demo_step16 by (meson r_into_rtranclp rtranclp_trans)
  ultimately show ?thesis using closed_result_is_final [OF demo_reachable14, of demo_closed demo16] by simp
qed

text \<open>
  C14. Ballot secrecy: neither the published result nor the snapshot of a lock depends on who cast
  which ballot. Exchanging the voters of the ballots in any way leaves both as they are.
\<close>

theorem voters_do_not_show:
  assumes "reachable H db"
    and "\<forall>b. b_voting_session_id (f b) = b_voting_session_id b \<and> b_proposal_id (f b) = b_proposal_id b"
  shows "voting_get_result me w d i (db\<lparr>votes := map f (votes db)\<rparr>) = voting_get_result me w d i db \<and>
    build_snapshot dec win (voting_result_of v (db\<lparr>votes := map f (votes db)\<rparr>)) (db\<lparr>votes := map f (votes db)\<rparr>) =
      build_snapshot dec win (voting_result_of v db) db"
proof -
  let ?db = "db\<lparr>votes := map f (votes db)\<rparr>"
  have r: "voting_result_of v ?db = voting_result_of v db" for v
    using result_rename_voters [OF _ db_inv_keys(5) [OF reachable_db_inv [OF assms(1)]], of f] assms(2) by simp
  have "decision_context u w' d' ?db = decision_context u w' d' db" "require_session d' i' ?db = require_session d' i' db" for u w' d' i'
    by (simp_all add: decision_context_def workspaces_repo_get_by_id_def workspaces_repo_get_membership_def
        decisions_repo_get_for_workspace_def require_session_def voting_repo_get_for_decision_def)
  then show ?thesis by (simp add: voting_get_result_def r snapshot_rename_voters)
qed

theorem voters_do_not_show_witness:
  "voting_get_result ada 100 300 1000 (demo14\<lparr>votes := map (\<lambda>b. b\<lparr>b_voter_id := 7\<rparr>) (votes demo14)\<rparr>) =
     voting_get_result ada 100 300 1000 demo14"
  using voters_do_not_show [OF demo_reachable14, of "\<lambda>b. b\<lparr>b_voter_id := 7\<rparr>"] by simp

text \<open>
  C15. The number of ballots a session needs is the exact ceiling of its percentage of the registered
  voters, although the code divides in floating point.
\<close>

theorem quorum_is_exact_ceiling:
  assumes "0 \<le> eligible" and "eligible < 2 ^ 31" and "1 \<le> quorum" and "quorum \<le> 100"
  shows "required_votes eligible quorum = (eligible * quorum + 99) div 100"
  using assms by (rule required_votes_exact)

theorem quorum_is_exact_ceiling_witness: "required_votes 7 50 = 4"
  using quorum_is_exact_ceiling [of 7 50] by simp

text \<open>
  A decision has at most one session that is not finished, and the ballots counted in the tallies
  of a session are all its ballots.
\<close>

theorem one_unfinished_session:
  assumes "reachable H db"
  shows "(\<forall>v1 \<in> set (sessions db). \<forall>v2 \<in> set (sessions db).
      v_status v1 \<in> {V_DRAFT, V_OPEN} \<and> v_status v2 \<in> {V_DRAFT, V_OPEN} \<and> v_decision_id v1 = v_decision_id v2 \<longrightarrow> v1 = v2) \<and>
    (\<forall>v \<in> set (sessions db). sum_list (map t_votes (vr_tallies (voting_result_of v db))) = count_votes (v_id v) db)"
proof -
  note V = db_invD(7) [OF reachable_db_inv [OF assms]]
  have uq: "distinct (map v_decision_id (filter unfinished (sessions db)))"
    using session_invD(3) [OF voting_invD(1) [OF V]] by (simp add: uq_one_unfinished_def)
  show ?thesis
    using tallies_sum [OF V] distinct_key_eq [OF uq] by (auto simp: unfinished_def voting_result_of_def Let_def)
qed

theorem one_unfinished_session_witness: "sum_list (map t_votes (vr_tallies (voting_result_of demo_closed demo14))) = 2"
  using one_unfinished_session [OF demo_reachable14] demo_tallies(2) by (simp add: demo_db_defs)

section \<open>Decisions\<close>

text \<open>
  C17. The outcome of every status request on a decision the caller can see, with events on or off: viewers are refused,
  a locked decision is immutable, a move outside the transition table is invalid, and any other request commits the new
  status with \<open>closed_at\<close> and \<open>archived_at\<close> set for exactly the statuses they belong to. It writes no other
  column but \<open>updated_at\<close> and no other row, except for the activation event, which is staged and published exactly when
  events are on and a draft becomes active (under an id that is new); a draft was never announced before.
\<close>

theorem decision_transition_outcome:
  assumes "reachable H db" and "decision_context (u_id me) w i db = Inr (m, dec)"
    and "emitter env \<and> d_status dec = D_DRAFT \<and> target = D_ACTIVE \<longrightarrow> fresh env 0 \<notin> x_id ` set (outbox db)"
  shows "if m_role m = VIEWER then decision_transition env me w i target db = Inl DecisionAccessDeniedError
    else if d_status dec = D_LOCKED then decision_transition env me w i target db = Inl DecisionImmutableError
    else if target \<notin> decision_ALLOWED_TRANSITIONS (d_status dec)
      then decision_transition env me w i target db = Inl DecisionInvalidTransitionError
    else \<exists>r db'. decision_transition env me w i target db = Inr (r, db') \<and>
      r = dec\<lparr>d_status := target, d_closed_at := (if target = D_CLOSED then Some (now env) else None),
               d_archived_at := (if target = D_ARCHIVED then Some (now env) else None),
               d_updated_at := db_now env\<rparr> \<and>
      db' = db\<lparr>decisions := store d_id r (decisions db), outbox := outbox db', published := published db'\<rparr> \<and>
      emitted (emitter env \<and> d_status dec = D_DRAFT \<and> target = D_ACTIVE) w DECISION_ACTIVATED i
        (decision_activated_payload env me w dec) db db'"
proof -
  note inv = reachable_db_inv [OF assms(1)]
  have dec: "decisions_repo_get_for_workspace w i db = Some dec" using assms(2) by simp
  have mem: "decision_require_membership (u_id me) w db = Inr m" using assms(2) by simp
  have role: "can_write_decisions (m_role m) \<longleftrightarrow> m_role m \<noteq> VIEWER"
    by (cases "m_role m") (simp_all add: can_write_decisions_def)
  have viewer: "\<not> can_write_decisions VIEWER" by (simp add: can_write_decisions_def)
  have "d_id dec = i" "dec \<in> set (decisions db)" using decision_getD [OF dec] by simp_all
  then have new: "\<not> staged DECISION_ACTIVATED i (outbox db)" if "d_status dec = D_DRAFT"
    using draft_not_announced [OF assms(1) _ that] by simp
  show ?thesis
    using decision_transition_commits [OF inv dec mem, where env = env and target = target] role new assms(3) \<open>d_id dec = i\<close>
      decision_cycle.step_changes [of target "d_status dec"] dec
    by (auto simp: decision_transition_def mem viewer require_decision_def simp del: decision_require_membership_Inr)
qed

theorem decision_transition_outcome_witness:
  "decision_transition (demo_env 16) ada 100 300 D_ACTIVE demo14 = Inl DecisionInvalidTransitionError"
  using decision_transition_outcome [OF demo_reachable14 demo_context(1) [OF demo_bases(11)], of "demo_env 16" D_ACTIVE]
  by (simp add: demo_row_defs)

text \<open>
  C18. The life of a decision, step by step: its identity never changes, its status moves along the
  transition table or from active to locked, locked and archived rows do not change at all, and a
  row disappears only as a draft or with its workspace, never while it is locked.
\<close>

theorem decision_life:
  assumes "reachable H db" and "app_step H db db'" and "dec \<in> set (decisions db)"
  shows "(\<exists>dec' \<in> set (decisions db'). d_id dec' = d_id dec \<and> decision_evolves dec dec') \<or>
    d_id dec \<notin> d_id ` set (decisions db') \<and> d_status dec \<noteq> D_LOCKED \<and>
    (d_status dec = D_DRAFT \<or> d_workspace_id dec \<notin> w_id ` set (workspaces db'))"
  using app_step_decision_life [OF assms(2) reachable_db_inv [OF assms(1)] assms(3)] .

theorem decision_life_witness: "\<exists>dec' \<in> set (decisions demo15). decision_evolves demo_active dec'"
  using decision_life [OF demo_reachable14 demo_lock_step, of demo_active]
  by (auto simp: demo15_def demo_db_defs demo_row_defs)

text \<open>
  C19. In every state the time stamps of a decision match its status and a review never falls on or
  before the deadline.
\<close>

theorem decision_rows_consistent:
  assumes "reachable H db" and "dec \<in> set (decisions db)"
  shows "(d_locked_at dec \<noteq> None \<longleftrightarrow> d_status dec = D_LOCKED) \<and>
    (d_archived_at dec \<noteq> None \<longleftrightarrow> d_status dec = D_ARCHIVED) \<and>
    (d_closed_at dec \<noteq> None \<longleftrightarrow> d_status dec \<in> {D_CLOSED, D_LOCKED}) \<and>
    (case (d_due_at dec, d_review_at dec) of (Some due, Some review) \<Rightarrow> due < review | _ \<Rightarrow> True)"
  using decision_inv_row [OF db_invD(2) [OF reachable_db_inv [OF assms(1)]] assms(2)]
  by (auto simp: decision_row_ok_def ck_decisions_locked_state_def split: option.split)

theorem decision_rows_consistent_witness: "d_locked_at (decision_locked (demo_env 15) demo_active) \<noteq> None"
  using decision_rows_consistent [OF demo_reachable15, of "decision_locked (demo_env 15) demo_active"]
  by (simp add: demo15_def)



section \<open>Proposals, criteria and scores\<close>

text \<open>
  C21. The text of a proposal changes only by an edit of a draft: in a step that changes it, the proposal is a draft
  before and after, so what was submitted or withdrawn is as it was until the proposal is reopened, and reopening
  leaves it alone. The status moves along the transition table. A proposal on the ballot sheet of a voting session is never
  removed, whatever its status, not even when it was reopened as a draft.
\<close>

theorem submitted_text_fixed:
  assumes "reachable H db" and "app_step H db db'" and "p \<in> set (proposals db)"
  shows "(\<forall>p' \<in> set (proposals db'). p_id p' = p_id p \<longrightarrow>
       p_decision_id p' = p_decision_id p \<and> p_created_by_id p' = p_created_by_id p \<and> p_created_at p' = p_created_at p \<and>
       (p_status p' = p_status p \<or> p_status p' \<in> PROPOSAL_TRANSITIONS (p_status p)) \<and>
       (p_title p' = p_title p \<and> p_summary p' = p_summary p \<and> p_content p' = p_content p \<or>
        p_status p = P_DRAFT \<and> p_status p' = P_DRAFT)) \<and>
    (p_id p \<in> sp_proposal_id ` set (session_proposals db) \<longrightarrow> p_id p \<in> p_id ` set (proposals db'))"
  using app_step_proposal_life [OF assms(2) reachable_db_inv [OF assms(1)] assms(3)] by (auto simp: proposal_evolves_def)

theorem submitted_text_fixed_witness: "p_id kafka_submitted \<in> p_id ` set (proposals demo15)"
proof -
  have "kafka_submitted \<in> set (proposals demo14)"
    by (simp add: demo_db_defs)
  from submitted_text_fixed [OF demo_reachable14 demo_lock_step this]
  show ?thesis by (simp add: demo_db_defs demo_row_defs)
qed

text \<open>
  Reordering the criteria of a decision with a permutation of their ids always commits, although
  each position is unique at every moment: afterwards the list of the decision is that permutation,
  numbered from zero, with weights and names as before.
\<close>

theorem reorder_numbers_from_zero:
  assumes "reachable H db" and "decision_context (u_id me) w d db = Inr (m, dec)"
    and "m_role m \<in> {OWNER, ADMIN}" and "d_status dec \<in> {D_DRAFT, D_ACTIVE}"
    and "distinct ids" and "set ids = set (map c_id (proposals_repo_list_criteria d db))"
  shows "\<exists>cs db'. criterion_reorder env me w d ids db = Inr (cs, db') \<and>
    cs = proposals_repo_list_criteria d db' \<and> map c_id cs = ids \<and> map c_position cs = map int [0..<length ids] \<and>
    (\<forall>c \<in> set cs. \<exists>c' \<in> set (criteria db). c_id c' = c_id c \<and> c_weight c' = c_weight c \<and> c_name c' = c_name c)"
  using criterion_reorder_numbers [OF db_invD(4) [OF reachable_db_inv [OF assms(1)]] assms(2-6)] .

theorem reorder_numbers_from_zero_witness:
  "\<exists>cs db'. criterion_reorder (demo_env 24) ada 100 300 [2100, 2000] rated2 = Inr (cs, db') \<and> map c_id cs = [2100, 2000]"
proof -
  have "set [2100, 2000] = set (map c_id (proposals_repo_list_criteria 300 rated2))"
    by (auto simp: rated_lists cost_def speed_def)
  moreover have "m_role ada_member \<in> {OWNER, ADMIN}" "d_status demo_active \<in> {D_DRAFT, D_ACTIVE}"
    by (simp_all add: demo_row_defs)
  ultimately show ?thesis
    using reorder_numbers_from_zero [OF rated_reachable2 demo_context(1) [OF rated_bases(2)], of "[2100, 2000]" "demo_env 24"]
    by auto
qed

text \<open>
  A proposal gets a weighted score exactly when the decision has criteria and every one is
  scored, and then it lies between 1.00 and 5.00, in spite of the rounding.
\<close>

theorem weighted_score_bounds:
  assumes "reachable H db" and "proposal_compare me w d db = Inr rs" and "r \<in> set rs"
  shows "(pcr_weighted_score r \<noteq> None \<longleftrightarrow>
      proposals_repo_list_criteria d db \<noteq> [] \<and>
      (\<forall>c \<in> set (proposals_repo_list_criteria d db). \<exists>s \<in> set (proposals_repo_list_scores_for_decision d db).
         s_proposal_id s = p_id (pcr_proposal r) \<and> s_criterion_id s = c_id c)) \<and>
    (case pcr_weighted_score r of None \<Rightarrow> True | Some x \<Rightarrow> 100 \<le> x \<and> x \<le> 500)"
  using proposal_compare_bounds [OF db_invD(4,5) [OF reachable_db_inv [OF assms(1)]] assms(2,3)] .

theorem weighted_score_bounds_witness:
  "pcr_weighted_score (compare_proposal [cost, speed] [bobs_score 2200 2000 4 22, bobs_score 2300 2100 5 23] (submitted 7 kafka)) \<noteq> None"
proof -
  have ps: "submitted 7 kafka \<in> set (proposals_repo_list_for_decision 300 (Some P_SUBMITTED) rated4)"
    by (simp add: proposals_repo_list_for_decision_def rated_defs demo_db_defs) (simp add: demo_row_defs)
  have "proposal_compare ada 100 300 rated4 = Inr (map (compare_proposal (proposals_repo_list_criteria 300 rated4)
      (proposals_repo_list_scores_for_decision 300 rated4)) (proposals_repo_list_for_decision 300 (Some P_SUBMITTED) rated4))"
    by (simp add: proposal_compare_def demo_context(1) [OF rated_bases(4)] del: decision_context_Inr)
  from weighted_score_bounds [OF rated_reachable4 this imageI [OF ps, folded set_map]] show ?thesis
    by (simp add: rated_lists compare_proposal_def Let_def cost_def speed_def bobs_score_def demo_row_defs)
qed

text \<open>
  Scoring twice does not add up: after a score is sent there is exactly one row for the pair of
  proposal and criterion, with the score, the rationale and the author of the last request, and no
  other score has changed.
\<close>

theorem score_upsert_replaces:
  assumes "reachable H db" and "score_upsert env me w d p c q db = Inr (r, db')"
  shows "filter (\<lambda>s. s_proposal_id s = p \<and> s_criterion_id s = c) (scores db') = [r] \<and>
    s_score r = su_score q \<and> s_rationale r = su_rationale q \<and> s_scored_by_id r = u_id me \<and>
    filter (\<lambda>s. \<not> (s_proposal_id s = p \<and> s_criterion_id s = c)) (scores db') =
      filter (\<lambda>s. \<not> (s_proposal_id s = p \<and> s_criterion_id s = c)) (scores db)"
  by (rule score_upsert_one_row [OF assms(2) db_invD(5) [OF reachable_db_inv [OF assms(1)]]])

theorem score_upsert_replaces_witness:
  "filter (\<lambda>s. s_proposal_id s = 500 \<and> s_criterion_id s = 2100) (scores rated4) = [bobs_score 2300 2100 5 23]"
proof -
  have "reachable demo_digest rated3"
    by (rule reachable.step [OF rated_reachable2 app_step.criterion [OF criterion_step.score [OF rating_requests(3) rate3]]])
  from score_upsert_replaces [OF this rate4] show ?thesis by simp
qed

section \<open>Objections\<close>

text \<open>
  C25. The history of an objection explains its status: the events of it, in the order they were
  written, lead from open to the present status along the transition table, and the resolution
  fields are set exactly when it is not open.
\<close>

theorem objection_history_explains_status:
  assumes "reachable H db" and "x \<in> set (objections db)"
  shows "runs O_OPEN (filter (\<lambda>e. oe_objection_id e = o_id x) (objection_events db)) (o_status x) \<and>
    (o_status x \<noteq> O_OPEN \<longleftrightarrow> o_resolved_at x \<noteq> None) \<and> (o_status x \<noteq> O_OPEN \<longleftrightarrow> o_resolved_by_id x \<noteq> None) \<and>
    (o_status x \<noteq> O_OPEN \<longleftrightarrow> o_resolution_note x \<noteq> None)"
proof -
  note O = db_invD(6) [OF reachable_db_inv [OF assms(1)]]
  show ?thesis
    using objection_invD(3,5) [OF O assms(2)] by (auto simp: ck_objections_resolution_state_def)
qed

theorem objection_history_explains_status_witness: "o_resolved_at demo_objection = None"
  using objection_history_explains_status [OF demo_reachable9, of demo_objection]
  by (simp add: demo_db_defs demo_objection_def)

text \<open>
  C26. Who may close an objection, and what a transition leaves: only owners and admins dismiss,
  a member resolves or reopens only objections of their own, viewers do neither; one event is added
  and no event is ever taken back.
\<close>

theorem objection_transition_effect:
  assumes "reachable H db" and "objection_transition env me w d p i target note db = Inr (r, db')"
  shows "\<exists>m x. m \<in> set (members db) \<and> m_workspace_id m = w \<and> m_user_id m = u_id me \<and>
    x \<in> set (objections db) \<and> o_id x = i \<and>
    (m_role m \<in> {OWNER, ADMIN} \<or> m_role m = MEMBER \<and> o_created_by_id x = u_id me \<and> target \<noteq> O_DISMISSED) \<and>
    target \<in> OBJECTION_TRANSITIONS (o_status x) \<and> o_status r = target \<and> o_id r = i \<and>
    o_severity r = o_severity x \<and> o_title r = o_title x \<and> o_description r = o_description x \<and>
    (\<exists>e. objection_events db' = objection_events db @ [e] \<and> oe_objection_id e = i \<and> oe_actor_id e = u_id me \<and>
       oe_from_status e = o_status x \<and> oe_to_status e = target \<and> oe_note e = note) \<and>
    db' = db\<lparr>objections := store o_id r (objections db), objection_events := objection_events db'\<rparr>"
  using assms(2) db_inv_keys(3) [OF reachable_db_inv [OF assms(1)]]
proof (rule objection_transition_InrD)
  fix m dec x
  assume m: "workspaces_repo_get_membership w (u_id me) db = Some m"
    and x: "objections_repo_get_for_proposal p i db = Some x"
    and t: "target \<in> OBJECTION_TRANSITIONS (o_status x)"
    and can: "can_transition_objection (m_role m) (o_created_by_id x) (u_id me) target"
    and r: "r = objection_moved env (u_id me) target note x"
    and db': "db' = db\<lparr>objections := store o_id r (objections db),
           objection_events := objection_events db @ [objection_event env (u_id me) target note x]\<rparr>"
  have "m_role m \<in> {OWNER, ADMIN} \<or> m_role m = MEMBER \<and> o_created_by_id x = u_id me \<and> target \<noteq> O_DISMISSED"
    using can by (auto simp: can_transition_objection_def split: if_splits)
  then show ?thesis
    using get_membership_SomeD [OF m] objection_getD [OF x] t
    by (intro exI [of _ m] exI [of _ x]) (auto simp: r db' objection_moved_def objection_event_def)
qed

theorem objection_transition_effect_witness:
  "\<exists>e. objection_events settled = [e] \<and> oe_from_status e = O_OPEN \<and> oe_to_status e = O_RESOLVED"
proof -
  obtain x e where "x \<in> set (objections demo9)" "objection_events settled = objection_events demo9 @ [e]"
    "oe_from_status e = o_status x" "oe_to_status e = O_RESOLVED"
    using objection_transition_effect [OF demo_reachable9 settle] by blast
  then show ?thesis by (simp add: demo_db_defs) (simp add: demo_objection_def)
qed

section \<open>Workspaces and requests\<close>

text \<open>
  C27. Every workspace has exactly one owner, the user it names, whatever was added, removed,
  promoted or deleted, and no user is twice a member.
\<close>

theorem one_owner_per_workspace:
  assumes "reachable H db" and "w \<in> set (workspaces db)"
  shows "(\<exists>!m. m \<in> set (members db) \<and> m_workspace_id m = w_id w \<and> m_role m = OWNER) \<and>
    (\<exists>m \<in> set (members db). m_workspace_id m = w_id w \<and> m_role m = OWNER \<and> m_user_id m = w_owner_id w) \<and>
    distinct (map (\<lambda>m. (m_workspace_id m, m_user_id m)) (members db))"
proof -
  note M = membership_invD [OF db_invD(1) [OF reachable_db_inv [OF assms(1)]]]
  obtain m where m: "m \<in> set (members db)" "m_workspace_id m = w_id w" "m_user_id m = w_owner_id w"
    using M(5) [OF assms(2)] by blast
  have "x = m" if "x \<in> set (members db)" "m_workspace_id x = w_id w" "m_role x = OWNER" for x
  proof -
    have "m_user_id x = w_owner_id w" using M(6) [OF assms(2) that(1,2)] that(3) by simp
    then show ?thesis using that m by (intro distinct_key_eq [OF M(3)]) simp_all
  qed
  moreover have "m_role m = OWNER" using M(6) [OF assms(2) m(1,2)] m(3) by simp
  ultimately show ?thesis using m M(3) by blast
qed

theorem one_owner_per_workspace_witness: "\<exists>!m. m \<in> set (members demo2) \<and> m_workspace_id m = 100 \<and> m_role m = OWNER"
  using one_owner_per_workspace [OF demo_reachable2, of demo_workspace]
  by (simp add: demo_db_defs) (simp add: demo_workspace_def)

text \<open>
  C28. To somebody who is not a member a workspace does not exist: each request about a workspace, its members, decisions,
  proposals, criteria, scores, objections, votings, locks, actions, reviews, revisions, attachments or integrations (those
  \<open>workspace_request\<close> lists) ends in the same exception without a text, whatever its arguments and whether or not
  there is such a workspace.
\<close>

theorem outsider_learns_nothing:
  assumes "workspace_request me w db e" and "workspaces_repo_get_membership w (u_id me) db = None"
  shows "e = Some (Raised WorkspaceNotFoundError [])"
  using workspace_request_outsider [OF assms] .

theorem outsider_learns_nothing_witness:
  "refusal (lift_error (lock_get (bob\<lparr>u_id := 3\<rparr>) 100 300 demo15)) = Some (Raised WorkspaceNotFoundError [])"
proof -
  have "workspaces_repo_get_membership 100 (u_id (bob\<lparr>u_id := 3\<rparr>)) demo15 = None"
    by (simp add: get_membership_None_iff demo15_def demo_db_defs) (simp add: demo_row_defs)
  then show ?thesis by (rule outsider_learns_nothing [OF workspace_request.lock_get])
qed

text \<open>
  Exactly when a role changes: the owner of the workspace changes it, for a member other than the
  owner; the new role is the one asked for and never the owner's, and no other membership changes.
\<close>

theorem role_change_iff:
  assumes "reachable H db" and "workspaces_repo_get_by_id w db \<noteq> None" and "users_repo_get_by_id u db \<noteq> None"
  shows "((\<exists>r db'. workspace_update_member_role me w u role db = Inr (r, db')) \<longleftrightarrow>
      (\<exists>a \<in> set (members db). m_workspace_id a = w \<and> m_user_id a = u_id me \<and> m_role a = OWNER) \<and>
      (\<exists>m \<in> set (members db). m_workspace_id m = w \<and> m_user_id m = u \<and> m_role m \<noteq> OWNER)) \<and>
    (\<forall>r db'. workspace_update_member_role me w u role db = Inr (r, db') \<longrightarrow>
      m_role (wmr_membership r) = workspace_role_of role \<and> m_role (wmr_membership r) \<noteq> OWNER \<and>
      m_workspace_id (wmr_membership r) = w \<and> m_user_id (wmr_membership r) = u \<and>
      db' = db\<lparr>members := store m_id (wmr_membership r) (members db)\<rparr>)"
proof -
  note inv = db_invD(1) [OF reachable_db_inv [OF assms(1)]]
  note get = get_membership_iff [OF inv]
  have look: "lookup m_id (m_id m) (members db) = Some m" if "m \<in> set (members db)" for m
    using that membership_invD(2) [OF inv] by (simp add: lookup_distinct)
  have run: "workspace_update_member_role me w u role db = Inr (r, db') \<longleftrightarrow>
      (\<exists>a m x. a \<in> set (members db) \<and> m_workspace_id a = w \<and> m_user_id a = u_id me \<and> m_role a = OWNER \<and>
         m \<in> set (members db) \<and> m_workspace_id m = w \<and> m_user_id m = u \<and> m_role m \<noteq> OWNER \<and>
         users_repo_get_by_id u db = Some x \<and>
         r = \<lparr>wmr_membership = m\<lparr>m_role := workspace_role_of role\<rparr>, wmr_user = x\<rparr> \<and>
         db' = db\<lparr>members := store m_id (m\<lparr>m_role := workspace_role_of role\<rparr>) (members db)\<rparr>)" (is "?run \<longleftrightarrow> ?R") for r db'
  proof
    assume ?run
    then obtain a m x where "workspaces_repo_get_membership w (u_id me) db = Some a" "m_role a = OWNER"
      "workspaces_repo_get_membership w u db = Some m" "m_role m \<noteq> OWNER" "users_repo_get_by_id u db = Some x"
      and e: "\<exists>m'. lookup m_id (m_id m) (members db) = Some m' \<and>
        r = \<lparr>wmr_membership = m'\<lparr>m_role := put_if_dirty (m_role m) (workspace_role_of role) (m_role m')\<rparr>, wmr_user = x\<rparr> \<and>
        db' = db\<lparr>members := store m_id (m'\<lparr>m_role := put_if_dirty (m_role m) (workspace_role_of role) (m_role m')\<rparr>) (members db)\<rparr>"
      by (auto simp: workspace_update_member_role_def workspaces_repo_update_member_role_def can_change_member_role_def)
    moreover from this have "lookup m_id (m_id m) (members db) = Some m" using look get by simp
    ultimately show ?R unfolding get by auto
  next
    assume ?R
    then obtain a m x where "workspaces_repo_get_membership w (u_id me) db = Some a" "m_role a = OWNER"
      "workspaces_repo_get_membership w u db = Some m" "m_role m \<noteq> OWNER" "users_repo_get_by_id u db = Some x"
      "lookup m_id (m_id m) (members db) = Some m" "r = \<lparr>wmr_membership = m\<lparr>m_role := workspace_role_of role\<rparr>, wmr_user = x\<rparr>"
      "db' = db\<lparr>members := store m_id (m\<lparr>m_role := workspace_role_of role\<rparr>) (members db)\<rparr>"
      using look unfolding get by blast
    then show ?run
      using assms(2) by (auto simp: workspace_update_member_role_def workspaces_repo_update_member_role_def
          can_change_member_role_def)
  qed
  obtain x where "users_repo_get_by_id u db = Some x" using assms(3) by blast
  then show ?thesis unfolding run by auto
qed

theorem role_change_iff_witness: "\<exists>r db'. workspace_update_member_role ada 100 2 AR_VIEWER demo2 = Inr (r, db')"
  using role_change_iff [OF demo_reachable2, of 100 2 ada AR_VIEWER]
  by (simp add: demo_db_defs workspaces_repo_get_by_id_def users_repo_get_by_id_def) (simp add: demo_row_defs)

text \<open>
  C30. Validation is stable: what a request schema for workspaces, decisions, proposals, criteria, scores, objections,
  actions or reviews has accepted and normalised, sent back as it was stored, is accepted again and comes out unchanged, for
  creations, updates and outcomes alike. The name of an attachment is not stable: it is stripped before its directories
  are cut off, so the stored name can begin with a blank that a second validation removes.
\<close>

theorem validation_is_stable:
  "(WorkspaceCreateRequest wb = Inr w \<longrightarrow> WorkspaceCreateRequest w = Inr w) \<and>
   (WorkspaceUpdateRequest wb' = Inr w' \<longrightarrow> WorkspaceUpdateRequest w' = Inr w') \<and>
   (DecisionCreateRequest b = Inr p \<longrightarrow>
      DecisionCreateRequest \<lparr>dcb_title = dc_title p, dcb_summary = dc_summary p, dcb_category = dc_category p,
        dcb_due_at = map_option Aware (dc_due_at p), dcb_review_at = map_option Aware (dc_review_at p)\<rparr> = Inr p) \<and>
   (DecisionUpdateRequest b' = Inr p' \<longrightarrow>
      DecisionUpdateRequest \<lparr>dub_title = du_title p', dub_summary = du_summary p', dub_category = du_category p',
        dub_due_at = map_patch Aware (du_due_at p'), dub_review_at = map_patch Aware (du_review_at p')\<rparr> = Inr p') \<and>
   (ProposalCreateRequest pb = Inr q \<longrightarrow> ProposalCreateRequest q = Inr q) \<and>
   (ProposalUpdateRequest pb' = Inr q' \<longrightarrow> ProposalUpdateRequest q' = Inr q') \<and>
   (CriterionCreateRequest cb = Inr c \<longrightarrow> CriterionCreateRequest c = Inr c) \<and>
   (CriterionUpdateRequest cb' = Inr c' \<longrightarrow> CriterionUpdateRequest c' = Inr c') \<and>
   (CriterionReorderRequest ids = Inr ids' \<longrightarrow> CriterionReorderRequest ids' = Inr ids') \<and>
   (ProposalScoreUpsertRequest sb = Inr s \<longrightarrow> ProposalScoreUpsertRequest s = Inr s) \<and>
   (ObjectionCreateRequest ob = Inr x \<longrightarrow> ObjectionCreateRequest x = Inr x) \<and>
   (ObjectionUpdateRequest ob' = Inr x' \<longrightarrow> ObjectionUpdateRequest x' = Inr x') \<and>
   (ObjectionTransitionRequest st msg = Inr (st', msg') \<longrightarrow> ObjectionTransitionRequest st' msg' = Inr (st', msg')) \<and>
   (ActionCreateRequest ab = Inr a \<longrightarrow>
      ActionCreateRequest \<lparr>acb_title = ac_title a, acb_description = ac_description a, acb_assignee_id = ac_assignee_id a,
        acb_due_at = map_option Aware (ac_due_at a)\<rparr> = Inr a) \<and>
   (ActionUpdateRequest ab' = Inr a' \<longrightarrow>
      ActionUpdateRequest \<lparr>aub_title = au_title a', aub_description = au_description a', aub_assignee_id = au_assignee_id a',
        aub_due_at = map_patch Aware (au_due_at a')\<rparr> = Inr a') \<and>
   (ReviewCreateRequest rb = Inr r \<longrightarrow>
      ReviewCreateRequest \<lparr>rcb_scheduled_for = Aware (rc_scheduled_for r), rcb_notes = rc_notes r\<rparr> = Inr r) \<and>
   (ReviewUpdateRequest rb' = Inr r' \<longrightarrow>
      ReviewUpdateRequest \<lparr>rub_scheduled_for = map_patch Aware (ru_scheduled_for r'), rub_notes = ru_notes r'\<rparr> = Inr r') \<and>
   (ReviewOutcomeRequest vb = Inr v \<longrightarrow> ReviewOutcomeRequest v = Inr v) \<and>
   normalize_filename ''x/ a'' = Inr '' a'' \<and> normalize_filename '' a'' = Inr ''a''"
  by (intro conjI impI; (rule filename_not_stable | (erule workspace_requests_stable decision_requests_stable
    proposal_requests_stable objection_requests_stable action_requests_stable review_requests_stable)))

theorem validation_is_stable_witness: "ProposalCreateRequest \<lparr>pc_title = ''Kafka'', pc_summary = None, pc_content = None\<rparr> =
    Inr \<lparr>pc_title = ''Kafka'', pc_summary = None, pc_content = None\<rparr>"
  using validation_is_stable demo_requests(1) by blast

end
